(* ===== verification/Prelude.thy ===== *)
theory Prelude
  imports Complex_Main "HOL-Library.Log_Nat"
begin

text \<open>
  Shared ground of the development: the exceptions the platform raises, results and their
  sequencing, the few SQL idioms of the stores (select the first row, update the rows that
  match, delete the rows that match) as list functions with the lemmas the components share,
  and Python's double-precision product, which the capacity arithmetic uses.
\<close>

section \<open>Exceptions and results\<close>

text \<open>
  One datatype for the exception classes the source raises or catches. A constructor carries
  the fixed part of the message; the interpolated values are left out, since no code branches
  on them. \<open>InvalidTransition\<close> is a subclass of \<open>RuntimeStoreError\<close> and \<open>ContractError\<close> of
  \<open>ValueError\<close> in the source; \<open>is_RuntimeStoreError\<close> and \<open>is_ValueError\<close> are the
  corresponding \<open>except\<close> clauses.
\<close>

datatype pyexn =
    ContractError string
  | ValueError string
  | TypeError
  | KeyError
  | AttributeError
  | IndexError
  | OSError
  | IntegrityError
  | RuntimeStoreError string
  | InvalidTransition string
  | InputStagingError string
  | ResourceLimitsUnsupported
  | AdapterProtocolError string
  | RegistryError string
  | PlanError string nat
  | EvaluationError string
  | HttpError nat
  | KernelUnavailable
  | KernelError

definition is_RuntimeStoreError :: "pyexn \<Rightarrow> bool" where
  "is_RuntimeStoreError e =
     (case e of RuntimeStoreError _ \<Rightarrow> True | InvalidTransition _ \<Rightarrow> True | _ \<Rightarrow> False)"

definition is_InvalidTransition :: "pyexn \<Rightarrow> bool" where
  "is_InvalidTransition e = (case e of InvalidTransition _ \<Rightarrow> True | _ \<Rightarrow> False)"

definition is_ValueError :: "pyexn \<Rightarrow> bool" where
  "is_ValueError e = (case e of ValueError _ \<Rightarrow> True | ContractError _ \<Rightarrow> True | _ \<Rightarrow> False)"

definition is_ContractError :: "pyexn \<Rightarrow> bool" where
  "is_ContractError e = (case e of ContractError _ \<Rightarrow> True | _ \<Rightarrow> False)"

type_synonym 'a result = "pyexn + 'a"

definition ebind :: "'a result \<Rightarrow> ('a \<Rightarrow> 'b result) \<Rightarrow> 'b result" where
  "ebind r f = (case r of Inl e \<Rightarrow> Inl e | Inr x \<Rightarrow> f x)"

text \<open>A check: raise \<open>e\<close> when \<open>bad\<close>, otherwise go on.\<close>

definition echeck :: "bool \<Rightarrow> pyexn \<Rightarrow> unit result" where
  "echeck bad e = (if bad then Inl e else Inr ())"

text \<open>A sequence of checks run in order; the first that raises decides.\<close>

fun eall :: "unit result list \<Rightarrow> unit result" where
  "eall [] = Inr ()"
| "eall (r # rs) = (case r of Inl e \<Rightarrow> Inl e | Inr _ \<Rightarrow> eall rs)"

definition ok :: "'a result \<Rightarrow> bool" where
  "ok r = (case r of Inl _ \<Rightarrow> False | Inr _ \<Rightarrow> True)"

named_theorems checks \<open>the equations that turn a successful validation into its conditions\<close>

lemma ebind_simps [simp]:
  "ebind (Inl e) f = Inl e"
  "ebind (Inr x) f = f x"
  by (simp_all add: ebind_def)

lemma ebind_Inr_iff [checks]: "ebind r f = Inr y \<longleftrightarrow> (\<exists>x. r = Inr x \<and> f x = Inr y)"
  by (cases r) (simp_all add: ebind_def)

lemma echeck_Inr_iff [checks, simp]: "echeck b e = Inr u \<longleftrightarrow> \<not> b"
  by (simp add: echeck_def)

lemma echeck_Inl_iff [simp]: "echeck b e = Inl e' \<longleftrightarrow> b \<and> e' = e"
  by (auto simp: echeck_def)

lemma eall_Inr_iff [checks]: "eall rs = Inr u \<longleftrightarrow> (\<forall>r \<in> set rs. r = Inr ())"
  by (induction rs) (auto split: sum.splits)

lemma eall_simps [simp]:
  "eall [] = Inr ()"
  "eall (Inr u # rs) = eall rs"
  "eall (Inl e # rs) = Inl e"
  by simp_all

text \<open>
  The recursion equation would take a list of pending checks apart before \<open>eall_Inr_iff\<close> can
  turn it into conditions; the equations above evaluate a list of decided checks.
\<close>

declare eall.simps [simp del]

lemma eall_append: "eall (xs @ ys) = (case eall xs of Inl e \<Rightarrow> Inl e | Inr _ \<Rightarrow> eall ys)"
  by (induction xs) (auto simp: eall.simps split: sum.splits)

lemma ok_iff: "ok r \<longleftrightarrow> (\<exists>x. r = Inr x)"
  by (cases r) (simp_all add: ok_def)

lemma ok_simps [simp]: "ok (Inr x)" "\<not> ok (Inl e)"
  by (simp_all add: ok_def)

section \<open>Tables\<close>

text \<open>
  A table is the list of its rows in insertion order. \<open>fetchone\<close> is the first row that
  matches, \<open>update_where\<close> rewrites every row that matches, \<open>delete_where\<close> removes them.
\<close>

definition fetchone :: "('r \<Rightarrow> bool) \<Rightarrow> 'r list \<Rightarrow> 'r option" where
  "fetchone P rows = List.find P rows"

definition update_where :: "('r \<Rightarrow> bool) \<Rightarrow> ('r \<Rightarrow> 'r) \<Rightarrow> 'r list \<Rightarrow> 'r list" where
  "update_where P f rows = map (\<lambda>r. if P r then f r else r) rows"

definition delete_where :: "('r \<Rightarrow> bool) \<Rightarrow> 'r list \<Rightarrow> 'r list" where
  "delete_where P rows = filter (\<lambda>r. \<not> P r) rows"

named_theorems tables \<open>rewrite rules for rows and keys of updated tables\<close>

lemma fetchone_Some: "fetchone P rows = Some r \<Longrightarrow> r \<in> set rows \<and> P r"
  by (auto simp: fetchone_def find_Some_iff)

lemma fetchone_None [tables]: "fetchone P rows = None \<longleftrightarrow> (\<forall>r \<in> set rows. \<not> P r)"
  by (auto simp: fetchone_def find_None_iff)

lemma fetchone_simps [simp]:
  "fetchone P [] = None"
  "fetchone P (r # rows) = (if P r then Some r else fetchone P rows)"
  by (simp_all add: fetchone_def)

lemma fetchone_ex: "r \<in> set rows \<Longrightarrow> P r \<Longrightarrow> \<exists>r'. fetchone P rows = Some r'"
  by (metis fetchone_None option.exhaust)

lemma fetchone_key:
  assumes "distinct (map k rows)" and "r \<in> set rows"
  shows "fetchone (\<lambda>x. k x = k r) rows = Some r"
  using assms by (induction rows) force+

lemma fetchone_append:
  "fetchone P (xs @ ys) = (case fetchone P xs of None \<Rightarrow> fetchone P ys | Some r \<Rightarrow> Some r)"
  by (induction xs) auto

lemma fetchone_update_where:
  assumes "\<And>r. P (f r) = P r"
  shows "fetchone P (update_where Q f rows) =
    map_option (\<lambda>r. if Q r then f r else r) (fetchone P rows)"
  using assms by (induction rows) (auto simp: update_where_def)

lemma set_update_where [tables]:
  "set (update_where P f rows) = f ` {r \<in> set rows. P r} \<union> {r \<in> set rows. \<not> P r}"
  by (auto simp: update_where_def)

lemma set_delete_where [tables]: "set (delete_where P rows) = {r \<in> set rows. \<not> P r}"
  by (auto simp: delete_where_def)

lemma map_update_where [tables]:
  assumes "\<And>r. k (f r) = k r"
  shows "map k (update_where P f rows) = map k rows"
  using assms by (auto simp: update_where_def)

lemma update_where_simps [simp]:
  "update_where P f [] = []"
  "update_where P f (r # rows) = (if P r then f r else r) # update_where P f rows"
  by (simp_all add: update_where_def)

lemma update_where_none:
  assumes "\<And>r. r \<in> set rows \<Longrightarrow> \<not> P r"
  shows "update_where P f rows = rows"
  using assms by (induction rows) auto

lemma update_where_cong:
  assumes "\<And>r. r \<in> set rows \<Longrightarrow> P r \<Longrightarrow> f r = g r"
  shows "update_where P f rows = update_where P g rows"
  using assms by (auto simp: update_where_def)

lemma length_update_where [simp]: "length (update_where P f rows) = length rows"
  by (simp add: update_where_def)

lemma filter_update_where_length:
  assumes "\<And>r. Q (f r) = Q r"
  shows "length (filter Q (update_where P f rows)) = length (filter Q rows)"
  using assms by (induction rows) auto

text \<open>Rewriting one row of a table: which rows it then has, and how the matching ones are counted.\<close>

lemma update_where_one:
  assumes "distinct rows" "r \<in> set rows" "\<And>x. x \<in> set rows \<Longrightarrow> P x \<longleftrightarrow> x = r"
  shows "length (filter Q (update_where P f rows)) + (if Q r then 1 else 0) =
    length (filter Q rows) + (if Q (f r) then 1 else 0)"
  using assms
proof (induction rows)
  case (Cons x rows)
  show ?case
  proof (cases "x = r")
    case True
    then have "update_where P f rows = rows"
      using Cons.prems by (intro update_where_none) auto
    then show ?thesis using Cons.prems True by simp
  next
    case False
    then show ?thesis using Cons by simp
  qed
qed simp

lemma map_update_where_one:
  assumes "\<And>x. x \<in> set rows \<Longrightarrow> P x \<Longrightarrow> k (f x) = k x"
  shows "map k (update_where P f rows) = map k rows"
  using assms by (auto simp: update_where_def)

lemma set_update_where_one:
  assumes "r \<in> set rows" "\<And>x. x \<in> set rows \<Longrightarrow> P x \<longleftrightarrow> x = r"
  shows "set (update_where P f rows) = insert (f r) (set rows - {r})"
  using assms by (auto simp: set_update_where)

lemma distinct_map_delete_where: "distinct (map k rows) \<Longrightarrow> distinct (map k (delete_where P rows))"
  by (simp add: delete_where_def distinct_map_filter)

lemma distinct_key_eq:
  assumes "distinct (map k rows)" "x \<in> set rows" "y \<in> set rows" "k x = k y"
  shows "x = y"
  using assms by (metis distinct_map inj_onD)

lemma sum_list_filter_le:
  fixes f :: "'r \<Rightarrow> int"
  assumes "\<And>r. r \<in> set rows \<Longrightarrow> 0 \<le> f r"
  shows "sum_list (map f (filter P rows)) \<le> sum_list (map f rows)"
  using assms by (induction rows) (auto simp: add_increasing)

lemma sum_list_delete_where_le:
  fixes f :: "'r \<Rightarrow> int"
  assumes "\<And>r. r \<in> set rows \<Longrightarrow> 0 \<le> f r"
  shows "sum_list (map f (delete_where P rows)) \<le> sum_list (map f rows)"
  unfolding delete_where_def by (rule sum_list_filter_le) (use assms in auto)

lemma sort_key_map: "sort_key k (map f xs) = map f (sort_key (\<lambda>x. k (f x)) xs)"
proof (induction xs)
  case (Cons x xs)
  have "insort_key k (f x) (map f ys) = map f (insort_key (\<lambda>x. k (f x)) x ys)" for ys
    by (induction ys) auto
  then show ?case using Cons by simp
qed simp

lemma sort_key_empty: "sort_key k xs = [] \<longleftrightarrow> xs = []"
  by (metis length_0_conv length_sort)

section \<open>Double-precision products\<close>

text \<open>
  Python multiplies an \<open>int\<close> by a \<open>float\<close> in IEEE-754 double precision: the exact product is
  rounded to 53 significant bits, ties to even. Doubles are represented by the rationals they
  denote; the exponent range is not bounded, since the quantities are core and byte counts
  times a fraction in (0, 1].
\<close>

definition round_half_even :: "rat \<Rightarrow> int" where
  "round_half_even q =
     (let f = floor q; d = q - of_int f in
      if d < 1 / 2 then f else if d > 1 / 2 then f + 1 else if even f then f else f + 1)"

definition pow2 :: "int \<Rightarrow> rat" where
  "pow2 e = (if 0 \<le> e then 2 ^ nat e else 1 / 2 ^ nat (- e))"

definition fl_double :: "rat \<Rightarrow> rat" where
  "fl_double q =
     (if q = 0 then 0 else
      let a = fst (quotient_of \<bar>q\<bar>); b = snd (quotient_of \<bar>q\<bar>);
          e0 = bitlen a - bitlen b - 53;
          e = (if \<bar>q\<bar> / pow2 e0 \<ge> 2 ^ 53 then e0 + 1 else e0);
          m = of_int (round_half_even (\<bar>q\<bar> / pow2 e)) * pow2 e
      in if q < 0 then - m else m)"

text \<open>\<open>math.ceil\<close> and \<open>int()\<close> (truncation) of such a product, for a non-negative value.\<close>

definition py_ceil :: "rat \<Rightarrow> int" where
  "py_ceil q = ceiling q"

definition py_trunc :: "rat \<Rightarrow> int" where
  "py_trunc q = (if 0 \<le> q then floor q else ceiling q)"

lemma py_trunc_le_ceil: "py_trunc q \<le> py_ceil q"
  by (auto simp: py_trunc_def py_ceil_def floor_le_ceiling)

end
