(* ===== verification/PyValue.thy ===== *)
theory PyValue
  imports Prelude "HOL-Library.Sublist"
begin

text \<open>
  The Python values that cross the platform's boundaries: what \<open>json.loads\<close> yields and what a
  contract's fields can hold. The source checks these values with \<open>isinstance\<close> and compares
  them with \<open>==\<close> at run time, so the model keeps them dynamically typed. A \<open>str\<close> is a
  \<open>string\<close> (code points below 256), a \<open>dict\<close> the list of its items in insertion order with
  distinct keys, a tuple and a list are both \<open>PList\<close>, a \<open>float\<close> the rational it denotes, a
  NaN or an infinity.
\<close>

section \<open>Values\<close>

datatype pyfloat = FFin rat | FNaN | FPosInf | FNegInf

datatype pyval =
    PNone
  | PBool bool
  | PInt int
  | PFloat pyfloat
  | PStr string
  | PList "pyval list"
  | PDict "(pyval \<times> pyval) list"

type_synonym pydict = "(pyval \<times> pyval) list"

subsection \<open>isinstance and truth\<close>

text \<open>\<open>bool\<close> is a subclass of \<open>int\<close>.\<close>

definition is_str :: "pyval \<Rightarrow> bool" where
  "is_str v = (case v of PStr _ \<Rightarrow> True | _ \<Rightarrow> False)"

definition is_bool :: "pyval \<Rightarrow> bool" where
  "is_bool v = (case v of PBool _ \<Rightarrow> True | _ \<Rightarrow> False)"

definition is_int :: "pyval \<Rightarrow> bool" where
  "is_int v = (case v of PInt _ \<Rightarrow> True | PBool _ \<Rightarrow> True | _ \<Rightarrow> False)"

definition is_float :: "pyval \<Rightarrow> bool" where
  "is_float v = (case v of PFloat _ \<Rightarrow> True | _ \<Rightarrow> False)"

definition is_dict :: "pyval \<Rightarrow> bool" where
  "is_dict v = (case v of PDict _ \<Rightarrow> True | _ \<Rightarrow> False)"

definition is_list :: "pyval \<Rightarrow> bool" where
  "is_list v = (case v of PList _ \<Rightarrow> True | _ \<Rightarrow> False)"

definition truthy :: "pyval \<Rightarrow> bool" where
  "truthy v =
     (case v of PNone \<Rightarrow> False | PBool b \<Rightarrow> b | PInt n \<Rightarrow> n \<noteq> 0
      | PFloat f \<Rightarrow> f \<noteq> FFin 0 | PStr s \<Rightarrow> s \<noteq> [] | PList xs \<Rightarrow> xs \<noteq> [] | PDict d \<Rightarrow> d \<noteq> [])"

text \<open>The integer a value of type \<open>int\<close> denotes; 0 where the source would raise.\<close>

definition py_int :: "pyval \<Rightarrow> int" where
  "py_int v = (case v of PInt n \<Rightarrow> n | PBool b \<Rightarrow> (if b then 1 else 0) | _ \<Rightarrow> 0)"

definition py_str :: "pyval \<Rightarrow> string" where
  "py_str v = (case v of PStr s \<Rightarrow> s | _ \<Rightarrow> [])"

text \<open>A number as an extended rational, for comparisons between \<open>int\<close>, \<open>bool\<close> and \<open>float\<close>.\<close>

definition py_num :: "pyval \<Rightarrow> pyfloat option" where
  "py_num v =
     (case v of PInt n \<Rightarrow> Some (FFin (of_int n)) | PBool b \<Rightarrow> Some (FFin (if b then 1 else 0))
      | PFloat f \<Rightarrow> Some f | _ \<Rightarrow> None)"

text \<open>\<open>v <= 0\<close> and \<open>v < 0\<close>; every comparison with a NaN is false.\<close>

definition py_le_zero :: "pyval \<Rightarrow> bool" where
  "py_le_zero v = (case py_num v of Some (FFin q) \<Rightarrow> q \<le> 0 | Some FNegInf \<Rightarrow> True | _ \<Rightarrow> False)"

definition py_lt_zero :: "pyval \<Rightarrow> bool" where
  "py_lt_zero v = (case py_num v of Some (FFin q) \<Rightarrow> q < 0 | Some FNegInf \<Rightarrow> True | _ \<Rightarrow> False)"

subsection \<open>Dictionaries\<close>

definition dget :: "pydict \<Rightarrow> string \<Rightarrow> pyval option" where
  "dget d k = map_of d (PStr k)"

text \<open>\<open>d.get(k, default)\<close>, and \<open>d.get(k)\<close> with its default \<open>None\<close>.\<close>

definition dget_or :: "pydict \<Rightarrow> string \<Rightarrow> pyval \<Rightarrow> pyval" where
  "dget_or d k v = (case dget d k of None \<Rightarrow> v | Some x \<Rightarrow> x)"

abbreviation dgetN :: "pydict \<Rightarrow> string \<Rightarrow> pyval" where
  "dgetN d k \<equiv> dget_or d k PNone"

definition has_key :: "pydict \<Rightarrow> string \<Rightarrow> bool" where
  "has_key d k = (dget d k \<noteq> None)"

fun dset :: "pydict \<Rightarrow> pyval \<Rightarrow> pyval \<Rightarrow> pydict" where
  "dset [] k v = [(k, v)]"
| "dset ((k', v') # d) k v = (if k' = k then (k, v) # d else (k', v') # dset d k v)"

definition dpop :: "pydict \<Rightarrow> string \<Rightarrow> pydict" where
  "dpop d k = filter (\<lambda>(k', _). k' \<noteq> PStr k) d"

text \<open>
  \<open>set(payload)\<close>, \<open>set(payload) - allowed\<close> and \<open>dict(payload)\<close> for an arbitrary value: only a
  dict, a list or a string can be iterated, a list or a dict is not hashable, and a non-empty
  list of names or a non-empty string is no sequence of pairs.
\<close>

definition keys_of :: "pyval \<Rightarrow> pyval list result" where
  "keys_of v =
     (case v of PDict d \<Rightarrow> Inr (map fst d)
      | PList xs \<Rightarrow> (if \<exists>x \<in> set xs. is_dict x \<or> is_list x then Inl TypeError else Inr xs)
      | PStr s \<Rightarrow> Inr (map (\<lambda>c. PStr [c]) s)
      | _ \<Rightarrow> Inl TypeError)"

definition unknown_keys :: "string list \<Rightarrow> pyval list \<Rightarrow> pyval list" where
  "unknown_keys allowed ks = filter (\<lambda>k. k \<notin> PStr ` set allowed) ks"

definition dict_of :: "pyval \<Rightarrow> pydict result" where
  "dict_of v =
     (case v of PDict d \<Rightarrow> Inr d
      | PList [] \<Rightarrow> Inr []
      | PStr [] \<Rightarrow> Inr []
      | PList _ \<Rightarrow> Inl (ValueError ''dictionary update sequence'')
      | PStr _ \<Rightarrow> Inl (ValueError ''dictionary update sequence'')
      | _ \<Rightarrow> Inl TypeError)"

text \<open>The items of a value used as a mapping; empty where the source would raise.\<close>

definition items :: "pyval \<Rightarrow> pydict" where
  "items v = (case v of PDict d \<Rightarrow> d | _ \<Rightarrow> [])"

definition elems :: "pyval \<Rightarrow> pyval list" where
  "elems v = (case v of PList xs \<Rightarrow> xs | _ \<Rightarrow> [])"

subsection \<open>Equality\<close>

text \<open>\<open>==\<close>: numbers by value across types, sequences item by item, dicts as sets of items.\<close>

fun py_eq :: "pyval \<Rightarrow> pyval \<Rightarrow> bool"
  and py_eq_list :: "pyval list \<Rightarrow> pyval list \<Rightarrow> bool"
  and py_eq_items :: "pydict \<Rightarrow> pydict \<Rightarrow> bool" where
  "py_eq PNone w = (w = PNone)"
| "py_eq (PStr s) w = (w = PStr s)"
| "py_eq (PList xs) w = (case w of PList ys \<Rightarrow> py_eq_list xs ys | _ \<Rightarrow> False)"
| "py_eq (PDict d) w =
     (case w of PDict e \<Rightarrow> length d = length e \<and> py_eq_items d e | _ \<Rightarrow> False)"
| "py_eq (PBool b) w =
     (case py_num w of Some f \<Rightarrow> f = FFin (if b then 1 else 0) | None \<Rightarrow> False)"
| "py_eq (PInt n) w = (case py_num w of Some f \<Rightarrow> f = FFin (of_int n) | None \<Rightarrow> False)"
| "py_eq (PFloat g) w = (case py_num w of Some f \<Rightarrow> f = g \<and> g \<noteq> FNaN | None \<Rightarrow> False)"
| "py_eq_list [] ys = (ys = [])"
| "py_eq_list (x # xs) ys = (case ys of [] \<Rightarrow> False | y # ys' \<Rightarrow> py_eq x y \<and> py_eq_list xs ys')"
| "py_eq_items [] e = True"
| "py_eq_items ((k, v) # d) e =
     ((case map_of e k of None \<Rightarrow> False | Some w \<Rightarrow> py_eq v w) \<and> py_eq_items d e)"

section \<open>Strings\<close>

definition startswith :: "string \<Rightarrow> string \<Rightarrow> bool" where
  "startswith s p = prefix p s"

text \<open>\<open>s.split(c)\<close>: the empty string splits into one empty part.\<close>

fun split_on :: "char \<Rightarrow> string \<Rightarrow> string list" where
  "split_on c [] = [[]]"
| "split_on c (x # xs) =
     (if x = c then [] # split_on c xs
      else (case split_on c xs of [] \<Rightarrow> [[x]] | p # ps \<Rightarrow> (x # p) # ps))"

text \<open>\<open>str.isspace\<close> on code points below 256, and \<open>str.strip()\<close>.\<close>

definition is_space :: "char \<Rightarrow> bool" where
  "is_space c = (let n = (of_char c :: nat) in
     (9 \<le> n \<and> n \<le> 13) \<or> (28 \<le> n \<and> n \<le> 32) \<or> n = 133 \<or> n = 160)"

definition strip :: "string \<Rightarrow> string" where
  "strip s = rev (dropWhile is_space (rev (dropWhile is_space s)))"

definition lower_char :: "char \<Rightarrow> char" where
  "lower_char c = (let n = (of_char c :: nat) in if 65 \<le> n \<and> n \<le> 90 then char_of (n + 32) else c)"

text \<open>\<open>str.lower\<close> on ASCII letters; other code points are left as they are.\<close>

definition lower :: "string \<Rightarrow> string" where
  "lower s = map lower_char s"

definition is_alnum :: "char \<Rightarrow> bool" where
  "is_alnum c = (let n = (of_char c :: nat) in
     (48 \<le> n \<and> n \<le> 57) \<or> (65 \<le> n \<and> n \<le> 90) \<or> (97 \<le> n \<and> n \<le> 122))"

text \<open>\<open>str(n)\<close> of an \<open>int\<close>.\<close>

fun nat_str :: "nat \<Rightarrow> string" where
  "nat_str n = (if n < 10 then [char_of (48 + n)] else nat_str (n div 10) @ [char_of (48 + n mod 10)])"

declare nat_str.simps [simp del]

definition int_str :: "int \<Rightarrow> string" where
  "int_str n = (if n < 0 then CHR ''-'' # nat_str (nat (- n)) else nat_str (nat n))"

section \<open>Lemmas\<close>

lemma is_str_iff: "is_str v \<longleftrightarrow> (\<exists>s. v = PStr s)"
  by (cases v) (simp_all add: is_str_def)

lemma is_dict_iff: "is_dict v \<longleftrightarrow> (\<exists>d. v = PDict d)"
  by (cases v) (simp_all add: is_dict_def)

lemma is_list_iff: "is_list v \<longleftrightarrow> (\<exists>xs. v = PList xs)"
  by (cases v) (simp_all add: is_list_def)

lemma is_int_iff: "is_int v \<longleftrightarrow> (\<exists>n. v = PInt n) \<or> (\<exists>b. v = PBool b)"
  by (cases v) (simp_all add: is_int_def)

lemma is_bool_iff: "is_bool v \<longleftrightarrow> (\<exists>b. v = PBool b)"
  by (cases v) (simp_all add: is_bool_def)

lemmas isinstance_iffs = is_str_iff is_dict_iff is_list_iff is_int_iff is_bool_iff

lemma py_str_simps [simp]: "py_str (PStr s) = s"
  by (simp add: py_str_def)

lemma py_int_simps [simp]: "py_int (PInt n) = n" "py_int (PBool b) = (if b then 1 else 0)"
  by (simp_all add: py_int_def)

lemma py_le_zero_int: "is_int v \<Longrightarrow> py_le_zero v \<longleftrightarrow> py_int v \<le> 0"
  by (auto simp: is_int_iff py_le_zero_def py_num_def)

lemma dget_Cons: "dget ((k, v) # d) x = (if k = PStr x then Some v else dget d x)"
  by (auto simp: dget_def)

lemma dget_simps [simp]:
  "dget [] x = None"
  "dget ((PStr k, v) # d) x = (if k = x then Some v else dget d x)"
  by (auto simp: dget_def)

lemma dget_or_simps [simp]:
  "dget_or [] x w = w"
  "dget_or ((PStr k, v) # d) x w = (if k = x then v else dget_or d x w)"
  by (auto simp: dget_or_def)

lemma map_of_dset: "map_of (dset d k v) = (map_of d)(k \<mapsto> v)"
  by (induction d k v rule: dset.induct) (auto simp: fun_eq_iff)

lemma dget_dset [simp]: "dget (dset d (PStr k) v) x = (if x = k then Some v else dget d x)"
  by (simp add: dget_def map_of_dset)

lemma dget_or_dset [simp]:
  "dget_or (dset d (PStr k) v) x w = (if x = k then v else dget_or d x w)"
  by (simp add: dget_or_def)

lemma items_simps [simp]: "items (PDict d) = d"
  by (simp add: items_def)

lemma elems_simps [simp]: "elems (PList xs) = xs"
  by (simp add: elems_def)

lemma split_on_nonempty [simp]: "split_on c s \<noteq> []"
  by (induction c s rule: split_on.induct) (auto split: list.splits)

text \<open>Splitting loses nothing: joining the parts with the separator gives the string back.\<close>

fun join :: "string \<Rightarrow> string list \<Rightarrow> string" where
  "join sep [] = []"
| "join sep [x] = x"
| "join sep (x # y # xs) = x @ sep @ join sep (y # xs)"

lemma join_split_on: "join [c] (split_on c s) = s"
proof (induction c s rule: split_on.induct)
  case (2 c x xs)
  obtain p ps where sp: "split_on c xs = p # ps"
    by (metis split_on_nonempty neq_Nil_conv)
  with 2 show ?case by (cases ps) auto
qed simp

lemma split_on_parts: "p \<in> set (split_on c s) \<Longrightarrow> c \<notin> set p"
  by (induction c s arbitrary: p rule: split_on.induct) (auto split: list.splits if_splits)

end
