(* ===== verification/Version.thy ===== *)
theory Version
  imports PyValue
begin

text \<open>
  \<open>contracts/src/openroad_platform_contracts/version.py\<close>: the validation primitives every
  contract is built from, with the meaning of a successful check, the containment theorem for
  relative paths, and the conversion of a contract to JSON primitives.
\<close>

section \<open>Validation primitives\<close>

definition SCHEMA_VERSION :: int where
  "SCHEMA_VERSION = 3"

definition identifier_char :: "char \<Rightarrow> bool" where
  "identifier_char c = (is_alnum c \<or> c \<in> set ''_.:-'')"

text \<open>\<open>IDENTIFIER.fullmatch\<close>: one alphanumeric, then at most 127 identifier characters.\<close>

fun IDENTIFIER :: "string \<Rightarrow> bool" where
  "IDENTIFIER [] = False"
| "IDENTIFIER (c # cs) = (is_alnum c \<and> length cs \<le> 127 \<and> list_all identifier_char cs)"

definition hex_char :: "char \<Rightarrow> bool" where
  "hex_char c = (c \<in> set ''0123456789abcdef'')"

definition SHA256_HEX :: "string \<Rightarrow> bool" where
  "SHA256_HEX s = (length s = 64 \<and> list_all hex_char s)"

definition validate_version :: "pyval \<Rightarrow> unit result" where
  "validate_version v =
     echeck (\<not> py_eq v (PInt SCHEMA_VERSION)) (ContractError ''unsupported schema_version'')"

definition validate_identifier :: "string \<Rightarrow> pyval \<Rightarrow> bool \<Rightarrow> unit result" where
  "validate_identifier name v required =
     (if v = PNone \<and> \<not> required then Inr ()
      else echeck (\<not> is_str v \<or> \<not> IDENTIFIER (py_str v)) (ContractError (''invalid '' @ name)))"

definition validate_mapping :: "string \<Rightarrow> pyval \<Rightarrow> unit result" where
  "validate_mapping name v =
     echeck (\<not> is_dict v \<or> \<not> list_all is_str (map fst (items v)))
       (ContractError (name @ '' must be a string-keyed object''))"

definition validate_sha256 :: "string \<Rightarrow> pyval \<Rightarrow> bool \<Rightarrow> unit result" where
  "validate_sha256 name v required =
     (if v = PNone \<and> \<not> required then Inr ()
      else echeck (\<not> is_str v \<or> \<not> SHA256_HEX (py_str v))
             (ContractError (name @ '' must be a lowercase sha256 hex digest'')))"

definition validate_relative_path :: "string \<Rightarrow> pyval \<Rightarrow> unit result" where
  "validate_relative_path name v =
     (if \<not> is_str v \<or> py_str v = [] then Inl (ContractError (name @ '' is required''))
      else let parts = split_on (CHR ''/'') (py_str v) in
        echeck (startswith (py_str v) ''/'' \<or> ''..'' \<in> set parts)
          (ContractError (name @ '' must stay inside'')))"

section \<open>Payloads\<close>

text \<open>
  \<open>primitive\<close> on plain values: dict keys go through \<open>str\<close> (a later key that collides overwrites
  the value of the earlier one), lists and tuples become lists. Float and tuple keys, which no
  JSON document has, are left as they are.
\<close>

definition key_primitive :: "pyval \<Rightarrow> pyval" where
  "key_primitive k =
     (case k of PInt n \<Rightarrow> PStr (int_str n) | PBool b \<Rightarrow> PStr (if b then ''True'' else ''False'')
      | PNone \<Rightarrow> PStr ''None'' | _ \<Rightarrow> k)"

text \<open>\<open>str(v)\<close> of a string, an integer, a boolean or null.\<close>

definition text_of :: "pyval \<Rightarrow> string" where
  "text_of v = py_str (key_primitive v)"

fun primitive :: "pyval \<Rightarrow> pyval"
  and primitive_items :: "pydict \<Rightarrow> pydict \<Rightarrow> pydict"
  and primitive_list :: "pyval list \<Rightarrow> pyval list" where
  "primitive (PDict d) = PDict (primitive_items d [])"
| "primitive (PList xs) = PList (primitive_list xs)"
| "primitive PNone = PNone"
| "primitive (PBool b) = PBool b"
| "primitive (PInt n) = PInt n"
| "primitive (PFloat f) = PFloat f"
| "primitive (PStr s) = PStr s"
| "primitive_items [] acc = acc"
| "primitive_items ((k, v) # d) acc = primitive_items d (dset acc (key_primitive k) (primitive v))"
| "primitive_list [] = []"
| "primitive_list (x # xs) = primitive x # primitive_list xs"

text \<open>
  \<open>instantiate\<close>: calling the constructor with the payload as keyword arguments fails on a field
  the class does not have and on a missing field that has no default.
\<close>

definition instantiate :: "string \<Rightarrow> string list \<Rightarrow> string list \<Rightarrow> pydict \<Rightarrow> pydict result" where
  "instantiate cls fields required d =
     (if list_all (has_key d) required \<and> unknown_keys fields (map fst d) = [] then Inr d
      else Inl (ContractError (cls @ '' payload does not match its fields'')))"

text \<open>
  Unknown fields are reported by joining their sorted names, which raises \<open>TypeError\<close> when one
  of them is not a string.
\<close>

definition refuse_unknown :: "string \<Rightarrow> string list \<Rightarrow> pyval list \<Rightarrow> unit result" where
  "refuse_unknown cls allowed ks =
     (let unknown = unknown_keys allowed ks in
      if unknown = [] then Inr ()
      else if list_all is_str unknown then Inl (ContractError (''unknown '' @ cls @ '' fields''))
      else Inl TypeError)"

definition known_payload :: "string \<Rightarrow> string list \<Rightarrow> pyval \<Rightarrow> pydict result" where
  "known_payload cls fields payload =
     (if \<not> is_dict payload then Inl (ContractError (cls @ '' payload must be an object''))
      else if \<not> has_key (items payload) ''schema_version''
        then Inl (ContractError (cls @ '' requires schema_version''))
      else ebind (refuse_unknown cls fields (map fst (items payload))) (\<lambda>_. Inr (items payload)))"

text \<open>The base class \<open>Contract\<close>: its only field is the schema version.\<close>

definition Contract_validate :: "pyval \<Rightarrow> unit result" where
  "Contract_validate schema_version = validate_version schema_version"

definition Contract_to_dict :: "pyval \<Rightarrow> pyval result" where
  "Contract_to_dict schema_version =
     ebind (Contract_validate schema_version)
       (\<lambda>_. Inr (PDict [(PStr ''schema_version'', primitive schema_version)]))"

definition Contract_from_dict :: "pyval \<Rightarrow> pyval result" where
  "Contract_from_dict payload =
     ebind (known_payload ''Contract'' [''schema_version''] payload) (\<lambda>value.
     ebind (instantiate ''Contract'' [''schema_version''] [] value) (\<lambda>d.
     let v = dget_or d ''schema_version'' (PInt SCHEMA_VERSION) in
     ebind (Contract_validate v) (\<lambda>_. Inr v)))"

section \<open>What a successful check means\<close>

lemma validate_identifier_Inr [checks]:
  "validate_identifier n v req = Inr u \<longleftrightarrow>
     (v = PNone \<and> \<not> req) \<or> (\<exists>s. v = PStr s \<and> IDENTIFIER s)"
  by (auto simp: validate_identifier_def is_str_iff split: if_splits)

lemma validate_mapping_Inr [checks]:
  "validate_mapping n v = Inr u \<longleftrightarrow> (\<exists>d. v = PDict d \<and> (\<forall>k \<in> set (map fst d). is_str k))"
  by (auto simp: validate_mapping_def is_dict_iff list_all_iff)

lemma validate_sha256_Inr [checks]:
  "validate_sha256 n v req = Inr u \<longleftrightarrow>
     (v = PNone \<and> \<not> req) \<or> (\<exists>s. v = PStr s \<and> SHA256_HEX s)"
  by (auto simp: validate_sha256_def is_str_iff split: if_splits)

lemma validate_relative_path_Inr [checks]:
  "validate_relative_path n v = Inr u \<longleftrightarrow>
     (\<exists>s. v = PStr s \<and> s \<noteq> [] \<and> \<not> startswith s ''/'' \<and> ''..'' \<notin> set (split_on (CHR ''/'') s))"
  by (auto simp: validate_relative_path_def is_str_iff Let_def split: if_splits)

lemma refuse_unknown_Inr [checks]:
  "refuse_unknown c a d = Inr u \<longleftrightarrow> unknown_keys a d = []"
  by (auto simp: refuse_unknown_def Let_def)

lemma known_payload_Inr [checks]:
  "known_payload c f p = Inr d \<longleftrightarrow>
     p = PDict d \<and> has_key d ''schema_version'' \<and> unknown_keys f (map fst d) = []"
  by (auto simp: known_payload_def is_dict_iff ebind_Inr_iff refuse_unknown_Inr split: if_splits)

lemma instantiate_Inr [checks]:
  "instantiate c f r d = Inr d' \<longleftrightarrow> d' = d \<and> (\<forall>x \<in> set r. has_key d x) \<and> unknown_keys f (map fst d) = []"
  by (auto simp: instantiate_def list_all_iff split: if_splits)

subsection \<open>Paths that stay inside their container\<close>

text \<open>
  How the operating system reads a path without symbolic links, component by component from a
  starting directory: empty and \<open>.\<close> components stay, \<open>..\<close> climbs, any other descends. An
  absolute path starts again at the root.
\<close>

fun walk :: "string list \<Rightarrow> string list \<Rightarrow> string list" where
  "walk dir [] = dir"
| "walk dir (c # cs) =
     (if c = [] \<or> c = ''.'' then walk dir cs
      else if c = ''..'' then walk (butlast dir) cs
      else walk (dir @ [c]) cs)"

definition resolve_from :: "string list \<Rightarrow> string \<Rightarrow> string list" where
  "resolve_from dir p =
     (if startswith p ''/'' then walk [] (split_on (CHR ''/'') p)
      else walk dir (split_on (CHR ''/'') p))"

lemma walk_prefix: "''..'' \<notin> set cs \<Longrightarrow> prefix dir (walk dir cs)"
proof (induction dir cs rule: walk.induct)
  case (2 dir c cs)
  then show ?case by (auto dest: append_prefixD)
qed simp

lemma resolve_from_prefix:
  assumes "validate_relative_path n (PStr p) = Inr u"
  shows "prefix dir (resolve_from dir p)"
  using assms by (auto simp: resolve_from_def checks intro: walk_prefix)

lemma primitive_list_map: "primitive_list xs = map primitive xs"
  by (induction xs) auto

subsection \<open>JSON documents\<close>

text \<open>
  A JSON document has string keys only, each once. On such a value \<open>primitive\<close> is the identity,
  which is what makes the contracts' round trips exact.
\<close>

fun is_json :: "pyval \<Rightarrow> bool"
  and is_json_items :: "pydict \<Rightarrow> bool"
  and is_json_list :: "pyval list \<Rightarrow> bool" where
  "is_json (PDict d) = (distinct (map fst d) \<and> is_json_items d)"
| "is_json (PList xs) = is_json_list xs"
| "is_json PNone = True"
| "is_json (PBool b) = True"
| "is_json (PInt n) = True"
| "is_json (PFloat f) = True"
| "is_json (PStr s) = True"
| "is_json_items [] = True"
| "is_json_items ((k, v) # d) = (is_str k \<and> is_json v \<and> is_json_items d)"
| "is_json_list [] = True"
| "is_json_list (x # xs) = (is_json x \<and> is_json_list xs)"

lemma dset_new: "k \<notin> fst ` set d \<Longrightarrow> dset d k v = d @ [(k, v)]"
  by (induction d k v rule: dset.induct) auto

lemma key_primitive_str: "is_str k \<Longrightarrow> key_primitive k = k"
  by (auto simp: is_str_iff key_primitive_def)

lemma primitive_json:
  "is_json v \<Longrightarrow> primitive v = v"
  "is_json_items d \<Longrightarrow> distinct (map fst (acc @ d)) \<Longrightarrow> primitive_items d acc = acc @ d"
  "is_json_list xs \<Longrightarrow> primitive_list xs = xs"
  by (induction v and d acc and xs rule: primitive_primitive_items_primitive_list.induct)
     (auto simp: dset_new key_primitive_str)

end
