(* ===== verification/Status.thy ===== *)
theory Status
  imports Version
begin

text \<open>
  \<open>contracts/src/openroad_platform_contracts/runtime.py\<close>: the status vocabulary of runs and
  attempts, the two transition tables, the failure record and the event contract.
\<close>

section \<open>Run and attempt statuses\<close>

datatype RuntimeStatus =
    QUEUED | PREPARING | RUNNING | RETRY_WAIT | CANCEL_REQUESTED
  | SUCCEEDED | FAILED | CANCELLED | TIMED_OUT | LOST

datatype AttemptStatus =
    A_PENDING | A_RUNNING | A_SUCCEEDED | A_FAILED | A_LOST

text \<open>The enum members are finitely many, so a statement about all of them can be computed.\<close>

instantiation RuntimeStatus :: enum
begin

definition enum_RuntimeStatus :: "RuntimeStatus list" where
  "enum_RuntimeStatus = [QUEUED, PREPARING, RUNNING, RETRY_WAIT, CANCEL_REQUESTED,
     SUCCEEDED, FAILED, CANCELLED, TIMED_OUT, LOST]"

definition enum_all_RuntimeStatus :: "(RuntimeStatus \<Rightarrow> bool) \<Rightarrow> bool" where
  "enum_all_RuntimeStatus P = list_all P enum_class.enum"

definition enum_ex_RuntimeStatus :: "(RuntimeStatus \<Rightarrow> bool) \<Rightarrow> bool" where
  "enum_ex_RuntimeStatus P = list_ex P enum_class.enum"

instance
proof
  show univ: "(UNIV :: RuntimeStatus set) = set enum_class.enum"
    by (auto simp: enum_RuntimeStatus_def intro: RuntimeStatus.exhaust)
  show "enum_class.enum_all P \<longleftrightarrow> Ball UNIV P" for P :: "RuntimeStatus \<Rightarrow> bool"
    by (simp add: univ enum_all_RuntimeStatus_def list_all_iff)
  show "enum_class.enum_ex P \<longleftrightarrow> Bex UNIV P" for P :: "RuntimeStatus \<Rightarrow> bool"
    by (simp add: univ enum_ex_RuntimeStatus_def list_ex_iff)
  show "distinct (enum_class.enum :: RuntimeStatus list)"
    by (simp add: enum_RuntimeStatus_def)
qed

end

instantiation AttemptStatus :: enum
begin

definition enum_AttemptStatus :: "AttemptStatus list" where
  "enum_AttemptStatus = [A_PENDING, A_RUNNING, A_SUCCEEDED, A_FAILED, A_LOST]"

definition enum_all_AttemptStatus :: "(AttemptStatus \<Rightarrow> bool) \<Rightarrow> bool" where
  "enum_all_AttemptStatus P = list_all P enum_class.enum"

definition enum_ex_AttemptStatus :: "(AttemptStatus \<Rightarrow> bool) \<Rightarrow> bool" where
  "enum_ex_AttemptStatus P = list_ex P enum_class.enum"

instance
proof
  show univ: "(UNIV :: AttemptStatus set) = set enum_class.enum"
    by (auto simp: enum_AttemptStatus_def intro: AttemptStatus.exhaust)
  show "enum_class.enum_all P \<longleftrightarrow> Ball UNIV P" for P :: "AttemptStatus \<Rightarrow> bool"
    by (simp add: univ enum_all_AttemptStatus_def list_all_iff)
  show "enum_class.enum_ex P \<longleftrightarrow> Bex UNIV P" for P :: "AttemptStatus \<Rightarrow> bool"
    by (simp add: univ enum_ex_AttemptStatus_def list_ex_iff)
  show "distinct (enum_class.enum :: AttemptStatus list)"
    by (simp add: enum_AttemptStatus_def)
qed

end

text \<open>The enum values, as they appear in the database and on the wire.\<close>

fun RuntimeStatus_value :: "RuntimeStatus \<Rightarrow> string" where
  "RuntimeStatus_value QUEUED = ''queued''"
| "RuntimeStatus_value PREPARING = ''preparing''"
| "RuntimeStatus_value RUNNING = ''running''"
| "RuntimeStatus_value RETRY_WAIT = ''retry_wait''"
| "RuntimeStatus_value CANCEL_REQUESTED = ''cancel_requested''"
| "RuntimeStatus_value SUCCEEDED = ''succeeded''"
| "RuntimeStatus_value FAILED = ''failed''"
| "RuntimeStatus_value CANCELLED = ''cancelled''"
| "RuntimeStatus_value TIMED_OUT = ''timed_out''"
| "RuntimeStatus_value LOST = ''lost''"

fun AttemptStatus_value :: "AttemptStatus \<Rightarrow> string" where
  "AttemptStatus_value A_PENDING = ''pending''"
| "AttemptStatus_value A_RUNNING = ''running''"
| "AttemptStatus_value A_SUCCEEDED = ''succeeded''"
| "AttemptStatus_value A_FAILED = ''failed''"
| "AttemptStatus_value A_LOST = ''lost''"

text \<open>\<open>RuntimeStatus(value)\<close>: the member with that value, or \<open>ValueError\<close>.\<close>

definition RuntimeStatus_of :: "pyval \<Rightarrow> RuntimeStatus result" where
  "RuntimeStatus_of v =
     (case List.find (\<lambda>s. v = PStr (RuntimeStatus_value s)) enum_class.enum of
        Some s \<Rightarrow> Inr s | None \<Rightarrow> Inl (ValueError ''not a valid RuntimeStatus''))"

definition TERMINAL_RUNTIME_STATUSES :: "RuntimeStatus list" where
  "TERMINAL_RUNTIME_STATUSES = [SUCCEEDED, FAILED, CANCELLED, TIMED_OUT, LOST]"

definition ACTIVE_RUNTIME_STATUSES :: "RuntimeStatus list" where
  "ACTIVE_RUNTIME_STATUSES =
     filter (\<lambda>s. s \<notin> set TERMINAL_RUNTIME_STATUSES) enum_class.enum"

definition is_terminal :: "RuntimeStatus \<Rightarrow> bool" where
  "is_terminal s = (s \<in> set TERMINAL_RUNTIME_STATUSES)"

section \<open>Transition tables\<close>

fun ATTEMPT_TRANSITIONS :: "AttemptStatus \<Rightarrow> AttemptStatus list" where
  "ATTEMPT_TRANSITIONS A_PENDING = [A_RUNNING, A_LOST]"
| "ATTEMPT_TRANSITIONS A_RUNNING = [A_SUCCEEDED, A_FAILED, A_LOST]"
| "ATTEMPT_TRANSITIONS A_SUCCEEDED = []"
| "ATTEMPT_TRANSITIONS A_FAILED = []"
| "ATTEMPT_TRANSITIONS A_LOST = []"

definition attempt_transition_allowed :: "AttemptStatus \<Rightarrow> AttemptStatus \<Rightarrow> bool" where
  "attempt_transition_allowed current target = (target \<in> set (ATTEMPT_TRANSITIONS current))"

text \<open>The table has no row for a terminal status; \<open>get\<close> then gives the empty set.\<close>

fun RUN_TRANSITIONS :: "RuntimeStatus \<Rightarrow> RuntimeStatus list" where
  "RUN_TRANSITIONS QUEUED = [PREPARING, CANCEL_REQUESTED, CANCELLED, FAILED]"
| "RUN_TRANSITIONS PREPARING = [RUNNING, CANCEL_REQUESTED, FAILED, LOST]"
| "RUN_TRANSITIONS RUNNING = [RETRY_WAIT, CANCEL_REQUESTED, SUCCEEDED, FAILED, TIMED_OUT, LOST]"
| "RUN_TRANSITIONS RETRY_WAIT = [QUEUED, CANCEL_REQUESTED, FAILED, LOST]"
| "RUN_TRANSITIONS CANCEL_REQUESTED = [CANCELLED, FAILED, LOST]"
| "RUN_TRANSITIONS _ = []"

definition run_transition_allowed :: "RuntimeStatus \<Rightarrow> RuntimeStatus \<Rightarrow> bool" where
  "run_transition_allowed current target =
     (if current \<in> set TERMINAL_RUNTIME_STATUSES then False
      else target \<in> set (RUN_TRANSITIONS current))"

section \<open>Failures and events\<close>

record Failure =
  fa_category :: pyval
  fa_message :: pyval
  fa_retryable :: pyval
  fa_detail :: pyval

definition Failure_validate :: "Failure \<Rightarrow> unit result" where
  "Failure_validate f = eall
     [ validate_identifier ''category'' (fa_category f) True,
       echeck (\<not> is_str (fa_message f) \<or> py_str (fa_message f) = [])
         (ContractError ''failure message is required''),
       validate_mapping ''detail'' (fa_detail f) ]"

definition Failure_to_dict :: "Failure \<Rightarrow> pyval result" where
  "Failure_to_dict f = ebind (Failure_validate f) (\<lambda>_. Inr (PDict
     [ (PStr ''category'', primitive (fa_category f)), (PStr ''message'', primitive (fa_message f)),
       (PStr ''retryable'', primitive (fa_retryable f)), (PStr ''detail'', primitive (fa_detail f)) ]))"

record Event =
  ev_event_id :: pyval
  ev_run_id :: pyval
  ev_event_type :: pyval
  ev_occurred_at :: pyval
  ev_producer :: pyval
  ev_payload :: pyval
  ev_stage_run_id :: pyval
  ev_attempt_id :: pyval
  ev_schema_version :: pyval

definition Event_fields :: "string list" where
  "Event_fields = [''event_id'', ''run_id'', ''event_type'', ''occurred_at'', ''producer'',
     ''payload'', ''stage_run_id'', ''attempt_id'', ''schema_version'']"

definition Event_validate :: "Event \<Rightarrow> unit result" where
  "Event_validate e = eall
     [ validate_version (ev_schema_version e),
       validate_identifier ''event_id'' (ev_event_id e) True,
       validate_identifier ''run_id'' (ev_run_id e) True,
       validate_identifier ''event_type'' (ev_event_type e) True,
       validate_identifier ''producer'' (ev_producer e) True,
       validate_identifier ''stage_run_id'' (ev_stage_run_id e) False,
       validate_identifier ''attempt_id'' (ev_attempt_id e) False,
       echeck (\<not> is_str (ev_occurred_at e) \<or> py_str (ev_occurred_at e) = [])
         (ContractError ''occurred_at is required''),
       validate_mapping ''payload'' (ev_payload e) ]"

definition Event_to_dict :: "Event \<Rightarrow> pyval result" where
  "Event_to_dict e = ebind (Event_validate e) (\<lambda>_. Inr (PDict
     [ (PStr ''event_id'', primitive (ev_event_id e)), (PStr ''run_id'', primitive (ev_run_id e)),
       (PStr ''event_type'', primitive (ev_event_type e)),
       (PStr ''occurred_at'', primitive (ev_occurred_at e)),
       (PStr ''producer'', primitive (ev_producer e)), (PStr ''payload'', primitive (ev_payload e)),
       (PStr ''stage_run_id'', primitive (ev_stage_run_id e)),
       (PStr ''attempt_id'', primitive (ev_attempt_id e)),
       (PStr ''schema_version'', primitive (ev_schema_version e)) ]))"

definition Event_from_dict :: "pyval \<Rightarrow> Event result" where
  "Event_from_dict payload =
     ebind (known_payload ''Event'' Event_fields payload) (\<lambda>value.
     ebind (instantiate ''Event'' Event_fields
              [''event_id'', ''run_id'', ''event_type'', ''occurred_at'', ''producer''] value) (\<lambda>d.
     let e = \<lparr> ev_event_id = dgetN d ''event_id'', ev_run_id = dgetN d ''run_id'',
               ev_event_type = dgetN d ''event_type'', ev_occurred_at = dgetN d ''occurred_at'',
               ev_producer = dgetN d ''producer'', ev_payload = dget_or d ''payload'' (PDict []),
               ev_stage_run_id = dgetN d ''stage_run_id'', ev_attempt_id = dgetN d ''attempt_id'',
               ev_schema_version = dget_or d ''schema_version'' (PInt SCHEMA_VERSION) \<rparr>
     in ebind (Event_validate e) (\<lambda>_. Inr e)))"

section \<open>Facts\<close>

lemma RuntimeStatus_value_inj: "RuntimeStatus_value s = RuntimeStatus_value t \<longleftrightarrow> s = t"
  by (cases s; cases t; simp)

lemma RuntimeStatus_of_value [simp]: "RuntimeStatus_of (PStr (RuntimeStatus_value s)) = Inr s"
  by (cases s) (simp_all add: RuntimeStatus_of_def enum_RuntimeStatus_def)

lemma RuntimeStatus_of_Inr: "RuntimeStatus_of v = Inr s \<longleftrightarrow> v = PStr (RuntimeStatus_value s)"
proof
  assume "RuntimeStatus_of v = Inr s"
  then show "v = PStr (RuntimeStatus_value s)"
    by (auto simp: RuntimeStatus_of_def find_Some_iff split: option.splits)
qed simp

lemma is_terminal_simps [simp]:
  "is_terminal SUCCEEDED" "is_terminal FAILED" "is_terminal CANCELLED" "is_terminal TIMED_OUT"
  "is_terminal LOST" "\<not> is_terminal QUEUED" "\<not> is_terminal PREPARING" "\<not> is_terminal RUNNING"
  "\<not> is_terminal RETRY_WAIT" "\<not> is_terminal CANCEL_REQUESTED"
  by (simp_all add: is_terminal_def TERMINAL_RUNTIME_STATUSES_def)

lemma run_transition_allowed_iff:
  "run_transition_allowed s t \<longleftrightarrow> t \<in> set (RUN_TRANSITIONS s)"
  by (cases s) (simp_all add: run_transition_allowed_def TERMINAL_RUNTIME_STATUSES_def)

lemma run_transition_not_terminal: "run_transition_allowed s t \<Longrightarrow> \<not> is_terminal s"
  by (auto simp: run_transition_allowed_def is_terminal_def split: if_splits)

lemma attempt_transition_running:
  "attempt_transition_allowed s t \<Longrightarrow> t \<noteq> A_RUNNING \<Longrightarrow> t \<noteq> A_LOST \<Longrightarrow> s = A_RUNNING"
  by (cases s) (auto simp: attempt_transition_allowed_def)

lemma attempt_transition_not_pending: "attempt_transition_allowed s t \<Longrightarrow> t \<noteq> A_PENDING"
  by (cases s) (auto simp: attempt_transition_allowed_def)

end
