(* ===== verification/Resources.thy ===== *)
theory Resources
  imports Version
begin

text \<open>
  \<open>contracts/src/openroad_platform_contracts/resources.py\<close>: the resource request of a task.
\<close>

record ResourceRequest =
  cpu_seconds :: pyval
  cpu_cores :: pyval
  memory_bytes :: pyval
  processes :: pyval

definition ResourceRequest_default :: ResourceRequest where
  "ResourceRequest_default =
     \<lparr> cpu_seconds = PNone, cpu_cores = PNone, memory_bytes = PNone, processes = PNone \<rparr>"

definition declared :: "ResourceRequest \<Rightarrow> bool" where
  "declared r = list_ex (\<lambda>v. v \<noteq> PNone) [cpu_seconds r, cpu_cores r, memory_bytes r, processes r]"

text \<open>A bound that must be an integer, not a boolean, and above a lower limit.\<close>

definition int_bound :: "string \<Rightarrow> pyval \<Rightarrow> string \<Rightarrow> unit result" where
  "int_bound name v limit =
     (if v = PNone then Inr ()
      else if \<not> is_int v \<or> is_bool v then Inl (ContractError (name @ '' must be an integer''))
      else echeck (py_int v < 1) (ContractError (name @ limit)))"

definition ResourceRequest_validate :: "ResourceRequest \<Rightarrow> unit result" where
  "ResourceRequest_validate r = eall
     [ (if cpu_seconds r = PNone then Inr ()
        else if \<not> (is_int (cpu_seconds r) \<or> is_float (cpu_seconds r)) \<or> is_bool (cpu_seconds r)
          then Inl (ContractError ''cpu_seconds must be a number'')
        else echeck (py_le_zero (cpu_seconds r)) (ContractError ''cpu_seconds must be positive'')),
       int_bound ''cpu_cores'' (cpu_cores r) '' must be at least 1'',
       int_bound ''memory_bytes'' (memory_bytes r) '' must be positive'',
       int_bound ''processes'' (processes r) '' must be at least 1'' ]"

definition ResourceRequest_to_dict :: "ResourceRequest \<Rightarrow> pyval result" where
  "ResourceRequest_to_dict r = ebind (ResourceRequest_validate r) (\<lambda>_. Inr (PDict
     [ (PStr ''cpu_seconds'', cpu_seconds r), (PStr ''cpu_cores'', cpu_cores r),
       (PStr ''memory_bytes'', memory_bytes r), (PStr ''processes'', processes r) ]))"

definition ResourceRequest_fields :: "string list" where
  "ResourceRequest_fields = [''cpu_seconds'', ''cpu_cores'', ''memory_bytes'', ''processes'']"

definition ResourceRequest_from_dict :: "pyval \<Rightarrow> ResourceRequest result" where
  "ResourceRequest_from_dict payload =
     ebind (keys_of payload) (\<lambda>ks.
     ebind (refuse_unknown ''ResourceRequest'' ResourceRequest_fields ks) (\<lambda>_.
     ebind (dict_of payload) (\<lambda>value.
     ebind (instantiate ''ResourceRequest'' ResourceRequest_fields [] value) (\<lambda>d.
     let r = \<lparr> cpu_seconds = dgetN d ''cpu_seconds'', cpu_cores = dgetN d ''cpu_cores'',
               memory_bytes = dgetN d ''memory_bytes'', processes = dgetN d ''processes'' \<rparr>
     in ebind (ResourceRequest_validate r) (\<lambda>_. Inr r)))))"

section \<open>Facts\<close>

lemma int_bound_Inr [checks]:
  "int_bound n v l = Inr u \<longleftrightarrow> v = PNone \<or> (\<exists>i. v = PInt i \<and> 1 \<le> i)"
  by (auto simp: int_bound_def is_int_iff is_bool_iff)

text \<open>
  A valid request bounds every integer resource by a positive integer, and its CPU time by a
  number that is not zero or negative. A NaN is not smaller than zero, so it passes.
\<close>

lemma ResourceRequest_validate_Inr [checks]:
  "ResourceRequest_validate r = Inr u \<longleftrightarrow>
     (cpu_seconds r = PNone \<or> (\<exists>i. cpu_seconds r = PInt i \<and> 0 < i) \<or>
      (\<exists>f. cpu_seconds r = PFloat f \<and> \<not> py_le_zero (PFloat f))) \<and>
     (cpu_cores r = PNone \<or> (\<exists>i. cpu_cores r = PInt i \<and> 1 \<le> i)) \<and>
     (memory_bytes r = PNone \<or> (\<exists>i. memory_bytes r = PInt i \<and> 1 \<le> i)) \<and>
     (processes r = PNone \<or> (\<exists>i. processes r = PInt i \<and> 1 \<le> i))"
  by (cases "cpu_seconds r")
     (auto simp: ResourceRequest_validate_def eall_Inr_iff int_bound_Inr is_int_def is_float_def
       is_bool_def py_le_zero_def py_num_def)

lemma ResourceRequest_from_to_dict:
  assumes "ResourceRequest_validate r = Inr u"
  shows "ebind (ResourceRequest_to_dict r) ResourceRequest_from_dict = Inr r"
  using assms
  by (cases r) (simp add: ResourceRequest_to_dict_def ResourceRequest_from_dict_def keys_of_def dict_of_def
      refuse_unknown_def unknown_keys_def ResourceRequest_fields_def instantiate_def Let_def)

end
