(* ===== verification/Inputs.thy ===== *)
theory Inputs
  imports Version
begin

text \<open>
  \<open>contracts/src/openroad_platform_contracts/input.py\<close>: files staged into an attempt workspace.
\<close>

definition INPUT_MANIFEST_KIND :: string where
  "INPUT_MANIFEST_KIND = ''runtime_input_manifest''"

definition INPUT_MANIFEST_FILENAME :: string where
  "INPUT_MANIFEST_FILENAME = ''input_manifest.json''"

section \<open>InputFile\<close>

record InputFile =
  in_destination :: pyval
  in_source :: pyval
  in_artifact_id :: pyval
  in_input_id :: pyval
  in_required :: pyval

definition count_given :: "pyval list \<Rightarrow> nat" where
  "count_given vs = length (filter (\<lambda>v. v \<noteq> PNone) vs)"

definition InputFile_validate :: "InputFile \<Rightarrow> unit result" where
  "InputFile_validate i = eall
     [ validate_relative_path ''input destination'' (in_destination i),
       echeck (count_given [in_source i, in_artifact_id i, in_input_id i] \<noteq> 1)
         (ContractError ''an input names exactly one place its bytes come from''),
       (if in_source i = PNone then Inr ()
        else if \<not> is_str (in_source i) \<or> py_str (in_source i) = []
          then Inl (ContractError ''input source is required'')
        else echeck (\<not> startswith (py_str (in_source i)) ''/'')
               (ContractError ''input source must be an absolute path'')),
       (if in_artifact_id i = PNone then Inr ()
        else validate_identifier ''input artifact_id'' (in_artifact_id i) True),
       (if in_input_id i = PNone then Inr ()
        else validate_identifier ''input input_id'' (in_input_id i) True) ]"

definition InputFile_to_dict :: "InputFile \<Rightarrow> pyval result" where
  "InputFile_to_dict i = ebind (InputFile_validate i) (\<lambda>_. Inr (PDict
     [ (PStr ''destination'', in_destination i), (PStr ''source'', in_source i),
       (PStr ''artifact_id'', in_artifact_id i), (PStr ''input_id'', in_input_id i),
       (PStr ''required'', in_required i) ]))"

definition InputFile_fields :: "string list" where
  "InputFile_fields = [''destination'', ''source'', ''artifact_id'', ''input_id'', ''required'']"

definition InputFile_from_dict :: "pyval \<Rightarrow> InputFile result" where
  "InputFile_from_dict payload =
     ebind (keys_of payload) (\<lambda>ks.
     ebind (refuse_unknown ''InputFile'' InputFile_fields ks) (\<lambda>_.
     if PStr ''destination'' \<notin> set ks then Inl (ContractError ''InputFile is missing: destination'')
     else
     ebind (dict_of payload) (\<lambda>value.
     ebind (instantiate ''InputFile'' InputFile_fields [''destination''] value) (\<lambda>d.
     let i = \<lparr> in_destination = dgetN d ''destination'', in_source = dgetN d ''source'',
               in_artifact_id = dgetN d ''artifact_id'', in_input_id = dgetN d ''input_id'',
               in_required = dget_or d ''required'' (PBool True) \<rparr>
     in ebind (InputFile_validate i) (\<lambda>_. Inr i)))))"

section \<open>StagedInput\<close>

record StagedInput =
  si_destination :: pyval
  si_present :: pyval
  si_size_bytes :: pyval
  si_sha256 :: pyval
  si_source :: pyval
  si_source_artifact_id :: pyval
  si_source_input_id :: pyval

definition StagedInput_validate :: "StagedInput \<Rightarrow> unit result" where
  "StagedInput_validate s =
     (let given = count_given [si_source_artifact_id s, si_source_input_id s] in eall
     [ validate_relative_path ''input destination'' (si_destination s),
       echeck (si_source s = PNone \<and> given \<noteq> 1)
         (ContractError ''a staged input names exactly one place its bytes came from''),
       echeck (si_source s \<noteq> PNone \<and> given > 1)
         (ContractError ''a staged input may have one provenance source''),
       (if si_source_input_id s = PNone then Inr ()
        else validate_identifier ''staged source_input_id'' (si_source_input_id s) True),
       echeck (\<not> is_bool (si_present s)) (ContractError ''input present must be a boolean''),
       echeck (\<not> is_int (si_size_bytes s) \<or> py_int (si_size_bytes s) < 0)
         (ContractError ''input size_bytes must be a non-negative integer''),
       (if truthy (si_present s) then
          (if si_sha256 s = PNone
             then Inl (ContractError ''a staged input that is present needs a sha256'')
           else validate_sha256 ''input sha256'' (si_sha256 s) True)
        else echeck (si_sha256 s \<noteq> PNone)
               (ContractError ''a staged input that is absent may not carry a sha256'')) ])"

definition StagedInput_to_dict :: "StagedInput \<Rightarrow> pyval result" where
  "StagedInput_to_dict s = ebind (StagedInput_validate s) (\<lambda>_. Inr (PDict
     [ (PStr ''destination'', si_destination s), (PStr ''present'', si_present s),
       (PStr ''size_bytes'', si_size_bytes s), (PStr ''sha256'', si_sha256 s),
       (PStr ''source'', si_source s), (PStr ''source_artifact_id'', si_source_artifact_id s),
       (PStr ''source_input_id'', si_source_input_id s) ]))"

definition StagedInput_fields :: "string list" where
  "StagedInput_fields = [''destination'', ''present'', ''size_bytes'', ''sha256'', ''source'',
     ''source_artifact_id'', ''source_input_id'']"

definition StagedInput_from_dict :: "pyval \<Rightarrow> StagedInput result" where
  "StagedInput_from_dict payload =
     ebind (keys_of payload) (\<lambda>ks.
     ebind (refuse_unknown ''StagedInput'' StagedInput_fields ks) (\<lambda>_.
     if PStr ''destination'' \<notin> set ks then Inl (ContractError ''StagedInput is missing: destination'')
     else if PStr ''present'' \<notin> set ks then Inl (ContractError ''StagedInput is missing: present'')
     else if PStr ''size_bytes'' \<notin> set ks
       then Inl (ContractError ''StagedInput is missing: size_bytes'')
     else
     ebind (dict_of payload) (\<lambda>value.
     ebind (instantiate ''StagedInput'' StagedInput_fields
              [''destination'', ''present'', ''size_bytes''] value) (\<lambda>d.
     let s = \<lparr> si_destination = dgetN d ''destination'', si_present = dgetN d ''present'',
               si_size_bytes = dgetN d ''size_bytes'', si_sha256 = dgetN d ''sha256'',
               si_source = dgetN d ''source'',
               si_source_artifact_id = dgetN d ''source_artifact_id'',
               si_source_input_id = dgetN d ''source_input_id'' \<rparr>
     in ebind (StagedInput_validate s) (\<lambda>_. Inr s)))))"

section \<open>Facts\<close>

lemma count_given_one:
  "count_given [a, b, c] = 1 \<longleftrightarrow>
     (a \<noteq> PNone \<and> b = PNone \<and> c = PNone) \<or> (a = PNone \<and> b \<noteq> PNone \<and> c = PNone) \<or>
     (a = PNone \<and> b = PNone \<and> c \<noteq> PNone)"
  by (simp add: count_given_def)

lemma InputFile_validate_Inr [checks]:
  "InputFile_validate i = Inr u \<longleftrightarrow>
     validate_relative_path ''input destination'' (in_destination i) = Inr () \<and>
     ((\<exists>s. in_source i = PStr s \<and> startswith s ''/'') \<and> in_artifact_id i = PNone \<and> in_input_id i = PNone \<or>
      in_source i = PNone \<and> (\<exists>a. in_artifact_id i = PStr a \<and> IDENTIFIER a) \<and> in_input_id i = PNone \<or>
      in_source i = PNone \<and> in_artifact_id i = PNone \<and> (\<exists>a. in_input_id i = PStr a \<and> IDENTIFIER a))"
  by (cases "in_source i = PNone"; cases "in_artifact_id i = PNone"; cases "in_input_id i = PNone")
     (auto simp: InputFile_validate_def eall_Inr_iff validate_identifier_Inr count_given_def
        is_str_iff startswith_def)

lemma InputFile_from_to_dict:
  assumes "InputFile_validate i = Inr u"
  shows "ebind (InputFile_to_dict i) InputFile_from_dict = Inr i"
  using assms
  by (cases i) (simp add: InputFile_to_dict_def InputFile_from_dict_def keys_of_def dict_of_def
      refuse_unknown_def unknown_keys_def InputFile_fields_def instantiate_def has_key_def Let_def)

lemma StagedInput_from_to_dict:
  assumes "StagedInput_validate i = Inr u"
  shows "ebind (StagedInput_to_dict i) StagedInput_from_dict = Inr i"
  using assms
  by (cases i) (simp add: StagedInput_to_dict_def StagedInput_from_dict_def keys_of_def dict_of_def
      refuse_unknown_def unknown_keys_def StagedInput_fields_def instantiate_def has_key_def Let_def)

lemma StagedInput_present_sha256:
  assumes "StagedInput_validate s = Inr u"
  shows "truthy (si_present s) \<longleftrightarrow> (\<exists>h. si_sha256 s = PStr h \<and> SHA256_HEX h)"
    and "\<not> truthy (si_present s) \<longleftrightarrow> si_sha256 s = PNone"
  using assms
  by (auto simp: StagedInput_validate_def Let_def eall_Inr_iff validate_sha256_Inr split: if_splits)

end
