(* ===== verification/Artifacts.thy ===== *)
theory Artifacts
  imports Inputs
begin

text \<open>
  \<open>contracts/src/openroad_platform_contracts/artifact.py\<close>: artifact declarations, registered
  artifacts and metrics, with the names the kernel reserves for itself.
\<close>

section \<open>Reserved names\<close>

definition RESERVED_ARTIFACT_KINDS :: "string list" where
  "RESERVED_ARTIFACT_KINDS =
     [''runtime_protocol_receipt'', ''runtime_evidence_request'', ''runtime_evidence_result'',
      ''runtime_evidence_log'', ''runtime_evidence_input_manifest'',
      ''runtime_evidence_protocol_receipt'', ''runtime_bundle'', ''protected_evaluation'',
      INPUT_MANIFEST_KIND]"

definition RESERVED_METRIC_CONTEXT_KEYS :: "string list" where
  "RESERVED_METRIC_CONTEXT_KEYS = [''runtime_authority'', ''official_qor'']"

section \<open>Declarations and artifacts\<close>

record ArtifactDeclaration =
  ad_kind :: pyval
  ad_path :: pyval
  ad_required :: pyval
  ad_media_type :: pyval
  ad_metadata :: pyval
  ad_allow_reserved :: bool

definition ArtifactDeclaration_validate :: "ArtifactDeclaration \<Rightarrow> unit result" where
  "ArtifactDeclaration_validate a = eall
     [ validate_identifier ''kind'' (ad_kind a) True,
       echeck (ad_kind a \<in> PStr ` set RESERVED_ARTIFACT_KINDS \<and> \<not> ad_allow_reserved a)
         (ContractError ''artifact kind is reserved by the platform''),
       echeck (\<not> is_str (ad_path a) \<or> py_str (ad_path a) = [])
         (ContractError ''artifact path is required''),
       validate_relative_path ''artifact path'' (ad_path a),
       echeck (ad_media_type a \<noteq> PNone \<and> \<not> is_str (ad_media_type a))
         (ContractError ''media_type must be a string''),
       validate_mapping ''metadata'' (ad_metadata a),
       echeck (dgetN (items (ad_metadata a)) ''runtime_authority'' \<noteq> PNone)
         (ContractError ''an adapter may not declare runtime_authority'') ]"

record Artifact =
  artifact_id :: pyval
  art_kind :: pyval
  store_key :: pyval
  art_sha256 :: pyval
  size_bytes :: pyval
  media_type :: pyval
  art_metadata :: pyval
  art_schema_version :: pyval

definition Artifact_validate :: "Artifact \<Rightarrow> unit result" where
  "Artifact_validate a = eall
     [ validate_identifier ''artifact_id'' (artifact_id a) True,
       validate_identifier ''kind'' (art_kind a) True,
       echeck (\<not> is_str (store_key a) \<or> py_str (store_key a) = [])
         (ContractError ''store_key is required''),
       validate_relative_path ''store_key'' (store_key a),
       validate_sha256 ''sha256'' (art_sha256 a) True,
       echeck (\<not> is_int (size_bytes a) \<or> py_int (size_bytes a) < 0)
         (ContractError ''size_bytes must be a non-negative integer''),
       validate_mapping ''metadata'' (art_metadata a) ]"

section \<open>Metrics\<close>

record Metric =
  m_name :: pyval
  m_value :: pyval
  m_unit :: pyval
  m_source_artifact_id :: pyval
  m_parser_id :: pyval
  m_parser_version :: pyval
  m_context :: pyval
  m_schema_version :: pyval

definition Metric_validate :: "Metric \<Rightarrow> unit result" where
  "Metric_validate m = eall
     [ validate_identifier ''name'' (m_name m) True,
       echeck (\<not> (is_int (m_value m) \<or> is_float (m_value m) \<or> is_str (m_value m)))
         (ContractError ''metric value must be a JSON scalar''),
       echeck (m_value m = PFloat FNaN) (ContractError ''metric value must not be NaN''),
       (if m_unit m = PNone then Inr () else validate_identifier ''unit'' (m_unit m) True),
       validate_identifier ''source_artifact_id'' (m_source_artifact_id m) False,
       validate_identifier ''parser_id'' (m_parser_id m) False,
       validate_identifier ''parser_version'' (m_parser_version m) False,
       validate_mapping ''context'' (m_context m),
       echeck (\<exists>k \<in> set RESERVED_METRIC_CONTEXT_KEYS. has_key (items (m_context m)) k)
         (ContractError ''metric context may not set kernel-reserved keys'') ]"

definition Metric_to_dict :: "Metric \<Rightarrow> pyval result" where
  "Metric_to_dict m = ebind (Metric_validate m) (\<lambda>_. Inr (PDict
     [ (PStr ''name'', primitive (m_name m)), (PStr ''value'', primitive (m_value m)),
       (PStr ''unit'', primitive (m_unit m)),
       (PStr ''source_artifact_id'', primitive (m_source_artifact_id m)),
       (PStr ''parser_id'', primitive (m_parser_id m)),
       (PStr ''parser_version'', primitive (m_parser_version m)),
       (PStr ''context'', primitive (m_context m)),
       (PStr ''schema_version'', primitive (m_schema_version m)) ]))"

definition Metric_fields :: "string list" where
  "Metric_fields = [''name'', ''value'', ''unit'', ''source_artifact_id'', ''parser_id'',
     ''parser_version'', ''context'', ''schema_version'']"

definition Metric_of :: "pydict \<Rightarrow> Metric" where
  "Metric_of d = \<lparr> m_name = dgetN d ''name'', m_value = dgetN d ''value'', m_unit = dgetN d ''unit'',
     m_source_artifact_id = dgetN d ''source_artifact_id'', m_parser_id = dgetN d ''parser_id'',
     m_parser_version = dgetN d ''parser_version'', m_context = dget_or d ''context'' (PDict []),
     m_schema_version = dget_or d ''schema_version'' (PInt SCHEMA_VERSION) \<rparr>"

text \<open>\<open>dict(value.get("context") or {})\<close>: a missing, null or empty context is the empty dict.\<close>

definition dict_or_empty :: "pyval \<Rightarrow> pydict result" where
  "dict_or_empty v = (if truthy v then dict_of v else Inr [])"

definition Metric_from_dict :: "pyval \<Rightarrow> Metric result" where
  "Metric_from_dict payload =
     ebind (known_payload ''Metric'' Metric_fields payload) (\<lambda>value.
     ebind (dict_or_empty (dgetN value ''context'')) (\<lambda>ctx.
     ebind (instantiate ''Metric'' Metric_fields [''name'', ''value'']
              (dset value (PStr ''context'') (PDict ctx))) (\<lambda>d.
     ebind (Metric_validate (Metric_of d)) (\<lambda>_. Inr (Metric_of d)))))"

section \<open>Facts\<close>

lemma ArtifactDeclaration_validate_Inr [checks]:
  "ArtifactDeclaration_validate a = Inr u \<longleftrightarrow>
     (\<exists>k. ad_kind a = PStr k \<and> IDENTIFIER k \<and>
        (k \<in> set RESERVED_ARTIFACT_KINDS \<longrightarrow> ad_allow_reserved a)) \<and>
     validate_relative_path ''artifact path'' (ad_path a) = Inr () \<and>
     (ad_media_type a = PNone \<or> is_str (ad_media_type a)) \<and>
     validate_mapping ''metadata'' (ad_metadata a) = Inr () \<and>
     dgetN (items (ad_metadata a)) ''runtime_authority'' = PNone"
  by (auto simp: ArtifactDeclaration_validate_def eall_Inr_iff validate_identifier_Inr
      validate_relative_path_Inr is_str_iff)

lemma dict_or_empty_Inr_dict: "dict_or_empty (PDict d) = Inr d"
  by (simp add: dict_or_empty_def truthy_def dict_of_def)

lemma Metric_from_to_dict:
  assumes "Metric_validate m = Inr u" and "is_json (m_context m)"
    and "py_eq (m_schema_version m) (PInt SCHEMA_VERSION)" and "is_json (m_schema_version m)"
  shows "ebind (Metric_to_dict m) Metric_from_dict = Inr m"
proof -
  from assms(1) obtain d where ctx: "m_context m = PDict d"
    by (auto simp: Metric_validate_def eall_Inr_iff validate_mapping_Inr)
  from assms(1) have "is_json (m_name m) \<and> is_json (m_value m) \<and> is_json (m_unit m) \<and>
    is_json (m_source_artifact_id m) \<and> is_json (m_parser_id m) \<and> is_json (m_parser_version m)"
    by (auto simp: Metric_validate_def eall_Inr_iff validate_identifier_Inr is_int_iff is_str_iff
        is_float_def split: if_splits pyval.splits)
  with assms ctx show ?thesis
    by (cases m)
       (simp add: Metric_to_dict_def Metric_from_dict_def known_payload_def is_dict_def has_key_def
         refuse_unknown_def unknown_keys_def Metric_fields_def instantiate_def Metric_of_def
         primitive_json dict_or_empty_Inr_dict)
qed

end
