(* ===== verification/Progress.thy ===== *)
theory Progress
  imports Artifacts
begin

text \<open>
  \<open>contracts/src/openroad_platform_contracts/progress.py\<close>: the progress envelope. The JSON
  decoder is the argument \<open>loads\<close>; \<open>None\<close> stands for \<open>JSONDecodeError\<close>.
\<close>

datatype ProgressPhase = STARTED | FINISHED

datatype ProgressStatus = P_SUCCEEDED | P_FAILED | P_CANCELLED

definition DEFAULT_PROGRESS_MARKER :: string where
  "DEFAULT_PROGRESS_MARKER = ''[progress]''"

definition MAX_ENVELOPE_BYTES :: nat where
  "MAX_ENVELOPE_BYTES = 4096"

definition MAX_STAGE_LENGTH :: nat where
  "MAX_STAGE_LENGTH = 64"

fun ProgressPhase_value :: "ProgressPhase \<Rightarrow> string" where
  "ProgressPhase_value STARTED = ''started''"
| "ProgressPhase_value FINISHED = ''finished''"

fun ProgressStatus_value :: "ProgressStatus \<Rightarrow> string" where
  "ProgressStatus_value P_SUCCEEDED = ''succeeded''"
| "ProgressStatus_value P_FAILED = ''failed''"
| "ProgressStatus_value P_CANCELLED = ''cancelled''"

record ProgressReport =
  pr_stage :: pyval
  pr_phase :: "ProgressPhase option"
  pr_status :: "ProgressStatus option"
  pr_seconds :: pyval
  pr_detail :: pyval
  pr_schema_version :: pyval

definition control_char :: "char \<Rightarrow> bool" where
  "control_char c = ((of_char c :: nat) < 32 \<or> (of_char c :: nat) = 127)"

definition ProgressReport_validate :: "ProgressReport \<Rightarrow> unit result" where
  "ProgressReport_validate r = eall
     [ validate_version (pr_schema_version r),
       echeck (\<not> is_str (pr_stage r) \<or> py_str (pr_stage r) = [])
         (ContractError ''progress stage is required''),
       echeck (length (py_str (pr_stage r)) > MAX_STAGE_LENGTH)
         (ContractError ''progress stage exceeds 64 characters''),
       echeck (list_ex control_char (py_str (pr_stage r)))
         (ContractError ''progress stage contains control characters''),
       echeck (pr_phase r = Some FINISHED \<and> pr_status r = None)
         (ContractError ''a finished report requires a status''),
       echeck (pr_phase r = Some STARTED \<and> pr_status r \<noteq> None)
         (ContractError ''a started report must not carry a status''),
       echeck (pr_seconds r \<noteq> PNone \<and>
           (\<not> (is_int (pr_seconds r) \<or> is_float (pr_seconds r)) \<or> py_lt_zero (pr_seconds r)))
         (ContractError ''seconds must be a non-negative number''),
       validate_mapping ''detail'' (pr_detail r) ]"

definition phase_of :: "pyval \<Rightarrow> ProgressPhase option result" where
  "phase_of v =
     (if v = PNone then Inr None else if v = PStr ''started'' then Inr (Some STARTED)
      else if v = PStr ''finished'' then Inr (Some FINISHED)
      else Inl (ContractError ''invalid progress phase''))"

definition status_of :: "pyval \<Rightarrow> ProgressStatus option result" where
  "status_of v =
     (if v = PNone then Inr None else if v = PStr ''succeeded'' then Inr (Some P_SUCCEEDED)
      else if v = PStr ''failed'' then Inr (Some P_FAILED)
      else if v = PStr ''cancelled'' then Inr (Some P_CANCELLED)
      else Inl (ContractError ''invalid progress status''))"

definition ProgressReport_fields :: "string list" where
  "ProgressReport_fields = [''stage'', ''phase'', ''status'', ''seconds'', ''detail'', ''schema_version'']"

definition opt_value :: "('a \<Rightarrow> string) \<Rightarrow> 'a option \<Rightarrow> pyval" where
  "opt_value f x = (case x of None \<Rightarrow> PNone | Some y \<Rightarrow> PStr (f y))"

definition ProgressReport_to_dict :: "ProgressReport \<Rightarrow> pyval result" where
  "ProgressReport_to_dict r = ebind (ProgressReport_validate r) (\<lambda>_. Inr (PDict
     [ (PStr ''stage'', primitive (pr_stage r)),
       (PStr ''phase'', opt_value ProgressPhase_value (pr_phase r)),
       (PStr ''status'', opt_value ProgressStatus_value (pr_status r)),
       (PStr ''seconds'', primitive (pr_seconds r)),
       (PStr ''detail'', primitive (pr_detail r)),
       (PStr ''schema_version'', primitive (pr_schema_version r)) ]))"

definition ProgressReport_from_dict :: "pyval \<Rightarrow> ProgressReport result" where
  "ProgressReport_from_dict payload =
     ebind (known_payload ''ProgressReport'' ProgressReport_fields payload) (\<lambda>value.
     ebind (phase_of (dgetN value ''phase'')) (\<lambda>ph.
     ebind (status_of (dgetN value ''status'')) (\<lambda>st.
     ebind (dict_or_empty (dgetN value ''detail'')) (\<lambda>detail.
     ebind (instantiate ''ProgressReport'' ProgressReport_fields [''stage'', ''phase'']
              (dset value (PStr ''detail'') (PDict detail))) (\<lambda>d.
     let r = \<lparr> pr_stage = dgetN d ''stage'', pr_phase = ph, pr_status = st,
               pr_seconds = dgetN d ''seconds'', pr_detail = PDict detail,
               pr_schema_version = dget_or d ''schema_version'' (PInt SCHEMA_VERSION) \<rparr>
     in ebind (ProgressReport_validate r) (\<lambda>_. Inr r))))))"

text \<open>\<open>{"schema_version": SCHEMA_VERSION, **payload}\<close>.\<close>

definition with_version :: "pydict \<Rightarrow> pydict" where
  "with_version d = fold (\<lambda>(k, v) acc. dset acc k v) d
     [(PStr ''schema_version'', PInt SCHEMA_VERSION)]"

definition decode_progress_line ::
  "(string \<Rightarrow> pyval option) \<Rightarrow> string \<Rightarrow> string \<Rightarrow> ProgressReport option result" where
  "decode_progress_line loads line marker =
     (let stripped = strip line in
      if \<not> startswith stripped marker then Inr None
      else let payload_text = strip (drop (length marker) stripped) in
        if payload_text = [] \<or> length payload_text > MAX_ENVELOPE_BYTES
          then Inl (ContractError ''progress envelope payload is empty or oversized'')
        else case loads payload_text of
            None \<Rightarrow> Inl (ContractError ''progress envelope is not valid JSON'')
          | Some payload \<Rightarrow>
              if \<not> is_dict payload then Inl (ContractError ''progress envelope must be a JSON object'')
              else ebind (ProgressReport_from_dict (PDict (with_version (items payload))))
                     (\<lambda>r. Inr (Some r)))"

section \<open>Facts\<close>

lemma ProgressReport_validate_Inr [checks]:
  "ProgressReport_validate r = Inr u \<Longrightarrow>
     (\<exists>s. pr_stage r = PStr s \<and> s \<noteq> [] \<and> length s \<le> 64 \<and> (\<forall>c \<in> set s. \<not> control_char c)) \<and>
     (pr_phase r = Some FINISHED \<longrightarrow> pr_status r \<noteq> None) \<and>
     (pr_phase r = Some STARTED \<longrightarrow> pr_status r = None)"
  by (auto simp: ProgressReport_validate_def eall_Inr_iff is_str_iff MAX_STAGE_LENGTH_def list_ex_iff)

lemma decode_not_marked:
  "\<not> startswith (strip line) marker \<Longrightarrow> decode_progress_line loads line marker = Inr None"
  by (simp add: decode_progress_line_def)

lemma decode_Some_valid:
  "decode_progress_line loads line marker = Inr (Some r) \<Longrightarrow> ProgressReport_validate r = Inr ()"
  by (auto simp: decode_progress_line_def Let_def ProgressReport_from_dict_def ebind_Inr_iff
      split: if_splits option.splits)

end
