(* ===== verification/Tasks.thy ===== *)
theory Tasks
  imports Status Resources Progress
begin

text \<open>
  \<open>contracts/src/openroad_platform_contracts/task.py\<close>: the task, the plugin manifest with its
  runtime requirements, and the plugin result. \<open>staged_inputs\<close> and \<open>resources\<close> hold contract
  objects, so the source's \<open>isinstance\<close> checks on them are carried by the types.
\<close>

section \<open>TaskSpec\<close>

record TaskSpec =
  task_id :: pyval
  project_id :: pyval
  design_id :: pyval
  design_revision_id :: pyval
  experiment_id :: pyval
  input_manifest_sha256 :: pyval
  plugin_id :: pyval
  plugin_version :: pyval
  task_inputs :: pyval
  parameters :: pyval
  staged_inputs :: "InputFile list"
  resources :: "ResourceRequest option"
  timeout_seconds :: pyval
  max_attempts :: pyval
  expected_artifacts :: "pyval list"
  labels :: pyval
  task_schema_version :: pyval

definition positive_int :: "string \<Rightarrow> pyval \<Rightarrow> unit result" where
  "positive_int name v =
     echeck (\<not> is_int v \<or> py_int v \<le> 0) (ContractError (name @ '' must be a positive integer''))"

definition TaskSpec_validate :: "TaskSpec \<Rightarrow> unit result" where
  "TaskSpec_validate t = eall (
     [ validate_version (task_schema_version t),
       validate_identifier ''task_id'' (task_id t) True,
       validate_identifier ''project_id'' (project_id t) True,
       validate_identifier ''design_id'' (design_id t) True,
       validate_identifier ''design_revision_id'' (design_revision_id t) False,
       validate_identifier ''experiment_id'' (experiment_id t) False,
       validate_sha256 ''input_manifest_sha256'' (input_manifest_sha256 t) False,
       echeck (plugin_id t = PNone) (ContractError ''TaskSpec must name the plugin it runs''),
       validate_identifier ''plugin_id'' (plugin_id t) False,
       validate_identifier ''plugin_version'' (plugin_version t) False,
       validate_mapping ''inputs'' (task_inputs t),
       validate_mapping ''parameters'' (parameters t),
       validate_mapping ''labels'' (labels t) ]
     @ map InputFile_validate (staged_inputs t) @
     [ echeck (\<not> distinct (map in_destination (staged_inputs t)))
         (ContractError ''two staged inputs would be placed at the same destination''),
       (case resources t of None \<Rightarrow> Inr () | Some r \<Rightarrow> ResourceRequest_validate r),
       positive_int ''timeout_seconds'' (timeout_seconds t),
       positive_int ''max_attempts'' (max_attempts t),
       echeck (\<not> list_all (\<lambda>i. is_str i \<and> py_str i \<noteq> []) (expected_artifacts t))
         (ContractError ''expected_artifacts must contain non-empty strings'') ])"

text \<open>\<open>primitive\<close> turns a nested contract object into the dict of its fields.\<close>

definition InputFile_primitive :: "InputFile \<Rightarrow> pyval" where
  "InputFile_primitive i = PDict
     [ (PStr ''destination'', primitive (in_destination i)), (PStr ''source'', primitive (in_source i)),
       (PStr ''artifact_id'', primitive (in_artifact_id i)),
       (PStr ''input_id'', primitive (in_input_id i)), (PStr ''required'', primitive (in_required i)) ]"

definition ResourceRequest_primitive :: "ResourceRequest \<Rightarrow> pyval" where
  "ResourceRequest_primitive r = PDict
     [ (PStr ''cpu_seconds'', primitive (cpu_seconds r)), (PStr ''cpu_cores'', primitive (cpu_cores r)),
       (PStr ''memory_bytes'', primitive (memory_bytes r)), (PStr ''processes'', primitive (processes r)) ]"

definition TaskSpec_primitive :: "TaskSpec \<Rightarrow> pyval" where
  "TaskSpec_primitive t = PDict
     [ (PStr ''task_id'', primitive (task_id t)), (PStr ''project_id'', primitive (project_id t)),
       (PStr ''design_id'', primitive (design_id t)),
       (PStr ''design_revision_id'', primitive (design_revision_id t)),
       (PStr ''experiment_id'', primitive (experiment_id t)),
       (PStr ''input_manifest_sha256'', primitive (input_manifest_sha256 t)),
       (PStr ''plugin_id'', primitive (plugin_id t)),
       (PStr ''plugin_version'', primitive (plugin_version t)),
       (PStr ''inputs'', primitive (task_inputs t)), (PStr ''parameters'', primitive (parameters t)),
       (PStr ''staged_inputs'', PList (map InputFile_primitive (staged_inputs t))),
       (PStr ''resources'',
          (case resources t of None \<Rightarrow> PNone | Some r \<Rightarrow> ResourceRequest_primitive r)),
       (PStr ''timeout_seconds'', primitive (timeout_seconds t)),
       (PStr ''max_attempts'', primitive (max_attempts t)),
       (PStr ''expected_artifacts'', PList (primitive_list (expected_artifacts t))),
       (PStr ''labels'', primitive (labels t)),
       (PStr ''schema_version'', primitive (task_schema_version t)) ]"

definition TaskSpec_to_dict :: "TaskSpec \<Rightarrow> pyval result" where
  "TaskSpec_to_dict t = ebind (TaskSpec_validate t) (\<lambda>_. Inr (TaskSpec_primitive t))"

definition TaskSpec_fields :: "string list" where
  "TaskSpec_fields = [''task_id'', ''project_id'', ''design_id'', ''design_revision_id'',
     ''experiment_id'', ''input_manifest_sha256'', ''plugin_id'', ''plugin_version'', ''inputs'',
     ''parameters'', ''staged_inputs'', ''resources'', ''timeout_seconds'', ''max_attempts'',
     ''expected_artifacts'', ''labels'', ''schema_version'']"

text \<open>\<open>tuple(v)\<close> and iteration over a value: a dict gives its keys, a string its characters.\<close>

definition iter_of :: "pyval \<Rightarrow> pyval list result" where
  "iter_of v =
     (case v of PList xs \<Rightarrow> Inr xs | PStr s \<Rightarrow> Inr (map (\<lambda>c. PStr [c]) s)
      | PDict d \<Rightarrow> Inr (map fst d) | _ \<Rightarrow> Inl TypeError)"

fun emap :: "('a \<Rightarrow> 'b result) \<Rightarrow> 'a list \<Rightarrow> 'b list result" where
  "emap f [] = Inr []"
| "emap f (x # xs) = ebind (f x) (\<lambda>y. ebind (emap f xs) (\<lambda>ys. Inr (y # ys)))"

definition TaskSpec_of :: "pydict \<Rightarrow> pyval list \<Rightarrow> InputFile list \<Rightarrow> ResourceRequest option \<Rightarrow> TaskSpec" where
  "TaskSpec_of d expected staged res =
     \<lparr> task_id = dgetN d ''task_id'', project_id = dgetN d ''project_id'',
       design_id = dgetN d ''design_id'', design_revision_id = dgetN d ''design_revision_id'',
       experiment_id = dgetN d ''experiment_id'',
       input_manifest_sha256 = dgetN d ''input_manifest_sha256'',
       plugin_id = dgetN d ''plugin_id'', plugin_version = dgetN d ''plugin_version'',
       task_inputs = dget_or d ''inputs'' (PDict []),
       parameters = dget_or d ''parameters'' (PDict []),
       staged_inputs = staged, resources = res,
       timeout_seconds = dget_or d ''timeout_seconds'' (PInt 3600),
       max_attempts = dget_or d ''max_attempts'' (PInt 1),
       expected_artifacts = expected, labels = dget_or d ''labels'' (PDict []),
       task_schema_version = dget_or d ''schema_version'' (PInt SCHEMA_VERSION) \<rparr>"

definition TaskSpec_from_dict :: "pyval \<Rightarrow> TaskSpec result" where
  "TaskSpec_from_dict payload =
     ebind (known_payload ''TaskSpec'' TaskSpec_fields payload) (\<lambda>value.
     ebind (iter_of (dget_or value ''expected_artifacts'' (PList []))) (\<lambda>expected.
     ebind (iter_of (dget_or value ''staged_inputs'' (PList []))) (\<lambda>staged_items.
     ebind (emap InputFile_from_dict staged_items) (\<lambda>staged.
     ebind (if dgetN value ''resources'' = PNone then Inr None
            else ebind (ResourceRequest_from_dict (dgetN value ''resources'')) (\<lambda>r. Inr (Some r)))
       (\<lambda>res.
     ebind (instantiate ''TaskSpec'' TaskSpec_fields [''task_id'', ''project_id'', ''design_id''] value)
       (\<lambda>d. let t = TaskSpec_of d expected staged res in
        ebind (TaskSpec_validate t) (\<lambda>_. Inr t)))))))"

section \<open>RuntimeRequirements\<close>

record RuntimeRequirements =
  require_protocol_receipt :: pyval
  environment_receipt_variable :: pyval
  require_experiment_protocol :: pyval
  require_protected_evaluation :: pyval
  resumable :: pyval

definition RuntimeRequirements_of :: "pydict \<Rightarrow> RuntimeRequirements" where
  "RuntimeRequirements_of d =
     \<lparr> require_protocol_receipt = dget_or d ''require_protocol_receipt'' (PBool False),
       environment_receipt_variable = dgetN d ''environment_receipt_variable'',
       require_experiment_protocol = dget_or d ''require_experiment_protocol'' (PBool False),
       require_protected_evaluation = dget_or d ''require_protected_evaluation'' (PBool False),
       resumable = dget_or d ''resumable'' (PBool False) \<rparr>"

definition RuntimeRequirements_validate :: "RuntimeRequirements \<Rightarrow> unit result" where
  "RuntimeRequirements_validate r = eall
     [ echeck (truthy (require_protocol_receipt r) \<and> \<not> truthy (environment_receipt_variable r))
         (ContractError ''require_protocol_receipt needs environment_receipt_variable''),
       (if environment_receipt_variable r = PNone then Inr ()
        else validate_identifier ''environment_receipt_variable'' (environment_receipt_variable r) True),
       echeck (truthy (require_experiment_protocol r) \<and> \<not> truthy (require_protocol_receipt r))
         (ContractError ''require_experiment_protocol implies require_protocol_receipt'') ]"

definition RuntimeRequirements_fields :: "string list" where
  "RuntimeRequirements_fields = [''require_protocol_receipt'', ''environment_receipt_variable'',
     ''require_experiment_protocol'', ''require_protected_evaluation'', ''resumable'']"

definition RuntimeRequirements_from_dict :: "pyval \<Rightarrow> RuntimeRequirements result" where
  "RuntimeRequirements_from_dict payload =
     (if payload = PNone then Inr (RuntimeRequirements_of [])
      else ebind (dict_of payload) (\<lambda>d0. let d = dpop d0 ''schema_version'' in
        ebind (refuse_unknown ''RuntimeRequirements'' RuntimeRequirements_fields (map fst d)) (\<lambda>_.
        let r = RuntimeRequirements_of d in ebind (RuntimeRequirements_validate r) (\<lambda>_. Inr r))))"

section \<open>PluginManifest\<close>

record PluginManifest =
  man_plugin_id :: pyval
  man_plugin_version :: pyval
  adapter_entry :: "pyval list"
  capabilities :: "pyval list"
  supported_arch :: "pyval list"
  default_timeout_seconds :: pyval
  artifact_rules :: "pyval list"
  environment :: pyval
  toolkit :: pyval
  requirements :: RuntimeRequirements
  progress_marker :: pyval
  man_schema_version :: pyval

definition nonempty_strings :: "pyval list \<Rightarrow> bool" where
  "nonempty_strings xs = (xs \<noteq> [] \<and> list_all (\<lambda>i. is_str i \<and> py_str i \<noteq> []) xs)"

definition PluginManifest_validate :: "PluginManifest \<Rightarrow> unit result" where
  "PluginManifest_validate m = eall
     [ validate_version (man_schema_version m),
       validate_identifier ''plugin_id'' (man_plugin_id m) True,
       validate_identifier ''plugin_version'' (man_plugin_version m) True,
       echeck (\<not> nonempty_strings (adapter_entry m))
         (ContractError ''adapter_entry must be a non-empty string list''),
       echeck (\<not> nonempty_strings (capabilities m))
         (ContractError ''capabilities must be a non-empty string list''),
       echeck (\<not> nonempty_strings (supported_arch m))
         (ContractError ''supported_arch must be a non-empty string list''),
       validate_mapping ''environment'' (environment m),
       echeck (\<not> list_all (\<lambda>(k, v). is_str k \<and> is_str v) (items (environment m)))
         (ContractError ''environment must contain only string values''),
       validate_mapping ''toolkit'' (toolkit m),
       (if py_num (default_timeout_seconds m) = None then Inl TypeError
        else echeck (py_le_zero (default_timeout_seconds m))
               (ContractError ''default_timeout_seconds must be positive'')),
       echeck (\<not> is_str (progress_marker m) \<or> py_str (progress_marker m) = [])
         (ContractError ''progress_marker must be a non-empty string''),
       echeck (length (py_str (progress_marker m)) > 32)
         (ContractError ''progress_marker is implausibly long''),
       RuntimeRequirements_validate (requirements m) ]"

definition PluginManifest_fields :: "string list" where
  "PluginManifest_fields = [''plugin_id'', ''plugin_version'', ''adapter_entry'', ''capabilities'',
     ''supported_arch'', ''default_timeout_seconds'', ''artifact_rules'', ''environment'', ''toolkit'',
     ''requirements'', ''progress_marker'', ''schema_version'']"

definition RuntimeRequirements_primitive :: "RuntimeRequirements \<Rightarrow> pyval" where
  "RuntimeRequirements_primitive r = PDict
     [ (PStr ''require_protocol_receipt'', primitive (require_protocol_receipt r)),
       (PStr ''environment_receipt_variable'', primitive (environment_receipt_variable r)),
       (PStr ''require_experiment_protocol'', primitive (require_experiment_protocol r)),
       (PStr ''require_protected_evaluation'', primitive (require_protected_evaluation r)),
       (PStr ''resumable'', primitive (resumable r)) ]"

definition PluginManifest_to_dict :: "PluginManifest \<Rightarrow> pyval result" where
  "PluginManifest_to_dict m = ebind (PluginManifest_validate m) (\<lambda>_. Inr (PDict
     [ (PStr ''plugin_id'', primitive (man_plugin_id m)),
       (PStr ''plugin_version'', primitive (man_plugin_version m)),
       (PStr ''adapter_entry'', PList (primitive_list (adapter_entry m))),
       (PStr ''capabilities'', PList (primitive_list (capabilities m))),
       (PStr ''supported_arch'', PList (primitive_list (supported_arch m))),
       (PStr ''default_timeout_seconds'', primitive (default_timeout_seconds m)),
       (PStr ''artifact_rules'', PList (primitive_list (artifact_rules m))),
       (PStr ''environment'', primitive (environment m)), (PStr ''toolkit'', primitive (toolkit m)),
       (PStr ''requirements'', RuntimeRequirements_primitive (requirements m)),
       (PStr ''progress_marker'', primitive (progress_marker m)),
       (PStr ''schema_version'', primitive (man_schema_version m)) ]))"

definition PluginManifest_from_dict :: "pyval \<Rightarrow> PluginManifest result" where
  "PluginManifest_from_dict payload =
     ebind (known_payload ''PluginManifest'' PluginManifest_fields payload) (\<lambda>value.
     ebind (iter_of (dget_or value ''adapter_entry'' (PList []))) (\<lambda>entry.
     ebind (iter_of (dget_or value ''capabilities'' (PList []))) (\<lambda>caps.
     ebind (iter_of (dget_or value ''supported_arch'' (PList []))) (\<lambda>archs.
     ebind (iter_of (dget_or value ''artifact_rules'' (PList []))) (\<lambda>rules.
     ebind (RuntimeRequirements_from_dict (dgetN value ''requirements'')) (\<lambda>reqs.
     ebind (instantiate ''PluginManifest'' PluginManifest_fields [''plugin_id'', ''plugin_version'']
              value) (\<lambda>d.
     let m = \<lparr> man_plugin_id = dgetN d ''plugin_id'', man_plugin_version = dgetN d ''plugin_version'',
               adapter_entry = entry, capabilities = caps, supported_arch = archs,
               default_timeout_seconds = dget_or d ''default_timeout_seconds'' (PInt 3600),
               artifact_rules = rules, environment = dget_or d ''environment'' (PDict []),
               toolkit = dget_or d ''toolkit'' (PDict []), requirements = reqs,
               progress_marker = dget_or d ''progress_marker'' (PStr DEFAULT_PROGRESS_MARKER),
               man_schema_version = dget_or d ''schema_version'' (PInt SCHEMA_VERSION) \<rparr>
     in ebind (PluginManifest_validate m) (\<lambda>_. Inr m))))))))"

section \<open>PluginResult\<close>

record PluginResult =
  res_status :: RuntimeStatus
  exit_code :: pyval
  started_at :: pyval
  ended_at :: pyval
  res_metrics :: "pyval list"
  res_artifacts :: "pyval list"
  res_failure :: pyval
  provenance :: pyval
  res_schema_version :: pyval

definition PluginResult_validate :: "PluginResult \<Rightarrow> unit result" where
  "PluginResult_validate r = eall (
     [ validate_version (res_schema_version r),
       echeck (res_status r \<notin> {SUCCEEDED, FAILED, CANCELLED, TIMED_OUT})
         (ContractError ''PluginResult status must be terminal''),
       echeck (\<not> is_int (exit_code r)) (ContractError ''exit_code must be an integer''),
       echeck (res_status r = SUCCEEDED \<and> py_int (exit_code r) \<noteq> 0)
         (ContractError ''a succeeded PluginResult must have exit_code 0''),
       echeck (\<not> truthy (started_at r) \<or> \<not> truthy (ended_at r))
         (ContractError ''PluginResult timestamps are required''),
       (if res_failure r = PNone then Inr () else validate_mapping ''failure'' (res_failure r)),
       validate_mapping ''provenance'' (provenance r) ]
     @ concat (map (\<lambda>a.
         [ validate_mapping ''artifact'' a,
           echeck (\<not> is_str (dgetN (items a) ''kind'') \<or> \<not> is_str (dgetN (items a) ''path''))
             (ContractError ''each artifact requires string kind and path'') ]) (res_artifacts r)))"

definition PluginResult_to_dict :: "PluginResult \<Rightarrow> pyval result" where
  "PluginResult_to_dict r = ebind (PluginResult_validate r) (\<lambda>_. Inr (PDict
     [ (PStr ''status'', PStr (RuntimeStatus_value (res_status r))),
       (PStr ''exit_code'', primitive (exit_code r)), (PStr ''started_at'', primitive (started_at r)),
       (PStr ''ended_at'', primitive (ended_at r)),
       (PStr ''metrics'', PList (primitive_list (res_metrics r))),
       (PStr ''artifacts'', PList (primitive_list (res_artifacts r))),
       (PStr ''failure'', primitive (res_failure r)), (PStr ''provenance'', primitive (provenance r)),
       (PStr ''schema_version'', primitive (res_schema_version r)) ]))"

definition PluginResult_fields :: "string list" where
  "PluginResult_fields = [''status'', ''exit_code'', ''started_at'', ''ended_at'', ''metrics'',
     ''artifacts'', ''failure'', ''provenance'', ''schema_version'']"

definition PluginResult_from_dict :: "pyval \<Rightarrow> PluginResult result" where
  "PluginResult_from_dict payload =
     ebind (known_payload ''PluginResult'' PluginResult_fields payload) (\<lambda>value.
     ebind (case dget value ''status'' of
              None \<Rightarrow> Inl (ContractError ''invalid PluginResult status'')
            | Some v \<Rightarrow> (case RuntimeStatus_of v of
                Inl _ \<Rightarrow> Inl (ContractError ''invalid PluginResult status'') | Inr s \<Rightarrow> Inr s))
       (\<lambda>status.
     ebind (iter_of (dget_or value ''metrics'' (PList []))) (\<lambda>metrics.
     ebind (iter_of (dget_or value ''artifacts'' (PList []))) (\<lambda>artifacts.
     ebind (instantiate ''PluginResult'' PluginResult_fields
              [''status'', ''exit_code'', ''started_at'', ''ended_at''] value) (\<lambda>d.
     let r = \<lparr> res_status = status, exit_code = dgetN d ''exit_code'',
               started_at = dgetN d ''started_at'', ended_at = dgetN d ''ended_at'',
               res_metrics = metrics, res_artifacts = artifacts,
               res_failure = dgetN d ''failure'', provenance = dget_or d ''provenance'' (PDict []),
               res_schema_version = dget_or d ''schema_version'' (PInt SCHEMA_VERSION) \<rparr>
     in ebind (PluginResult_validate r) (\<lambda>_. Inr r))))))"

section \<open>Facts\<close>

lemma positive_int_Inr [checks]: "positive_int n v = Inr u \<longleftrightarrow> is_int v \<and> 0 < py_int v"
  by (auto simp: positive_int_def)

lemma emap_Inr_list_all2: "emap f xs = Inr ys \<longleftrightarrow> list_all2 (\<lambda>x y. f x = Inr y) xs ys"
  by (induction xs arbitrary: ys) (auto simp: ebind_Inr_iff list_all2_Cons1)

lemma emap_map: "(\<And>x. x \<in> set xs \<Longrightarrow> f (g x) = Inr x) \<Longrightarrow> emap f (map g xs) = Inr xs"
  by (induction xs) auto

lemma TaskSpec_validate_Inr:
  assumes "TaskSpec_validate t = Inr u"
  shows "\<exists>s. task_id t = PStr s \<and> IDENTIFIER s" "\<exists>s. plugin_id t = PStr s \<and> IDENTIFIER s"
    "0 < py_int (max_attempts t)" "0 < py_int (timeout_seconds t)"
    "\<forall>i \<in> set (staged_inputs t). InputFile_validate i = Inr ()"
    "distinct (map in_destination (staged_inputs t))"
    "\<forall>r. resources t = Some r \<longrightarrow> ResourceRequest_validate r = Inr ()"
  using assms
  by (auto simp: TaskSpec_validate_def eall_Inr_iff validate_identifier_Inr positive_int_Inr)

end
