(* ===== verification/Store.thy ===== *)
theory Store
  imports Tasks "HOL-Library.List_Lexorder" "HOL-Library.Char_ord"
begin

text \<open>
  \<open>core/runtime/src/openroad_platform_runtime/store.py\<close>, the lifecycle half of \<open>RuntimeStore\<close>:
  submission, the run state machine, attempts with their leases and reservations, retries,
  reclamation and the queries the worker polls.

  Each SQLite table is the list of its rows in insertion order, each method a function of the
  store. A method that runs in a transaction returns the store unchanged when it raises
  (\<open>ROLLBACK\<close>). Times are microseconds since the epoch: the source stores ISO-8601 strings in
  UTC, whose text order is the order of the instants. The clock reading and the identifiers
  \<open>_new_id\<close> draws are arguments; an identifier that is already a primary key raises
  \<open>IntegrityError\<close>. A column that holds the JSON text of a contract is modelled by the
  contract; the round trip of \<open>TaskSpec\<close> is proved with the contracts.
\<close>

section \<open>Tables\<close>

type_synonym timestamp = int

datatype json_text = JsonText pyval | JsonGarbage

record run_row =
  rn_id :: string
  rn_task_id :: pyval
  rn_key :: "string option"
  rn_status :: RuntimeStatus
  rn_task :: TaskSpec
  rn_created :: timestamp
  rn_started :: "timestamp option"
  rn_ended :: "timestamp option"
  rn_reason :: "string option"

text \<open>The columns \<open>successful_attempt_id\<close> and \<open>ended_at\<close> of a stage are never written.\<close>

record stage_row =
  sg_id :: string
  sg_run :: string
  sg_key :: string
  sg_ordinal :: nat
  sg_plugin_id :: pyval
  sg_plugin_version :: pyval
  sg_status :: RuntimeStatus
  sg_created :: timestamp
  sg_started :: "timestamp option"
  sg_resumable :: bool

record attempt_row =
  at_id :: string
  at_stage :: string
  at_number :: nat
  at_status :: AttemptStatus
  at_workspace :: string
  at_worker :: string
  at_lease :: "timestamp option"
  at_heartbeat :: "timestamp option"
  at_pid :: "int option"
  at_pgid :: "int option"
  at_ticks :: "int option"
  at_started :: timestamp
  at_ended :: "timestamp option"
  at_exit :: "int option"
  at_failure :: "json_text option"
  at_cpu_seconds :: pyval
  at_peak_memory :: pyval
  at_peak_processes :: pyval

record reservation_row =
  rs_attempt :: string
  rs_cpu :: int
  rs_memory :: int

record event_row =
  er_id :: string
  er_run :: string
  er_stage :: "string option"
  er_attempt :: "string option"
  er_type :: string
  er_producer :: string
  er_payload :: pydict
  er_occurred :: timestamp

record artifact_row =
  ar_id :: string
  ar_attempt :: string
  ar_kind :: string
  ar_store_key :: string
  ar_size :: int
  ar_sha256 :: string
  ar_metadata :: pyval
  ar_created :: timestamp
  ar_storage :: string

record metric_row =
  mr_id :: string
  mr_attempt :: string
  mr_name :: pyval
  mr_value :: pyval
  mr_unit :: pyval
  mr_source :: pyval
  mr_parser_id :: pyval
  mr_parser_version :: pyval
  mr_context :: pyval
  mr_created :: timestamp

record input_row =
  ir_attempt :: string
  ir_destination :: pyval
  ir_source :: pyval
  ir_source_artifact_id :: pyval
  ir_source_input_id :: pyval
  ir_present :: bool
  ir_size :: pyval
  ir_sha256 :: pyval
  ir_created :: timestamp

record uploaded_row =
  up_id :: string
  up_store_key :: string
  up_size :: int
  up_sha256 :: string
  up_created :: timestamp

record worker_row =
  wk_id :: string
  wk_pid :: int
  wk_last_seen :: timestamp
  wk_current :: "string option"
  wk_state :: string

text \<open>The database and, beside it, the object store: the bytes kept under each digest.\<close>

type_synonym bytes = "char list"

record store =
  runs :: "run_row list"
  stages :: "stage_row list"
  attempts :: "attempt_row list"
  reservations :: "reservation_row list"
  artifacts :: "artifact_row list"
  metrics :: "metric_row list"
  inputs :: "input_row list"
  uploaded :: "uploaded_row list"
  events :: "event_row list"
  workers :: "worker_row list"
  objects :: "string \<rightharpoonup> bytes"

definition empty_store :: store where
  "empty_store = \<lparr> runs = [], stages = [], attempts = [], reservations = [], artifacts = [],
     metrics = [], inputs = [], uploaded = [], events = [], workers = [], objects = Map.empty \<rparr>"

section \<open>Reads\<close>

text \<open>A stored failure column; corrupt text is reported as a storage failure.\<close>

definition storage_corruption :: "string \<Rightarrow> pydict" where
  "storage_corruption msg = [(PStr ''category'', PStr ''storage_corruption''),
     (PStr ''message'', PStr msg), (PStr ''retryable'', PBool False)]"

definition optional_json_object :: "json_text option \<Rightarrow> pydict option" where
  "optional_json_object raw =
     (case raw of None \<Rightarrow> None
      | Some JsonGarbage \<Rightarrow> Some (storage_corruption ''invalid JSON'')
      | Some (JsonText (PDict d)) \<Rightarrow> Some d
      | Some (JsonText _) \<Rightarrow> Some (storage_corruption ''not an object''))"

definition get_run :: "string \<Rightarrow> store \<Rightarrow> run_row result" where
  "get_run run_id s =
     (case fetchone (\<lambda>r. rn_id r = run_id) (runs s) of
        None \<Rightarrow> Inl (RuntimeStoreError ''unknown run'') | Some r \<Rightarrow> Inr r)"

definition find_run_by_task_id :: "pyval \<Rightarrow> store \<Rightarrow> run_row option" where
  "find_run_by_task_id tid s =
     (case sort_key rn_created (filter (\<lambda>r. rn_task_id r = tid) (runs s)) of
        [] \<Rightarrow> None | r # _ \<Rightarrow> Some r)"

definition list_stages :: "string \<Rightarrow> store \<Rightarrow> stage_row list" where
  "list_stages run_id s = sort_key sg_ordinal (filter (\<lambda>g. sg_run g = run_id) (stages s))"

definition list_attempts :: "string \<Rightarrow> store \<Rightarrow> attempt_row list" where
  "list_attempts stage_run_id s =
     sort_key at_number (filter (\<lambda>a. at_stage a = stage_run_id) (attempts s))"

definition resource_totals :: "store \<Rightarrow> int \<times> int" where
  "resource_totals s =
     (sum_list (map rs_cpu (reservations s)), sum_list (map rs_memory (reservations s)))"

definition get_uploaded_input :: "string \<Rightarrow> store \<Rightarrow> uploaded_row result" where
  "get_uploaded_input iid s =
     (case fetchone (\<lambda>u. up_id u = iid) (uploaded s) of
        None \<Rightarrow> Inl (RuntimeStoreError ''unknown uploaded input'') | Some u \<Rightarrow> Inr u)"

definition get_artifact :: "string \<Rightarrow> store \<Rightarrow> artifact_row result" where
  "get_artifact aid s =
     (case fetchone (\<lambda>a. ar_id a = aid) (artifacts s) of
        None \<Rightarrow> Inl (RuntimeStoreError ''no such artifact'') | Some a \<Rightarrow> Inr a)"

section \<open>Submission\<close>

text \<open>
  Two tasks are the same request when their payloads agree up to the platform's own labels, with
  the identifiers of uploaded inputs and artifacts replaced by the digest of their bytes.
\<close>

definition HOST_SOURCE_LABEL :: string where
  "HOST_SOURCE_LABEL = ''__platform_host_source_''"

definition strip_platform_labels :: "pydict \<Rightarrow> pydict" where
  "strip_platform_labels d =
     filter (\<lambda>(k, _). \<not> startswith (py_str k) HOST_SOURCE_LABEL) d"

definition digest_references :: "store \<Rightarrow> pyval \<Rightarrow> pyval result" where
  "digest_references s item =
     ebind (if truthy (dgetN (items item) ''input_id'')
            then ebind (get_uploaded_input (py_str (dgetN (items item) ''input_id'')) s)
                   (\<lambda>u. Inr (dset (items item) (PStr ''input_id'') (PStr (up_sha256 u))))
            else Inr (items item)) (\<lambda>d.
     if truthy (dgetN d ''artifact_id'')
     then ebind (get_artifact (py_str (dgetN d ''artifact_id'')) s)
            (\<lambda>a. Inr (PDict (dset d (PStr ''artifact_id'') (PStr (ar_sha256 a)))))
     else Inr (PDict d))"

definition comparable_payload :: "store \<Rightarrow> pyval \<Rightarrow> pyval result" where
  "comparable_payload s payload =
     (let d = dset (items payload) (PStr ''labels'')
                (PDict (strip_platform_labels (items (dget_or (items payload) ''labels'' (PDict []))))) in
      ebind (emap (digest_references s) (elems (dget_or d ''staged_inputs'' (PList [])))) (\<lambda>staged.
      Inr (PDict (dset d (PStr ''staged_inputs'') (PList staged)))))"

definition equivalent_task_specs :: "store \<Rightarrow> TaskSpec \<Rightarrow> TaskSpec \<Rightarrow> bool result" where
  "equivalent_task_specs s first second =
     ebind (TaskSpec_to_dict first) (\<lambda>l. ebind (TaskSpec_to_dict second) (\<lambda>r.
     ebind (comparable_payload s l) (\<lambda>left. ebind (comparable_payload s r) (\<lambda>right.
     Inr (py_eq left right)))))"

definition submit_run ::
  "timestamp \<Rightarrow> string \<Rightarrow> string \<Rightarrow> TaskSpec \<Rightarrow> string \<Rightarrow> pyval \<Rightarrow> bool \<Rightarrow> string option \<Rightarrow> bool \<Rightarrow>
   store \<Rightarrow> run_row result \<times> store" where
  "submit_run now run_id stage_run_id task stage_key version idempotent key resum s =
     (case TaskSpec_validate task of Inl e \<Rightarrow> (Inl e, s) | Inr _ \<Rightarrow>
      if plugin_id task = PNone then (Inl (RuntimeStoreError ''a run stage requires a plugin_id''), s)
      else if key = Some [] then (Inl (RuntimeStoreError ''idempotency_key must not be empty''), s)
      else
        let existing = (case key of
              Some k \<Rightarrow> fetchone (\<lambda>r. rn_key r = Some k) (runs s)
            | None \<Rightarrow> if idempotent then find_run_by_task_id (task_id task) s else None)
        in case existing of
          Some r \<Rightarrow>
            (case equivalent_task_specs s (rn_task r) task of
               Inl e \<Rightarrow> (Inl e, s)
             | Inr False \<Rightarrow>
                 (Inl (RuntimeStoreError ''task_id already exists with a different immutable TaskSpec''), s)
             | Inr True \<Rightarrow>
                 (case list_stages (rn_id r) s of
                    [] \<Rightarrow> (Inl IndexError, s)
                  | g # _ \<Rightarrow>
                      if \<not> py_eq (sg_plugin_version g) version
                      then (Inl (RuntimeStoreError ''task_id already exists at plugin version''), s)
                      else (Inr r, s)))
        | None \<Rightarrow>
            if run_id \<in> rn_id ` set (runs s) \<or> stage_run_id \<in> sg_id ` set (stages s)
            then (Inl IntegrityError, s)
            else
              let run = \<lparr> rn_id = run_id, rn_task_id = task_id task, rn_key = key, rn_status = QUEUED,
                          rn_task = task, rn_created = now, rn_started = None, rn_ended = None,
                          rn_reason = None \<rparr>;
                  stage = \<lparr> sg_id = stage_run_id, sg_run = run_id, sg_key = stage_key,
                            sg_ordinal = 0, sg_plugin_id = plugin_id task,
                            sg_plugin_version = version, sg_status = QUEUED, sg_created = now,
                            sg_started = None, sg_resumable = resum \<rparr>
              in (Inr run, s\<lparr> runs := runs s @ [run], stages := stages s @ [stage] \<rparr>))"

section \<open>The run state machine\<close>

text \<open>The \<open>UPDATE\<close> that moves the stages of a run that have not ended.\<close>

definition move_stages :: "string \<Rightarrow> RuntimeStatus \<Rightarrow> stage_row list \<Rightarrow> stage_row list" where
  "move_stages run_id target =
     update_where (\<lambda>g. sg_run g = run_id \<and> \<not> is_terminal (sg_status g)) (\<lambda>g. g\<lparr> sg_status := target \<rparr>)"

definition coalesce :: "'a option \<Rightarrow> 'a \<Rightarrow> 'a option" where
  "coalesce x y = (case x of None \<Rightarrow> Some y | Some v \<Rightarrow> Some v)"

definition set_run_status :: "timestamp \<Rightarrow> RuntimeStatus \<Rightarrow> string option \<Rightarrow> run_row \<Rightarrow> run_row" where
  "set_run_status now target reason r = r\<lparr> rn_status := target,
     rn_started := (if target = RUNNING then coalesce (rn_started r) now else rn_started r),
     rn_ended := (if is_terminal target then Some now else rn_ended r),
     rn_reason := (case reason of None \<Rightarrow> rn_reason r | Some x \<Rightarrow> Some x) \<rparr>"

definition transition_run ::
  "timestamp \<Rightarrow> string \<Rightarrow> RuntimeStatus \<Rightarrow> string option \<Rightarrow> store \<Rightarrow> unit result \<times> store" where
  "transition_run now run_id target reason s =
     (case fetchone (\<lambda>r. rn_id r = run_id) (runs s) of
        None \<Rightarrow> (Inl (RuntimeStoreError ''unknown run''), s)
      | Some r \<Rightarrow>
          if rn_status r = target then (Inr (), s)
          else if \<not> run_transition_allowed (rn_status r) target
            then (Inl (InvalidTransition ''invalid run transition''), s)
          else (Inr (), s\<lparr>
            runs := update_where (\<lambda>x. rn_id x = run_id) (set_run_status now target reason) (runs s),
            stages := move_stages run_id target (stages s) \<rparr>))"

definition request_cancel :: "timestamp \<Rightarrow> string \<Rightarrow> store \<Rightarrow> unit result \<times> store" where
  "request_cancel now run_id s =
     (case get_run run_id s of
        Inl e \<Rightarrow> (Inl e, s)
      | Inr r \<Rightarrow>
          if is_terminal (rn_status r) \<or> rn_status r = CANCEL_REQUESTED then (Inr (), s)
          else transition_run now run_id CANCEL_REQUESTED (Some ''cancellation requested'') s)"

definition fail_queued_run ::
  "timestamp \<Rightarrow> string \<Rightarrow> string \<Rightarrow> string \<Rightarrow> string \<Rightarrow> store \<Rightarrow> bool result \<times> store" where
  "fail_queued_run now event_id run_id category message s =
     (if category = [] \<or> message = []
      then (Inl (RuntimeStoreError ''preflight failure needs a category and message''), s)
      else case fetchone (\<lambda>r. rn_id r = run_id) (runs s) of
        None \<Rightarrow> (Inl (RuntimeStoreError ''unknown run''), s)
      | Some r \<Rightarrow>
          if rn_status r \<notin> {QUEUED, PREPARING, RETRY_WAIT} then (Inr False, s)
          else if event_id \<in> er_id ` set (events s) then (Inl IntegrityError, s)
          else (Inr True, s\<lparr>
            runs := update_where (\<lambda>x. rn_id x = run_id)
              (\<lambda>x. x\<lparr> rn_status := FAILED, rn_ended := Some now, rn_reason := Some category \<rparr>) (runs s),
            stages := move_stages run_id FAILED (stages s),
            events := events s @ [\<lparr> er_id = event_id, er_run = run_id, er_stage = None,
              er_attempt = None, er_type = ''run.preflight_failed'', er_producer = ''runtime'',
              er_payload = [(PStr ''category'', PStr category), (PStr ''message'', PStr message)],
              er_occurred = now \<rparr>] \<rparr>))"

section \<open>Attempts\<close>

record capacity =
  cap_cpu :: int
  cap_memory :: int
  cap_fraction :: rat

text \<open>\<open>max(1, math.ceil(capacity * platform_fraction))\<close>.\<close>

definition budget :: "int \<Rightarrow> rat \<Rightarrow> int" where
  "budget cap fraction = max 1 (py_ceil (fl_double (of_int cap * fraction)))"

definition next_attempt_number :: "string \<Rightarrow> store \<Rightarrow> nat" where
  "next_attempt_number stage_run_id s =
     Max (insert 0 (at_number ` {a \<in> set (attempts s). at_stage a = stage_run_id})) + 1"

definition new_attempt ::
  "timestamp \<Rightarrow> string \<Rightarrow> string \<Rightarrow> nat \<Rightarrow> string \<Rightarrow> string \<Rightarrow> int \<Rightarrow> attempt_row" where
  "new_attempt now attempt_id stage_run_id number worker_id workspace lease_seconds =
     \<lparr> at_id = attempt_id, at_stage = stage_run_id, at_number = number, at_status = A_RUNNING,
       at_workspace = workspace, at_worker = worker_id,
       at_lease = Some (now + lease_seconds * 1000000), at_heartbeat = Some now, at_pid = None,
       at_pgid = None, at_ticks = None, at_started = now, at_ended = None, at_exit = None,
       at_failure = None, at_cpu_seconds = PNone, at_peak_memory = PNone, at_peak_processes = PNone \<rparr>"

text \<open>
  The reservation half of \<open>start_attempt\<close>: the new reservations, \<open>None\<close> when the budget has no
  room (the attempt is rolled back and the caller told to wait).
\<close>

definition reserve ::
  "string \<Rightarrow> ResourceRequest option \<Rightarrow> capacity option \<Rightarrow> store \<Rightarrow> reservation_row list option result" where
  "reserve attempt_id res cap s =
     (case (res, cap) of
        (Some r, Some c) \<Rightarrow>
          if \<not> declared r then Inr (Some (reservations s))
          else
            let cpu = (if truthy (cpu_cores r) then py_int (cpu_cores r) else 1);
                memory = (if truthy (memory_bytes r) then py_int (memory_bytes r) else 0)
            in if memory \<le> 0
               then Inl (RuntimeStoreError ''memory_bytes is required for resource reservation'')
               else if fst (resource_totals s) + cpu > budget (cap_cpu c) (cap_fraction c) \<or>
                       snd (resource_totals s) + memory > budget (cap_memory c) (cap_fraction c)
               then Inr None
               else if cpu \<le> 0 then Inl IntegrityError
               else Inr (Some (reservations s @
                      [\<lparr> rs_attempt = attempt_id, rs_cpu = cpu, rs_memory = memory \<rparr>]))
      | _ \<Rightarrow> Inr (Some (reservations s)))"

definition start_attempt ::
  "timestamp \<Rightarrow> string \<Rightarrow> string \<Rightarrow> string \<Rightarrow> string \<Rightarrow> int \<Rightarrow> ResourceRequest option \<Rightarrow>
   capacity option \<Rightarrow> store \<Rightarrow> attempt_row option result \<times> store" where
  "start_attempt now attempt_id stage_run_id worker_id workspace lease_seconds res cap s =
     (if lease_seconds \<le> 0 then (Inl (RuntimeStoreError ''lease_seconds must be positive''), s)
      else case fetchone (\<lambda>g. sg_id g = stage_run_id) (stages s) of
        None \<Rightarrow> (Inl (RuntimeStoreError ''unknown stage''), s)
      | Some g \<Rightarrow>
          if sg_status g \<notin> {QUEUED, RETRY_WAIT}
          then (Inl (InvalidTransition ''invalid stage transition''), s)
          else if attempt_id \<in> at_id ` set (attempts s) then (Inl IntegrityError, s)
          else
            let a = new_attempt now attempt_id stage_run_id (next_attempt_number stage_run_id s)
                      worker_id workspace lease_seconds
            in case reserve attempt_id res cap s of
                 Inl e \<Rightarrow> (Inl e, s)
               | Inr None \<Rightarrow> (Inr None, s)
               | Inr (Some reserved) \<Rightarrow> (Inr (Some a), s\<lparr>
                   attempts := attempts s @ [a],
                   reservations := reserved,
                   stages := update_where (\<lambda>x. sg_id x = stage_run_id)
                     (\<lambda>x. x\<lparr> sg_status := RUNNING, sg_started := coalesce (sg_started x) now \<rparr>) (stages s),
                   runs := update_where
                     (\<lambda>x. rn_id x = sg_run g \<and> rn_status x \<in> {QUEUED, PREPARING, RETRY_WAIT})
                     (\<lambda>x. x\<lparr> rn_status := RUNNING, rn_started := coalesce (rn_started x) now \<rparr>)
                     (runs s) \<rparr>))"

text \<open>
  \<open>heartbeat\<close> reads the row and then updates it under a guard that repeats the check, because
  another process may settle the attempt in between.
\<close>

definition heartbeat_check :: "string \<Rightarrow> string \<Rightarrow> store \<Rightarrow> unit result" where
  "heartbeat_check attempt_id worker_id s =
     (case fetchone (\<lambda>a. at_id a = attempt_id) (attempts s) of
        None \<Rightarrow> Inl (RuntimeStoreError ''unknown attempt'')
      | Some a \<Rightarrow>
          if at_worker a \<noteq> worker_id then Inl (RuntimeStoreError ''attempt is leased by another'')
          else if at_status a \<noteq> A_RUNNING then Inl (InvalidTransition ''cannot heartbeat'')
          else Inr ())"

definition owned_running :: "string \<Rightarrow> string \<Rightarrow> attempt_row \<Rightarrow> bool" where
  "owned_running attempt_id worker_id a =
     (at_id a = attempt_id \<and> at_worker a = worker_id \<and> at_status a = A_RUNNING)"

definition heartbeat_update ::
  "timestamp \<Rightarrow> string \<Rightarrow> string \<Rightarrow> int \<Rightarrow> store \<Rightarrow> unit result \<times> store" where
  "heartbeat_update now attempt_id worker_id lease_seconds s =
     (if length (filter (owned_running attempt_id worker_id) (attempts s)) \<noteq> 1
      then (Inl (InvalidTransition ''attempt was fenced while heartbeating''), s)
      else (Inr (), s\<lparr> attempts := update_where (owned_running attempt_id worker_id)
             (\<lambda>a. a\<lparr> at_heartbeat := Some now, at_lease := Some (now + lease_seconds * 1000000) \<rparr>)
             (attempts s) \<rparr>))"

definition heartbeat ::
  "timestamp \<Rightarrow> string \<Rightarrow> string \<Rightarrow> int \<Rightarrow> store \<Rightarrow> unit result \<times> store" where
  "heartbeat now attempt_id worker_id lease_seconds s =
     (case heartbeat_check attempt_id worker_id s of
        Inl e \<Rightarrow> (Inl e, s)
      | Inr _ \<Rightarrow> heartbeat_update now attempt_id worker_id lease_seconds s)"

definition attach_process ::
  "string \<Rightarrow> string \<Rightarrow> int \<Rightarrow> int \<Rightarrow> int option \<Rightarrow> store \<Rightarrow> unit result \<times> store" where
  "attach_process attempt_id worker_id pid pgid ticks s =
     (if pid \<le> 0 \<or> pgid \<le> 0 then (Inl (RuntimeStoreError ''process identifiers must be positive''), s)
      else if length (filter (owned_running attempt_id worker_id) (attempts s)) \<noteq> 1
      then (Inl (InvalidTransition ''attempt is no longer owned''), s)
      else (Inr (), s\<lparr> attempts := update_where (owned_running attempt_id worker_id)
             (\<lambda>a. a\<lparr> at_pid := Some pid, at_pgid := Some pgid, at_ticks := ticks \<rparr>) (attempts s) \<rparr>))"

definition release_resources :: "string \<Rightarrow> store \<Rightarrow> store" where
  "release_resources attempt_id s =
     s\<lparr> reservations := delete_where (\<lambda>x. rs_attempt x = attempt_id) (reservations s) \<rparr>"

definition finish_attempt ::
  "timestamp \<Rightarrow> string \<Rightarrow> AttemptStatus \<Rightarrow> int option \<Rightarrow> pydict option \<Rightarrow> pyval \<times> pyval \<times> pyval \<Rightarrow>
   store \<Rightarrow> unit result \<times> store" where
  "finish_attempt now attempt_id status exit failure usage s =
     (case fetchone (\<lambda>a. at_id a = attempt_id) (attempts s) of
        None \<Rightarrow> (Inl (RuntimeStoreError ''unknown attempt''), s)
      | Some a \<Rightarrow>
          if \<not> attempt_transition_allowed (at_status a) status
          then (Inl (InvalidTransition ''invalid attempt transition''), s)
          else (Inr (), s\<lparr>
            attempts := update_where (\<lambda>x. at_id x = attempt_id)
              (\<lambda>x. x\<lparr> at_status := status, at_ended := Some now, at_exit := exit,
                 at_failure := (case failure of None \<Rightarrow> None
                   | Some d \<Rightarrow> if d = [] then None else Some (JsonText (PDict d))),
                 at_cpu_seconds := fst usage, at_peak_memory := fst (snd usage),
                 at_peak_processes := snd (snd usage), at_lease := None \<rparr>) (attempts s),
            reservations := delete_where (\<lambda>x. rs_attempt x = attempt_id) (reservations s) \<rparr>))"

section \<open>Retries\<close>

definition schedule_retry ::
  "string \<Rightarrow> string \<Rightarrow> string \<Rightarrow> store \<Rightarrow> unit result \<times> store" where
  "schedule_retry run_id stage_run_id reason s =
     (case fetchone (\<lambda>g. sg_id g = stage_run_id) (stages s) of
        None \<Rightarrow> (Inl (RuntimeStoreError ''unknown stage''), s)
      | Some g \<Rightarrow>
          if sg_status g \<noteq> RUNNING
          then (Inl (InvalidTransition ''only a running stage can be retried''), s)
          else case fetchone (\<lambda>r. rn_id r = run_id) (runs s) of
            None \<Rightarrow> (Inl (RuntimeStoreError ''unknown run''), s)
          | Some r \<Rightarrow>
              if \<not> run_transition_allowed (rn_status r) RETRY_WAIT
              then (Inl (InvalidTransition ''invalid run transition''), s)
              else (Inr (), s\<lparr>
                stages := update_where (\<lambda>x. sg_id x = stage_run_id)
                  (\<lambda>x. x\<lparr> sg_status := RETRY_WAIT \<rparr>) (stages s),
                runs := update_where (\<lambda>x. rn_id x = run_id)
                  (\<lambda>x. x\<lparr> rn_status := RETRY_WAIT, rn_reason := Some reason \<rparr>) (runs s) \<rparr>))"

definition latest_attempt :: "string \<Rightarrow> store \<Rightarrow> attempt_row option" where
  "latest_attempt stage_run_id s =
     (case rev (list_attempts stage_run_id s) of [] \<Rightarrow> None | a # _ \<Rightarrow> Some a)"

text \<open>\<open>failure.get("retryable")\<close> of a stored failure; absent or empty is not retryable.\<close>

definition retryable_failure :: "attempt_row option \<Rightarrow> bool" where
  "retryable_failure a =
     (case a of None \<Rightarrow> False
      | Some r \<Rightarrow> (case optional_json_object (at_failure r) of
          None \<Rightarrow> False | Some d \<Rightarrow> d \<noteq> [] \<and> truthy (dgetN d ''retryable'')))"

definition request_retry ::
  "timestamp \<Rightarrow> string \<Rightarrow> string \<Rightarrow> string \<Rightarrow> string \<Rightarrow> store \<Rightarrow> unit result \<times> store" where
  "request_retry now event_id run_id requester reason s =
     (if strip reason = [] \<or> strip requester = []
      then (Inl (RuntimeStoreError ''retry reason and requester are required''), s)
      else case fetchone (\<lambda>r. rn_id r = run_id) (runs s) of
        None \<Rightarrow> (Inl (RuntimeStoreError ''unknown run''), s)
      | Some r \<Rightarrow>
          let stage = fetchone (\<lambda>g. sg_run g = run_id) (stages s);
              attempt = (case stage of None \<Rightarrow> None | Some g \<Rightarrow> latest_attempt (sg_id g) s)
          in if rn_status r \<noteq> FAILED then (Inl (InvalidTransition ''only failed runs may be retried''), s)
          else if \<not> retryable_failure attempt
            then (Inl (RuntimeStoreError ''the latest failure is not retryable''), s)
          else (case (stage, attempt) of
            (Some g, Some a) \<Rightarrow>
              if int (at_number a) \<ge> py_int (max_attempts (rn_task r))
              then (Inl (RuntimeStoreError ''retry budget exhausted''), s)
              else if event_id \<in> er_id ` set (events s) then (Inl IntegrityError, s)
              else (Inr (), s\<lparr>
                runs := update_where (\<lambda>x. rn_id x = run_id)
                  (\<lambda>x. x\<lparr> rn_status := RETRY_WAIT,
                     rn_reason := Some (''retry requested by '' @ requester @ '': '' @ reason) \<rparr>) (runs s),
                stages := update_where (\<lambda>x. sg_id x = sg_id g)
                  (\<lambda>x. x\<lparr> sg_status := RETRY_WAIT \<rparr>) (stages s),
                events := events s @ [\<lparr> er_id = event_id, er_run = run_id, er_stage = Some (sg_id g),
                  er_attempt = Some (at_id a), er_type = ''run.retry_requested'',
                  er_producer = requester, er_payload = [(PStr ''reason'', PStr reason)],
                  er_occurred = now \<rparr>] \<rparr>)
          | _ \<Rightarrow> (Inl (RuntimeStoreError ''the latest failure is not retryable''), s)))"

text \<open>
  \<open>_may_resume\<close> decides from one read (\<open>resume_stage\<close>: the stage to resume, if the capability is
  resumable and its attempts leave room in the budget) and then schedules the retry.
\<close>

definition attempts_made :: "string \<Rightarrow> store \<Rightarrow> nat" where
  "attempts_made stage_run_id s = length (filter (\<lambda>a. at_stage a = stage_run_id) (attempts s))"

definition resume_stage :: "string \<Rightarrow> store \<Rightarrow> string option" where
  "resume_stage run_id s =
     (case (fetchone (\<lambda>r. rn_id r = run_id) (runs s), fetchone (\<lambda>g. sg_run g = run_id) (stages s)) of
        (Some r, Some g) \<Rightarrow>
          if \<not> sg_resumable g then None
          else if int (attempts_made (sg_id g) s) \<ge> py_int (max_attempts (rn_task r)) then None
          else Some (sg_id g)
      | _ \<Rightarrow> None)"

definition RESUME_REASON :: string where
  "RESUME_REASON = ''worker lost its lease; resuming in the same workspace''"

definition may_resume :: "string \<Rightarrow> store \<Rightarrow> bool result \<times> store" where
  "may_resume run_id s =
     (case resume_stage run_id s of
        None \<Rightarrow> (Inr False, s)
      | Some g \<Rightarrow>
          (case schedule_retry run_id g RESUME_REASON s of
             (Inl (InvalidTransition _), s') \<Rightarrow> (Inr False, s')
           | (Inl e, s') \<Rightarrow> (Inl e, s')
           | (Inr _, s') \<Rightarrow> (Inr True, s')))"

section \<open>Worker queries\<close>

definition claimable :: "store \<Rightarrow> run_row \<Rightarrow> bool" where
  "claimable s r =
     (rn_status r \<in> {QUEUED, PREPARING, RUNNING, RETRY_WAIT} \<and>
      (\<exists>g \<in> set (stages s). sg_run g = rn_id r \<and> sg_status g \<in> {QUEUED, RETRY_WAIT}))"

definition runnable_runs :: "int \<Rightarrow> int \<Rightarrow> store \<Rightarrow> string list result" where
  "runnable_runs limit offset s =
     (if \<not> (1 \<le> limit \<and> limit \<le> 1000) \<or> offset < 0
      then Inl (RuntimeStoreError ''limit must be between 1 and 1000'')
      else Inr (map rn_id (take (nat limit) (drop (nat offset)
             (sort_key rn_created (filter (claimable s) (runs s)))))))"

definition has_running_attempt :: "string \<Rightarrow> store \<Rightarrow> bool" where
  "has_running_attempt run_id s =
     (\<exists>a \<in> set (attempts s). at_status a = A_RUNNING \<and>
        (\<exists>g \<in> set (stages s). sg_id g = at_stage a \<and> sg_run g = run_id))"

definition abandoned_cancellations :: "int \<Rightarrow> store \<Rightarrow> string list result" where
  "abandoned_cancellations limit s =
     (if \<not> (1 \<le> limit \<and> limit \<le> 1000)
      then Inl (RuntimeStoreError ''limit must be between 1 and 1000'')
      else Inr (filter (\<lambda>r. \<not> has_running_attempt r s) (map rn_id (take (nat limit)
             (sort_key rn_created (filter (\<lambda>r. rn_status r = CANCEL_REQUESTED) (runs s)))))))"

section \<open>Reclaiming expired leases\<close>

definition expired :: "timestamp \<Rightarrow> attempt_row \<Rightarrow> bool" where
  "expired reference a =
     (at_status a = A_RUNNING \<and> (case at_lease a of None \<Rightarrow> False | Some l \<Rightarrow> l < reference))"

definition LEASE_FAILURE :: pydict where
  "LEASE_FAILURE = [(PStr ''category'', PStr ''lease_expired''),
     (PStr ''message'', PStr ''worker stopped heartbeating; process fenced''),
     (PStr ''retryable'', PBool True)]"

text \<open>
  One row of the loop: the guarded \<open>UPDATE\<close> that marks the attempt lost, and whether it matched;
  then the \<open>DELETE\<close> that gives its reservation back. The connection is in autocommit mode, so
  these are two transactions.
\<close>

definition mark_lost_row :: "timestamp \<Rightarrow> string \<Rightarrow> store \<Rightarrow> bool \<times> store" where
  "mark_lost_row reference attempt_id s =
     (if length (filter (\<lambda>a. at_id a = attempt_id \<and> expired reference a) (attempts s)) \<noteq> 1
      then (False, s)
      else (True, s\<lparr>
        attempts := update_where (\<lambda>a. at_id a = attempt_id \<and> expired reference a)
          (\<lambda>a. a\<lparr> at_status := A_LOST, at_ended := Some reference,
             at_failure := Some (JsonText (PDict LEASE_FAILURE)), at_lease := None \<rparr>) (attempts s) \<rparr>))"

definition mark_lost :: "timestamp \<Rightarrow> string \<Rightarrow> store \<Rightarrow> bool \<times> store" where
  "mark_lost reference attempt_id s =
     (case mark_lost_row reference attempt_id s of
        (True, s1) \<Rightarrow> (True, release_resources attempt_id s1)
      | (False, s1) \<Rightarrow> (False, s1))"

text \<open>\<open>fence\<close> says for which attempts \<open>fence_expired_process\<close> finds or makes the process gone.\<close>

fun mark_lost_all ::
  "(attempt_row \<Rightarrow> bool) \<Rightarrow> timestamp \<Rightarrow> (attempt_row \<times> string) list \<Rightarrow> store \<Rightarrow>
   (string \<times> string) list \<times> store" where
  "mark_lost_all fence reference [] s = ([], s)"
| "mark_lost_all fence reference ((a, run_id) # rows) s =
     (if \<not> fence a then mark_lost_all fence reference rows s
      else case mark_lost reference (at_id a) s of
        (hit, s1) \<Rightarrow> (case mark_lost_all fence reference rows s1 of
          (ids, s2) \<Rightarrow> ((if hit then (at_id a, run_id) # ids else ids), s2)))"

definition settle_lost :: "timestamp \<Rightarrow> string \<Rightarrow> store \<Rightarrow> unit result \<times> store" where
  "settle_lost now run_id s =
     (case may_resume run_id s of
        (Inl e, s1) \<Rightarrow> (Inl e, s1)
      | (Inr True, s1) \<Rightarrow> (Inr (), s1)
      | (Inr False, s1) \<Rightarrow>
          (case transition_run now run_id LOST (Some ''lease_expired'') s1 of
             (Inl (InvalidTransition _), s2) \<Rightarrow> (Inr (), s2)
           | r \<Rightarrow> r))"

fun settle_lost_all :: "timestamp \<Rightarrow> string list \<Rightarrow> store \<Rightarrow> unit result \<times> store" where
  "settle_lost_all now [] s = (Inr (), s)"
| "settle_lost_all now (r # rs) s =
     (case settle_lost now r s of
        (Inl e, s1) \<Rightarrow> (Inl e, s1) | (Inr _, s1) \<Rightarrow> settle_lost_all now rs s1)"

definition expired_rows :: "timestamp \<Rightarrow> store \<Rightarrow> (attempt_row \<times> string) list" where
  "expired_rows reference s =
     concat (map (\<lambda>a. map (\<lambda>g. (a, sg_run g)) (filter (\<lambda>g. sg_id g = at_stage a) (stages s)))
       (filter (expired reference) (attempts s)))"

definition reclaim_expired_attempts ::
  "(attempt_row \<Rightarrow> bool) \<Rightarrow> timestamp \<Rightarrow> store \<Rightarrow> string list result \<times> store" where
  "reclaim_expired_attempts fence now s =
     (case mark_lost_all fence now (expired_rows now s) s of
        (marked, s1) \<Rightarrow>
          (case settle_lost_all now (sort (remdups (map snd marked))) s1 of
             (Inl e, s2) \<Rightarrow> (Inl e, s2)
           | (Inr _, s2) \<Rightarrow> (Inr (map fst marked), s2)))"

end
