(* ===== verification/Capacity.thy ===== *)
theory Capacity
  imports Store
begin

text \<open>
  The capacity side of the runtime: \<open>RuntimeConfig\<close> and \<open>_check_resources\<close> of
  \<open>core/runtime/src/openroad_platform_runtime/runtime.py\<close>, and the read model
  \<open>ResourceQuery\<close> of \<open>resource_query.py\<close>, which explains why a run waits.
\<close>

section \<open>Configuration\<close>

record RuntimeConfig =
  lease_seconds :: int
  worker_id :: string
  capacity_cpu_cores :: "int option"
  capacity_memory_bytes :: "int option"
  platform_fraction :: rat
  default_task_cpu_cores :: int
  default_task_memory_bytes :: int

text \<open>
  \<open>__post_init__\<close>: refuse a configuration that cannot work, fill in what the host has. The CPU
  count and the physical memory are what \<open>os\<close> reports; a fresh worker name is drawn when none
  is given.
\<close>

definition post_init ::
  "int option \<Rightarrow> int \<Rightarrow> string \<Rightarrow> RuntimeConfig \<Rightarrow> RuntimeConfig result" where
  "post_init host_cpus host_memory fresh_worker c =
     (if lease_seconds c \<le> 0 then Inl (ValueError ''lease_seconds must be positive'')
      else if (case capacity_cpu_cores c of None \<Rightarrow> False | Some n \<Rightarrow> n < 1)
        then Inl (ValueError ''capacity_cpu_cores must be positive'')
      else if (case capacity_memory_bytes c of None \<Rightarrow> False | Some n \<Rightarrow> n < 1)
        then Inl (ValueError ''capacity_memory_bytes must be positive'')
      else
        let c1 = c\<lparr> capacity_cpu_cores := (case capacity_cpu_cores c of
                Some n \<Rightarrow> Some n
              | None \<Rightarrow> Some (case host_cpus of None \<Rightarrow> 1 | Some n \<Rightarrow> if n = 0 then 1 else n)),
              capacity_memory_bytes := (case capacity_memory_bytes c of
                Some n \<Rightarrow> Some n | None \<Rightarrow> Some host_memory) \<rparr>
        in if default_task_cpu_cores c1 < 1 \<or> default_task_memory_bytes c1 < 1
             then Inl (ValueError ''default task resource reservations must be positive'')
           else if \<not> (0 < platform_fraction c1 \<and> platform_fraction c1 \<le> 1)
             then Inl (ValueError ''platform_fraction must be in (0, 1]'')
           else Inr (if worker_id c1 = [] then c1\<lparr> worker_id := fresh_worker \<rparr> else c1))"

definition capacity_of :: "RuntimeConfig \<Rightarrow> capacity option" where
  "capacity_of c =
     (case (capacity_cpu_cores c, capacity_memory_bytes c) of
        (Some n, Some m) \<Rightarrow> Some \<lparr> cap_cpu = n, cap_memory = m, cap_fraction = platform_fraction c \<rparr>
      | _ \<Rightarrow> None)"

definition reservation_for :: "RuntimeConfig \<Rightarrow> TaskSpec \<Rightarrow> ResourceRequest" where
  "reservation_for c task =
     \<lparr> cpu_seconds = (case resources task of None \<Rightarrow> PNone | Some r \<Rightarrow> cpu_seconds r),
       cpu_cores = (case resources task of
           None \<Rightarrow> PInt (default_task_cpu_cores c)
         | Some r \<Rightarrow> if cpu_cores r \<noteq> PNone then cpu_cores r else PInt (default_task_cpu_cores c)),
       memory_bytes = (case resources task of
           None \<Rightarrow> PInt (default_task_memory_bytes c)
         | Some r \<Rightarrow> if memory_bytes r \<noteq> PNone then memory_bytes r
                     else PInt (default_task_memory_bytes c)),
       processes = (case resources task of None \<Rightarrow> PNone | Some r \<Rightarrow> processes r) \<rparr>"

definition check_resources :: "bool \<Rightarrow> RuntimeConfig \<Rightarrow> TaskSpec \<Rightarrow> unit result" where
  "check_resources supports_limits c task =
     (let need = reservation_for c task;
          budget_cpu = budget (the (capacity_cpu_cores c)) (platform_fraction c);
          budget_memory = budget (the (capacity_memory_bytes c)) (platform_fraction c)
      in eall
       [ echeck (budget_cpu < 1 \<or> budget_memory < default_task_memory_bytes c)
           (ValueError ''platform capacity is smaller than the default task reservation''),
         echeck (cpu_cores need \<noteq> PNone \<and> py_int (cpu_cores need) > budget_cpu)
           (ValueError ''requested cpu_cores exceed platform budget''),
         echeck (memory_bytes need \<noteq> PNone \<and> py_int (memory_bytes need) > budget_memory)
           (ValueError ''requested memory exceeds platform budget''),
         echeck (memory_bytes need \<noteq> PNone \<and> py_int (memory_bytes need) > default_task_memory_bytes c
             \<and> dgetN (items (labels task)) ''memory_approval'' \<noteq> PStr ''manual'')
           (ValueError ''memory requests above 6 GiB require approval''),
         echeck ((case resources task of None \<Rightarrow> False | Some r \<Rightarrow> declared r) \<and> \<not> supports_limits)
           ResourceLimitsUnsupported ])"

section \<open>Why a run waits\<close>

definition NOT_STARTED :: "RuntimeStatus list" where
  "NOT_STARTED = [QUEUED, PREPARING, RETRY_WAIT]"

text \<open>
  The two explanations, with the numbers their sentence quotes: what the run reserves and what
  is free within the budget.
\<close>

datatype explanation = WaitsForResources pyval pyval int int | WaitsForWorker

definition waiting_for :: "RuntimeConfig \<Rightarrow> string \<Rightarrow> store \<Rightarrow> explanation option result" where
  "waiting_for c run_id s =
     ebind (get_run run_id s) (\<lambda>record.
     if rn_status record \<notin> set NOT_STARTED then Inr None
     else
       let need = reservation_for c (rn_task record);
           budget_cpu = py_trunc (fl_double (of_int (the (capacity_cpu_cores c)) * platform_fraction c));
           budget_memory =
             py_trunc (fl_double (of_int (the (capacity_memory_bytes c)) * platform_fraction c));
           free_cpu = budget_cpu - fst (resource_totals s);
           free_memory = budget_memory - snd (resource_totals s)
       in if py_int (cpu_cores need) > free_cpu \<or> py_int (memory_bytes need) > free_memory
          then Inr (Some (WaitsForResources (cpu_cores need) (memory_bytes need)
                 (max free_cpu 0) (max free_memory 0)))
          else Inr (Some WaitsForWorker))"

section \<open>Facts\<close>

lemma declared_reservation_for [simp]: "declared (reservation_for c task)"
  by (simp add: declared_def reservation_for_def split: option.splits)

lemma budget_positive: "1 \<le> budget cap f"
  by (simp add: budget_def)

lemma reservation_for_memory:
  "memory_bytes (reservation_for c t) \<noteq> PNone" "cpu_cores (reservation_for c t) \<noteq> PNone"
  by (auto simp: reservation_for_def split: option.splits)

text \<open>The budget the explanation works with is never larger than the one attempts are admitted by.\<close>

lemma query_budget_le:
  "py_trunc (fl_double (of_int cap * f)) \<le> budget cap f"
  using py_trunc_le_ceil [of "fl_double (of_int cap * f)"] by (simp add: budget_def)

end
