(* ===== verification/Ledger.thy ===== *)
theory Ledger
  imports Capacity
begin

text \<open>
  What the lifecycle store promises, seen from above. The \<^emph>\<open>ledger\<close> of a store maps each run to
  its status, its attempt budget, how many attempts it has made and how many of them run now;
  \<open>well_formed\<close> is the integrity of the tables that makes this reading meaningful (unique keys, one
  stage per run in the same status, attempts numbered without gaps). Every operation that changes
  the tables keeps \<open>well_formed\<close> and acts on the ledger by a one-line update, which is what the
  proofs about interleaved workers rest on.
\<close>

record entry =
  e_status :: RuntimeStatus
  e_budget :: int
  e_made :: nat
  e_running :: nat

type_synonym ledger = "string \<rightharpoonup> entry"

definition attempts_running :: "string \<Rightarrow> store \<Rightarrow> nat" where
  "attempts_running stage_run_id s =
     length (filter (\<lambda>a. at_stage a = stage_run_id \<and> at_status a = A_RUNNING) (attempts s))"

definition entry_of :: "store \<Rightarrow> run_row \<Rightarrow> stage_row \<Rightarrow> entry" where
  "entry_of s r g = \<lparr> e_status = rn_status r, e_budget = py_int (max_attempts (rn_task r)),
     e_made = attempts_made (sg_id g) s, e_running = attempts_running (sg_id g) s \<rparr>"

definition ledger_of :: "store \<Rightarrow> ledger" where
  "ledger_of s run_id =
     (case (fetchone (\<lambda>r. rn_id r = run_id) (runs s), fetchone (\<lambda>g. sg_run g = run_id) (stages s)) of
        (Some r, Some g) \<Rightarrow> Some (entry_of s r g)
      | _ \<Rightarrow> None)"

definition paired :: "run_row \<Rightarrow> stage_row \<Rightarrow> bool" where
  "paired r g = (sg_run g = rn_id r \<and> sg_status g = rn_status r)"

definition numbered :: "attempt_row list \<Rightarrow> bool" where
  "numbered as = (\<forall>g. map at_number (filter (\<lambda>a. at_stage a = g) as) =
     [1..<Suc (length (filter (\<lambda>a. at_stage a = g) as))])"

definition well_formed :: "store \<Rightarrow> bool" where
  "well_formed s =
     (distinct (map rn_id (runs s)) \<and> distinct (map sg_id (stages s)) \<and>
      distinct (map at_id (attempts s)) \<and> list_all2 paired (runs s) (stages s) \<and>
      (\<forall>a \<in> set (attempts s). at_stage a \<in> sg_id ` set (stages s)) \<and>
      numbered (attempts s) \<and>
      (\<forall>r \<in> set (runs s). TaskSpec_validate (rn_task r) = Inr ()))"

section \<open>Reading a well-formed store\<close>

lemma list_all2_update_where:
  assumes "list_all2 P xs ys"
    and "\<And>x y. P x y \<Longrightarrow> x \<in> set xs \<Longrightarrow> y \<in> set ys \<Longrightarrow> A x \<longleftrightarrow> B y"
    and "\<And>x y. P x y \<Longrightarrow> x \<in> set xs \<Longrightarrow> y \<in> set ys \<Longrightarrow> A x \<Longrightarrow> P (f x) (g y)"
  shows "list_all2 P (update_where A f xs) (update_where B g ys)"
  using assms by (induction rule: list_all2_induct) auto

lemma list_all2_fetchone:
  assumes "list_all2 P xs ys" and "\<And>x y. P x y \<Longrightarrow> A x \<longleftrightarrow> B y"
  shows "rel_option P (fetchone A xs) (fetchone B ys)"
  using assms by (induction rule: list_all2_induct) auto

lemma well_formed_distinct:
  assumes "well_formed s"
  shows "distinct (map rn_id (runs s))" "distinct (map sg_id (stages s))"
    "distinct (map at_id (attempts s))"
  using assms by (auto simp: well_formed_def)

lemma well_formed_stage_runs:
  assumes "well_formed s"
  shows "map sg_run (stages s) = map rn_id (runs s)"
  using assms
  by (auto simp: well_formed_def paired_def list_all2_conv_all_nth intro: nth_equalityI)

text \<open>The run and its stage are found together, in the same status.\<close>

lemma fetch_pair:
  assumes wf: "well_formed s" and r: "fetchone (\<lambda>r. rn_id r = i) (runs s) = Some r"
  obtains g where "fetchone (\<lambda>g. sg_run g = i) (stages s) = Some g" "paired r g"
    "g \<in> set (stages s)" "r \<in> set (runs s)" "rn_id r = i" "sg_run g = i"
proof -
  have all: "list_all2 paired (runs s) (stages s)"
    using wf by (simp add: well_formed_def)
  have "rel_option paired (fetchone (\<lambda>r. rn_id r = i) (runs s)) (fetchone (\<lambda>g. sg_run g = i) (stages s))"
    by (rule list_all2_fetchone [OF all]) (auto simp: paired_def)
  then obtain g where g: "fetchone (\<lambda>g. sg_run g = i) (stages s) = Some g" and "paired r g"
    using r by (auto simp: option_rel_Some1)
  then show ?thesis
    using that fetchone_Some [OF g] fetchone_Some [OF r] by blast
qed

lemma fetch_pair_None:
  assumes wf: "well_formed s"
  shows "fetchone (\<lambda>r. rn_id r = i) (runs s) = None \<longleftrightarrow> fetchone (\<lambda>g. sg_run g = i) (stages s) = None"
proof -
  have "set (map sg_run (stages s)) = set (map rn_id (runs s))"
    using well_formed_stage_runs [OF wf] by simp
  then have "i \<in> rn_id ` set (runs s) \<longleftrightarrow> i \<in> sg_run ` set (stages s)"
    by simp
  then show ?thesis by (auto simp: fetchone_None image_iff)
qed

lemma stage_unique:
  assumes "well_formed s" "g \<in> set (stages s)" "h \<in> set (stages s)"
  shows "sg_id g = sg_id h \<longleftrightarrow> g = h" and "sg_run g = sg_run h \<longleftrightarrow> g = h"
proof -
  have "distinct (map sg_run (stages s))"
    using assms(1) well_formed_stage_runs well_formed_distinct(1) by metis
  then show "sg_run g = sg_run h \<longleftrightarrow> g = h"
    using assms(2,3) distinct_key_eq by metis
  show "sg_id g = sg_id h \<longleftrightarrow> g = h"
    using assms well_formed_distinct(2) distinct_key_eq by metis
qed

lemma ledger_ofI:
  assumes "well_formed s" "r \<in> set (runs s)" "g \<in> set (stages s)" "sg_run g = rn_id r"
  shows "ledger_of s (rn_id r) = Some (entry_of s r g)"
proof -
  have r: "fetchone (\<lambda>x. rn_id x = rn_id r) (runs s) = Some r"
    using fetchone_key well_formed_distinct(1) assms(1,2) by metis
  obtain g' where g': "fetchone (\<lambda>g. sg_run g = rn_id r) (stages s) = Some g'"
    "g' \<in> set (stages s)" "sg_run g' = rn_id r"
    using fetch_pair [OF assms(1) r] by metis
  then have "g' = g" using stage_unique(2) assms by metis
  then show ?thesis using r g' by (simp add: ledger_of_def)
qed

lemma ledger_of_Some:
  assumes "well_formed s" "ledger_of s i = Some v"
  obtains r g where "r \<in> set (runs s)" "g \<in> set (stages s)" "rn_id r = i" "sg_run g = i"
    "paired r g" "v = entry_of s r g"
    "fetchone (\<lambda>r. rn_id r = i) (runs s) = Some r" "fetchone (\<lambda>g. sg_run g = i) (stages s) = Some g"
proof -
  obtain r where r: "fetchone (\<lambda>r. rn_id r = i) (runs s) = Some r"
    using assms(2) by (auto simp: ledger_of_def split: option.splits)
  show ?thesis
    by (rule fetch_pair [OF assms(1) r]) (use that r assms(2) in \<open>auto simp: ledger_of_def\<close>)
qed

lemma ledger_of_None: "well_formed s \<Longrightarrow> ledger_of s i = None \<longleftrightarrow> i \<notin> rn_id ` set (runs s)"
  using fetch_pair_None [of s i] fetchone_None [of "\<lambda>r. rn_id r = i" "runs s"]
  by (cases "fetchone (\<lambda>r. rn_id r = i) (runs s)";
      cases "fetchone (\<lambda>g. sg_run g = i) (stages s)") (auto simp: ledger_of_def)

lemma well_formed_empty: "well_formed empty_store"
  by (simp add: well_formed_def empty_store_def numbered_def)

lemma ledger_of_empty: "ledger_of empty_store = Map.empty"
  by (rule ext) (simp add: ledger_of_def empty_store_def)

section \<open>The ways the tables change\<close>

lemma run_unique:
  "well_formed s \<Longrightarrow> x \<in> set (runs s) \<Longrightarrow> y \<in> set (runs s) \<Longrightarrow> rn_id x = rn_id y \<longleftrightarrow> x = y"
  using well_formed_distinct(1) distinct_key_eq by metis

lemma attempt_unique:
  "well_formed s \<Longrightarrow> x \<in> set (attempts s) \<Longrightarrow> y \<in> set (attempts s) \<Longrightarrow> at_id x = at_id y \<longleftrightarrow> x = y"
  using well_formed_distinct(3) distinct_key_eq by metis

lemma ledger_of_other:
  assumes "well_formed s" "well_formed s'"
    and "\<And>x. x \<in> set (runs s) \<Longrightarrow> rn_id x = i \<Longrightarrow> x \<in> set (runs s')"
    and "\<And>x. x \<in> set (stages s) \<Longrightarrow> sg_run x = i \<Longrightarrow> x \<in> set (stages s')"
    and "i \<in> rn_id ` set (runs s') \<Longrightarrow> i \<in> rn_id ` set (runs s)"
    and "\<And>x. x \<in> set (stages s) \<Longrightarrow> sg_run x = i \<Longrightarrow> attempts_made (sg_id x) s' = attempts_made (sg_id x) s"
    and "\<And>x. x \<in> set (stages s) \<Longrightarrow> sg_run x = i \<Longrightarrow>
      attempts_running (sg_id x) s' = attempts_running (sg_id x) s"
  shows "ledger_of s' i = ledger_of s i"
proof (cases "ledger_of s i")
  case None
  then show ?thesis using assms ledger_of_None by metis
next
  case (Some v)
  then obtain r g where rg: "r \<in> set (runs s)" "g \<in> set (stages s)" "rn_id r = i" "sg_run g = i"
    "v = entry_of s r g"
    using ledger_of_Some [OF assms(1)] by metis
  then have "ledger_of s' (rn_id r) = Some (entry_of s' r g)"
    using assms by (intro ledger_ofI) auto
  then show ?thesis using Some rg assms(6,7) by (simp add: entry_of_def)
qed

text \<open>A run and its stage move together to a new status.\<close>

lemma move_pair:
  assumes wf: "well_formed s" and r: "r \<in> set (runs s)" and g: "g \<in> set (stages s)"
    and link: "sg_run g = rn_id r"
    and A: "\<And>x. x \<in> set (runs s) \<Longrightarrow> A x \<longleftrightarrow> x = r"
    and B: "\<And>y. y \<in> set (stages s) \<Longrightarrow> B y \<longleftrightarrow> y = g"
    and f: "rn_id (f r) = rn_id r" "rn_task (f r) = rn_task r" "rn_status (f r) = t"
    and h: "sg_id (h g) = sg_id g" "sg_run (h g) = sg_run g" "sg_status (h g) = t"
    and s': "s' = s\<lparr> runs := update_where A f (runs s), stages := update_where B h (stages s) \<rparr>"
  shows "well_formed s'"
    and "ledger_of s' = (ledger_of s)(rn_id r \<mapsto> (entry_of s r g)\<lparr> e_status := t \<rparr>)"
proof -
  have sets: "set (runs s') = insert (f r) (set (runs s) - {r})"
    "set (stages s') = insert (h g) (set (stages s) - {g})"
    using set_update_where_one [OF r, of A f] set_update_where_one [OF g, of B h] A B
    by (simp_all add: s')
  have keys: "map rn_id (runs s') = map rn_id (runs s)" "map sg_id (stages s') = map sg_id (stages s)"
    using A B f h by (auto simp: s' intro!: map_update_where_one)
  have all: "list_all2 paired (runs s) (stages s)" using wf by (simp add: well_formed_def)
  have match: "A x \<longleftrightarrow> B y" if "paired x y" "x \<in> set (runs s)" "y \<in> set (stages s)" for x y
    using that link A B g r stage_unique [OF wf] run_unique [OF wf] by (metis paired_def)
  have "list_all2 paired (runs s') (stages s')"
  proof -
    have "paired (f x) (h y)" if "paired x y" "x \<in> set (runs s)" "y \<in> set (stages s)" "A x" for x y
    proof -
      have "x = r" "y = g" using that A B match by blast+
      then show ?thesis using f h link by (simp add: paired_def)
    qed
    then show ?thesis
      unfolding s' using list_all2_update_where [OF all] match by simp
  qed
  moreover have "sg_id ` set (stages s') = sg_id ` set (stages s)"
    using keys(2) by (metis set_map)
  ultimately show wf': "well_formed s'"
    using wf keys sets f r by (auto simp: well_formed_def s')
  show "ledger_of s' = (ledger_of s)(rn_id r \<mapsto> (entry_of s r g)\<lparr> e_status := t \<rparr>)"
  proof (rule ext)
    fix i
    show "ledger_of s' i = ((ledger_of s)(rn_id r \<mapsto> (entry_of s r g)\<lparr> e_status := t \<rparr>)) i"
    proof (cases "i = rn_id r")
      case True
      have "ledger_of s' (rn_id (f r)) = Some (entry_of s' (f r) (h g))"
        using wf' sets f h link by (intro ledger_ofI) auto
      then show ?thesis
        using True f h by (simp add: entry_of_def s' attempts_made_def attempts_running_def)
    next
      case False
      then show ?thesis
        using link f by (simp, intro ledger_of_other [OF wf wf'])
          (auto simp: sets, auto simp: s' attempts_made_def attempts_running_def)
    qed
  qed
qed

text \<open>The stage of a run in a status that has not ended is the only one \<open>move_stages\<close> touches.\<close>

lemma move_pair_stages:
  assumes wf: "well_formed s" and r: "r \<in> set (runs s)" and g: "g \<in> set (stages s)"
    and "paired r g" "\<not> is_terminal (rn_status r)"
  shows "y \<in> set (stages s) \<Longrightarrow> sg_run y = rn_id r \<and> \<not> is_terminal (sg_status y) \<longleftrightarrow> y = g"
  using assms stage_unique(2) [OF wf g] by (metis paired_def)

text \<open>A stage gets a new running attempt.\<close>

lemma add_attempt:
  assumes wf: "well_formed s" and r: "r \<in> set (runs s)" and g: "g \<in> set (stages s)"
    and link: "sg_run g = rn_id r"
    and a: "at_stage a = sg_id g" "at_number a = Suc (attempts_made (sg_id g) s)"
      "at_id a \<notin> at_id ` set (attempts s)" "at_status a = A_RUNNING"
    and s': "s' = s\<lparr> attempts := attempts s @ [a], reservations := R \<rparr>"
  shows "well_formed s'"
    and "ledger_of s' = (ledger_of s)(rn_id r \<mapsto> (entry_of s r g)
      \<lparr> e_made := Suc (attempts_made (sg_id g) s), e_running := Suc (attempts_running (sg_id g) s) \<rparr>)"
proof -
  have "numbered (attempts s')"
    using wf a by (auto simp: numbered_def well_formed_def s' attempts_made_def)
  then show wf': "well_formed s'"
    using wf a g by (auto simp: well_formed_def s')
  show "ledger_of s' = (ledger_of s)(rn_id r \<mapsto> (entry_of s r g)
      \<lparr> e_made := Suc (attempts_made (sg_id g) s), e_running := Suc (attempts_running (sg_id g) s) \<rparr>)"
  proof (rule ext)
    fix i
    show "ledger_of s' i = ((ledger_of s)(rn_id r \<mapsto> (entry_of s r g)
      \<lparr> e_made := Suc (attempts_made (sg_id g) s), e_running := Suc (attempts_running (sg_id g) s) \<rparr>)) i"
    proof (cases "i = rn_id r")
      case True
      have "ledger_of s' (rn_id r) = Some (entry_of s' r g)"
        using wf' r g link by (intro ledger_ofI) (auto simp: s')
      then show ?thesis
        using True a by (simp add: entry_of_def s' attempts_made_def attempts_running_def)
    next
      case False
      then have "\<forall>x \<in> set (stages s). sg_run x = i \<longrightarrow> sg_id x \<noteq> sg_id g"
        using link stage_unique(1) [OF wf _ g] by blast
      then show ?thesis
        using False a(1) by (simp, intro ledger_of_other [OF wf wf'])
          (auto simp: s' attempts_made_def attempts_running_def)
    qed
  qed
qed

text \<open>One attempt's row is rewritten; its key, stage and number stay.\<close>

lemma rewrite_attempt:
  assumes wf: "well_formed s" and r: "r \<in> set (runs s)" and g: "g \<in> set (stages s)"
    and link: "sg_run g = rn_id r"
    and a: "a \<in> set (attempts s)" "at_stage a = sg_id g" "at_status a = A_RUNNING"
    and P: "\<And>x. x \<in> set (attempts s) \<Longrightarrow> P x \<longleftrightarrow> x = a"
    and f: "at_id (f a) = at_id a" "at_stage (f a) = at_stage a" "at_number (f a) = at_number a"
    and s': "s' = s\<lparr> attempts := update_where P f (attempts s), reservations := R \<rparr>"
  shows "well_formed s'"
    and "ledger_of s' = (ledger_of s)(rn_id r \<mapsto> (entry_of s r g)
      \<lparr> e_running := attempts_running (sg_id g) s - (if at_status (f a) = A_RUNNING then 0 else 1) \<rparr>)"
    and "0 < attempts_running (sg_id g) s"
proof -
  have dist: "distinct (attempts s)"
    using well_formed_distinct(3) [OF wf] by (simp add: distinct_map)
  have count: "length (filter Q (update_where P f (attempts s))) + (if Q a then 1 else 0) =
    length (filter Q (attempts s)) + (if Q (f a) then 1 else 0)" for Q
    by (rule update_where_one [OF dist a(1) P])
  have made: "attempts_made i s' = attempts_made i s" for i
    using count [of "\<lambda>a. at_stage a = i"] f(2) by (simp add: attempts_made_def s' split: if_splits)
  have nums: "map at_number (filter (\<lambda>a. at_stage a = i) (update_where P f (attempts s))) =
      map at_number (filter (\<lambda>a. at_stage a = i) (attempts s))" for i
  proof -
    have "filter (\<lambda>a. at_stage a = i) (update_where P f (attempts s)) =
      update_where P f (filter (\<lambda>a. at_stage a = i) (attempts s))"
      using P f(2) by (auto simp: update_where_def filter_map o_def intro!: map_cong filter_cong)
    then show ?thesis
      using P f(3) by (simp, intro map_update_where_one) auto
  qed
  have keys: "map at_id (attempts s') = map at_id (attempts s)"
    using P f(1) by (auto simp: s' intro!: map_update_where_one)
  have set': "set (attempts s') = insert (f a) (set (attempts s) - {a})"
    using set_update_where_one [OF a(1) P, of f] by (simp add: s')
  have "numbered (attempts s')"
    using wf nums made unfolding numbered_def well_formed_def s' attempts_made_def
    by simp
  then show wf': "well_formed s'"
    using wf keys set' f(2) a(2) g by (auto simp: well_formed_def s')
  have run: "attempts_running i s' + (if at_stage a = i then 1 else 0) =
    attempts_running i s + (if at_stage a = i \<and> at_status (f a) = A_RUNNING then 1 else 0)" for i
    using count [of "\<lambda>a. at_stage a = i \<and> at_status a = A_RUNNING"] a f
    by (simp add: attempts_running_def s' split: if_splits)
  have "a \<in> set (filter (\<lambda>x. at_stage x = sg_id g \<and> at_status x = A_RUNNING) (attempts s))"
    using a by simp
  then show pos: "0 < attempts_running (sg_id g) s"
    unfolding attempts_running_def by (rule length_pos_if_in_set)
  show "ledger_of s' = (ledger_of s)(rn_id r \<mapsto> (entry_of s r g)
      \<lparr> e_running := attempts_running (sg_id g) s - (if at_status (f a) = A_RUNNING then 0 else 1) \<rparr>)"
  proof (rule ext)
    fix i
    show "ledger_of s' i = ((ledger_of s)(rn_id r \<mapsto> (entry_of s r g)
      \<lparr> e_running := attempts_running (sg_id g) s - (if at_status (f a) = A_RUNNING then 0 else 1) \<rparr>)) i"
    proof (cases "i = rn_id r")
      case True
      have "ledger_of s' (rn_id r) = Some (entry_of s' r g)"
        using wf' r g link by (intro ledger_ofI) (auto simp: s')
      then show ?thesis
        using True a made run [of "sg_id g"] by (simp add: entry_of_def split: if_splits)
    next
      case False
      then have "\<forall>x \<in> set (stages s). sg_run x = i \<longrightarrow> sg_id x \<noteq> sg_id g"
        using link stage_unique(1) [OF wf _ g] by blast
      then have "attempts_running (sg_id x) s' = attempts_running (sg_id x) s"
        if "x \<in> set (stages s)" "sg_run x = i" for x
        using that run [of "sg_id x"] a(2) by auto
      then show ?thesis
        using False made by (simp, intro ledger_of_other [OF wf wf']) (auto simp: s')
    qed
  qed
qed

text \<open>What no operation takes back: links, attempt keys, and the rows of attempts that have ended.\<close>

definition stage_links :: "store \<Rightarrow> (string \<times> string) set" where
  "stage_links s = (\<lambda>g. (sg_id g, sg_run g)) ` set (stages s)"

definition attempt_keys :: "store \<Rightarrow> (string \<times> string \<times> nat) set" where
  "attempt_keys s = (\<lambda>a. (at_id a, at_stage a, at_number a)) ` set (attempts s)"

definition ended_attempts :: "store \<Rightarrow> attempt_row set" where
  "ended_attempts s = {a \<in> set (attempts s). at_status a \<noteq> A_RUNNING}"

definition extends :: "store \<Rightarrow> store \<Rightarrow> bool" where
  "extends s s' = (stage_links s \<subseteq> stage_links s' \<and> attempt_keys s \<subseteq> attempt_keys s' \<and>
     ended_attempts s \<subseteq> ended_attempts s')"

lemma extends_refl [simp]: "extends s s"
  by (simp add: extends_def)

lemma extends_trans: "extends s t \<Longrightarrow> extends t u \<Longrightarrow> extends s u"
  by (auto simp: extends_def)

lemma extends_same_attempts:
  assumes "attempts s' = attempts s" "map sg_id (stages s') = map sg_id (stages s)"
    "map sg_run (stages s') = map sg_run (stages s)"
  shows "extends s s'"
proof -
  have "map (\<lambda>g. (sg_id g, sg_run g)) xs = zip (map sg_id xs) (map sg_run xs)" for xs :: "stage_row list"
    by (induction xs) auto
  then have "map (\<lambda>g. (sg_id g, sg_run g)) (stages s') = map (\<lambda>g. (sg_id g, sg_run g)) (stages s)"
    using assms by simp
  then have "set (map (\<lambda>g. (sg_id g, sg_run g)) (stages s')) = set (map (\<lambda>g. (sg_id g, sg_run g)) (stages s))"
    by (rule arg_cong)
  then have "stage_links s' = stage_links s" by (simp add: stage_links_def)
  then show ?thesis
    using assms by (simp add: extends_def attempt_keys_def ended_attempts_def)
qed

lemma extends_rewrite:
  assumes "stages s' = stages s" "a \<in> set (attempts s)" "at_status a = A_RUNNING"
    and "set (attempts s') = insert b (set (attempts s) - {a})"
    and "at_id b = at_id a" "at_stage b = at_stage a" "at_number b = at_number a"
  shows "extends s s'"
  using assms by (auto simp: extends_def stage_links_def attempt_keys_def ended_attempts_def)

section \<open>The operations on the ledger\<close>

definition moves :: "string \<Rightarrow> RuntimeStatus set \<Rightarrow> RuntimeStatus \<Rightarrow> store \<Rightarrow> store \<Rightarrow> bool" where
  "moves i F target s s' = (\<exists>v. ledger_of s i = Some v \<and> e_status v \<in> F \<and>
     ledger_of s' = (ledger_of s)(i \<mapsto> v\<lparr> e_status := target \<rparr>) \<and>
     attempts s' = attempts s \<and> reservations s' = reservations s)"

lemma move_pair_moves:
  assumes "well_formed s" "r \<in> set (runs s)" "g \<in> set (stages s)" "paired r g"
    and "\<And>x. x \<in> set (runs s) \<Longrightarrow> A x \<longleftrightarrow> x = r" "\<And>y. y \<in> set (stages s) \<Longrightarrow> B y \<longleftrightarrow> y = g"
    and "rn_id (f r) = rn_id r" "rn_task (f r) = rn_task r" "rn_status (f r) = t"
    and "sg_id (h g) = sg_id g" "sg_run (h g) = sg_run g" "sg_status (h g) = t"
    and "rn_status r \<in> F"
    and s': "s' = s\<lparr> runs := update_where A f (runs s), stages := update_where B h (stages s) \<rparr>"
  shows "well_formed s' \<and> extends s s' \<and> moves (rn_id r) F t s s'"
proof (intro conjI)
  have link: "sg_run g = rn_id r" using assms(4) by (simp add: paired_def)
  note move = move_pair [OF assms(1-3) link assms(5-12) s']
  show "well_formed s'" by (rule move(1)) auto
  show "extends s s'"
    by (rule extends_same_attempts) (use assms in \<open>auto intro!: map_update_where_one\<close>)
  show "moves (rn_id r) F t s s'"
    unfolding moves_def using move(2) ledger_ofI [OF assms(1-3) link] assms(13)
    by (intro exI [of _ "entry_of s r g"]) (simp add: s' entry_of_def)
qed

lemma well_formed_events [simp]: "well_formed (s\<lparr> events := es \<rparr>) = well_formed s"
  by (simp add: well_formed_def)

lemma ledger_of_events [simp]: "ledger_of (s\<lparr> events := es \<rparr>) = ledger_of s"
  by (rule ext)
    (simp add: ledger_of_def entry_of_def attempts_made_def attempts_running_def cong: option.case_cong)

lemma extends_events [simp]: "extends s (s'\<lparr> events := es \<rparr>) = extends s s'"
  by (simp add: extends_def stage_links_def attempt_keys_def ended_attempts_def)

lemma moves_events [simp]: "moves i F t s (s'\<lparr> events := es \<rparr>) = moves i F t s s'"
  by (simp add: moves_def)

lemma move_stages_moves:
  assumes wf: "well_formed s" and r: "fetchone (\<lambda>r. rn_id r = i) (runs s) = Some r"
    and src: "rn_status r \<in> F" "\<not> is_terminal (rn_status r)"
    and f: "rn_id (f r) = rn_id r" "rn_task (f r) = rn_task r" "rn_status (f r) = t"
    and s': "s' = s\<lparr> runs := update_where (\<lambda>x. rn_id x = i) f (runs s),
      stages := move_stages i t (stages s) \<rparr>"
  shows "well_formed s' \<and> extends s s' \<and> moves i F t s s'"
proof -
  obtain g where g: "paired r g" "g \<in> set (stages s)" "r \<in> set (runs s)" "rn_id r = i"
    using fetch_pair [OF wf r] by metis
  have A: "rn_id x = i \<longleftrightarrow> x = r" if "x \<in> set (runs s)" for x
    using run_unique [OF wf that g(3)] g(4) by simp
  have B: "sg_run y = i \<and> \<not> is_terminal (sg_status y) \<longleftrightarrow> y = g" if "y \<in> set (stages s)" for y
    using move_pair_stages [OF wf g(3,2,1) src(2) that] g(4) by simp
  show ?thesis
    using move_pair_moves [OF wf g(3,2,1) A B f _ _ _ src(1) s' [unfolded move_stages_def]] g(4)
    by simp
qed

lemma transition_run_effect:
  assumes wf: "well_formed s" and op: "transition_run now i t reason s = (res, s')"
  shows "s' = s \<or> res = Inr () \<and> well_formed s' \<and> extends s s' \<and>
    moves i {x. run_transition_allowed x t} t s s'"
proof (cases "fetchone (\<lambda>r. rn_id r = i) (runs s)")
  case None
  then show ?thesis using op by (simp add: transition_run_def)
next
  case (Some r)
  show ?thesis
  proof (cases "rn_status r \<noteq> t \<and> run_transition_allowed (rn_status r) t")
    case True
    then show ?thesis
      using op Some move_stages_moves [OF wf Some, of "{x. run_transition_allowed x t}"
          "set_run_status now t reason" t s'] run_transition_not_terminal
      by (auto simp: transition_run_def set_run_status_def)
  next
    case False
    then show ?thesis using op Some by (auto simp: transition_run_def split: if_splits)
  qed
qed

lemma fail_queued_run_effect:
  assumes wf: "well_formed s" and op: "fail_queued_run now eid i c m s = (res, s')"
  shows "s' = s \<or> res = Inr True \<and> well_formed s' \<and> extends s s' \<and>
    moves i {QUEUED, PREPARING, RETRY_WAIT} FAILED s s'"
proof (cases "fetchone (\<lambda>r. rn_id r = i) (runs s)")
  case None
  then show ?thesis using op by (auto simp: fail_queued_run_def split: if_splits)
next
  case (Some r)
  show ?thesis
  proof (cases "rn_status r \<in> {QUEUED, PREPARING, RETRY_WAIT}")
    case True
    then have "\<not> is_terminal (rn_status r)" by auto
    then show ?thesis
      using op Some True move_stages_moves [OF wf Some True,
          of "\<lambda>x. x\<lparr> rn_status := FAILED, rn_ended := Some now, rn_reason := Some c \<rparr>" FAILED, OF _ _ _ _ refl]
      by (auto simp: fail_queued_run_def split: if_splits)
  next
    case False
    then show ?thesis using op Some by (auto simp: fail_queued_run_def split: if_splits)
  qed
qed

lemma schedule_retry_effect:
  assumes wf: "well_formed s" and op: "schedule_retry i gid reason s = (res, s')"
    and link: "(gid, i) \<in> stage_links s"
  shows "s' = s \<and> res \<noteq> Inr () \<or> res = Inr () \<and> well_formed s' \<and> extends s s' \<and> moves i {RUNNING} RETRY_WAIT s s'"
proof -
  obtain g where g: "g \<in> set (stages s)" "sg_id g = gid" "sg_run g = i"
    using link by (auto simp: stage_links_def)
  have fg: "fetchone (\<lambda>x. sg_id x = gid) (stages s) = Some g"
    using fetchone_key [OF well_formed_distinct(2) [OF wf] g(1)] g(2) by simp
  have "i \<in> set (map rn_id (runs s))"
    using g well_formed_stage_runs [OF wf] by (metis image_eqI set_map)
  then obtain r where r: "r \<in> set (runs s)" "rn_id r = i" by auto
  have fr: "fetchone (\<lambda>x. rn_id x = i) (runs s) = Some r"
    using fetchone_key [OF well_formed_distinct(1) [OF wf] r(1)] r(2) by simp
  have p: "paired r g"
    using fetch_pair [OF wf fr] g stage_unique(2) [OF wf] by metis
  show ?thesis
  proof (cases "rn_status r = RUNNING")
    case True
    let ?s = "s\<lparr> runs := update_where (\<lambda>x. rn_id x = i)
        (\<lambda>x. x\<lparr> rn_status := RETRY_WAIT, rn_reason := Some reason \<rparr>) (runs s),
      stages := update_where (\<lambda>y. sg_id y = gid) (\<lambda>y. y\<lparr> sg_status := RETRY_WAIT \<rparr>) (stages s) \<rparr>"
    have "well_formed ?s \<and> extends s ?s \<and> moves (rn_id r) {RUNNING} RETRY_WAIT s ?s"
      by (rule move_pair_moves [OF wf r(1) g(1) p])
        (use True g r run_unique [OF wf _ r(1)] stage_unique(1) [OF wf _ g(1)] in auto)
    moreover have "s' = ?s" "res = Inr ()"
      using op fg fr True p by (auto simp: schedule_retry_def paired_def run_transition_allowed_iff)
    ultimately show ?thesis using r(2) by simp
  next
    case False
    then show ?thesis using op fg p by (auto simp: schedule_retry_def paired_def)
  qed
qed

lemma request_retry_effect:
  assumes wf: "well_formed s" and op: "request_retry now eid i who why s = (res, s')"
  shows "s' = s \<or> res = Inr () \<and> well_formed s' \<and> extends s s' \<and> moves i {FAILED} RETRY_WAIT s s'"
proof (cases "s' = s")
  case False
  then obtain r where r: "fetchone (\<lambda>r. rn_id r = i) (runs s) = Some r"
    using op by (auto simp: request_retry_def split: if_splits option.splits)
  obtain g where g: "fetchone (\<lambda>g. sg_run g = i) (stages s) = Some g" "paired r g"
    "g \<in> set (stages s)" "r \<in> set (runs s)" "rn_id r = i"
    using fetch_pair [OF wf r] by metis
  let ?s = "s\<lparr> runs := update_where (\<lambda>x. rn_id x = i)
      (\<lambda>x. x\<lparr> rn_status := RETRY_WAIT,
         rn_reason := Some (''retry requested by '' @ who @ '': '' @ why) \<rparr>) (runs s),
    stages := update_where (\<lambda>x. sg_id x = sg_id g) (\<lambda>x. x\<lparr> sg_status := RETRY_WAIT \<rparr>) (stages s) \<rparr>"
  have "res = Inr () \<and> rn_status r = FAILED \<and> (\<exists>es. s' = ?s\<lparr> events := es \<rparr>)"
    using op r g(1) False
    by (auto simp: request_retry_def Let_def split: if_splits option.splits)
  moreover have "well_formed ?s \<and> extends s ?s \<and> moves (rn_id r) {FAILED} RETRY_WAIT s ?s"
    if "rn_status r = FAILED"
    by (rule move_pair_moves [OF wf g(4,3,2)])
      (use that g run_unique [OF wf _ g(4)] stage_unique(1) [OF wf _ g(3)] in auto)
  ultimately show ?thesis using g(5) by auto
qed simp

lemma submit_run_effect:
  assumes wf: "well_formed s"
    and op: "submit_run now rid gid task key version idem ikey resum s = (res, s')"
  shows "s' = s \<or> (\<exists>r. res = Inr r) \<and> well_formed s' \<and> extends s s' \<and>
    ledger_of s rid = None \<and> 0 < py_int (max_attempts task) \<and>
    ledger_of s' = (ledger_of s)(rid \<mapsto> \<lparr> e_status = QUEUED, e_budget = py_int (max_attempts task),
      e_made = 0, e_running = 0 \<rparr>) \<and> attempts s' = attempts s \<and> reservations s' = reservations s"
proof (cases "s' = s")
  case False
  define r where "r = \<lparr> rn_id = rid, rn_task_id = task_id task, rn_key = ikey, rn_status = QUEUED,
    rn_task = task, rn_created = now, rn_started = None, rn_ended = None, rn_reason = None \<rparr>"
  define g where "g = \<lparr> sg_id = gid, sg_run = rid, sg_key = key, sg_ordinal = 0,
    sg_plugin_id = plugin_id task, sg_plugin_version = version, sg_status = QUEUED, sg_created = now,
    sg_started = None, sg_resumable = resum \<rparr>"
  have "TaskSpec_validate task = Inr () \<and> rid \<notin> rn_id ` set (runs s) \<and> gid \<notin> sg_id ` set (stages s) \<and>
      res = Inr r \<and> s' = s\<lparr> runs := runs s @ [r], stages := stages s @ [g] \<rparr>"
    using op False unfolding submit_run_def Let_def r_def g_def
    by (simp split: sum.splits if_splits option.splits bool.splits list.splits)
  then have new: "TaskSpec_validate task = Inr ()" "rid \<notin> rn_id ` set (runs s)"
    "gid \<notin> sg_id ` set (stages s)" "res = Inr r"
    "s' = s\<lparr> runs := runs s @ [r], stages := stages s @ [g] \<rparr>" by blast+
  have ids: "rn_id r = rid" "sg_run g = rid" "sg_id g = gid" by (simp_all add: r_def g_def)
  have wf': "well_formed s'"
    using wf new(1-3) ids unfolding new(5) well_formed_def
    by (auto simp: paired_def r_def g_def intro!: list_all2_appendI)
  have fresh: "a \<in> set (attempts s) \<Longrightarrow> at_stage a \<noteq> gid" for a
    using wf new(3) by (auto simp: well_formed_def)
  then have zero: "attempts_made gid s' = 0" "attempts_running gid s' = 0"
    by (auto simp: attempts_made_def attempts_running_def new(5))
  have "ledger_of s' i = ((ledger_of s)(rid \<mapsto> \<lparr> e_status = QUEUED,
    e_budget = py_int (max_attempts task), e_made = 0, e_running = 0 \<rparr>)) i" for i
  proof (cases "i = rid")
    case True
    have "ledger_of s' (rn_id r) = Some (entry_of s' r g)"
      using wf' ids by (intro ledger_ofI) (auto simp: new(5))
    then show ?thesis using True ids zero by (simp add: entry_of_def r_def)
  next
    case False
    then show ?thesis
      using ids by (simp, intro ledger_of_other [OF wf wf'])
        (auto simp: new(5) attempts_made_def attempts_running_def)
  qed
  moreover have "ledger_of s rid = None" using new(2) ledger_of_None [OF wf] by blast
  moreover have "extends s s'"
    by (auto simp: new(5) extends_def stage_links_def attempt_keys_def ended_attempts_def)
  ultimately show ?thesis
    using wf' new(1,4,5) TaskSpec_validate_Inr(3) [OF new(1)] by auto
qed simp

text \<open>The number a new attempt gets is one more than the attempts its stage has.\<close>

lemma next_attempt_number_made:
  assumes "well_formed s"
  shows "next_attempt_number g s = Suc (attempts_made g s)"
proof -
  have "at_number ` {a \<in> set (attempts s). at_stage a = g} =
      set (map at_number (filter (\<lambda>a. at_stage a = g) (attempts s)))"
    by simp
  also have "\<dots> = {1..<Suc (attempts_made g s)}"
    using assms unfolding well_formed_def numbered_def attempts_made_def by (metis set_upt)
  finally have "insert 0 (at_number ` {a \<in> set (attempts s). at_stage a = g}) = {0..attempts_made g s}"
    by auto
  moreover have "Max {0..attempts_made g s} = attempts_made g s"
    by (rule Max_eqI) auto
  ultimately show ?thesis by (simp add: next_attempt_number_def)
qed

lemma stage_run_exists:
  assumes wf: "well_formed s" and g: "g \<in> set (stages s)"
  obtains r where "r \<in> set (runs s)" "rn_id r = sg_run g" "paired r g"
proof -
  obtain n where n: "n < length (stages s)" "stages s ! n = g"
    using g by (auto simp: in_set_conv_nth)
  have "list_all2 paired (runs s) (stages s)" using wf by (simp add: well_formed_def)
  then have "n < length (runs s)" "paired (runs s ! n) g"
    using n by (auto simp: list_all2_conv_all_nth)
  then show ?thesis using that [of "runs s ! n"] by (auto simp: paired_def)
qed

definition starts :: "string \<Rightarrow> attempt_row \<Rightarrow> store \<Rightarrow> store \<Rightarrow> bool" where
  "starts i a s s' = (\<exists>v. ledger_of s i = Some v \<and> e_status v \<in> {QUEUED, RETRY_WAIT} \<and>
     at_number a = Suc (e_made v) \<and>
     ledger_of s' = (ledger_of s)(i \<mapsto> v\<lparr> e_status := RUNNING, e_made := Suc (e_made v),
       e_running := Suc (e_running v) \<rparr>))"

text \<open>The status half of a claim: the stage and the run go to \<open>RUNNING\<close>.\<close>

definition start_moved :: "timestamp \<Rightarrow> string \<Rightarrow> string \<Rightarrow> store \<Rightarrow> store" where
  "start_moved now gid i s = s\<lparr>
     runs := update_where (\<lambda>x. rn_id x = i \<and> rn_status x \<in> {QUEUED, PREPARING, RETRY_WAIT})
       (\<lambda>x. x\<lparr> rn_status := RUNNING, rn_started := coalesce (rn_started x) now \<rparr>) (runs s),
     stages := update_where (\<lambda>x. sg_id x = gid)
       (\<lambda>x. x\<lparr> sg_status := RUNNING, sg_started := coalesce (sg_started x) now \<rparr>) (stages s) \<rparr>"

lemma start_moved_moves:
  assumes wf: "well_formed s" and g: "g \<in> set (stages s)" "sg_id g = gid" "sg_run g = i"
    and st: "sg_status g \<in> {QUEUED, RETRY_WAIT}"
  shows "well_formed (start_moved now gid i s) \<and> extends s (start_moved now gid i s) \<and>
    moves i {QUEUED, RETRY_WAIT} RUNNING s (start_moved now gid i s)"
proof -
  obtain r where r: "r \<in> set (runs s)" "rn_id r = i" "paired r g"
    using stage_run_exists [OF wf g(1)] g(3) by metis
  have run: "rn_id x = i \<and> rn_status x \<in> {QUEUED, PREPARING, RETRY_WAIT} \<longleftrightarrow> x = r"
    if "x \<in> set (runs s)" for x
    using run_unique [OF wf that r(1)] r(2,3) st by (auto simp: paired_def)
  have stage: "sg_id y = gid \<longleftrightarrow> y = g" if "y \<in> set (stages s)" for y
    using stage_unique(1) [OF wf that g(1)] g(2) by auto
  have "well_formed (start_moved now gid i s) \<and> extends s (start_moved now gid i s) \<and>
      moves (rn_id r) {QUEUED, RETRY_WAIT} RUNNING s (start_moved now gid i s)"
    by (rule move_pair_moves [OF wf r(1) g(1) r(3) run stage _ _ _ _ _ _ _ start_moved_def])
      (use r(3) st in \<open>auto simp: paired_def\<close>)
  then show ?thesis using r(2) by simp
qed

lemma start_attempt_Some:
  assumes wf: "well_formed s" and link: "(gid, i) \<in> stage_links s"
    and op: "start_attempt now aid gid w ws lease res cap s = (Inr (Some a), s')"
  obtains g R where "g \<in> set (stages s)" "sg_id g = gid" "sg_run g = i"
    "sg_status g \<in> {QUEUED, RETRY_WAIT}" "aid \<notin> at_id ` set (attempts s)"
    "a = new_attempt now aid gid (Suc (attempts_made gid s)) w ws lease"
    "reserve aid res cap s = Inr (Some R)"
    "s' = (start_moved now gid i s)\<lparr> attempts := attempts s @ [a], reservations := R \<rparr>"
proof -
  obtain g where g: "g \<in> set (stages s)" "sg_id g = gid" "sg_run g = i"
    using link by (auto simp: stage_links_def)
  have fg: "fetchone (\<lambda>x. sg_id x = gid) (stages s) = Some g"
    using fetchone_key [OF well_formed_distinct(2) [OF wf] g(1)] g(2) by simp
  have "sg_status g \<in> {QUEUED, RETRY_WAIT}" "aid \<notin> at_id ` set (attempts s)"
    "a = new_attempt now aid gid (Suc (attempts_made gid s)) w ws lease"
    "\<exists>R. reserve aid res cap s = Inr (Some R) \<and>
      s' = (start_moved now gid i s)\<lparr> attempts := attempts s @ [a], reservations := R \<rparr>"
    using op fg g(3) next_attempt_number_made [OF wf, of gid]
    by (auto simp: start_attempt_def Let_def start_moved_def split: if_splits sum.splits option.splits)
  then show ?thesis using that g by blast
qed

lemma start_attempt_effect:
  assumes wf: "well_formed s" and link: "(gid, i) \<in> stage_links s"
    and op: "start_attempt now aid gid w ws lease res cap s = (Inr (Some a), s')"
  shows "well_formed s'" "extends s s'" "starts i a s s'"
    "at_id a = aid" "at_stage a = gid" "at_status a = A_RUNNING" "aid \<notin> at_id ` set (attempts s)"
    "attempts s' = attempts s @ [a]" "reserve aid res cap s = Inr (Some (reservations s'))"
proof -
  let ?m = "start_moved now gid i s"
  obtain g R where g: "g \<in> set (stages s)" "sg_id g = gid" "sg_run g = i"
    "sg_status g \<in> {QUEUED, RETRY_WAIT}" and aid: "aid \<notin> at_id ` set (attempts s)"
    and a: "a = new_attempt now aid gid (Suc (attempts_made gid s)) w ws lease"
    and R: "reserve aid res cap s = Inr (Some R)"
    and s': "s' = ?m\<lparr> attempts := attempts s @ [a], reservations := R \<rparr>"
    using start_attempt_Some [OF wf link op] by metis
  have m: "well_formed ?m" "extends s ?m" "moves i {QUEUED, RETRY_WAIT} RUNNING s ?m"
    using start_moved_moves [OF wf g] by blast+
  have ma: "attempts ?m = attempts s" by (simp add: start_moved_def)
  obtain g' where g': "g' \<in> set (stages ?m)" "sg_id g' = gid" "sg_run g' = i"
    using m(2) link by (auto simp: extends_def stage_links_def)
  obtain r' where r': "r' \<in> set (runs ?m)" "rn_id r' = i" "paired r' g'"
    using stage_run_exists [OF m(1) g'(1)] g'(3) by metis
  have s'': "s' = ?m\<lparr> attempts := attempts ?m @ [a], reservations := R \<rparr>"
    by (simp add: s' ma)
  have prems: "sg_run g' = rn_id r'" "at_stage a = sg_id g'"
    "at_number a = Suc (attempts_made (sg_id g') ?m)" "at_id a \<notin> at_id ` set (attempts ?m)"
    "at_status a = A_RUNNING"
    using g' r' aid ma by (simp_all add: a new_attempt_def attempts_made_def)
  note add = add_attempt [OF m(1) r'(1) g'(1) prems s'']
  show "well_formed s'" by (rule add(1))
  have "extends ?m s'"
    by (auto simp: s'' extends_def stage_links_def attempt_keys_def ended_attempts_def)
  then show "extends s s'" using m(2) extends_trans by blast
  obtain v where v: "ledger_of s i = Some v" "e_status v \<in> {QUEUED, RETRY_WAIT}"
    "ledger_of ?m = (ledger_of s)(i \<mapsto> v\<lparr> e_status := RUNNING \<rparr>)"
    using m(3) by (auto simp: moves_def)
  have e: "entry_of ?m r' g' = v\<lparr> e_status := RUNNING \<rparr>"
    using ledger_ofI [OF m(1) r'(1) g'(1)] g' r' v(3) by simp
  have "attempts_made (sg_id g') ?m = e_made v" "attempts_running (sg_id g') ?m = e_running v"
    using arg_cong [OF e, of e_made] arg_cong [OF e, of e_running] by (simp_all add: entry_of_def)
  then show "starts i a s s'"
    using add(2) v r'(2) prems(3) e by (auto simp: starts_def)
  show "at_id a = aid" "at_stage a = gid" "at_status a = A_RUNNING"
    by (simp_all add: a new_attempt_def)
  show "aid \<notin> at_id ` set (attempts s)" by (rule aid)
  show "attempts s' = attempts s @ [a]" "reserve aid res cap s = Inr (Some (reservations s'))"
    using R by (simp_all add: s')
qed

text \<open>An attempt stops running.\<close>

definition stops :: "string \<Rightarrow> string \<Rightarrow> store \<Rightarrow> store \<Rightarrow> bool" where
  "stops i aid s s' = (\<exists>v n. ledger_of s i = Some v \<and> e_running v = Suc n \<and>
     ledger_of s' = (ledger_of s)(i \<mapsto> v\<lparr> e_running := n \<rparr>) \<and>
     (\<exists>a b. a \<in> set (attempts s) \<and> at_id a = aid \<and> at_status a = A_RUNNING \<and> at_status b \<noteq> A_RUNNING \<and>
        at_id b = aid \<and> set (attempts s') = insert b (set (attempts s) - {a})))"

lemma rewrite_attempt_effect:
  assumes wf: "well_formed s" and a: "a \<in> set (attempts s)" "at_status a = A_RUNNING"
    and link: "(at_stage a, i) \<in> stage_links s"
    and P: "\<And>x. x \<in> set (attempts s) \<Longrightarrow> P x \<longleftrightarrow> x = a"
    and f: "at_id (f a) = at_id a" "at_stage (f a) = at_stage a" "at_number (f a) = at_number a"
    and s': "s' = s\<lparr> attempts := update_where P f (attempts s), reservations := R \<rparr>"
  shows "well_formed s'" "extends s s'"
    "at_status (f a) \<noteq> A_RUNNING \<Longrightarrow> stops i (at_id a) s s'"
    "at_status (f a) = A_RUNNING \<Longrightarrow> ledger_of s' = ledger_of s"
proof -
  obtain g where g: "g \<in> set (stages s)" "sg_id g = at_stage a" "sg_run g = i"
    using link by (auto simp: stage_links_def)
  obtain r where r: "r \<in> set (runs s)" "rn_id r = i" "paired r g"
    using stage_run_exists [OF wf g(1)] g(3) by metis
  have rg: "sg_run g = rn_id r" "at_stage a = sg_id g" using g r by simp_all
  note rw = rewrite_attempt [OF wf r(1) g(1) rg(1) a(1) rg(2) a(2) P f s']
  have set': "set (attempts s') = insert (f a) (set (attempts s) - {a})"
    using set_update_where_one [OF a(1) P, of f] by (simp add: s')
  show "well_formed s'" by (rule rw(1))
  show "extends s s'"
    by (rule extends_rewrite [OF _ a set' f]) (simp add: s')
  have L: "ledger_of s i = Some (entry_of s r g)"
    using ledger_ofI [OF wf r(1) g(1)] rg(1) r(2) by simp
  show "stops i (at_id a) s s'" if "at_status (f a) \<noteq> A_RUNNING"
  proof -
    obtain n where "attempts_running (sg_id g) s = Suc n"
      using rw(3) gr0_conv_Suc by blast
    then show ?thesis
      unfolding stops_def using L rw(2) that r(2) a f(1) set'
      by (intro exI [of _ "entry_of s r g"] exI [of _ n]) (auto simp: entry_of_def)
  qed
  show "ledger_of s' = ledger_of s" if "at_status (f a) = A_RUNNING"
    using rw(2) that L r(2) by (auto simp: entry_of_def)
qed

lemma attempt_stage_link:
  assumes wf: "well_formed s" and "a \<in> set (attempts s)"
  obtains i where "(at_stage a, i) \<in> stage_links s"
proof -
  obtain g where "g \<in> set (stages s)" "sg_id g = at_stage a"
    using assms by (fastforce simp: well_formed_def)
  then show ?thesis using that [of "sg_run g"] by (force simp: stage_links_def)
qed

lemma finish_attempt_effect:
  assumes wf: "well_formed s" and op: "finish_attempt now aid status x fl u s = (res, s')"
    and key: "(aid, gid, n) \<in> attempt_keys s" and link: "(gid, i) \<in> stage_links s"
    and status: "status \<in> {A_SUCCEEDED, A_FAILED}"
  shows "s' = s \<and> (\<exists>e. res = Inl (InvalidTransition e)) \<or>
    res = Inr () \<and> well_formed s' \<and> extends s s' \<and> stops i aid s s' \<and>
    reservations s' = delete_where (\<lambda>x. rs_attempt x = aid) (reservations s)"
proof -
  obtain a where a: "a \<in> set (attempts s)" "at_id a = aid" "at_stage a = gid"
    using key by (auto simp: attempt_keys_def)
  have fa: "fetchone (\<lambda>x. at_id x = aid) (attempts s) = Some a"
    using fetchone_key [OF well_formed_distinct(3) [OF wf] a(1)] a(2) by simp
  have P: "at_id x = aid \<longleftrightarrow> x = a" if "x \<in> set (attempts s)" for x
    using attempt_unique [OF wf that a(1)] a(2) by simp
  show ?thesis
  proof (cases "attempt_transition_allowed (at_status a) status")
    case True
    then have run: "at_status a = A_RUNNING"
      using status attempt_transition_running by blast
    define f where "f = (\<lambda>y :: attempt_row. y\<lparr> at_status := status, at_ended := Some now, at_exit := x,
       at_failure := (case fl of None \<Rightarrow> None | Some d \<Rightarrow> if d = [] then None else Some (JsonText (PDict d))),
       at_cpu_seconds := fst u, at_peak_memory := fst (snd u), at_peak_processes := snd (snd u),
       at_lease := None \<rparr>)"
    have s': "res = Inr ()" "s' = s\<lparr> attempts := update_where (\<lambda>x. at_id x = aid) f (attempts s),
      reservations := delete_where (\<lambda>x. rs_attempt x = aid) (reservations s) \<rparr>"
      using op fa True by (auto simp: finish_attempt_def f_def)
    show ?thesis
      using rewrite_attempt_effect [OF wf a(1) run, of i "\<lambda>x. at_id x = aid" f, OF _ P _ _ _ s'(2)]
        link a s' status by (auto simp: f_def)
  next
    case False
    then show ?thesis using op fa by (auto simp: finish_attempt_def)
  qed
qed

lemma mark_lost_row_effect:
  assumes wf: "well_formed s" and op: "mark_lost_row now aid s = (hit, s')"
    and key: "(aid, gid, n) \<in> attempt_keys s" and link: "(gid, i) \<in> stage_links s"
  shows "s' = s \<and> \<not> hit \<or>
    hit \<and> well_formed s' \<and> extends s s' \<and> stops i aid s s' \<and> reservations s' = reservations s \<and>
    aid \<in> at_id ` {a \<in> ended_attempts s'. at_status a = A_LOST}"
proof -
  obtain a where a: "a \<in> set (attempts s)" "at_id a = aid" "at_stage a = gid"
    using key by (auto simp: attempt_keys_def)
  have only: "at_id x = aid \<longleftrightarrow> x = a" if "x \<in> set (attempts s)" for x
    using attempt_unique [OF wf that a(1)] a(2) by simp
  show ?thesis
  proof (cases hit)
    case True
    then have "filter (\<lambda>a. at_id a = aid \<and> expired now a) (attempts s) \<noteq> []"
      using op by (auto simp: mark_lost_row_def split: if_splits)
    then have exp: "expired now a" using only by (auto simp: filter_empty_conv)
    then have P: "at_id x = aid \<and> expired now x \<longleftrightarrow> x = a" if "x \<in> set (attempts s)" for x
      using only [OF that] by auto
    have run: "at_status a = A_RUNNING" using exp by (simp add: expired_def)
    define f where "f = (\<lambda>a :: attempt_row. a\<lparr> at_status := A_LOST, at_ended := Some now,
       at_failure := Some (JsonText (PDict LEASE_FAILURE)), at_lease := None \<rparr>)"
    have s': "s' = s\<lparr> attempts := update_where (\<lambda>a. at_id a = aid \<and> expired now a) f (attempts s),
      reservations := reservations s \<rparr>"
      using op True by (auto simp: mark_lost_row_def f_def split: if_splits)
    have "f a \<in> set (attempts s')"
      using set_update_where_one [OF a(1) P, of f] by (simp add: s')
    then have "f a \<in> {a \<in> ended_attempts s'. at_status a = A_LOST}" "at_id (f a) = aid"
      using a(2) by (simp_all add: ended_attempts_def f_def)
    then have "aid \<in> at_id ` {a \<in> ended_attempts s'. at_status a = A_LOST}"
      by (metis imageI)
    then show ?thesis
      using rewrite_attempt_effect [OF wf a(1) run,
          of i "\<lambda>a. at_id a = aid \<and> expired now a" f, OF _ P _ _ _ s'] link a s' True
      by (auto simp: f_def)
  next
    case False
    then show ?thesis using op by (auto simp: mark_lost_row_def split: if_splits)
  qed
qed

text \<open>A lease renewal or a process record rewrites a row that keeps running.\<close>

definition refreshes :: "store \<Rightarrow> store \<Rightarrow> bool" where
  "refreshes s s' = (ledger_of s' = ledger_of s \<and> reservations s' = reservations s \<and>
     map (\<lambda>a. (at_id a, at_stage a, at_number a, at_status a)) (attempts s') =
     map (\<lambda>a. (at_id a, at_stage a, at_number a, at_status a)) (attempts s))"

lemma owned_update_effect:
  assumes wf: "well_formed s"
    and s': "s' = s\<lparr> attempts := update_where (owned_running aid w) f (attempts s) \<rparr>"
    and f: "\<And>a. at_id (f a) = at_id a" "\<And>a. at_stage (f a) = at_stage a"
      "\<And>a. at_number (f a) = at_number a" "\<And>a. at_status (f a) = at_status a"
    and n: "length (filter (owned_running aid w) (attempts s)) = 1"
  shows "well_formed s' \<and> extends s s' \<and> refreshes s s'"
proof -
  have "filter (owned_running aid w) (attempts s) \<noteq> []" using n by auto
  then obtain a where a: "a \<in> set (attempts s)" "owned_running aid w a"
    unfolding filter_empty_conv by blast
  have P: "owned_running aid w x \<longleftrightarrow> x = a" if "x \<in> set (attempts s)" for x
    using a(2) attempt_unique [OF wf that a(1)] by (auto simp: owned_running_def)
  obtain i where link: "(at_stage a, i) \<in> stage_links s" using attempt_stage_link [OF wf a(1)] .
  have run: "at_status a = A_RUNNING" using a(2) by (simp add: owned_running_def)
  have s'': "s' = s\<lparr> attempts := update_where (owned_running aid w) f (attempts s),
      reservations := reservations s \<rparr>"
    by (simp add: s')
  have "map (\<lambda>a. (at_id a, at_stage a, at_number a, at_status a)) (attempts s') =
     map (\<lambda>a. (at_id a, at_stage a, at_number a, at_status a)) (attempts s)"
    by (simp add: s' map_update_where f)
  then show ?thesis
    using rewrite_attempt_effect [OF wf a(1) run link P _ _ _ s''] f run s'
    by (simp add: refreshes_def)
qed

lemma heartbeat_update_effect:
  assumes "well_formed s" "heartbeat_update now aid w lease s = (res, s')"
  shows "s' = s \<or> well_formed s' \<and> extends s s' \<and> refreshes s s'"
  using owned_update_effect [OF assms(1)] assms(2)
  by (auto simp: heartbeat_update_def split: if_splits)

lemma attach_process_effect:
  assumes "well_formed s" "attach_process aid w pid pgid ticks s = (res, s')"
  shows "s' = s \<or> well_formed s' \<and> extends s s' \<and> refreshes s s'"
  using owned_update_effect [OF assms(1)] assms(2)
  by (auto simp: attach_process_def split: if_splits)

lemma release_resources_effect:
  "well_formed (release_resources aid s) = well_formed s"
  "ledger_of (release_resources aid s) = ledger_of s"
  "extends s (release_resources aid s)"
proof -
  show "well_formed (release_resources aid s) = well_formed s"
    by (simp add: well_formed_def release_resources_def)
  show "ledger_of (release_resources aid s) = ledger_of s"
    by (rule ext) (simp add: ledger_of_def release_resources_def entry_of_def attempts_made_def
        attempts_running_def cong: option.case_cong)
  show "extends s (release_resources aid s)"
    by (rule extends_same_attempts) (simp_all add: release_resources_def)
qed

end
