(* ===== verification/Kernel.thy ===== *)
theory Kernel
  imports Ledger
begin

text \<open>
  The kernel as it runs: several worker processes, each with attempt threads and a maintenance
  loop, interleaved with client calls on one SQLite store. Every transaction of
  \<open>core/runtime/src/openroad_platform_runtime/store.py\<close> is one atomic step; what a thread does next
  is its program counter. \<open>advance\<close> is the code between two transactions: the end of \<open>_run_attempt\<close>,
  \<open>_record_runtime_failure\<close> (\<open>runtime.py\<close>), the second half of \<open>reclaim_expired_attempts\<close>
  (\<open>store.py\<close>) and \<open>_finish_abandoned_cancellations\<close> (\<open>worker.py\<close>).
\<close>

section \<open>Decisions of an attempt thread\<close>

fun attempt_status :: "RuntimeStatus \<Rightarrow> AttemptStatus" where
  "attempt_status SUCCEEDED = A_SUCCEEDED"
| "attempt_status _ = A_FAILED"

definition failure_of :: "PluginResult \<Rightarrow> pydict option" where
  "failure_of res = (if res_failure res = PNone then None else Some (items (res_failure res)))"

definition terminal_reason :: "PluginResult \<Rightarrow> string option" where
  "terminal_reason res =
     (if truthy (res_failure res)
      then Some (if truthy (dgetN (items (res_failure res)) ''category'')
                 then py_str (dgetN (items (res_failure res)) ''category'')
                 else RuntimeStatus_value (res_status res))
      else None)"

definition should_retry :: "run_row \<Rightarrow> attempt_row \<Rightarrow> PluginResult \<Rightarrow> bool" where
  "should_retry run attempt res =
     (if res_status res \<noteq> FAILED then False
      else if \<not> (truthy (res_failure res) \<and> truthy (dgetN (items (res_failure res)) ''retryable''))
        then False
      else int (at_number attempt) < py_int (max_attempts (rn_task run)))"

definition RUNTIME_FAILURE :: pydict where
  "RUNTIME_FAILURE = [(PStr ''category'', PStr ''runtime_error''), (PStr ''message'', PStr ''exception'')]"

section \<open>Threads\<close>

text \<open>
  \<open>Executing\<close>: the plugin runs. \<open>Settling\<close>: \<open>finish_attempt\<close> has committed, the run's outcome has
  not. \<open>Failing\<close>, \<open>FailingRun\<close>, \<open>FailingMove\<close>: the three transactions of \<open>_record_runtime_failure\<close>.
  \<open>Reclaiming\<close>, \<open>Releasing\<close>: the marking loop of a reclamation, with the runs marked so far;
  \<open>SettlingLost\<close>, \<open>Resuming\<close>, \<open>Losing\<close>: its settling loop. \<open>Cancelling\<close>: the abandoned
  cancellations still to settle. \<open>Done\<close>: returned, or died with its process.
\<close>

datatype thread =
    Done
  | Executing run_row string attempt_row
  | Settling run_row string attempt_row PluginResult
  | Failing run_row attempt_row
  | FailingRun run_row
  | FailingMove run_row
  | Reclaiming timestamp "string list"
  | Releasing timestamp string "string list"
  | SettlingLost "string list"
  | Resuming string string "string list"
  | Losing string "string list"
  | Cancelling "string list"

record kernel =
  db :: store
  threads :: "thread list"

definition boot :: kernel where
  "boot = \<lparr> db = empty_store, threads = [] \<rparr>"

definition settle :: "timestamp \<Rightarrow> run_row \<Rightarrow> string \<Rightarrow> attempt_row \<Rightarrow> PluginResult \<Rightarrow> store \<Rightarrow> thread \<times> store" where
  "settle now run stage_run_id attempt res s =
     (case (if should_retry run attempt res
            then schedule_retry (rn_id run) stage_run_id
              (''retrying: '' @ (case terminal_reason res of None \<Rightarrow> ''None'' | Some x \<Rightarrow> x)) s
            else transition_run now (rn_id run) (res_status res) (terminal_reason res) s) of
        (Inr _, s') \<Rightarrow> (Done, s') | (Inl _, s') \<Rightarrow> (Failing run attempt, s'))"

fun advance :: "timestamp \<Rightarrow> thread \<Rightarrow> store \<Rightarrow> thread \<times> store" where
  "advance now (Settling run stage attempt res) s = settle now run stage attempt res s"
| "advance now (Failing run attempt) s =
     (case finish_attempt now (at_id attempt) A_FAILED (Some 1) (Some RUNTIME_FAILURE)
             (PNone, PNone, PNone) s of
        (Inr _, s') \<Rightarrow> (FailingRun run, s')
      | (Inl e, s') \<Rightarrow> (if is_InvalidTransition e then FailingRun run else Done, s'))"
| "advance now (FailingRun run) s =
     (case get_run (rn_id run) s of
        Inl _ \<Rightarrow> (Done, s)
      | Inr current \<Rightarrow> (if rn_status current = RUNNING then FailingMove run else Done, s))"
| "advance now (FailingMove run) s =
     (case transition_run now (rn_id run) FAILED (Some ''runtime_error'') s of (_, s') \<Rightarrow> (Done, s'))"
| "advance now (Releasing reference attempt_id marked) s =
     (Reclaiming reference marked, release_resources attempt_id s)"
| "advance now (Reclaiming reference marked) s = (SettlingLost (sort (remdups marked)), s)"
| "advance now (SettlingLost []) s = (Done, s)"
| "advance now (SettlingLost (run_id # rest)) s =
     (case resume_stage run_id s of
        None \<Rightarrow> (Losing run_id rest, s) | Some stage \<Rightarrow> (Resuming run_id stage rest, s))"
| "advance now (Resuming run_id stage rest) s =
     (case schedule_retry run_id stage RESUME_REASON s of
        (Inr _, s') \<Rightarrow> (SettlingLost rest, s')
      | (Inl e, s') \<Rightarrow> (if is_InvalidTransition e then Losing run_id rest else Done, s'))"
| "advance now (Losing run_id rest) s =
     (case transition_run now run_id LOST (Some ''lease_expired'') s of
        (Inr _, s') \<Rightarrow> (SettlingLost rest, s')
      | (Inl e, s') \<Rightarrow> (if is_InvalidTransition e then SettlingLost rest else Done, s'))"
| "advance now (Cancelling []) s = (Done, s)"
| "advance now (Cancelling (run_id # rest)) s =
     (case transition_run now run_id CANCELLED (Some ''cancelled before the attempt started'') s of
        (Inr _, s') \<Rightarrow> (Cancelling rest, s')
      | (Inl e, s') \<Rightarrow> (if is_InvalidTransition e then Cancelling rest else Done, s'))"
| "advance now Done s = (Done, s)"
| "advance now (Executing run stage attempt) s = (Executing run stage attempt, s)"

section \<open>Steps\<close>

text \<open>
  \<open>Claim\<close> is \<open>execute_once_reporting\<close> up to \<open>start_attempt\<close>; its earlier reads only choose the stage,
  \<open>start_attempt\<close> checks it again. \<open>Fault\<close> is any exception before \<open>finish_attempt\<close>, \<open>Crash\<close> the death
  of a thread at any point. \<open>Custody\<close> stands for all writes to the evidence tables (artifacts,
  metrics, inputs, uploads, events, presence, objects), which no decision here reads: it replaces
  them by anything. \<open>Retry\<close> is the client's \<open>request_retry\<close>.
\<close>

datatype action =
    Submit timestamp string string TaskSpec string pyval bool "string option" bool
  | Cancel timestamp string
  | Preflight timestamp string string string string
  | Claim timestamp string string string string string
  | Finish nat timestamp PluginResult "pyval \<times> pyval \<times> pyval"
  | Fault nat
  | Advance nat timestamp
  | Crash nat
  | Heartbeat timestamp string string
  | Attach string string int int "int option"
  | Reclaim timestamp
  | MarkLost nat string
  | Sweep int
  | Custody "artifact_row list" "metric_row list" "input_row list" "uploaded_row list"
      "event_row list" "worker_row list" "string \<rightharpoonup> bytes"
  | Retry timestamp string string string string

definition spawn :: "thread \<Rightarrow> kernel \<Rightarrow> kernel" where
  "spawn th k = k\<lparr> threads := threads k @ [th] \<rparr>"

definition put :: "nat \<Rightarrow> thread \<times> store \<Rightarrow> kernel \<Rightarrow> kernel" where
  "put n r k = k\<lparr> db := snd r, threads := (threads k)[n := fst r] \<rparr>"

definition finish :: "timestamp \<Rightarrow> run_row \<Rightarrow> string \<Rightarrow> attempt_row \<Rightarrow> PluginResult \<Rightarrow>
   pyval \<times> pyval \<times> pyval \<Rightarrow> store \<Rightarrow> thread \<times> store" where
  "finish now run stage attempt res usage s =
     (case finish_attempt now (at_id attempt) (attempt_status (res_status res))
             (Some (py_int (exit_code res))) (failure_of res) usage s of
        (Inr _, s') \<Rightarrow> (Settling run stage attempt res, s')
      | (Inl _, s') \<Rightarrow> (Failing run attempt, s'))"

definition claim :: "RuntimeConfig \<Rightarrow> timestamp \<Rightarrow> string \<Rightarrow> string \<Rightarrow> string \<Rightarrow> string \<Rightarrow> string \<Rightarrow>
   kernel \<Rightarrow> kernel" where
  "claim c now attempt_id worker run_id stage_run_id workspace k =
     (case get_run run_id (db k) of
        Inl _ \<Rightarrow> k
      | Inr run \<Rightarrow>
          if \<not> (\<exists>g \<in> set (stages (db k)). sg_id g = stage_run_id \<and> sg_run g = run_id) then k
          else (case start_attempt now attempt_id stage_run_id worker workspace (lease_seconds c)
                       (Some (reservation_for c (rn_task run))) (capacity_of c) (db k) of
              (Inr (Some a), s') \<Rightarrow> spawn (Executing run stage_run_id a) (k\<lparr> db := s' \<rparr>)
            | (_, s') \<Rightarrow> k\<lparr> db := s' \<rparr>))"

text \<open>One step; \<open>None\<close> when the thread the action names is not at that point.\<close>

fun perform :: "RuntimeConfig \<Rightarrow> action \<Rightarrow> kernel \<Rightarrow> kernel option" where
  "perform c (Submit now rid gid task key version idem ikey resum) k =
     Some (k\<lparr> db := snd (submit_run now rid gid task key version idem ikey resum (db k)) \<rparr>)"
| "perform c (Cancel now rid) k =
     Some (k\<lparr> db := snd (transition_run now rid CANCEL_REQUESTED (Some ''cancellation requested'') (db k)) \<rparr>)"
| "perform c (Preflight now eid rid category message) k =
     Some (k\<lparr> db := snd (fail_queued_run now eid rid category message (db k)) \<rparr>)"
| "perform c (Claim now aid worker rid gid workspace) k = Some (claim c now aid worker rid gid workspace k)"
| "perform c (Finish n now res usage) k =
     (if n < length (threads k) \<and> PluginResult_validate res = Inr () then
        (case threads k ! n of
           Executing run stage attempt \<Rightarrow> Some (put n (finish now run stage attempt res usage (db k)) k)
         | _ \<Rightarrow> None)
      else None)"
| "perform c (Fault n) k =
     (if n < length (threads k) then
        (case threads k ! n of
           Executing run stage attempt \<Rightarrow> Some (put n (Failing run attempt, db k) k) | _ \<Rightarrow> None)
      else None)"
| "perform c (Advance n now) k =
     (if n < length (threads k) then Some (put n (advance now (threads k ! n) (db k)) k) else None)"
| "perform c (Crash n) k =
     (if n < length (threads k) then Some (put n (Done, db k) k) else None)"
| "perform c (Heartbeat now aid worker) k =
     Some (k\<lparr> db := snd (heartbeat_update now aid worker (lease_seconds c) (db k)) \<rparr>)"
| "perform c (Attach aid worker pid pgid ticks) k =
     Some (k\<lparr> db := snd (attach_process aid worker pid pgid ticks (db k)) \<rparr>)"
| "perform c (Reclaim now) k = Some (spawn (Reclaiming now []) k)"
| "perform c (MarkLost n aid) k =
     (if n < length (threads k) then
        (case threads k ! n of
           Reclaiming reference marked \<Rightarrow>
             (case fetchone (\<lambda>(a, _). at_id a = aid) (expired_rows reference (db k)) of
                None \<Rightarrow> None
              | Some (_, run_id) \<Rightarrow>
                  (case mark_lost_row reference aid (db k) of
                     (True, s') \<Rightarrow> Some (put n (Releasing reference aid (run_id # marked), s') k)
                   | (False, s') \<Rightarrow> Some (put n (Reclaiming reference marked, s') k)))
         | _ \<Rightarrow> None)
      else None)"
| "perform c (Sweep limit) k =
     (case abandoned_cancellations limit (db k) of
        Inl _ \<Rightarrow> None | Inr rs \<Rightarrow> Some (spawn (Cancelling rs) k))"
| "perform c (Custody ars ms ins ups evs ws objs) k =
     Some (k\<lparr> db := (db k)\<lparr> artifacts := ars, metrics := ms, inputs := ins, uploaded := ups,
       events := evs, workers := ws, objects := objs \<rparr> \<rparr>)"
| "perform c (Retry now eid rid who why) k =
     Some (k\<lparr> db := snd (request_retry now eid rid who why (db k)) \<rparr>)"

definition is_Retry :: "action \<Rightarrow> bool" where
  "is_Retry a = (case a of Retry _ _ _ _ _ \<Rightarrow> True | _ \<Rightarrow> False)"

text \<open>The step relation, with or without the client's \<open>request_retry\<close>.\<close>

inductive kernel_step :: "bool \<Rightarrow> RuntimeConfig \<Rightarrow> kernel \<Rightarrow> kernel \<Rightarrow> bool" for retries c where
  act: "perform c a k = Some k' \<Longrightarrow> is_Retry a \<longrightarrow> retries \<Longrightarrow> kernel_step retries c k k'"

inductive_cases kernel_stepE: "kernel_step retries c k k'"

text \<open>A sequence of actions, for traces.\<close>

fun run_actions :: "RuntimeConfig \<Rightarrow> action list \<Rightarrow> kernel \<Rightarrow> kernel option" where
  "run_actions c [] k = Some k"
| "run_actions c (a # as) k = (case perform c a k of None \<Rightarrow> None | Some k' \<Rightarrow> run_actions c as k')"

end
