(* ===== verification/Transitions.thy ===== *)
theory Transitions
  imports Main
begin

text \<open>
  Transition systems: reachable states, invariants, and simulations of one system by another. The
  two locales are the proof obligations; the kernel interprets them.
\<close>

inductive reachable :: "('s \<Rightarrow> bool) \<Rightarrow> ('s \<Rightarrow> 's \<Rightarrow> bool) \<Rightarrow> 's \<Rightarrow> bool" for init step where
  start: "init s \<Longrightarrow> reachable init step s"
| step: "reachable init step s \<Longrightarrow> step s s' \<Longrightarrow> reachable init step s'"

lemma reachable_mono:
  assumes "\<And>s s'. step s s' \<Longrightarrow> step' s s'" and "reachable init step s"
  shows "reachable init step' s"
  using assms(2)
proof induction
  case (start s)
  then show ?case by (rule reachable.start)
next
  case (step s s')
  then show ?case using assms(1) reachable.step by metis
qed

locale invariant_system =
  fixes init :: "'s \<Rightarrow> bool" and step :: "'s \<Rightarrow> 's \<Rightarrow> bool" and inv :: "'s \<Rightarrow> bool"
  assumes inv_init: "init s \<Longrightarrow> inv s"
    and inv_step: "inv s \<Longrightarrow> step s s' \<Longrightarrow> inv s'"
begin

lemma inv_reachable: "reachable init step s \<Longrightarrow> inv s"
  by (induction rule: reachable.induct) (auto intro: inv_init inv_step)

lemma inv_path: "step\<^sup>*\<^sup>* s s' \<Longrightarrow> inv s \<Longrightarrow> inv s'"
  by (induction rule: rtranclp_induct) (auto intro: inv_step)

lemma inv_along:
  assumes "reachable init step s" and "step\<^sup>*\<^sup>* s s'"
    and "\<And>t t'. inv t \<Longrightarrow> step t t' \<Longrightarrow> rel t t'"
    and "\<And>t. rel t t" "\<And>t u v. rel t u \<Longrightarrow> rel u v \<Longrightarrow> rel t v"
  shows "rel s s'"
  using assms(2)
proof (induction rule: rtranclp_induct)
  case base
  then show ?case by (rule assms(4))
next
  case (step t u)
  have "inv t" using inv_reachable [OF assms(1)] step(1) inv_path by blast
  then show ?case using assms(3,5) step by blast
qed

end

text \<open>A system whose steps, seen through \<open>view\<close>, are steps of a more abstract one (or none).\<close>

locale simulation = invariant_system init step inv
  for init :: "'s \<Rightarrow> bool" and step :: "'s \<Rightarrow> 's \<Rightarrow> bool" and inv :: "'s \<Rightarrow> bool" +
  fixes view :: "'s \<Rightarrow> 'a" and ainit :: "'a \<Rightarrow> bool" and astep :: "'a \<Rightarrow> 'a \<Rightarrow> bool"
  assumes sim_init: "init s \<Longrightarrow> ainit (view s)"
    and sim_step: "inv s \<Longrightarrow> step s s' \<Longrightarrow> view s' = view s \<or> astep (view s) (view s')"
begin

lemma sim_reachable: "reachable init step s \<Longrightarrow> reachable ainit astep (view s)"
proof (induction rule: reachable.induct)
  case (start s)
  then show ?case by (simp add: reachable.start sim_init)
next
  case (step s s')
  have "view s' = view s \<or> astep (view s) (view s')"
    using sim_step [OF inv_reachable [OF step(1)] step(2)] .
  then show ?case using step(3) reachable.step by metis
qed

end

end
