(* ===== verification/KernelInv.thy ===== *)
theory KernelInv
  imports Kernel Transitions
begin

text \<open>
  What holds in every reachable state of the kernel, however its threads interleave and crash:
  the tables are well formed, every thread knows the rows it works on, and the reservations cover
  the running attempts within the budget. The kernel refines the ledger machine.
\<close>

section \<open>The ledger machine\<close>

inductive ledger_step :: "bool \<Rightarrow> ledger \<Rightarrow> ledger \<Rightarrow> bool" for retries where
  new: "L i = None \<Longrightarrow> 0 < b \<Longrightarrow>
    ledger_step retries L (L(i \<mapsto> \<lparr> e_status = QUEUED, e_budget = b, e_made = 0, e_running = 0 \<rparr>))"
| move: "L i = Some v \<Longrightarrow> run_transition_allowed (e_status v) t \<Longrightarrow>
    t \<in> {RETRY_WAIT, CANCEL_REQUESTED, SUCCEEDED, FAILED, CANCELLED, TIMED_OUT, LOST} \<Longrightarrow>
    ledger_step retries L (L(i \<mapsto> v\<lparr> e_status := t \<rparr>))"
| start: "L i = Some v \<Longrightarrow> e_status v \<in> {QUEUED, RETRY_WAIT} \<Longrightarrow>
    ledger_step retries L (L(i \<mapsto> v\<lparr> e_status := RUNNING, e_made := Suc (e_made v),
      e_running := Suc (e_running v) \<rparr>))"
| stop: "L i = Some v \<Longrightarrow> e_running v = Suc n \<Longrightarrow> ledger_step retries L (L(i \<mapsto> v\<lparr> e_running := n \<rparr>))"
| retry: "retries \<Longrightarrow> L i = Some v \<Longrightarrow> e_status v = FAILED \<Longrightarrow>
    ledger_step retries L (L(i \<mapsto> v\<lparr> e_status := RETRY_WAIT \<rparr>))"

inductive_simps ledger_step_iff: "ledger_step retries L L'"

section \<open>What a thread knows\<close>

definition budget_known :: "store \<Rightarrow> run_row \<Rightarrow> bool" where
  "budget_known s r = (\<exists>v. ledger_of s (rn_id r) = Some v \<and> e_budget v = py_int (max_attempts (rn_task r)))"

definition knows :: "store \<Rightarrow> run_row \<Rightarrow> string \<Rightarrow> attempt_row \<Rightarrow> bool" where
  "knows s r g a = ((g, rn_id r) \<in> stage_links s \<and> (at_id a, g, at_number a) \<in> attempt_keys s \<and>
     budget_known s r)"

fun thread_ok :: "store \<Rightarrow> thread \<Rightarrow> bool" where
  "thread_ok s (Executing r g a) = knows s r g a"
| "thread_ok s (Settling r g a res) = (knows s r g a \<and> res_status res \<in> {SUCCEEDED, FAILED, CANCELLED, TIMED_OUT})"
| "thread_ok s (Failing r a) = (\<exists>g. knows s r g a)"
| "thread_ok s (Reclaiming t rs) = (set rs \<subseteq> dom (ledger_of s))"
| "thread_ok s (Releasing t aid rs) =
     (set rs \<subseteq> dom (ledger_of s) \<and> aid \<in> at_id ` {a \<in> ended_attempts s. at_status a = A_LOST})"
| "thread_ok s (SettlingLost rs) = (set rs \<subseteq> dom (ledger_of s) \<and> distinct rs)"
| "thread_ok s (Resuming r g rs) =
     (set rs \<subseteq> dom (ledger_of s) \<and> distinct (r # rs) \<and> (g, r) \<in> stage_links s)"
| "thread_ok s (Losing r rs) = (set rs \<subseteq> dom (ledger_of s) \<and> distinct rs)"
| "thread_ok s _ = True"

text \<open>Every store change keeps budgets and what threads rely on.\<close>

definition grows :: "store \<Rightarrow> store \<Rightarrow> bool" where
  "grows s s' = (extends s s' \<and>
     (\<forall>i v. ledger_of s i = Some v \<longrightarrow> (\<exists>v'. ledger_of s' i = Some v' \<and> e_budget v' = e_budget v)))"

lemma grows_refl [simp]: "grows s s"
  by (simp add: grows_def)

lemma grows_moves: "extends s s' \<Longrightarrow> moves i F t s s' \<Longrightarrow> grows s s'"
  by (auto simp: grows_def moves_def)

lemma grows_starts: "extends s s' \<Longrightarrow> starts i a s s' \<Longrightarrow> grows s s'"
  by (auto simp: grows_def starts_def)

lemma grows_stops: "extends s s' \<Longrightarrow> stops i a s s' \<Longrightarrow> grows s s'"
  by (auto simp: grows_def stops_def)

lemma grows_same: "extends s s' \<Longrightarrow> ledger_of s' = ledger_of s \<Longrightarrow> grows s s'"
  by (simp add: grows_def)

lemma grows_dom: "grows s s' \<Longrightarrow> dom (ledger_of s) \<subseteq> dom (ledger_of s')"
  by (fastforce simp: grows_def)

lemma budget_known_grows: "grows s s' \<Longrightarrow> budget_known s r \<Longrightarrow> budget_known s' r"
  unfolding grows_def budget_known_def by metis

lemma knows_grows: "grows s s' \<Longrightarrow> knows s r g a \<Longrightarrow> knows s' r g a"
  using budget_known_grows by (auto simp: knows_def grows_def extends_def)

lemma thread_ok_grows:
  assumes "grows s s'" "thread_ok s th"
  shows "thread_ok s' th"
  using assms grows_dom [OF assms(1)] knows_grows [OF assms(1)]
  by (cases "(s, th)" rule: thread_ok.cases) (auto simp: grows_def extends_def, blast+)

section \<open>Every transaction refines the ledger machine\<close>

definition refines :: "bool \<Rightarrow> store \<Rightarrow> store \<Rightarrow> bool" where
  "refines retries s s' = (well_formed s' \<and> grows s s' \<and>
     (ledger_of s' = ledger_of s \<or> ledger_step retries (ledger_of s) (ledger_of s')))"

lemma refines_refl: "well_formed s \<Longrightarrow> refines b s s"
  by (simp add: refines_def)

lemma refines_moves:
  assumes "well_formed s'" "extends s s'" "moves i F t s s'"
    and "\<And>x. x \<in> F \<Longrightarrow> run_transition_allowed x t \<or> b \<and> x = FAILED \<and> t = RETRY_WAIT"
    and "t \<in> {RETRY_WAIT, CANCEL_REQUESTED, SUCCEEDED, FAILED, CANCELLED, TIMED_OUT, LOST}"
  shows "refines b s s'"
proof -
  obtain v where v: "ledger_of s i = Some v" "e_status v \<in> F"
    "ledger_of s' = (ledger_of s)(i \<mapsto> v\<lparr> e_status := t \<rparr>)"
    using assms(3) by (auto simp: moves_def)
  have "ledger_step b (ledger_of s) (ledger_of s')"
    unfolding v(3) using assms(4) [OF v(2)] v(1) assms(5) ledger_step.move ledger_step.retry by metis
  then show ?thesis using assms(1) grows_moves [OF assms(2,3)] by (simp add: refines_def)
qed

lemma refines_stops: "well_formed s' \<Longrightarrow> extends s s' \<Longrightarrow> stops i aid s s' \<Longrightarrow> refines b s s'"
  using grows_stops ledger_step.stop by (auto simp: refines_def stops_def)

lemma refines_starts: "well_formed s' \<Longrightarrow> extends s s' \<Longrightarrow> starts i a s s' \<Longrightarrow> refines b s s'"
  using grows_starts ledger_step.start by (auto simp: refines_def starts_def)

lemma refines_refreshes: "well_formed s' \<Longrightarrow> extends s s' \<Longrightarrow> refreshes s s' \<Longrightarrow> refines b s s'"
  using grows_same by (auto simp: refines_def refreshes_def)

lemma transition_run_refines:
  assumes "well_formed s" "transition_run now i t reason s = (res, s')"
    and "t \<in> {CANCEL_REQUESTED, SUCCEEDED, FAILED, CANCELLED, TIMED_OUT, LOST}"
  shows "refines b s s'"
  using transition_run_effect [OF assms(1,2)] assms refines_refl refines_moves [of s' s i _ t b]
  by auto

lemma schedule_retry_refines:
  assumes "well_formed s" "schedule_retry i g reason s = (res, s')" "(g, i) \<in> stage_links s"
  shows "refines b s s'"
  using schedule_retry_effect [OF assms] assms(1) refines_refl
    refines_moves [of s' s i "{RUNNING}" RETRY_WAIT b]
  by (auto simp: run_transition_allowed_iff)

lemma finish_attempt_refines:
  assumes "well_formed s" "finish_attempt now (at_id a) st x fl u s = (res, s')" "knows s r g a"
    and "st \<in> {A_SUCCEEDED, A_FAILED}"
  shows "refines b s s'"
proof -
  have "(at_id a, g, at_number a) \<in> attempt_keys s" "(g, rn_id r) \<in> stage_links s"
    using assms(3) by (auto simp: knows_def)
  from finish_attempt_effect [OF assms(1,2) this assms(4)] show ?thesis
    using assms(1) refines_refl refines_stops by metis
qed

lemma refines_thread_ok: "refines b s s' \<Longrightarrow> thread_ok s th \<Longrightarrow> thread_ok s' th"
  using thread_ok_grows by (auto simp: refines_def)

text \<open>The link that \<open>resume_stage\<close> reads, and the room it finds in the budget.\<close>

lemma resume_stage_Some:
  assumes "well_formed s" "resume_stage i s = Some g"
  shows "(g, i) \<in> stage_links s \<and> (\<exists>v. ledger_of s i = Some v \<and> int (e_made v) < e_budget v)"
proof -
  obtain r h where rh: "fetchone (\<lambda>r. rn_id r = i) (runs s) = Some r"
    "fetchone (\<lambda>h. sg_run h = i) (stages s) = Some h" "g = sg_id h"
    "int (attempts_made (sg_id h) s) < py_int (max_attempts (rn_task r))"
    using assms(2) by (auto simp: resume_stage_def split: option.splits if_splits)
  have "h \<in> set (stages s)" "sg_run h = i" using fetchone_Some [OF rh(2)] by auto
  then have "(g, i) \<in> stage_links s" using rh(3) by (force simp: stage_links_def)
  moreover have "ledger_of s i = Some (entry_of s r h)" using rh by (simp add: ledger_of_def)
  ultimately show ?thesis using rh(4) by (auto simp: entry_of_def)
qed

lemma settle_refines:
  assumes "well_formed s" "thread_ok s (Settling r g a res)" "settle now r g a res s = (th', s')"
  shows "refines b s s' \<and> thread_ok s' th'"
proof -
  have k: "knows s r g a" "res_status res \<in> {SUCCEEDED, FAILED, CANCELLED, TIMED_OUT}"
    using assms(2) by auto
  have link: "(g, rn_id r) \<in> stage_links s" using k(1) by (simp add: knows_def)
  have ref: "refines b s s'"
    using assms(3) schedule_retry_refines [OF assms(1) _ link] transition_run_refines [OF assms(1)] k(2)
    by (fastforce simp: settle_def split: if_splits prod.splits sum.splits)
  moreover have "th' = Done \<or> th' = Failing r a"
    using assms(3) by (auto simp: settle_def split: if_splits prod.splits sum.splits)
  moreover have "knows s' r g a" using ref k(1) knows_grows by (auto simp: refines_def)
  ultimately show ?thesis by auto
qed

lemma advance_refines:
  assumes wf: "well_formed s" and ok: "thread_ok s th" and adv: "advance now th s = (th', s')"
  shows "refines b s s' \<and> thread_ok s' th'"
proof (cases "(now, th, s)" rule: advance.cases)
  case (1 now r g a res)
  then show ?thesis using settle_refines [OF wf] ok adv by auto
next
  case (2 now r a)
  then obtain g where "knows s r g a" using ok by auto
  then show ?thesis
    using 2 adv finish_attempt_refines [OF wf]
    by (fastforce split: prod.splits sum.splits if_splits)
next
  case (3 now r)
  then show ?thesis using adv refines_refl [OF wf] by (auto split: sum.splits if_splits)
next
  case (4 now r)
  then show ?thesis using adv transition_run_refines [OF wf] by (auto split: prod.splits)
next
  case (5 now t aid rs)
  then have "refines b s s'"
    using adv wf release_resources_effect grows_same [of s s'] by (auto simp: refines_def)
  then show ?thesis using 5 adv ok refines_thread_ok [of b s s' "Reclaiming t rs"] by auto
next
  case (6 now t rs)
  then show ?thesis using adv ok refines_refl [OF wf] by auto
next
  case (7 now)
  then show ?thesis using adv refines_refl [OF wf] by auto
next
  case (8 now r rs)
  then show ?thesis
    using adv ok refines_refl [OF wf] resume_stage_Some [OF wf, of r]
    by (auto split: option.splits)
next
  case (9 now r g rs)
  then have "refines b s s'"
    using adv ok schedule_retry_refines [OF wf] by (fastforce split: prod.splits sum.splits if_splits)
  moreover have "th' \<in> {SettlingLost rs, Losing r rs, Done}"
    using 9 adv by (auto split: prod.splits sum.splits if_splits)
  ultimately show ?thesis using 9 ok grows_dom [of s s'] by (auto simp: refines_def)
next
  case (10 now r rs)
  then have "refines b s s'"
    using adv transition_run_refines [OF wf] by (fastforce split: prod.splits sum.splits if_splits)
  moreover have "th' \<in> {SettlingLost rs, Done}"
    using 10 adv by (auto split: prod.splits sum.splits if_splits)
  ultimately show ?thesis using 10 ok grows_dom [of s s'] by (auto simp: refines_def)
next
  case (11 now)
  then show ?thesis using adv refines_refl [OF wf] by auto
next
  case (12 now r rs)
  then show ?thesis
    using adv transition_run_refines [OF wf] by (fastforce split: prod.splits sum.splits if_splits)
next
  case (13 now)
  then show ?thesis using adv refines_refl [OF wf] by auto
next
  case (14 now r g a)
  then show ?thesis using adv ok refines_refl [OF wf] by auto
qed

text \<open>The steps that touch one thread.\<close>

definition threads_ok :: "kernel \<Rightarrow> bool" where
  "threads_ok k = (\<forall>th \<in> set (threads k). thread_ok (db k) th)"

lemma put_threads_ok:
  assumes "refines b (db k) s'" "threads_ok k" "thread_ok s' th"
  shows "threads_ok (put n (th, s') k)"
  using assms refines_thread_ok set_update_subset_insert [of "threads k" n th]
  by (fastforce simp: threads_ok_def put_def)

lemma finish_refines:
  assumes "well_formed s" "knows s r g a" "PluginResult_validate res = Inr ()"
    and "finish now r g a res u s = (th', s')"
  shows "refines b s s' \<and> thread_ok s' th'"
proof -
  have st: "attempt_status (res_status res) \<in> {A_SUCCEEDED, A_FAILED}" by (cases "res_status res") auto
  have ref: "refines b s s'"
    using finish_attempt_refines [OF assms(1) _ assms(2) st] assms(4)
    by (fastforce simp: finish_def split: prod.splits sum.splits)
  have "res_status res \<in> {SUCCEEDED, FAILED, CANCELLED, TIMED_OUT}"
    using assms(3) by (auto simp: PluginResult_validate_def eall_Inr_iff)
  moreover have "th' = Settling r g a res \<or> th' = Failing r a"
    using assms(4) by (auto simp: finish_def split: prod.splits sum.splits)
  moreover have "knows s' r g a" using ref assms(2) knows_grows by (auto simp: refines_def)
  ultimately show ?thesis using ref by auto
qed

lemma expired_rows_fetch:
  assumes "well_formed s" "fetchone (\<lambda>(a, _). at_id a = aid) (expired_rows t s) = Some (x, i)"
  obtains g n where "(aid, g, n) \<in> attempt_keys s" "(g, i) \<in> stage_links s" "i \<in> dom (ledger_of s)"
proof -
  have "(x, i) \<in> set (expired_rows t s)" "at_id x = aid"
    using fetchone_Some [OF assms(2)] by auto
  then obtain g where g: "x \<in> set (attempts s)" "g \<in> set (stages s)" "sg_id g = at_stage x" "sg_run g = i"
    by (auto simp: expired_rows_def)
  obtain r where r: "r \<in> set (runs s)" "rn_id r = i"
    using stage_run_exists [OF assms(1) g(2)] g(4) by metis
  have "ledger_of s i = Some (entry_of s r g)"
    using ledger_ofI [OF assms(1) r(1) g(2)] g(4) r(2) by simp
  then show ?thesis
    using that [of "at_stage x" "at_number x"] g \<open>at_id x = aid\<close>
    by (force simp: attempt_keys_def stage_links_def)
qed

lemma mark_lost_refines:
  assumes "well_formed s" "thread_ok s (Reclaiming t rs)"
    and "fetchone (\<lambda>(a, _). at_id a = aid) (expired_rows t s) = Some (x, i)"
    and "mark_lost_row t aid s = (hit, s')"
  shows "refines b s s' \<and> thread_ok s' (if hit then Releasing t aid (i # rs) else Reclaiming t rs)"
proof -
  obtain g n where k: "(aid, g, n) \<in> attempt_keys s" "(g, i) \<in> stage_links s" "i \<in> dom (ledger_of s)"
    using expired_rows_fetch [OF assms(1,3)] by metis
  note eff = mark_lost_row_effect [OF assms(1,4) k(1,2)]
  have ref: "refines b s s'"
    using eff assms(1) refines_refl refines_stops by metis
  then have "set (i # rs) \<subseteq> dom (ledger_of s')"
    using grows_dom [of s s'] k(3) assms(2) unfolding refines_def thread_ok.simps set_simps by blast
  then show ?thesis using ref eff by auto
qed

text \<open>A claim that does not get an attempt changes nothing.\<close>

lemma start_attempt_failed:
  "\<exists>a. fst (start_attempt now aid gid w ws lease res cap s) = Inr (Some a) \<or>
    snd (start_attempt now aid gid w ws lease res cap s) = s"
  by (auto simp: start_attempt_def Let_def split: option.splits sum.splits)

lemma claim_cases:
  obtains (idle) "claim c now aid w rid gid ws k = k"
  | (claimed) r a s' where "fetchone (\<lambda>r. rn_id r = rid) (runs (db k)) = Some r"
      "(gid, rid) \<in> stage_links (db k)"
      "start_attempt now aid gid w ws (lease_seconds c) (Some (reservation_for c (rn_task r)))
        (capacity_of c) (db k) = (Inr (Some a), s')"
      "claim c now aid w rid gid ws k = spawn (Executing r gid a) (k\<lparr> db := s' \<rparr>)"
proof (cases "\<exists>r. get_run rid (db k) = Inr r \<and> (gid, rid) \<in> stage_links (db k)")
  case True
  then obtain r where r: "fetchone (\<lambda>r. rn_id r = rid) (runs (db k)) = Some r"
    "(gid, rid) \<in> stage_links (db k)"
    by (auto simp: get_run_def split: option.splits)
  have ex: "\<exists>g \<in> set (stages (db k)). sg_id g = gid \<and> sg_run g = rid"
    using r(2) by (auto simp: stage_links_def)
  obtain out s' where op: "start_attempt now aid gid w ws (lease_seconds c)
      (Some (reservation_for c (rn_task r))) (capacity_of c) (db k) = (out, s')" by fastforce
  have keep: "s' = db k" if "\<And>a. out \<noteq> Inr (Some a)"
    using start_attempt_failed [of now aid gid w ws "lease_seconds c" _ _ "db k"] op that by (metis fst_conv snd_conv)
  have cl: "claim c now aid w rid gid ws k = (case out of Inr (Some a) \<Rightarrow>
      spawn (Executing r gid a) (k\<lparr> db := s' \<rparr>) | _ \<Rightarrow> k\<lparr> db := s' \<rparr>)"
    using r(1) ex op by (auto simp: claim_def get_run_def split: sum.splits option.splits)
  show ?thesis
    by (cases out; cases "projr out") (use cl keep idle claimed [OF r] op in auto)
next
  case False
  then have "claim c now aid w rid gid ws k = k"
    by (force simp: claim_def stage_links_def split: sum.splits)
  then show ?thesis by (rule idle)
qed

lemma claim_refines:
  assumes wf: "well_formed (db k)" and ok: "threads_ok k"
  shows "refines b (db k) (db (claim c now aid w rid gid ws k)) \<and>
    threads_ok (claim c now aid w rid gid ws k)"
proof (cases c now aid w rid gid ws k rule: claim_cases)
  case idle
  then show ?thesis using wf ok refines_refl by simp
next
  case (claimed r a s')
  note eff = start_attempt_effect [OF wf claimed(2,3)]
  have ref: "refines b (db k) s'" by (rule refines_starts [OF eff(1-3)])
  have id: "rn_id r = rid" "ledger_of (db k) rid \<noteq> None"
    using fetchone_Some [OF claimed(1)] eff(3) by (auto simp: starts_def)
  then obtain v where "ledger_of (db k) rid = Some v" by auto
  then have "budget_known (db k) r"
    using claimed(1) id(1) by (auto simp: budget_known_def ledger_of_def entry_of_def split: option.splits)
  then have "knows s' r gid a"
    using ref claimed(2) eff(2,4,5,8) id(1) budget_known_grows
    by (auto simp: knows_def refines_def extends_def attempt_keys_def)
  then show ?thesis
    using claimed(4) ref ok refines_thread_ok by (auto simp: spawn_def threads_ok_def)
qed

lemma thread_at: "threads_ok k \<Longrightarrow> n < length (threads k) \<Longrightarrow> thread_ok (db k) (threads k ! n)"
  by (simp add: threads_ok_def)

lemma spawn_ok: "threads_ok k \<Longrightarrow> thread_ok (db k) th \<Longrightarrow> threads_ok (spawn th k)"
  by (auto simp: threads_ok_def spawn_def)

lemma db_step:
  assumes "refines b (db k) s'" "threads_ok k" "k' = k\<lparr> db := s' \<rparr>"
  shows "refines b (db k) (db k') \<and> threads_ok k'"
  using assms refines_thread_ok by (auto simp: threads_ok_def)

lemma put_step:
  assumes "refines b (db k) (snd r) \<and> thread_ok (snd r) (fst r)" "threads_ok k" "k' = put n r k"
  shows "refines b (db k) (db k') \<and> threads_ok k'"
  using assms put_threads_ok [of b k "snd r" "fst r" n] by (simp add: put_def)

lemma custody_refines:
  assumes "well_formed s"
  shows "refines b s (s\<lparr> artifacts := ars, metrics := ms, inputs := ins, uploaded := ups,
    events := evs, workers := ws, objects := objs \<rparr>)" (is "refines b s ?s")
proof -
  have "well_formed ?s" using assms by (simp add: well_formed_def)
  moreover have "ledger_of ?s = ledger_of s"
    by (rule ext)
      (simp add: ledger_of_def entry_of_def attempts_made_def attempts_running_def cong: option.case_cong)
  moreover have "extends s ?s" by (rule extends_same_attempts) simp_all
  ultimately show ?thesis using grows_same by (simp add: refines_def)
qed

lemma submit_run_refines:
  assumes "well_formed s" "submit_run now rid gid task key ver idem ikey resum s = (res, s')"
  shows "refines b s s'"
proof (cases "s' = s")
  case False
  then show ?thesis
    using submit_run_effect [OF assms] ledger_step.new [of "ledger_of s" rid]
    by (auto simp: refines_def grows_def)
qed (use assms refines_refl in simp)

lemma fail_queued_run_refines:
  assumes "well_formed s" "fail_queued_run now eid rid cat msg s = (res, s')"
  shows "refines b s s'"
proof (cases "s' = s")
  case False
  then have "well_formed s'" "extends s s'" "moves rid {QUEUED, PREPARING, RETRY_WAIT} FAILED s s'"
    using fail_queued_run_effect [OF assms] by auto
  then show ?thesis by (rule refines_moves) (auto simp: run_transition_allowed_iff)
qed (use assms refines_refl in simp)

lemma request_retry_refines:
  assumes "well_formed s" "request_retry now eid rid who why s = (res, s')" "b"
  shows "refines b s s'"
proof (cases "s' = s")
  case False
  then have "well_formed s'" "extends s s'" "moves rid {FAILED} RETRY_WAIT s s'"
    using request_retry_effect [OF assms(1,2)] by auto
  then show ?thesis by (rule refines_moves) (use assms(3) in auto)
qed (use assms refines_refl in simp)

lemma heartbeat_update_refines:
  assumes "well_formed s" "heartbeat_update now aid w lease s = (res, s')"
  shows "refines b s s'"
  using heartbeat_update_effect [OF assms] refines_refl [OF assms(1)] refines_refreshes by metis

lemma attach_process_refines:
  assumes "well_formed s" "attach_process aid w pid pgid ticks s = (res, s')"
  shows "refines b s s'"
  using attach_process_effect [OF assms] refines_refl [OF assms(1)] refines_refreshes by metis

lemma perform_refines:
  assumes wf: "well_formed (db k)" and ok: "threads_ok k" and p: "perform c a k = Some k'"
    and b: "is_Retry a \<longrightarrow> b"
  shows "refines b (db k) (db k') \<and> threads_ok k'"
proof (cases "(c, a, k)" rule: perform.cases)
  case (1 c now rid gid task key ver idem ikey resum k1)
  then show ?thesis
    using p submit_run_refines [OF wf surjective_pairing] db_step [OF _ ok, where k' = k'] by auto
next
  case (2 c now rid k1)
  then show ?thesis
    using p transition_run_refines [OF wf surjective_pairing] db_step [OF _ ok, where k' = k'] by auto
next
  case (3 c now eid rid cat msg k1)
  then show ?thesis
    using p fail_queued_run_refines [OF wf surjective_pairing] db_step [OF _ ok, where k' = k'] by auto
next
  case (4 c now aid w rid gid ws k1)
  then show ?thesis using p claim_refines [OF wf ok] by auto
next
  case (5 c n now res u k1)
  then obtain r g x where th: "n < length (threads k)" "threads k ! n = Executing r g x"
    "PluginResult_validate res = Inr ()" "k' = put n (finish now r g x res u (db k)) k"
    using p by (auto split: if_splits thread.splits)
  then have "knows (db k) r g x" using thread_at [OF ok] by fastforce
  then show ?thesis
    using put_step [OF finish_refines [OF wf _ th(3)] ok th(4)] by auto
next
  case (6 c n k1)
  then obtain r g x where th: "n < length (threads k)" "threads k ! n = Executing r g x"
    "k' = put n (Failing r x, db k) k"
    using p by (auto split: if_splits thread.splits)
  then have "knows (db k) r g x" using thread_at [OF ok] by fastforce
  then show ?thesis using put_step [OF _ ok th(3)] refines_refl [OF wf] by auto
next
  case (7 c n now k1)
  then show ?thesis
    using p put_step [OF advance_refines [OF wf thread_at [OF ok] surjective_pairing] ok]
    by (auto split: if_splits)
next
  case (8 c n k1)
  then show ?thesis
    using p put_step [of b k "(Done, db k)" k' n] ok refines_refl [OF wf] by (auto split: if_splits)
next
  case (9 c now aid w k1)
  then show ?thesis
    using p heartbeat_update_refines [OF wf surjective_pairing] db_step [OF _ ok, where k' = k'] by auto
next
  case (10 c aid w pid pgid tk k1)
  then show ?thesis
    using p attach_process_refines [OF wf surjective_pairing] db_step [OF _ ok, where k' = k'] by auto
next
  case (11 c now k1)
  then show ?thesis using p ok refines_refl [OF wf] spawn_ok [OF ok] by (auto simp: spawn_def)
next
  case (12 c n aid k1)
  then obtain t rs x i where th: "n < length (threads k)" "threads k ! n = Reclaiming t rs"
    "fetchone (\<lambda>(a, _). at_id a = aid) (expired_rows t (db k)) = Some (x, i)"
    using p by (auto split: if_splits thread.splits option.splits)
  obtain hit s' where m: "mark_lost_row t aid (db k) = (hit, s')" by fastforce
  have "thread_ok (db k) (Reclaiming t rs)" using thread_at [OF ok th(1)] th(2) by simp
  from mark_lost_refines [OF wf this th(3) m] show ?thesis
    using 12 p th m ok put_step [of b k "(if hit then Releasing t aid (i # rs) else Reclaiming t rs, s')" k' n]
    by (auto split: bool.splits)
next
  case (13 c limit k1)
  then show ?thesis
    using p ok refines_refl [OF wf] spawn_ok [OF ok] by (auto simp: spawn_def split: sum.splits)
next
  case (14 c ars ms ins ups evs ws objs k1)
  then show ?thesis using p custody_refines [OF wf] db_step [OF _ ok, where k' = k'] by auto
next
  case (15 c now eid rid who why k1)
  then have "refines b (db k) (snd (request_retry now eid rid who why (db k)))"
    using b request_retry_refines [OF wf surjective_pairing] by (simp add: is_Retry_def)
  then show ?thesis using 15 p db_step [OF _ ok, where k' = k'] by auto
qed

section \<open>Reservations\<close>

definition running_ids :: "store \<Rightarrow> string set" where
  "running_ids s = at_id ` {a \<in> set (attempts s). at_status a = A_RUNNING}"

definition lost_ids :: "store \<Rightarrow> string set" where
  "lost_ids s = at_id ` {a \<in> set (attempts s). at_status a = A_LOST}"

definition reserved_ids :: "store \<Rightarrow> string set" where
  "reserved_ids s = rs_attempt ` set (reservations s)"

text \<open>
  Every running attempt holds a reservation; a reservation belongs to a running attempt, or to a
  lost one whose release is still to come; all are positive and together they fit the budget.
\<close>

definition accounted :: "capacity \<Rightarrow> store \<Rightarrow> bool" where
  "accounted cap s =
     (running_ids s \<subseteq> reserved_ids s \<and> reserved_ids s \<subseteq> running_ids s \<union> lost_ids s \<and>
      distinct (map rs_attempt (reservations s)) \<and>
      (\<forall>x \<in> set (reservations s). 0 < rs_cpu x \<and> 0 < rs_memory x) \<and>
      fst (resource_totals s) \<le> budget (cap_cpu cap) (cap_fraction cap) \<and>
      snd (resource_totals s) \<le> budget (cap_memory cap) (cap_fraction cap))"

lemma accounted_same:
  assumes "accounted cap s" "reservations s' = reservations s"
    "running_ids s' = running_ids s" "lost_ids s' = lost_ids s"
  shows "accounted cap s'"
  using assms by (simp add: accounted_def reserved_ids_def resource_totals_def)

lemma accounted_same_attempts:
  "accounted cap s \<Longrightarrow> reservations s' = reservations s \<Longrightarrow> attempts s' = attempts s \<Longrightarrow> accounted cap s'"
  by (erule accounted_same) (simp_all add: running_ids_def lost_ids_def)

lemma accounted_refreshes: "accounted cap s \<Longrightarrow> refreshes s s' \<Longrightarrow> accounted cap s'"
proof (erule accounted_same)
  assume r: "refreshes s s'"
  let ?f = "\<lambda>a. (at_id a, at_stage a, at_number a, at_status a)"
  have eq: "?f ` set (attempts s') = ?f ` set (attempts s)"
    using r by (metis (no_types, lifting) list.set_map refreshes_def)
  have sel: "at_id ` {a \<in> set (attempts x). at_status a = st} =
      {i. \<exists>g n. (i, g, n, st) \<in> ?f ` set (attempts x)}" for x st
    by force
  show "running_ids s' = running_ids s" "lost_ids s' = lost_ids s"
    by (simp_all only: running_ids_def lost_ids_def sel eq)
  show "reservations s' = reservations s" using r by (simp add: refreshes_def)
qed

lemma reserve_Some:
  assumes "reserve aid (Some r) (Some cap) s = Inr (Some R)" "declared r"
  shows "\<exists>cpu mem. R = reservations s @ [\<lparr> rs_attempt = aid, rs_cpu = cpu, rs_memory = mem \<rparr>] \<and>
    0 < cpu \<and> 0 < mem \<and> fst (resource_totals s) + cpu \<le> budget (cap_cpu cap) (cap_fraction cap) \<and>
    snd (resource_totals s) + mem \<le> budget (cap_memory cap) (cap_fraction cap)"
  using assms by (auto simp: reserve_def Let_def split: if_splits)

lemma accounted_starts:
  assumes acc: "accounted cap s" and decl: "declared r"
    and a: "at_id a = aid" "at_status a = A_RUNNING" "aid \<notin> at_id ` set (attempts s)"
    and s': "attempts s' = attempts s @ [a]"
    and R: "reserve aid (Some r) (Some cap) s = Inr (Some (reservations s'))"
  shows "accounted cap s'"
proof -
  obtain x where x: "reservations s' = reservations s @ [x]" "rs_attempt x = aid" "0 < rs_cpu x"
    "0 < rs_memory x" "fst (resource_totals s) + rs_cpu x \<le> budget (cap_cpu cap) (cap_fraction cap)"
    "snd (resource_totals s) + rs_memory x \<le> budget (cap_memory cap) (cap_fraction cap)"
    using reserve_Some [OF R decl] by force
  have ids: "running_ids s' = insert aid (running_ids s)" "lost_ids s' = lost_ids s"
    "reserved_ids s' = insert aid (reserved_ids s)"
    using a x(2) by (auto simp: running_ids_def lost_ids_def reserved_ids_def s' x(1))
  have "aid \<notin> reserved_ids s"
    using acc a(3) by (auto simp: accounted_def running_ids_def lost_ids_def)
  then show ?thesis
    using acc ids x by (auto simp: accounted_def resource_totals_def reserved_ids_def)
qed

lemma accounted_delete:
  assumes acc: "accounted cap s" and "reservations s' = delete_where (\<lambda>x. rs_attempt x = aid) (reservations s)"
    and "running_ids s' = running_ids s - {aid}" "lost_ids s' = lost_ids s \<union> L"
  shows "accounted cap s'"
proof -
  have pos: "0 \<le> rs_cpu x" "0 \<le> rs_memory x" if "x \<in> set (reservations s)" for x
    using acc that by (auto simp: accounted_def)
  have "reserved_ids s' = reserved_ids s - {aid}"
    using assms(2) by (auto simp: reserved_ids_def set_delete_where)
  moreover have "fst (resource_totals s') \<le> fst (resource_totals s)"
    "snd (resource_totals s') \<le> snd (resource_totals s)"
    using sum_list_delete_where_le [of "reservations s" rs_cpu] pos
      sum_list_delete_where_le [of "reservations s" rs_memory]
    by (simp_all add: resource_totals_def assms(2))
  ultimately show ?thesis
    using acc assms(2-4) distinct_map_delete_where [of rs_attempt "reservations s"]
    by (auto simp: accounted_def set_delete_where)
qed

lemma stops_ids:
  assumes "well_formed s" "stops i aid s s'"
  shows "running_ids s' = running_ids s - {aid}"
    "lost_ids s' = lost_ids s \<or> lost_ids s' = insert aid (lost_ids s)" "aid \<in> running_ids s"
proof -
  obtain a b where ab: "a \<in> set (attempts s)" "at_id a = aid" "at_status a = A_RUNNING"
    "at_status b \<noteq> A_RUNNING" "at_id b = aid" "set (attempts s') = insert b (set (attempts s) - {a})"
    using assms(2) by (auto simp: stops_def)
  have inj: "inj_on at_id (set (attempts s))"
    using well_formed_distinct(3) [OF assms(1)] by (simp add: distinct_map)
  have "{x \<in> set (attempts s'). at_status x = A_RUNNING} =
      {x \<in> set (attempts s). at_status x = A_RUNNING} - {a}"
    using ab(4,6) by auto
  then show "running_ids s' = running_ids s - {aid}"
    unfolding running_ids_def
    using inj_on_image_set_diff [OF inj, of "{x \<in> set (attempts s). at_status x = A_RUNNING}" "{a}"] ab(1,2)
    by auto
  have "{x \<in> set (attempts s'). at_status x = A_LOST} =
      {x \<in> set (attempts s). at_status x = A_LOST} \<union> (if at_status b = A_LOST then {b} else {})"
    (is "?l = ?r")
  proof (rule set_eqI)
    fix x show "x \<in> ?l \<longleftrightarrow> x \<in> ?r"
      unfolding ab(6) using ab(3) by (cases "x = b"; cases "x = a") simp_all
  qed
  then have "lost_ids s' = lost_ids s \<union> (if at_status b = A_LOST then {aid} else {})"
    unfolding lost_ids_def using ab(5) by (simp only: image_Un) simp
  then show "lost_ids s' = lost_ids s \<or> lost_ids s' = insert aid (lost_ids s)"
    by (simp split: if_splits)
  show "aid \<in> running_ids s" using ab(1-3) by (auto simp: running_ids_def)
qed

lemma accounted_finish:
  assumes "well_formed s" "accounted cap s" "stops i aid s s'"
    "reservations s' = delete_where (\<lambda>x. rs_attempt x = aid) (reservations s)"
  shows "accounted cap s'"
  using stops_ids(2) [OF assms(1,3)]
proof
  assume "lost_ids s' = lost_ids s"
  then show ?thesis using accounted_delete [OF assms(2,4) stops_ids(1) [OF assms(1,3)], of "{}"] by simp
next
  assume "lost_ids s' = insert aid (lost_ids s)"
  then show ?thesis using accounted_delete [OF assms(2,4) stops_ids(1) [OF assms(1,3)], of "{aid}"] by simp
qed

lemma accounted_lost:
  assumes "well_formed s" "accounted cap s" "stops i aid s s'" "reservations s' = reservations s"
    "aid \<in> at_id ` {a \<in> ended_attempts s'. at_status a = A_LOST}"
  shows "accounted cap s'"
proof -
  have "aid \<in> lost_ids s'" using assms(5) by (auto simp: lost_ids_def ended_attempts_def)
  then show ?thesis
    using assms(2,4) stops_ids [OF assms(1,3)]
    by (auto simp: accounted_def reserved_ids_def resource_totals_def)
qed

lemma accounted_release:
  assumes "well_formed s" "accounted cap s" "aid \<in> at_id ` {a \<in> ended_attempts s. at_status a = A_LOST}"
  shows "accounted cap (release_resources aid s)"
proof (rule accounted_delete [OF assms(2), of _ aid "{}"])
  show "running_ids (release_resources aid s) = running_ids s - {aid}"
    using assms(3) attempt_unique [OF assms(1)]
    by (fastforce simp: running_ids_def release_resources_def ended_attempts_def)
qed (simp_all add: release_resources_def lost_ids_def)

text \<open>The runs table does not matter to the accounts.\<close>

lemma transition_run_accounted:
  "well_formed s \<Longrightarrow> accounted cap s \<Longrightarrow> transition_run now i t reason s = (res, s') \<Longrightarrow> accounted cap s'"
  using transition_run_effect accounted_same_attempts by (metis moves_def)

lemma schedule_retry_accounted:
  "well_formed s \<Longrightarrow> accounted cap s \<Longrightarrow> schedule_retry i g reason s = (res, s') \<Longrightarrow>
   (g, i) \<in> stage_links s \<Longrightarrow> accounted cap s'"
  using schedule_retry_effect accounted_same_attempts by (metis moves_def)

lemma finish_attempt_accounted:
  assumes "well_formed s" "accounted cap s" "finish_attempt now (at_id a) st x fl u s = (res, s')"
    "knows s r g a" "st \<in> {A_SUCCEEDED, A_FAILED}"
  shows "accounted cap s'"
proof -
  have "(at_id a, g, at_number a) \<in> attempt_keys s" "(g, rn_id r) \<in> stage_links s"
    using assms(4) by (auto simp: knows_def)
  from finish_attempt_effect [OF assms(1,3) this assms(5)] show ?thesis
    using accounted_finish [OF assms(1,2)] assms(2) by metis
qed

lemma advance_accounted:
  assumes wf: "well_formed s" and ok: "thread_ok s th" and acc: "accounted cap s"
    and adv: "advance now th s = (th', s')"
  shows "accounted cap s'"
proof (cases "(now, th, s)" rule: advance.cases)
  case (1 now r g a res)
  then have "(g, rn_id r) \<in> stage_links s" using ok by (auto simp: knows_def)
  then show ?thesis
    using 1 adv transition_run_accounted [OF wf acc] schedule_retry_accounted [OF wf acc]
    by (fastforce simp: settle_def split: if_splits prod.splits sum.splits)
next
  case (2 now r a)
  then obtain g where "knows s r g a" using ok by auto
  then show ?thesis
    using 2 adv finish_attempt_accounted [OF wf acc] by (fastforce split: prod.splits sum.splits if_splits)
next
  case (5 now t aid rs)
  then show ?thesis using adv ok accounted_release [OF wf acc] by auto
next
  case (9 now r g rs)
  then show ?thesis
    using adv ok schedule_retry_accounted [OF wf acc] by (fastforce split: prod.splits sum.splits if_splits)
qed (use adv acc transition_run_accounted [OF wf acc] in
  \<open>fastforce split: prod.splits sum.splits if_splits option.splits\<close>)+

lemma claim_accounted:
  assumes wf: "well_formed (db k)" and cap: "capacity_of c = Some cap" and acc: "accounted cap (db k)"
  shows "accounted cap (db (claim c now aid w rid gid ws k))"
proof (cases c now aid w rid gid ws k rule: claim_cases)
  case (claimed r a s')
  note eff = start_attempt_effect [OF wf claimed(2,3)]
  have "accounted cap s'"
    by (rule accounted_starts [OF acc _ eff(4,6,7,8)]) (use eff(9) cap in simp_all)
  then show ?thesis using claimed(4) by (simp add: spawn_def)
qed (use acc in simp)

lemma submit_run_accounted:
  "well_formed s \<Longrightarrow> accounted cap s \<Longrightarrow>
   submit_run now rid gid task key ver idem ikey resum s = (res, s') \<Longrightarrow> accounted cap s'"
  using submit_run_effect accounted_same_attempts by metis

lemma fail_queued_run_accounted:
  "well_formed s \<Longrightarrow> accounted cap s \<Longrightarrow> fail_queued_run now eid rid cat msg s = (res, s') \<Longrightarrow> accounted cap s'"
  using fail_queued_run_effect accounted_same_attempts by (metis moves_def)

lemma request_retry_accounted:
  "well_formed s \<Longrightarrow> accounted cap s \<Longrightarrow> request_retry now eid rid who why s = (res, s') \<Longrightarrow> accounted cap s'"
  using request_retry_effect accounted_same_attempts by (metis moves_def)

lemma heartbeat_update_accounted:
  "well_formed s \<Longrightarrow> accounted cap s \<Longrightarrow> heartbeat_update now aid w lease s = (res, s') \<Longrightarrow> accounted cap s'"
  using heartbeat_update_effect accounted_refreshes by metis

lemma attach_process_accounted:
  "well_formed s \<Longrightarrow> accounted cap s \<Longrightarrow> attach_process aid w pid pgid tk s = (res, s') \<Longrightarrow> accounted cap s'"
  using attach_process_effect accounted_refreshes by metis

lemma mark_lost_accounted:
  assumes "well_formed s" "accounted cap s" "mark_lost_row t aid s = (hit, s')"
    and "fetchone (\<lambda>(a, _). at_id a = aid) (expired_rows t s) = Some (x, i)"
  shows "accounted cap s'"
proof -
  obtain g n where k: "(aid, g, n) \<in> attempt_keys s" "(g, i) \<in> stage_links s"
    using expired_rows_fetch [OF assms(1,4)] by metis
  show ?thesis
    using mark_lost_row_effect [OF assms(1,3) k] accounted_lost [OF assms(1,2)] assms(2) by metis
qed

lemma perform_accounted:
  assumes wf: "well_formed (db k)" and ok: "threads_ok k" and cap: "capacity_of c = Some cap"
    and acc: "accounted cap (db k)" and p: "perform c a k = Some k'"
  shows "accounted cap (db k')"
proof (cases "(c, a, k)" rule: perform.cases)
  case (1 c now rid gid task key ver idem ikey resum k1)
  then show ?thesis using p submit_run_accounted [OF wf acc surjective_pairing] by auto
next
  case (2 c now rid k1)
  then show ?thesis using p transition_run_accounted [OF wf acc surjective_pairing] by auto
next
  case (3 c now eid rid cat msg k1)
  then show ?thesis using p fail_queued_run_accounted [OF wf acc surjective_pairing] by auto
next
  case (4 c now aid w rid gid ws k1)
  then show ?thesis using p claim_accounted [OF wf cap acc] by auto
next
  case (5 c n now res u k1)
  then obtain r g x where th: "n < length (threads k)" "threads k ! n = Executing r g x"
    "k' = put n (finish now r g x res u (db k)) k"
    using p by (auto split: if_splits thread.splits)
  have st: "attempt_status (res_status res) \<in> {A_SUCCEEDED, A_FAILED}" by (cases "res_status res") auto
  have "knows (db k) r g x" using th(2) thread_at [OF ok th(1)] by simp
  then show ?thesis
    using finish_attempt_accounted [OF wf acc _ _ st] th(3)
    by (fastforce simp: put_def finish_def split: prod.splits sum.splits)
next
  case (7 c n now k1)
  then show ?thesis
    using p advance_accounted [OF wf thread_at [OF ok] acc surjective_pairing]
    by (auto simp: put_def split: if_splits)
next
  case (9 c now aid w k1)
  then show ?thesis using p heartbeat_update_accounted [OF wf acc surjective_pairing] by auto
next
  case (10 c aid w pid pgid tk k1)
  then show ?thesis using p attach_process_accounted [OF wf acc surjective_pairing] by auto
next
  case (12 c n aid k1)
  then obtain t rs x i where th: "n < length (threads k)" "threads k ! n = Reclaiming t rs"
    "fetchone (\<lambda>(a, _). at_id a = aid) (expired_rows t (db k)) = Some (x, i)"
    using p by (auto split: if_splits thread.splits option.splits)
  obtain hit s' where m: "mark_lost_row t aid (db k) = (hit, s')" by fastforce
  show ?thesis
    using 12 p th m mark_lost_accounted [OF wf acc m th(3)] by (auto simp: put_def split: bool.splits)
next
  case (14 c ars ms ins ups evs ws objs k1)
  then show ?thesis using p acc accounted_same_attempts [of cap "db k" "db k'"] by auto
next
  case (15 c now eid rid who why k1)
  then show ?thesis using p request_retry_accounted [OF wf acc surjective_pairing] by auto
qed (use p acc in \<open>auto simp: put_def spawn_def split: if_splits thread.splits sum.splits\<close>)

section \<open>The invariant\<close>

definition safe :: "RuntimeConfig \<Rightarrow> kernel \<Rightarrow> bool" where
  "safe c k = (well_formed (db k) \<and> threads_ok k \<and>
     (\<forall>cap. capacity_of c = Some cap \<longrightarrow> accounted cap (db k)))"

definition booted :: "kernel \<Rightarrow> bool" where
  "booted k = (k = boot)"

lemma safe_boot: "safe c boot"
proof -
  have "0 \<le> budget n f" for n f using budget_positive [of n f] by linarith
  moreover have "attempts empty_store = []" "reservations empty_store = []"
    by (simp_all add: empty_store_def)
  ultimately show ?thesis
    using well_formed_empty
    by (simp add: safe_def boot_def threads_ok_def accounted_def running_ids_def reserved_ids_def
        resource_totals_def)
qed

lemma safe_step:
  assumes "safe c k" "kernel_step b c k k'"
  shows "safe c k' \<and> refines b (db k) (db k')"
  using assms(2)
proof (rule kernel_stepE)
  fix a assume p: "perform c a k = Some k'" and b: "is_Retry a \<longrightarrow> b"
  have wf: "well_formed (db k)" and ok: "threads_ok k" using assms(1) by (auto simp: safe_def)
  have "refines b (db k) (db k') \<and> threads_ok k'" by (rule perform_refines [OF wf ok p b])
  then show ?thesis
    using assms(1) perform_accounted [OF wf ok _ _ p] by (auto simp: safe_def refines_def)
qed

interpretation kernel: simulation booted "kernel_step b c" "safe c" "\<lambda>k. ledger_of (db k)"
  "\<lambda>L. L = Map.empty" "ledger_step b" for b c
proof
  show "booted k \<Longrightarrow> safe c k" for k using safe_boot by (simp add: booted_def)
  show "booted k \<Longrightarrow> ledger_of (db k) = Map.empty" for k
    by (simp add: booted_def boot_def ledger_of_empty)
  show "safe c k \<Longrightarrow> kernel_step b c k k' \<Longrightarrow> safe c k'" for k k'
    using safe_step by blast
  show "ledger_of (db k') = ledger_of (db k) \<or> ledger_step b (ledger_of (db k)) (ledger_of (db k'))"
    if "safe c k" "kernel_step b c k k'" for k k'
    using safe_step [OF that] by (simp add: refines_def)
qed

end
