(* ===== verification/Exclusive.thy ===== *)
theory Exclusive
  imports KernelInv
begin

text \<open>
  One attempt at a time. As long as no client calls \<open>request_retry\<close>, a run never has two running
  attempts and never makes more attempts than its task allows, whatever workers, reclamations and
  crashes do. The argument is a token: a run's token is held by its running attempt, then by the
  thread that has ended the attempt and still has to say what becomes of the run. Only the holder can
  send the run back to the queue, and a run in the queue has no holder.
\<close>

section \<open>Tokens\<close>

fun holds :: "thread \<Rightarrow> string \<Rightarrow> bool" where
  "holds (Settling r g a res) i = (rn_id r = i)"
| "holds (Reclaiming t rs) i = (i \<in> set rs)"
| "holds (Releasing t aid rs) i = (i \<in> set rs)"
| "holds (SettlingLost rs) i = (i \<in> set rs)"
| "holds (Resuming r g rs) i = (i = r \<or> i \<in> set rs)"
| "holds (Losing r rs) i = (i \<in> set rs)"
| "holds _ i = False"

definition holders :: "kernel \<Rightarrow> string \<Rightarrow> nat" where
  "holders k i = length (filter (\<lambda>th. holds th i) (threads k))"

definition waiting :: "RuntimeStatus \<Rightarrow> bool" where
  "waiting st = (st \<in> {QUEUED, RETRY_WAIT})"

definition calm_entry :: "entry \<Rightarrow> nat \<Rightarrow> bool" where
  "calm_entry v h = (e_running v + h \<le> 1 \<and> int (e_made v) \<le> e_budget v \<and>
     (waiting (e_status v) \<longrightarrow> e_running v + h = 0 \<and> int (e_made v) < e_budget v))"

text \<open>What the holder has read stays true while it holds the token.\<close>

fun thread_calm :: "store \<Rightarrow> thread \<Rightarrow> bool" where
  "thread_calm s (Settling r g a res) = (\<exists>v. ledger_of s (rn_id r) = Some v \<and> e_made v = at_number a)"
| "thread_calm s (Resuming r g rs) = (\<exists>v. ledger_of s r = Some v \<and> int (e_made v) < e_budget v)"
| "thread_calm s _ = True"

definition running_keys :: "store \<Rightarrow> (string \<times> nat) set" where
  "running_keys s = (\<lambda>a. (at_stage a, at_number a)) ` {a \<in> set (attempts s). at_status a = A_RUNNING}"

text \<open>A running attempt is the latest of its run.\<close>

definition latest_runs :: "store \<Rightarrow> bool" where
  "latest_runs s = (\<forall>g i v n. (g, i) \<in> stage_links s \<longrightarrow> ledger_of s i = Some v \<longrightarrow>
     (g, n) \<in> running_keys s \<longrightarrow> n = e_made v)"

definition calm :: "kernel \<Rightarrow> bool" where
  "calm k = ((\<forall>i v. ledger_of (db k) i = Some v \<longrightarrow> calm_entry v (holders k i)) \<and>
     (\<forall>th \<in> set (threads k). thread_calm (db k) th) \<and> latest_runs (db k))"

section \<open>Counting holders\<close>

lemma length_filter_update:
  "n < length xs \<Longrightarrow> length (filter P (xs[n := x])) + (if P (xs ! n) then 1 else 0) =
     length (filter P xs) + (if P x then 1 else 0)"
proof (induction xs arbitrary: n)
  case (Cons y xs)
  show ?case
  proof (cases n)
    case (Suc m)
    then show ?thesis using Cons.IH [of m] Cons.prems by auto
  qed simp
qed simp

lemma holders_put:
  assumes "n < length (threads k)"
  shows "holders (put n (th, s') k) i + (if holds (threads k ! n) i then 1 else 0) =
    holders k i + (if holds th i then 1 else 0)"
  using length_filter_update [OF assms, of "\<lambda>th. holds th i" th] by (simp add: holders_def put_def)

lemma holders_spawn [simp]:
  "holders (spawn th k) i = holders k i + (if holds th i then 1 else 0)"
  by (simp add: holders_def spawn_def)

lemma holders_db [simp]: "holders (k\<lparr> db := s' \<rparr>) i = holders k i"
  by (simp add: holders_def)

lemma holders_zero: "holders k i = 0 \<Longrightarrow> th \<in> set (threads k) \<Longrightarrow> \<not> holds th i"
  by (auto simp: holders_def filter_empty_conv)

lemma held_runs_exist:
  assumes "well_formed s" "thread_ok s th" "holds th i"
  shows "i \<in> dom (ledger_of s)"
proof -
  have "i \<in> dom (ledger_of s)" if l: "(g, i) \<in> stage_links s" for g i
  proof -
    obtain h where "h \<in> set (stages s)" "sg_run h = i" using l by (auto simp: stage_links_def)
    then obtain r where "r \<in> set (runs s)" "rn_id r = i" using stage_run_exists [OF assms(1)] by metis
    then show ?thesis using ledger_of_None [OF assms(1)] by blast
  qed
  then show ?thesis using assms(2,3)
    by (cases "(th, i)" rule: holds.cases) (auto simp: knows_def budget_known_def)
qed

section \<open>Quiet steps\<close>

text \<open>
  A step is quiet for a run when it neither queues it nor adds to its running attempts and
  holders together, and makes no attempt.
\<close>

definition quiet :: "kernel \<Rightarrow> kernel \<Rightarrow> string \<Rightarrow> bool" where
  "quiet k k' i = (\<forall>v'. ledger_of (db k') i = Some v' \<longrightarrow> (\<exists>v. ledger_of (db k) i = Some v \<and>
     e_made v' = e_made v \<and> e_budget v' = e_budget v \<and>
     e_running v' + holders k' i \<le> e_running v + holders k i \<and>
     (waiting (e_status v') \<longrightarrow> waiting (e_status v))))"

lemma quiet_calm_entry:
  assumes "calm k" "quiet k k' i" "ledger_of (db k') i = Some v'"
  shows "calm_entry v' (holders k' i)"
proof -
  obtain v where v: "ledger_of (db k) i = Some v" "e_made v' = e_made v" "e_budget v' = e_budget v"
    "e_running v' + holders k' i \<le> e_running v + holders k i"
    "waiting (e_status v') \<longrightarrow> waiting (e_status v)"
    using assms(2,3) by (auto simp: quiet_def)
  have "calm_entry v (holders k i)" using assms(1) v(1) by (simp add: calm_def)
  then show ?thesis using v by (auto simp: calm_entry_def)
qed

text \<open>Changes that make no attempt keep the threads' readings and the numbering.\<close>

definition same_made :: "store \<Rightarrow> store \<Rightarrow> bool" where
  "same_made s s' = (\<forall>i v. ledger_of s i = Some v \<longrightarrow>
     (\<exists>v'. ledger_of s' i = Some v' \<and> e_made v' = e_made v \<and> e_budget v' = e_budget v))"

lemma thread_calm_same: "same_made s s' \<Longrightarrow> thread_calm s th \<Longrightarrow> thread_calm s' th"
  unfolding same_made_def by (cases "(s, th)" rule: thread_calm.cases) (auto, metis+)

lemma latest_runs_same:
  assumes wf: "well_formed s" "well_formed s'" and ext: "extends s s'" and same: "same_made s s'"
    and keys: "running_keys s' \<subseteq> running_keys s" and latest: "latest_runs s"
  shows "latest_runs s'"
  unfolding latest_runs_def
proof (intro allI impI)
  fix g i v' n
  assume a: "(g, i) \<in> stage_links s'" "ledger_of s' i = Some v'" "(g, n) \<in> running_keys s'"
  have n: "(g, n) \<in> running_keys s" using a(3) keys by blast
  then obtain x where "x \<in> set (attempts s)" "at_stage x = g" by (auto simp: running_keys_def)
  then obtain j where j: "(g, j) \<in> stage_links s" using attempt_stage_link [OF wf(1)] by metis
  then have "(g, j) \<in> stage_links s'" using ext by (auto simp: extends_def)
  then have "j = i"
    using a(1) stage_unique(1) [OF wf(2)] by (auto simp: stage_links_def)
  have "j \<in> dom (ledger_of s)"
    using held_runs_exist [OF wf(1), of "Resuming j g []" j] j by simp
  then obtain v where v: "ledger_of s i = Some v" using \<open>j = i\<close> by auto
  then have "n = e_made v" using latest j n \<open>j = i\<close> by (auto simp: latest_runs_def)
  moreover have "e_made v' = e_made v" using same v a(2) unfolding same_made_def by fastforce
  ultimately show "n = e_made v'" by simp
qed

lemma running_keys_moves: "moves i F t s s' \<Longrightarrow> running_keys s' = running_keys s"
  by (auto simp: moves_def running_keys_def)

lemma running_keys_stops: "stops i aid s s' \<Longrightarrow> running_keys s' \<subseteq> running_keys s"
  by (auto simp: stops_def running_keys_def)

lemma same_made_moves: "moves i F t s s' \<Longrightarrow> same_made s s'"
  by (auto simp: moves_def same_made_def)

lemma same_made_stops: "stops i aid s s' \<Longrightarrow> same_made s s'"
  by (auto simp: stops_def same_made_def)

lemma same_made_refl [simp]: "same_made s s"
  by (simp add: same_made_def)

text \<open>The rule for steps that leave every run but one quiet, and keep that one calm.\<close>

lemma calm_stepI:
  assumes "calm k" "well_formed (db k)" "well_formed (db k')" "extends (db k) (db k')"
    and "same_made (db k) (db k')" "running_keys (db k') \<subseteq> running_keys (db k)"
    and "\<And>i v. ledger_of (db k') i = Some v \<Longrightarrow> quiet k k' i \<or> calm_entry v (holders k' i)"
    and "\<And>th. th \<in> set (threads k') \<Longrightarrow> th \<in> set (threads k) \<or> thread_calm (db k') th"
  shows "calm k'"
  unfolding calm_def
proof (intro conjI allI impI ballI)
  show "calm_entry v (holders k' i)" if "ledger_of (db k') i = Some v" for i v
    using assms(7) [OF that] quiet_calm_entry [OF assms(1) _ that] by blast
  show "thread_calm (db k') th" if "th \<in> set (threads k')" for th
    using assms(8) [OF that] assms(1) thread_calm_same [OF assms(5)] by (auto simp: calm_def)
  show "latest_runs (db k')"
    using latest_runs_same [OF assms(2-6)] assms(1) by (simp add: calm_def)
qed

text \<open>The shapes a step can have. The first three hypotheses on \<open>k'\<close> are common.\<close>

definition follows :: "kernel \<Rightarrow> kernel \<Rightarrow> bool" where
  "follows k k' = (calm k \<and> well_formed (db k) \<and> well_formed (db k') \<and> extends (db k) (db k') \<and>
     (\<forall>th \<in> set (threads k'). th \<in> set (threads k) \<or> thread_calm (db k') th))"

lemma calm_same:
  assumes "follows k k'" "ledger_of (db k') = ledger_of (db k)"
    "running_keys (db k') \<subseteq> running_keys (db k)" "\<And>j. holders k' j \<le> holders k j"
  shows "calm k'"
proof (rule calm_stepI [of k])
  show "quiet k k' i \<or> calm_entry v (holders k' i)" if "ledger_of (db k') i = Some v" for i v
    using assms(2,4) by (auto simp: quiet_def)
qed (use assms in \<open>auto simp: follows_def same_made_def\<close>)

lemma calm_move:
  assumes f: "follows k k'" and m: "moves i F t (db k) (db k')" and "\<not> waiting t"
    and h: "\<And>j. holders k' j \<le> holders k j"
  shows "calm k'"
proof (rule calm_stepI [of k])
  show "quiet k k' j \<or> calm_entry v (holders k' j)" if "ledger_of (db k') j = Some v" for j v
    using m h [of j] assms(3) by (cases "j = i") (auto simp: quiet_def moves_def)
  show "same_made (db k) (db k')" by (rule same_made_moves [OF m])
  show "running_keys (db k') \<subseteq> running_keys (db k)" using running_keys_moves [OF m] by simp
qed (use f in \<open>auto simp: follows_def\<close>)

lemma calm_requeue:
  assumes f: "follows k k'" and m: "moves i F RETRY_WAIT (db k) (db k')"
    and h: "\<And>j. j \<noteq> i \<Longrightarrow> holders k' j \<le> holders k j" "Suc (holders k' i) = holders k i"
    and room: "\<And>v. ledger_of (db k) i = Some v \<Longrightarrow> int (e_made v) < e_budget v"
  shows "calm k'"
proof (rule calm_stepI [of k])
  show "quiet k k' j \<or> calm_entry v (holders k' j)" if L: "ledger_of (db k') j = Some v" for j v
  proof (cases "j = i")
    case True
    obtain w where w: "ledger_of (db k) i = Some w" "v = w\<lparr> e_status := RETRY_WAIT \<rparr>"
      using m True L by (auto simp: moves_def)
    have "calm_entry w (holders k i)" using f w(1) by (simp add: follows_def calm_def)
    then show ?thesis using True h(2) w room [OF w(1)] by (auto simp: calm_entry_def)
  next
    case False
    then show ?thesis using m h(1) [OF False] by (auto simp: quiet_def moves_def)
  qed
  show "same_made (db k) (db k')" by (rule same_made_moves [OF m])
  show "running_keys (db k') \<subseteq> running_keys (db k)" using running_keys_moves [OF m] by simp
qed (use f in \<open>auto simp: follows_def\<close>)

lemma calm_stop:
  assumes f: "follows k k'" and m: "stops i aid (db k) (db k')"
    and h: "\<And>j. j \<noteq> i \<Longrightarrow> holders k' j \<le> holders k j" "holders k' i \<le> Suc (holders k i)"
  shows "calm k'"
proof (rule calm_stepI [of k])
  show "quiet k k' j \<or> calm_entry v (holders k' j)" if "ledger_of (db k') j = Some v" for j v
    using m h(1) [of j] h(2) by (cases "j = i") (auto simp: quiet_def stops_def)
  show "same_made (db k) (db k')" by (rule same_made_stops [OF m])
  show "running_keys (db k') \<subseteq> running_keys (db k)" by (rule running_keys_stops [OF m])
qed (use f in \<open>auto simp: follows_def\<close>)

lemma calm_new:
  assumes f: "follows k k'" and ok: "threads_ok k"
    and L: "ledger_of (db k) i = None" "0 < b" "ledger_of (db k') =
      (ledger_of (db k))(i \<mapsto> \<lparr> e_status = QUEUED, e_budget = b, e_made = 0, e_running = 0 \<rparr>)"
    and same: "attempts (db k') = attempts (db k)" "threads k' = threads k"
  shows "calm k'"
proof (rule calm_stepI [of k])
  have h: "holders k' j = holders k j" for j by (simp add: holders_def same)
  have "\<not> holds th i" if "th \<in> set (threads k)" for th
    using held_runs_exist [of "db k" th i] L(1) ok f that by (auto simp: threads_ok_def follows_def)
  then have "holders k i = 0" by (auto simp: holders_def filter_empty_conv)
  then show "quiet k k' j \<or> calm_entry v (holders k' j)" if "ledger_of (db k') j = Some v" for j v
    using that L h by (cases "j = i") (auto simp: quiet_def calm_entry_def)
  show "same_made (db k) (db k')" using L by (auto simp: same_made_def)
  show "running_keys (db k') \<subseteq> running_keys (db k)" by (simp add: running_keys_def same)
qed (use f in \<open>auto simp: follows_def\<close>)

text \<open>After a claim of an idle run the new attempt is the only one running, and the latest.\<close>

lemma idle_no_running:
  assumes "well_formed s" "ledger_of s i = Some v" "e_running v = 0" "(g, i) \<in> stage_links s"
  shows "(g, n) \<notin> running_keys s"
proof
  assume "(g, n) \<in> running_keys s"
  then obtain x where x: "x \<in> set (attempts s)" "at_stage x = g" "at_status x = A_RUNNING"
    by (auto simp: running_keys_def)
  obtain r h where rh: "v = entry_of s r h" "h \<in> set (stages s)" "sg_run h = i"
    using ledger_of_Some [OF assms(1,2)] by metis
  have "sg_id h = g"
    using assms(4) rh(2,3) stage_unique(2) [OF assms(1)] by (auto simp: stage_links_def)
  then have "attempts_running g s = 0" using assms(3) rh(1) by (simp add: entry_of_def)
  then show False using x by (auto simp: attempts_running_def filter_empty_conv)
qed

lemma stage_link_unique:
  assumes "well_formed s" "(g, i) \<in> stage_links s" "(h, j) \<in> stage_links s"
  shows "g = h \<longleftrightarrow> i = j"
  using assms stage_unique [OF assms(1)] by (auto simp: stage_links_def)

lemma start_latest:
  assumes wf: "well_formed s" "well_formed s'" and ext: "extends s s'" and latest: "latest_runs s"
    and v: "ledger_of s i = Some v" "e_running v = 0"
    and L: "ledger_of s' = (ledger_of s)(i \<mapsto> v')" and number: "at_number a = e_made v'"
    and a: "attempts s' = attempts s @ [a]" and link: "(at_stage a, i) \<in> stage_links s"
  shows "latest_runs s'"
  unfolding latest_runs_def
proof (intro allI impI)
  fix g j w n
  assume g: "(g, j) \<in> stage_links s'" and w: "ledger_of s' j = Some w" and n: "(g, n) \<in> running_keys s'"
  have al: "(at_stage a, i) \<in> stage_links s'" using link ext by (auto simp: extends_def)
  consider "g = at_stage a" "n = at_number a" | "(g, n) \<in> running_keys s"
    using n a by (auto simp: running_keys_def)
  then show "n = e_made w"
  proof cases
    case 1
    then have "j = i" using stage_link_unique [OF wf(2) g al] by simp
    then show ?thesis using 1 w L number by simp
  next
    case 2
    then obtain x where "x \<in> set (attempts s)" "at_stage x = g" by (auto simp: running_keys_def)
    then obtain i' where i': "(g, i') \<in> stage_links s" using attempt_stage_link [OF wf(1)] by metis
    have "i' = j" using stage_link_unique [OF wf(2) _ g, of g i'] i' ext by (auto simp: extends_def)
    moreover have "i' \<noteq> i" using idle_no_running [OF wf(1) v] i' 2 by blast
    ultimately show ?thesis using latest i' 2 w L by (auto simp: latest_runs_def)
  qed
qed

lemma calm_start:
  assumes f: "follows k k'" and m: "starts i a (db k) (db k')"
    and a: "attempts (db k') = attempts (db k) @ [a]" "at_status a = A_RUNNING"
    and link: "(at_stage a, i) \<in> stage_links (db k)"
    and h: "\<And>j. holders k' j = holders k j"
  shows "calm k'"
proof -
  obtain v where v: "ledger_of (db k) i = Some v" "waiting (e_status v)" "at_number a = Suc (e_made v)"
    "ledger_of (db k') = (ledger_of (db k))(i \<mapsto> v\<lparr> e_status := RUNNING, e_made := Suc (e_made v),
       e_running := Suc (e_running v) \<rparr>)"
    using m by (auto simp: starts_def waiting_def)
  have calm: "calm k" and wf: "well_formed (db k)" "well_formed (db k')" and ext: "extends (db k) (db k')"
    using f by (auto simp: follows_def)
  have idle: "e_running v = 0" "holders k i = 0" "int (e_made v) < e_budget v"
    using calm v(1,2) by (auto simp: calm_def calm_entry_def)
  show ?thesis
    unfolding calm_def
  proof (intro conjI allI impI ballI)
    show "calm_entry w (holders k' j)" if "ledger_of (db k') j = Some w" for j w
      using that v idle h calm by (cases "j = i") (auto simp: calm_entry_def waiting_def calm_def)
    show "thread_calm (db k') th" if "th \<in> set (threads k')" for th
    proof (cases "th \<in> set (threads k)")
      case True
      then have "thread_calm (db k) th" "\<not> holds th i"
        using calm holders_zero [OF idle(2)] by (auto simp: calm_def)
      then show ?thesis
        by (cases "(db k, th)" rule: thread_calm.cases) (auto simp: v(4))
    next
      case False
      then show ?thesis using f that by (auto simp: follows_def)
    qed
    show "latest_runs (db k')"
      using start_latest [OF wf ext _ v(1) idle(1) v(4) _ a(1) link] calm v(3) by (simp add: calm_def)
  qed
qed

section \<open>Every step without \<open>request_retry\<close> is calm\<close>

lemma put_follows:
  assumes "calm k" "well_formed (db k)" "refines b (db k) s'" "thread_calm s' th"
  shows "follows k (put n (th, s') k)"
  using assms set_update_subset_insert [of "threads k" n th]
  by (auto simp: follows_def put_def refines_def grows_def)

lemma db_follows:
  assumes "calm k" "well_formed (db k)" "refines b (db k) s'"
  shows "follows k (k\<lparr> db := s' \<rparr>)"
  using assms by (simp add: follows_def refines_def grows_def)

lemma holders_put_le:
  assumes "n < length (threads k)" "holds th j \<longrightarrow> holds (threads k ! n) j"
  shows "holders (put n (th, s') k) j \<le> holders k j"
  using holders_put [OF assms(1), of th s' j] assms(2) by (auto split: if_splits)

lemma put_same_calm:
  assumes "calm k" "well_formed (db k)" "n < length (threads k)"
    and "thread_calm (db k) th" "\<And>j. holds th j \<Longrightarrow> holds (threads k ! n) j"
  shows "calm (put n (th, db k) k)"
proof (rule calm_same)
  show "follows k (put n (th, db k) k)" by (rule put_follows [OF assms(1,2) refines_refl [OF assms(2)] assms(4)])
  show "holders (put n (th, db k) k) j \<le> holders k j" for j
    using holders_put_le [OF assms(3)] assms(5) by blast
qed (simp_all add: put_def)

lemma put_transition_calm:
  assumes "calm k" "well_formed (db k)" "n < length (threads k)"
    and tr: "transition_run now i t reason (db k) = (res, s')"
    and t: "t \<in> {CANCEL_REQUESTED, SUCCEEDED, FAILED, CANCELLED, TIMED_OUT, LOST}"
    and th: "thread_calm s' th" "\<And>j. holds th j \<Longrightarrow> holds (threads k ! n) j"
  shows "calm (put n (th, s') k)"
proof (cases "s' = db k")
  case True
  then show ?thesis using put_same_calm assms by metis
next
  case False
  then have m: "moves i {x. run_transition_allowed x t} t (db k) s'"
    using transition_run_effect [OF assms(2) tr] by simp
  show ?thesis
  proof (rule calm_move)
    show "follows k (put n (th, s') k)"
      by (rule put_follows [OF assms(1,2) transition_run_refines [OF assms(2) tr t] th(1)])
    show "moves i {x. run_transition_allowed x t} t (db k) (db (put n (th, s') k))"
      using m by (simp add: put_def)
    show "\<not> waiting t" using t by (auto simp: waiting_def)
    show "holders (put n (th, s') k) j \<le> holders k j" for j
      using holders_put_le [OF assms(3)] th(2) by blast
  qed
qed

lemma put_requeue_calm:
  assumes "calm k" "well_formed (db k)" "n < length (threads k)"
    and sc: "schedule_retry i g reason (db k) = (Inr x, s')" and link: "(g, i) \<in> stage_links (db k)"
    and room: "\<And>v. ledger_of (db k) i = Some v \<Longrightarrow> int (e_made v) < e_budget v"
    and th: "thread_calm s' th" "holds (threads k ! n) i" "\<not> holds th i"
      "\<And>j. holds th j \<Longrightarrow> holds (threads k ! n) j"
  shows "calm (put n (th, s') k)"
proof (rule calm_requeue)
  have m: "moves i {RUNNING} RETRY_WAIT (db k) s'"
    using schedule_retry_effect [OF assms(2) sc link] by auto
  show "follows k (put n (th, s') k)"
    by (rule put_follows [OF assms(1,2) schedule_retry_refines [OF assms(2) sc link] th(1)])
  show "moves i {RUNNING} RETRY_WAIT (db k) (db (put n (th, s') k))" using m by (simp add: put_def)
  show "holders (put n (th, s') k) j \<le> holders k j" for j
    using holders_put_le [OF assms(3)] th(4) by blast
  show "Suc (holders (put n (th, s') k) i) = holders k i"
    using holders_put [OF assms(3), of th s' i] th(2,3) by simp
  show "int (e_made v) < e_budget v" if "ledger_of (db k) i = Some v" for v by (rule room [OF that])
qed

lemma put_finish_calm:
  assumes "calm k" "well_formed (db k)" "n < length (threads k)" "knows (db k) r g a"
    and fin: "finish_attempt now (at_id a) st x fl u (db k) = (Inr (), s')"
    and st: "st \<in> {A_SUCCEEDED, A_FAILED}"
    and th: "thread_calm s' th" "\<And>j. holds th j \<Longrightarrow> holds (threads k ! n) j \<or> j = rn_id r"
  shows "calm (put n (th, s') k)"
proof -
  have key: "(at_id a, g, at_number a) \<in> attempt_keys (db k)" "(g, rn_id r) \<in> stage_links (db k)"
    using assms(4) by (auto simp: knows_def)
  have m: "stops (rn_id r) (at_id a) (db k) s'"
    using finish_attempt_effect [OF assms(2) fin key st] by auto
  show ?thesis
  proof (rule calm_stop)
    show "follows k (put n (th, s') k)"
      by (rule put_follows [OF assms(1,2) finish_attempt_refines [OF assms(2) fin assms(4) st] th(1)])
    show "stops (rn_id r) (at_id a) (db k) (db (put n (th, s') k))" using m by (simp add: put_def)
    show "holders (put n (th, s') k) j \<le> holders k j" if "j \<noteq> rn_id r" for j
      using holders_put_le [OF assms(3)] th(2) that by blast
    show "holders (put n (th, s') k) (rn_id r) \<le> Suc (holders k (rn_id r))"
      using holders_put [OF assms(3), of th s' "rn_id r"] by (auto split: if_splits)
  qed
qed

text \<open>The attempt that ends was the latest of its run.\<close>

lemma finished_latest:
  assumes "calm k" "well_formed (db k)" "knows (db k) r g a"
    and fin: "finish_attempt now (at_id a) st x fl u (db k) = (Inr (), s')" and st: "st \<in> {A_SUCCEEDED, A_FAILED}"
  shows "thread_calm s' (Settling r g a res)"
proof -
  have key: "(at_id a, g, at_number a) \<in> attempt_keys (db k)" "(g, rn_id r) \<in> stage_links (db k)"
    using assms(3) by (auto simp: knows_def)
  have m: "stops (rn_id r) (at_id a) (db k) s'"
    using finish_attempt_effect [OF assms(2) fin key st] by auto
  then obtain v where v: "ledger_of (db k) (rn_id r) = Some v" by (auto simp: stops_def)
  obtain y where y: "y \<in> set (attempts (db k))" "at_id y = at_id a" "at_status y = A_RUNNING"
    using m by (auto simp: stops_def)
  obtain z where z: "z \<in> set (attempts (db k))" "at_id z = at_id a" "at_stage z = g" "at_number z = at_number a"
    using key(1) by (auto simp: attempt_keys_def)
  have "y = z" using attempt_unique [OF assms(2) y(1) z(1)] y(2) z(2) by simp
  then have "(g, at_number a) \<in> running_keys (db k)" using y z by (force simp: running_keys_def)
  then have "at_number a = e_made v"
    using assms(1) key(2) v by (auto simp: calm_def latest_runs_def)
  then show ?thesis using same_made_stops [OF m] v by (auto simp: same_made_def)
qed

lemma settle_calm:
  assumes c: "calm k" "well_formed (db k)" "n < length (threads k)"
    and th: "threads k ! n = Settling r g a res" "thread_ok (db k) (Settling r g a res)"
    and st: "settle now r g a res (db k) = (th', s')"
  shows "calm (put n (th', s') k)"
proof (cases "should_retry r a res")
  case True
  have link: "(g, rn_id r) \<in> stage_links (db k)" using th(2) by (simp add: knows_def)
  obtain reason out where sc: "schedule_retry (rn_id r) g reason (db k) = (out, s')"
    and th': "th' = (case out of Inr _ \<Rightarrow> Done | Inl _ \<Rightarrow> Failing r a)"
    using st True by (fastforce simp: settle_def split: prod.splits sum.splits)
  show ?thesis
  proof (cases out)
    case (Inl e)
    then have "s' = db k" using schedule_retry_effect [OF c(2) sc link] by auto
    then show ?thesis using put_same_calm [OF c, of th'] th' Inl by simp
  next
    case (Inr u)
    have "int (e_made v) < e_budget v" if "ledger_of (db k) (rn_id r) = Some v" for v
    proof -
      have "thread_calm (db k) (Settling r g a res)" using c(1,3) th(1) by (metis calm_def nth_mem)
      then show ?thesis
        using True that th(2) by (auto simp: should_retry_def knows_def budget_known_def split: if_splits)
    qed
    then show ?thesis
      using put_requeue_calm [OF c sc [unfolded Inr] link, of th'] th(1) th' Inr by simp
  qed
next
  case False
  obtain out where tr: "transition_run now (rn_id r) (res_status res) (terminal_reason res) (db k) = (out, s')"
    and th': "th' = Done \<or> th' = Failing r a"
    using st False by (fastforce simp: settle_def split: prod.splits sum.splits)
  then show ?thesis using put_transition_calm [OF c tr, of th'] th(2) by auto
qed

lemma resume_calm:
  assumes c: "calm k" "well_formed (db k)" "n < length (threads k)"
    and th: "threads k ! n = Resuming r g rs" "thread_ok (db k) (Resuming r g rs)"
    and st: "advance now (Resuming r g rs) (db k) = (th', s')"
  shows "calm (put n (th', s') k)"
proof -
  have link: "(g, r) \<in> stage_links (db k)" using th(2) by simp
  obtain out where sc: "schedule_retry r g RESUME_REASON (db k) = (out, s')"
    and th': "th' = (case out of Inr _ \<Rightarrow> SettlingLost rs
      | Inl e \<Rightarrow> if is_InvalidTransition e then Losing r rs else Done)"
    using st by (auto split: prod.splits sum.splits)
  show ?thesis
  proof (cases out)
    case (Inl e)
    then have "s' = db k" using schedule_retry_effect [OF c(2) sc link] by auto
    then show ?thesis using put_same_calm [OF c, of th'] th' Inl th(1) by (simp split: if_splits)
  next
    case (Inr u)
    have "thread_calm (db k) (Resuming r g rs)" using c(1,3) th(1) by (metis calm_def nth_mem)
    then show ?thesis
      using put_requeue_calm [OF c sc [unfolded Inr] link, of th'] th th' Inr by auto
  qed
qed

lemma advance_calm:
  assumes c: "calm k" "well_formed (db k)" "n < length (threads k)" and ok: "threads_ok k"
    and adv: "advance now (threads k ! n) (db k) = (th', s')"
  shows "calm (put n (th', s') k)"
proof (cases "(now, threads k ! n, db k)" rule: advance.cases)
  case (1 now r g a res)
  then show ?thesis using settle_calm [OF c, of r g a res] adv thread_at [OF ok c(3)] by auto
next
  case (2 now r a)
  then obtain g where kn: "knows (db k) r g a" using thread_at [OF ok c(3)] by auto
  have key: "(at_id a, g, at_number a) \<in> attempt_keys (db k)" "(g, rn_id r) \<in> stage_links (db k)"
    using kn by (auto simp: knows_def)
  obtain out where fin: "finish_attempt now (at_id a) A_FAILED (Some 1) (Some RUNTIME_FAILURE)
      (PNone, PNone, PNone) (db k) = (out, s')" and th': "th' = FailingRun r \<or> th' = Done"
    using 2 adv by (auto split: prod.splits sum.splits if_splits)
  show ?thesis
    using finish_attempt_effect [OF c(2) fin key] put_same_calm [OF c, of th'] th'
      put_finish_calm [OF c kn, of now A_FAILED _ _ _ s' th'] fin by auto
next
  case (5 now t aid rs)
  then have th': "th' = Reclaiming t rs" "s' = release_resources aid (db k)"
    "threads k ! n = Releasing t aid rs" using adv by auto
  have "follows k (put n (th', s') k)"
    using release_resources_effect th' grows_same c(2)
    by (intro put_follows [OF c(1,2), of True]) (auto simp: refines_def)
  then show ?thesis
    using calm_same [of k "put n (th', s') k"] th' holders_put_le [OF c(3), of th']
      release_resources_effect(2)
    by (auto simp: put_def running_keys_def release_resources_def)
next
  case (9 now r g rs)
  then show ?thesis using resume_calm [OF c, of r g rs] adv thread_at [OF ok c(3)] by auto
next
  case (4 now r)
  then show ?thesis
    using adv put_transition_calm [OF c, of now "rn_id r" FAILED] by (fastforce split: prod.splits)
next
  case (8 now r rs)
  then show ?thesis
    using adv put_same_calm [OF c, of th'] resume_stage_Some [OF c(2), of r]
    by (auto split: option.splits)
next
  case (10 now r rs)
  then show ?thesis
    using adv put_transition_calm [OF c, of now r LOST "Some ''lease_expired''" _ s' th']
    by (auto split: prod.splits sum.splits if_splits)
next
  case (12 now r rs)
  then show ?thesis
    using adv put_transition_calm [OF c, of now r CANCELLED "Some ''cancelled before the attempt started''" _ s' th']
    by (auto split: prod.splits sum.splits if_splits)
next
  case (14 now r g a)
  then show ?thesis using adv put_same_calm [OF c, of th'] by auto
qed (use adv put_same_calm [OF c, of th'] in \<open>auto split: sum.splits if_splits\<close>)

lemma finish_calm:
  assumes c: "calm k" "well_formed (db k)" "n < length (threads k)"
    and th: "threads k ! n = Executing r g a" "knows (db k) r g a"
  shows "calm (put n (finish now r g a res u (db k)) k)"
proof -
  have st: "attempt_status (res_status res) \<in> {A_SUCCEEDED, A_FAILED}" by (cases "res_status res") auto
  have key: "(at_id a, g, at_number a) \<in> attempt_keys (db k)" "(g, rn_id r) \<in> stage_links (db k)"
    using th(2) by (auto simp: knows_def)
  obtain out s' where fin: "finish_attempt now (at_id a) (attempt_status (res_status res))
      (Some (py_int (exit_code res))) (failure_of res) u (db k) = (out, s')" by fastforce
  show ?thesis
  proof (cases out)
    case (Inl e)
    then have "s' = db k" using finish_attempt_effect [OF c(2) fin key st] by auto
    then show ?thesis using put_same_calm [OF c, of "Failing r a"] fin Inl by (simp add: finish_def)
  next
    case (Inr x)
    then have fin': "finish_attempt now (at_id a) (attempt_status (res_status res))
      (Some (py_int (exit_code res))) (failure_of res) u (db k) = (Inr (), s')" using fin by simp
    show ?thesis
      using put_finish_calm [OF c th(2) fin' st finished_latest [OF c(1,2) th(2) fin' st, of res]] fin'
      by (simp add: finish_def)
  qed
qed

lemma mark_lost_calm:
  assumes c: "calm k" "well_formed (db k)" "n < length (threads k)"
    and th: "threads k ! n = Reclaiming t rs" "thread_ok (db k) (Reclaiming t rs)"
    and f: "fetchone (\<lambda>(a, _). at_id a = aid) (expired_rows t (db k)) = Some (x, i)"
    and m: "mark_lost_row t aid (db k) = (hit, s')"
  shows "calm (put n (if hit then Releasing t aid (i # rs) else Reclaiming t rs, s') k)"
proof (cases hit)
  case True
  obtain g num where key: "(aid, g, num) \<in> attempt_keys (db k)" "(g, i) \<in> stage_links (db k)"
    using expired_rows_fetch [OF c(2) f] by metis
  have stop: "stops i aid (db k) s'" using mark_lost_row_effect [OF c(2) m key] True by auto
  let ?th = "Releasing t aid (i # rs)"
  have "calm (put n (?th, s') k)"
  proof (rule calm_stop)
    show "follows k (put n (?th, s') k)"
      using mark_lost_refines [OF c(2) th(2) f m, of True] put_follows [OF c(1,2), of True s' ?th n] by simp
    show "stops i aid (db k) (db (put n (?th, s') k))" using stop by (simp add: put_def)
    show "holders (put n (?th, s') k) j \<le> holders k j" if "j \<noteq> i" for j
      using holders_put_le [OF c(3), of ?th j s'] th(1) that by simp
    show "holders (put n (?th, s') k) i \<le> Suc (holders k i)"
      using holders_put [OF c(3), of ?th s' i] by (auto split: if_splits)
  qed
  then show ?thesis using True by simp
next
  case False
  then have "s' = db k" using m by (auto simp: mark_lost_row_def split: if_splits)
  then show ?thesis using put_same_calm [OF c, of "Reclaiming t rs"] th(1) False by simp
qed

lemma claim_calm:
  assumes c: "calm k" and wf: "well_formed (db k)"
  shows "calm (claim cfg now aid w rid gid ws k)"
proof (cases cfg now aid w rid gid ws k rule: claim_cases)
  case (claimed r a s')
  note eff = start_attempt_effect [OF wf claimed(2,3)]
  show ?thesis
    unfolding claimed(4)
  proof (rule calm_start)
    show "follows k (spawn (Executing r gid a) (k\<lparr> db := s' \<rparr>))"
      using eff(1,2) c wf by (auto simp: follows_def spawn_def)
    show "starts rid a (db k) (db (spawn (Executing r gid a) (k\<lparr> db := s' \<rparr>)))"
      using eff(3) by (simp add: spawn_def)
    show "attempts (db (spawn (Executing r gid a) (k\<lparr> db := s' \<rparr>))) = attempts (db k) @ [a]"
      using eff(8) by (simp add: spawn_def)
    show "(at_stage a, rid) \<in> stage_links (db k)" using claimed(2) eff(5) by simp
  qed (use eff(6) in simp_all)
qed (use c in simp)

text \<open>The steps that only touch the store.\<close>

lemma db_move_calm:
  assumes "calm k" "well_formed (db k)" "refines b (db k) s'"
    and "s' = db k \<or> moves i F t (db k) s'" "\<not> waiting t"
  shows "calm (k\<lparr> db := s' \<rparr>)"
  using assms(4)
proof
  assume "s' = db k"
  then show ?thesis using assms(1) by simp
next
  assume "moves i F t (db k) s'"
  then show ?thesis
    using calm_move [OF db_follows [OF assms(1-3)], of i F t] assms(5) by simp
qed

lemma db_refresh_calm:
  assumes "calm k" "well_formed (db k)" "refines b (db k) s'"
    and "ledger_of s' = ledger_of (db k)" "running_keys s' = running_keys (db k)"
  shows "calm (k\<lparr> db := s' \<rparr>)"
  using calm_same [OF db_follows [OF assms(1-3)]] assms(4,5) by simp

lemma running_keys_refreshes: "refreshes s s' \<Longrightarrow> running_keys s' = running_keys s"
proof -
  assume r: "refreshes s s'"
  let ?f = "\<lambda>a. (at_id a, at_stage a, at_number a, at_status a)"
  have eq: "?f ` set (attempts s') = ?f ` set (attempts s)"
    using r by (metis (no_types, lifting) list.set_map refreshes_def)
  have "running_keys x = {(g, n). \<exists>i. (i, g, n, A_RUNNING) \<in> ?f ` set (attempts x)}" for x
    by (force simp: running_keys_def)
  then show ?thesis using eq by simp
qed

lemma owned_calm:
  assumes "calm k" "well_formed (db k)" "refines b (db k) s'"
    and "s' = db k \<or> well_formed s' \<and> extends (db k) s' \<and> refreshes (db k) s'"
  shows "calm (k\<lparr> db := s' \<rparr>)"
  using assms(4)
proof
  assume "s' = db k"
  then show ?thesis using assms(1) by simp
next
  assume "well_formed s' \<and> extends (db k) s' \<and> refreshes (db k) s'"
  then have r: "refreshes (db k) s'" by simp
  then have "ledger_of s' = ledger_of (db k)" unfolding refreshes_def by (elim conjE)
  then show ?thesis by (rule db_refresh_calm [OF assms(1-3) _ running_keys_refreshes [OF r]])
qed

lemma submit_calm:
  assumes c: "calm k" and wf: "well_formed (db k)" and ok: "threads_ok k"
    and op: "submit_run now rid gid task key ver idem ikey resum (db k) = (res, s')"
  shows "calm (k\<lparr> db := s' \<rparr>)"
proof (cases "s' = db k")
  case False
  then show ?thesis
    using submit_run_effect [OF wf op] calm_new [OF db_follows [OF c wf submit_run_refines [OF wf op, of True]] ok, of rid "py_int (max_attempts task)"]
    by simp
qed (use c in simp)

lemma db_transition_calm:
  assumes c: "calm k" and wf: "well_formed (db k)" and tr: "transition_run now i t reason (db k) = (res, s')"
    and t: "t \<in> {CANCEL_REQUESTED, SUCCEEDED, FAILED, CANCELLED, TIMED_OUT, LOST}"
  shows "calm (k\<lparr> db := s' \<rparr>)"
proof (rule db_move_calm [OF c wf transition_run_refines [OF wf tr t]])
  show "s' = db k \<or> moves i {x. run_transition_allowed x t} t (db k) s'"
    using transition_run_effect [OF wf tr] by auto
  show "\<not> waiting t" using t by (auto simp: waiting_def)
qed

lemma db_preflight_calm:
  assumes c: "calm k" and wf: "well_formed (db k)"
    and op: "fail_queued_run now eid rid cat msg (db k) = (res, s')"
  shows "calm (k\<lparr> db := s' \<rparr>)"
proof (rule db_move_calm [OF c wf fail_queued_run_refines [OF wf op]])
  show "s' = db k \<or> moves rid {QUEUED, PREPARING, RETRY_WAIT} FAILED (db k) s'"
    using fail_queued_run_effect [OF wf op] by auto
  show "\<not> waiting FAILED" by (simp add: waiting_def)
qed

lemma perform_calm:
  assumes c: "calm k" and wf: "well_formed (db k)" and ok: "threads_ok k"
    and p: "perform cfg a k = Some k'" and nr: "\<not> is_Retry a"
  shows "calm k'"
proof (cases "(cfg, a, k)" rule: perform.cases)
  case (1 cfg now rid gid task key ver idem ikey resum k1)
  then show ?thesis using p submit_calm [OF c wf ok surjective_pairing] by auto
next
  case (2 cfg now rid k1)
  then show ?thesis using p db_transition_calm [OF c wf surjective_pairing] by auto
next
  case (3 cfg now eid rid cat msg k1)
  then show ?thesis using p db_preflight_calm [OF c wf surjective_pairing] by auto
next
  case (4 cfg now aid w rid gid ws k1)
  then show ?thesis using p claim_calm [OF c wf] by auto
next
  case (5 cfg n now res u k1)
  then obtain r g x where th: "n < length (threads k)" "threads k ! n = Executing r g x"
    "k' = put n (finish now r g x res u (db k)) k"
    using p by (auto split: if_splits thread.splits)
  then show ?thesis using finish_calm [OF c wf th(1,2)] thread_at [OF ok th(1)] by simp
next
  case (6 cfg n k1)
  then obtain r g x where th: "n < length (threads k)" "threads k ! n = Executing r g x"
    "k' = put n (Failing r x, db k) k"
    using p by (auto split: if_splits thread.splits)
  then show ?thesis using put_same_calm [OF c wf th(1), of "Failing r x"] by simp
next
  case (7 cfg n now k1)
  then show ?thesis
    using p advance_calm [OF c wf _ ok, of n now] by (auto split: if_splits) (metis surjective_pairing)
next
  case (8 cfg n k1)
  then show ?thesis using p put_same_calm [OF c wf, of n Done] by (auto split: if_splits)
next
  case (9 cfg now aid w k1)
  then show ?thesis
    using p owned_calm [OF c wf heartbeat_update_refines [OF wf surjective_pairing, of True]
        heartbeat_update_effect [OF wf surjective_pairing]] by auto
next
  case (10 cfg aid w pid pgid tk k1)
  then show ?thesis
    using p owned_calm [OF c wf attach_process_refines [OF wf surjective_pairing, of True]
        attach_process_effect [OF wf surjective_pairing]] by auto
next
  case (11 cfg now k1)
  then show ?thesis
    using p calm_same [of k k'] c wf by (auto simp: follows_def spawn_def holders_def)
next
  case (12 cfg n aid k1)
  then obtain t rs x i where th: "n < length (threads k)" "threads k ! n = Reclaiming t rs"
    "fetchone (\<lambda>(a, _). at_id a = aid) (expired_rows t (db k)) = Some (x, i)"
    using p by (auto split: if_splits thread.splits option.splits)
  obtain hit s' where m: "mark_lost_row t aid (db k) = (hit, s')" by fastforce
  show ?thesis
    using 12 p th m mark_lost_calm [OF c wf th(1,2) _ th(3) m] thread_at [OF ok th(1)]
    by (auto split: bool.splits)
next
  case (13 cfg limit k1)
  then show ?thesis
    using p calm_same [of k k'] c wf by (auto simp: follows_def spawn_def holders_def split: sum.splits)
next
  case (14 cfg ars ms ins ups evs ws objs k1)
  have eq: "ledger_of ((db k)\<lparr> artifacts := ars, metrics := ms, inputs := ins, uploaded := ups,
    events := evs, workers := ws, objects := objs \<rparr>) = ledger_of (db k)"
    by (rule ext)
      (simp add: ledger_of_def entry_of_def attempts_made_def attempts_running_def cong: option.case_cong)
  show ?thesis
    using 14 p db_refresh_calm [OF c wf custody_refines [OF wf, of True] eq] by (auto simp: running_keys_def)
next
  case (15 cfg now eid rid who why k1)
  then show ?thesis using nr by (auto simp: is_Retry_def)
qed

text \<open>Without client retries, the kernel keeps every run calm.\<close>

definition quiet_kernel :: "RuntimeConfig \<Rightarrow> kernel \<Rightarrow> bool" where
  "quiet_kernel c k = (safe c k \<and> calm k)"

interpretation exclusive: invariant_system booted "kernel_step False c" "quiet_kernel c" for c
proof
  show "booted k \<Longrightarrow> quiet_kernel c k" for k
    using safe_boot by (auto simp: booted_def quiet_kernel_def calm_def boot_def ledger_of_empty
        latest_runs_def)
  show "quiet_kernel c k'" if q: "quiet_kernel c k" and st: "kernel_step False c k k'" for k k'
  proof -
    obtain a where "perform c a k = Some k'" "\<not> is_Retry a" using st by (auto elim: kernel_stepE)
    then show ?thesis
      using perform_calm q safe_step [OF _ st] by (auto simp: quiet_kernel_def safe_def)
  qed
qed

end
