(* ===== verification/Stranded.thy ===== *)
theory Stranded
  imports Exclusive
begin

text \<open>
  What the kernel cannot undo. A run whose attempt has ended but whose own status is still \<open>RUNNING\<close>,
  with no thread left that works on it, stays there: neither the workers' maintenance nor a client
  retry moves it, only a client's cancellation. A reservation whose attempt is lost, with no thread
  left to release it, stays too.
\<close>

fun concerns :: "thread \<Rightarrow> string \<Rightarrow> bool" where
  "concerns Done i = False"
| "concerns (Executing r g a) i = (rn_id r = i)"
| "concerns (Settling r g a res) i = (rn_id r = i)"
| "concerns (Failing r a) i = (rn_id r = i)"
| "concerns (FailingRun r) i = (rn_id r = i)"
| "concerns (FailingMove r) i = (rn_id r = i)"
| "concerns (Reclaiming t rs) i = (i \<in> set rs)"
| "concerns (Releasing t aid rs) i = (i \<in> set rs)"
| "concerns (SettlingLost rs) i = (i \<in> set rs)"
| "concerns (Resuming r g rs) i = (i \<in> set (r # rs))"
| "concerns (Losing r rs) i = (i \<in> set (r # rs))"
| "concerns (Cancelling rs) i = (i \<in> set rs)"

definition unattended :: "string \<Rightarrow> kernel \<Rightarrow> bool" where
  "unattended i k = (\<forall>th \<in> set (threads k). \<not> concerns th i)"

definition cancels :: "string \<Rightarrow> action \<Rightarrow> bool" where
  "cancels i a = (case a of Cancel _ j \<Rightarrow> j = i | _ \<Rightarrow> False)"

definition stranded :: "string \<Rightarrow> kernel \<Rightarrow> bool" where
  "stranded i k = (unattended i k \<and>
     (\<exists>v. ledger_of (db k) i = Some v \<and> e_status v = RUNNING \<and> e_running v = 0))"

lemma transition_run_other:
  assumes "well_formed s" "transition_run now j t reason s = (res, s')" "j \<noteq> i"
  shows "ledger_of s' i = ledger_of s i"
  using transition_run_effect [OF assms(1,2)] assms(3) by (auto simp: moves_def)

lemma schedule_retry_other:
  assumes "well_formed s" "schedule_retry j g reason s = (res, s')" "(g, j) \<in> stage_links s" "j \<noteq> i"
  shows "ledger_of s' i = ledger_of s i"
  using schedule_retry_effect [OF assms(1-3)] assms(4) by (auto simp: moves_def)

lemma finish_attempt_other:
  assumes "well_formed s" "finish_attempt now (at_id a) st x fl u s = (res, s')" "knows s r g a"
    "st \<in> {A_SUCCEEDED, A_FAILED}" "rn_id r \<noteq> i"
  shows "ledger_of s' i = ledger_of s i"
proof -
  have key: "(at_id a, g, at_number a) \<in> attempt_keys s" "(g, rn_id r) \<in> stage_links s"
    using assms(3) by (auto simp: knows_def)
  show ?thesis
    using finish_attempt_effect [OF assms(1,2) key assms(4)] assms(5) by (auto simp: stops_def)
qed

lemmas other_runs = transition_run_other schedule_retry_other finish_attempt_other

lemma advance_other:
  assumes wf: "well_formed s" and ok: "thread_ok s th" and n: "\<not> concerns th i"
    and adv: "advance now th s = (th', s')"
  shows "ledger_of s' i = ledger_of s i \<and> \<not> concerns th' i"
proof (cases "(now, th, s)" rule: advance.cases)
  case (1 now r g a res)
  then show ?thesis
    using ok n adv transition_run_other [OF wf] schedule_retry_other [OF wf]
    by (fastforce simp: settle_def knows_def split: if_splits prod.splits sum.splits)
next
  case (2 now r a)
  then obtain g where "knows s r g a" using ok by auto
  then show ?thesis
    using 2 n adv finish_attempt_other [OF wf] by (fastforce split: prod.splits sum.splits if_splits)
next
  case (5 now t aid rs)
  then show ?thesis using adv n release_resources_effect(2) by auto
next
  case (9 now r g rs)
  then show ?thesis
    using adv n ok schedule_retry_other [OF wf] by (fastforce split: prod.splits sum.splits if_splits)
qed (use adv n transition_run_other [OF wf] in
  \<open>fastforce split: prod.splits sum.splits if_splits option.splits\<close>)+

lemma finish_other:
  assumes wf: "well_formed s" and r: "knows s r g a" "rn_id r \<noteq> i"
    and fin: "finish now r g a res u s = (th', s')"
  shows "ledger_of s' i = ledger_of s i \<and> \<not> concerns th' i"
proof -
  have st: "attempt_status (res_status res) \<in> {A_SUCCEEDED, A_FAILED}" by (cases "res_status res") auto
  obtain out where f: "finish_attempt now (at_id a) (attempt_status (res_status res))
      (Some (py_int (exit_code res))) (failure_of res) u s = (out, s')"
    and th: "th' = Settling r g a res \<or> th' = Failing r a"
    using fin by (auto simp: finish_def split: prod.splits sum.splits)
  show ?thesis using finish_attempt_other [OF wf f r(1) st r(2)] th r(2) by auto
qed

lemma put_unattended:
  assumes "unattended i k" "\<not> concerns th i"
  shows "unattended i (put n (th, s') k)"
  using assms set_update_subset_insert [of "threads k" n th] by (auto simp: unattended_def put_def)

lemma stranded_same:
  assumes "stranded i k" "ledger_of (db k') i = ledger_of (db k) i" "unattended i k'"
  shows "stranded i k'"
  using assms by (simp add: stranded_def)

lemma stranded_put:
  assumes "stranded i k" "ledger_of s' i = ledger_of (db k) i" "\<not> concerns th i"
  shows "stranded i (put n (th, s') k)"
  using assms put_unattended [of i k th n s']
  by (intro stranded_same [OF assms(1)]) (auto simp: put_def stranded_def)

lemma stranded_db:
  assumes "stranded i k" "ledger_of s' i = ledger_of (db k) i"
  shows "stranded i (k\<lparr> db := s' \<rparr>)"
  using assms by (intro stranded_same [OF assms(1)]) (auto simp: stranded_def unattended_def)

lemma thread_unattended: "stranded i k \<Longrightarrow> n < length (threads k) \<Longrightarrow> \<not> concerns (threads k ! n) i"
  by (simp add: stranded_def unattended_def)

lemma stranded_moves:
  assumes "stranded i k" "s' = db k \<or> moves j F t (db k) s'" "RUNNING \<notin> F \<or> j \<noteq> i"
  shows "stranded i (k\<lparr> db := s' \<rparr>)"
  using assms by (intro stranded_db) (auto simp: moves_def stranded_def)

lemma stranded_mark_lost:
  assumes st: "stranded i k" and wf: "well_formed (db k)" and n: "n < length (threads k)"
    and th: "threads k ! n = Reclaiming t rs"
    and f: "fetchone (\<lambda>(a, _). at_id a = aid) (expired_rows t (db k)) = Some (x, j)"
    and m: "mark_lost_row t aid (db k) = (hit, s')"
  shows "stranded i (put n (if hit then Releasing t aid (j # rs) else Reclaiming t rs, s') k)"
proof -
  obtain g num where key: "(aid, g, num) \<in> attempt_keys (db k)" "(g, j) \<in> stage_links (db k)"
    using expired_rows_fetch [OF wf f] by metis
  note eff = mark_lost_row_effect [OF wf m key]
  have "hit \<Longrightarrow> j \<noteq> i" using eff st by (auto simp: stops_def stranded_def)
  then show ?thesis
    using thread_unattended [OF st n] th eff by (intro stranded_put [OF st]) (auto simp: stops_def)
qed

lemma stranded_claim:
  assumes st: "stranded i k" and wf: "well_formed (db k)"
  shows "stranded i (claim c now aid w rid gid ws k)"
proof (cases c now aid w rid gid ws k rule: claim_cases)
  case (claimed r a s')
  have s: "starts rid a (db k) s'" using start_attempt_effect(3) [OF wf claimed(2,3)] .
  then have "rid \<noteq> i" using st by (auto simp: starts_def stranded_def)
  moreover have "rn_id r = rid" using fetchone_Some [OF claimed(1)] by simp
  ultimately show ?thesis
    unfolding claimed(4) using s st
    by (intro stranded_same [OF st]) (auto simp: spawn_def starts_def stranded_def unattended_def)
qed (use st in simp)

lemma swept_status:
  assumes "abandoned_cancellations limit s = Inr rs" "i \<in> set rs" "well_formed s"
  shows "\<exists>v. ledger_of s i = Some v \<and> e_status v = CANCEL_REQUESTED"
proof -
  have "i \<in> rn_id ` {r \<in> set (runs s). rn_status r = CANCEL_REQUESTED}"
    using assms(1,2) by (auto simp: abandoned_cancellations_def split: if_splits dest!: in_set_takeD)
  then obtain r where r: "r \<in> set (runs s)" "rn_id r = i" "rn_status r = CANCEL_REQUESTED" by auto
  have fr: "fetchone (\<lambda>x. rn_id x = i) (runs s) = Some r"
    using fetchone_key [OF well_formed_distinct(1) [OF assms(3)] r(1)] r(2) by simp
  obtain g where "fetchone (\<lambda>g. sg_run g = i) (stages s) = Some g"
    using fetch_pair [OF assms(3) fr] by metis
  then show ?thesis using fr r(3) by (simp add: ledger_of_def entry_of_def)
qed

lemma stranded_step:
  assumes st: "stranded i k" and wf: "well_formed (db k)" and ok: "threads_ok k"
    and p: "perform c a k = Some k'" and nc: "\<not> cancels i a"
  shows "stranded i k'"
proof (cases "(c, a, k)" rule: perform.cases)
  case (1 c now rid gid task key ver idem ikey resum k1)
  have "ledger_of (snd (submit_run now rid gid task key ver idem ikey resum (db k))) i = ledger_of (db k) i"
    using submit_run_effect [OF wf surjective_pairing, of now rid gid task key ver idem ikey resum] st
    by (auto simp: stranded_def)
  then show ?thesis using 1 p stranded_db [OF st] by auto
next
  case (2 c now rid k1)
  then have "rid \<noteq> i" using nc by (auto simp: cancels_def)
  then show ?thesis using 2 p stranded_db [OF st] transition_run_other [OF wf surjective_pairing] by auto
next
  case (3 c now eid rid cat msg k1)
  then show ?thesis
    using p stranded_moves [OF st, of "snd (fail_queued_run now eid rid cat msg (db k))"]
      fail_queued_run_effect [OF wf surjective_pairing, of now eid rid cat msg] by fastforce
next
  case (4 c now aid w rid gid ws k1)
  then show ?thesis using p stranded_claim [OF st wf] by auto
next
  case (5 c n now res u k1)
  then obtain r g x where th: "n < length (threads k)" "threads k ! n = Executing r g x"
    "k' = put n (finish now r g x res u (db k)) k"
    using p by (auto split: if_splits thread.splits)
  have r: "rn_id r \<noteq> i" "knows (db k) r g x"
    using thread_unattended [OF st th(1)] thread_at [OF ok th(1)] th(2) by auto
  obtain th' s' where f: "finish now r g x res u (db k) = (th', s')" by fastforce
  show ?thesis using th(3) f finish_other [OF wf r(2,1) f] stranded_put [OF st] by simp
next
  case (6 c n k1)
  then show ?thesis
    using p stranded_put [OF st] thread_unattended [OF st, of n] by (auto split: if_splits thread.splits)
next
  case (7 c n now k1)
  then have n: "n < length (threads k)" and k': "k' = put n (advance now (threads k ! n) (db k)) k"
    using p by (auto split: if_splits)
  obtain th' s' where adv: "advance now (threads k ! n) (db k) = (th', s')" by fastforce
  show ?thesis
    using k' adv advance_other [OF wf thread_at [OF ok n] thread_unattended [OF st n] adv]
      stranded_put [OF st] by simp
next
  case (8 c n k1)
  then show ?thesis using p stranded_put [OF st, of "db k" Done n] by (auto split: if_splits)
next
  case (9 c now aid w k1)
  then show ?thesis
    using p stranded_db [OF st, of "snd (heartbeat_update now aid w (lease_seconds c) (db k))"]
      heartbeat_update_effect [OF wf surjective_pairing, of now aid w "lease_seconds c"]
    by (auto simp: refreshes_def)
next
  case (10 c aid w pid pgid tk k1)
  then show ?thesis
    using p stranded_db [OF st, of "snd (attach_process aid w pid pgid tk (db k))"]
      attach_process_effect [OF wf surjective_pairing, of aid w pid pgid tk]
    by (auto simp: refreshes_def)
next
  case (11 c now k1)
  then show ?thesis using p st by (auto simp: stranded_def unattended_def spawn_def)
next
  case (12 c n aid k1)
  then obtain t rs x j where th: "n < length (threads k)" "threads k ! n = Reclaiming t rs"
    "fetchone (\<lambda>(a, _). at_id a = aid) (expired_rows t (db k)) = Some (x, j)"
    using p by (auto split: if_splits thread.splits option.splits)
  obtain hit s' where m: "mark_lost_row t aid (db k) = (hit, s')" by fastforce
  show ?thesis
    using 12 p th m stranded_mark_lost [OF st wf th m] by (auto split: bool.splits)
next
  case (13 c limit k1)
  then obtain rs where rs: "abandoned_cancellations limit (db k) = Inr rs" "k' = spawn (Cancelling rs) k"
    using p by (auto split: sum.splits)
  have "i \<notin> set rs" using swept_status [OF rs(1) _ wf] st by (fastforce simp: stranded_def)
  then show ?thesis using rs(2) st by (auto simp: stranded_def unattended_def spawn_def)
next
  case (14 c ars ms ins ups evs ws objs k1)
  have "ledger_of ((db k)\<lparr> artifacts := ars, metrics := ms, inputs := ins, uploaded := ups,
    events := evs, workers := ws, objects := objs \<rparr>) i = ledger_of (db k) i"
    by (simp add: ledger_of_def entry_of_def attempts_made_def attempts_running_def cong: option.case_cong)
  then show ?thesis using 14 p stranded_db [OF st] by auto
next
  case (15 c now eid rid who why k1)
  then show ?thesis
    using p stranded_moves [OF st, of "snd (request_retry now eid rid who why (db k))"]
      request_retry_effect [OF wf surjective_pairing, of now eid rid who why] by fastforce
qed

section \<open>Reservations nobody releases\<close>

definition releasing :: "thread \<Rightarrow> string \<Rightarrow> bool" where
  "releasing th aid = (case th of Releasing _ x _ \<Rightarrow> x = aid | _ \<Rightarrow> False)"

lemma releasing_simps [simp]:
  "releasing (Releasing t x rs) aid = (x = aid)" "\<not> releasing Done aid" "\<not> releasing (Executing r g a) aid"
  "\<not> releasing (Settling r g a res) aid" "\<not> releasing (Failing r a) aid" "\<not> releasing (FailingRun r) aid"
  "\<not> releasing (FailingMove r) aid" "\<not> releasing (Reclaiming t rs) aid" "\<not> releasing (SettlingLost rs) aid"
  "\<not> releasing (Resuming i g rs) aid" "\<not> releasing (Losing i rs) aid" "\<not> releasing (Cancelling rs) aid"
  by (simp_all add: releasing_def)

definition leaked :: "reservation_row \<Rightarrow> kernel \<Rightarrow> bool" where
  "leaked x k = (x \<in> set (reservations (db k)) \<and> rs_attempt x \<in> lost_ids (db k) \<and>
     (\<forall>th \<in> set (threads k). \<not> releasing th (rs_attempt x)))"

lemma lost_not_running: "well_formed s \<Longrightarrow> aid \<in> lost_ids s \<Longrightarrow> aid \<notin> running_ids s"
  using attempt_unique [of s] by (fastforce simp: lost_ids_def running_ids_def)

lemma lost_ids_extends: "extends s s' \<Longrightarrow> lost_ids s \<subseteq> lost_ids s'"
  by (auto simp: extends_def lost_ids_def ended_attempts_def)

lemma finish_attempt_keeps:
  assumes wf: "well_formed s" and op: "finish_attempt now (at_id a) st y fl u s = (res, s')"
    and k: "knows s r g a" "st \<in> {A_SUCCEEDED, A_FAILED}"
    and x: "x \<in> set (reservations s)" "rs_attempt x \<in> lost_ids s"
  shows "x \<in> set (reservations s')"
proof -
  have key: "(at_id a, g, at_number a) \<in> attempt_keys s" "(g, rn_id r) \<in> stage_links s"
    using k(1) by (auto simp: knows_def)
  show ?thesis
    using finish_attempt_effect [OF wf op key k(2)]
  proof
    assume "res = Inr () \<and> well_formed s' \<and> extends s s' \<and> stops (rn_id r) (at_id a) s s' \<and>
      reservations s' = delete_where (\<lambda>x. rs_attempt x = at_id a) (reservations s)"
    moreover from this have "at_id a \<noteq> rs_attempt x"
      using stops_ids(3) [OF wf] lost_not_running [OF wf x(2)] by metis
    ultimately show ?thesis using x(1) by (auto simp: set_delete_where)
  qed (use x in simp)
qed

lemma advance_keeps:
  assumes wf: "well_formed s" and ok: "thread_ok s th" and n: "\<not> releasing th (rs_attempt x)"
    and x: "x \<in> set (reservations s)" "rs_attempt x \<in> lost_ids s"
    and adv: "advance now th s = (th', s')"
  shows "x \<in> set (reservations s') \<and> \<not> releasing th' (rs_attempt x)"
proof -
  have tr: "x \<in> set (reservations s')" if "transition_run now i t reason s = (res, s')" for now i t reason res s'
    using transition_run_effect [OF wf that] x(1) by (auto simp: moves_def)
  have sc: "x \<in> set (reservations s')"
    if "schedule_retry i g reason s = (res, s')" "(g, i) \<in> stage_links s" for i g reason res s'
    using schedule_retry_effect [OF wf that] x(1) by (auto simp: moves_def)
  show ?thesis
  proof (cases "(now, th, s)" rule: advance.cases)
    case (1 now r g a res)
    then show ?thesis
      using ok adv tr sc by (fastforce simp: settle_def knows_def split: if_splits prod.splits sum.splits)
  next
    case (2 now r a)
    then obtain g where "knows s r g a" using ok by auto
    then show ?thesis
      using 2 adv finish_attempt_keeps [OF wf _ _ _ x] by (fastforce split: prod.splits sum.splits if_splits)
  next
    case (5 now t aid rs)
    then show ?thesis using adv n x(1) by (auto simp: release_resources_def set_delete_where)
  next
    case (9 now r g rs)
    then show ?thesis using adv ok sc by (fastforce split: prod.splits sum.splits if_splits)
  qed (use adv x(1) tr in \<open>fastforce split: prod.splits sum.splits if_splits option.splits\<close>)+
qed

lemma client_reservations:
  "reservations (snd (submit_run now rid gid task key ver idem ikey resum s)) = reservations s"
  "reservations (snd (transition_run now rid t reason s)) = reservations s"
  "reservations (snd (fail_queued_run now eid rid cat msg s)) = reservations s"
  "reservations (snd (heartbeat_update now aid w lease s)) = reservations s"
  "reservations (snd (attach_process aid w pid pgid tk s)) = reservations s"
  "reservations (snd (request_retry now eid rid who why s)) = reservations s"
  "reservations (snd (mark_lost_row now aid s)) = reservations s"
proof -
  show "reservations (snd (submit_run now rid gid task key ver idem ikey resum s)) = reservations s"
    by (simp add: submit_run_def Let_def split: sum.split option.split bool.split list.split)
  show "reservations (snd (transition_run now rid t reason s)) = reservations s"
    by (simp add: transition_run_def split: option.split)
  show "reservations (snd (fail_queued_run now eid rid cat msg s)) = reservations s"
    by (simp add: fail_queued_run_def split: option.split)
  show "reservations (snd (request_retry now eid rid who why s)) = reservations s"
    by (simp add: request_retry_def Let_def split: option.split)
qed (simp_all add: heartbeat_update_def attach_process_def mark_lost_row_def)

definition keeps_reservation :: "reservation_row \<Rightarrow> kernel \<Rightarrow> kernel \<Rightarrow> bool" where
  "keeps_reservation x k k' = (x \<in> set (reservations (db k')) \<and>
     (\<forall>th \<in> set (threads k'). th \<in> set (threads k) \<or> \<not> releasing th (rs_attempt x)))"

lemma keeps_put:
  assumes "x \<in> set (reservations s')" "\<not> releasing th (rs_attempt x)"
  shows "keeps_reservation x k (put n (th, s') k)"
  using assms set_update_subset_insert [of "threads k" n th]
  by (auto simp: keeps_reservation_def put_def)

lemma claim_keeps:
  assumes wf: "well_formed (db k)" and x: "x \<in> set (reservations (db k))"
  shows "keeps_reservation x k (claim c now aid w rid gid ws k)"
proof (cases c now aid w rid gid ws k rule: claim_cases)
  case (claimed r a s')
  have keep: "x \<in> set R" if "reserve aid res cap (db k) = Inr (Some R)" for res cap R
    using that x by (fastforce simp: reserve_def Let_def split: option.splits if_splits)
  show ?thesis
    using keep [OF start_attempt_effect(9) [OF wf claimed(2,3)]] claimed(4)
    by (simp add: spawn_def keeps_reservation_def)
qed (use x in \<open>simp add: keeps_reservation_def\<close>)

lemma finish_keeps:
  assumes wf: "well_formed (db k)" and kn: "knows (db k) r g a"
    and x: "x \<in> set (reservations (db k))" "rs_attempt x \<in> lost_ids (db k)"
  shows "keeps_reservation x k (put n (finish now r g a res u (db k)) k)"
proof -
  have st: "attempt_status (res_status res) \<in> {A_SUCCEEDED, A_FAILED}" by (cases "res_status res") auto
  obtain out s' where f: "finish_attempt now (at_id a) (attempt_status (res_status res))
    (Some (py_int (exit_code res))) (failure_of res) u (db k) = (out, s')" by fastforce
  have "x \<in> set (reservations s')" by (rule finish_attempt_keeps [OF wf f kn st x])
  then show ?thesis
    using f keeps_put [of x s' "Settling r g a res"] keeps_put [of x s' "Failing r a"]
    by (simp add: finish_def split: sum.splits)
qed

lemma mark_lost_keeps:
  assumes wf: "well_formed (db k)"
    and x: "x \<in> set (reservations (db k))" "rs_attempt x \<in> lost_ids (db k)"
    and f: "fetchone (\<lambda>(a, _). at_id a = aid) (expired_rows t (db k)) = Some (y, j)"
    and m: "mark_lost_row t aid (db k) = (hit, s')"
  shows "keeps_reservation x k (put n (if hit then Releasing t aid (j # rs) else Reclaiming t rs, s') k)"
proof -
  obtain g num where key: "(aid, g, num) \<in> attempt_keys (db k)" "(g, j) \<in> stage_links (db k)"
    using expired_rows_fetch [OF wf f] by metis
  have "hit \<Longrightarrow> aid \<noteq> rs_attempt x"
    using mark_lost_row_effect [OF wf m key] stops_ids(3) [OF wf] lost_not_running [OF wf x(2)] by metis
  moreover have "reservations s' = reservations (db k)"
    using client_reservations(7) [of t aid "db k"] m by simp
  ultimately show ?thesis using x(1) by (intro keeps_put) auto
qed

lemma perform_keeps:
  assumes wf: "well_formed (db k)" and ok: "threads_ok k" and p: "perform c a k = Some k'"
    and lk: "leaked x k"
  shows "keeps_reservation x k k'"
proof -
  have x: "x \<in> set (reservations (db k))" "rs_attempt x \<in> lost_ids (db k)"
    "\<And>n. n < length (threads k) \<Longrightarrow> \<not> releasing (threads k ! n) (rs_attempt x)"
    using lk by (auto simp: leaked_def)
  have same: "keeps_reservation x k (k\<lparr> db := s' \<rparr>)" if "reservations s' = reservations (db k)" for s'
    using x(1) that by (simp add: keeps_reservation_def)
  have put: "keeps_reservation x k (put n (th, db k) k)" if "\<not> releasing th (rs_attempt x)" for n th
    using x(1) that by (rule keeps_put)
  show ?thesis
  proof (cases "(c, a, k)" rule: perform.cases)
    case (4 c now aid w rid gid ws k1)
    then show ?thesis using p claim_keeps [OF wf x(1)] by auto
  next
    case (5 c n now res u k1)
    then obtain r g y where th: "n < length (threads k)" "threads k ! n = Executing r g y"
      "k' = put n (finish now r g y res u (db k)) k"
      using p by (auto split: if_splits thread.splits)
    then show ?thesis using finish_keeps [OF wf _ x(1,2)] thread_at [OF ok th(1)] by auto
  next
    case (6 c n k1)
    then show ?thesis using p put by (auto split: if_splits thread.splits)
  next
    case (7 c n now k1)
    then have n: "n < length (threads k)" and k': "k' = put n (advance now (threads k ! n) (db k)) k"
      using p by (auto split: if_splits)
    obtain th' s' where adv: "advance now (threads k ! n) (db k) = (th', s')" by fastforce
    show ?thesis
      using k' adv advance_keeps [OF wf thread_at [OF ok n] x(3) [OF n] x(1,2) adv] keeps_put by simp
  next
    case (8 c n k1)
    then show ?thesis using p put [of Done n] by (auto split: if_splits)
  next
    case (12 c n aid k1)
    then obtain t rs y j where th: "n < length (threads k)" "threads k ! n = Reclaiming t rs"
      "fetchone (\<lambda>(a, _). at_id a = aid) (expired_rows t (db k)) = Some (y, j)"
      using p by (auto split: if_splits thread.splits option.splits)
    obtain hit s' where m: "mark_lost_row t aid (db k) = (hit, s')" by fastforce
    show ?thesis
      using 12 p th m mark_lost_keeps [OF wf x(1,2) th(3) m, of n rs] by (auto split: bool.splits)
  qed (use p same put client_reservations x(1) in
      \<open>auto simp: spawn_def keeps_reservation_def split: if_splits sum.splits\<close>)
qed

lemma leaked_step:
  assumes lk: "leaked x k" and wf: "well_formed (db k)" and ok: "threads_ok k"
    and p: "perform c a k = Some k'"
  shows "leaked x k'"
proof -
  have "extends (db k) (db k')"
    using perform_refines [OF wf ok p, of True] by (simp add: refines_def grows_def)
  then have "rs_attempt x \<in> lost_ids (db k')"
    using lk lost_ids_extends by (auto simp: leaked_def)
  then show ?thesis using perform_keeps [OF wf ok p lk] lk by (auto simp: leaked_def keeps_reservation_def)
qed

end
