(* ===== verification/KernelProps.thy ===== *)
theory KernelProps
  imports Stranded
begin

text \<open>
  The properties of the kernel: what holds in every reachable state, and the states it can reach but
  should not. The sample task, configuration and traces at the start are the concrete inputs of the
  witnesses.
\<close>

section \<open>Sample inputs\<close>

definition sample_task :: TaskSpec where
  "sample_task = \<lparr> task_id = PStr ''t1'', project_id = PStr ''p'', design_id = PStr ''d'',
     design_revision_id = PNone, experiment_id = PNone, input_manifest_sha256 = PNone,
     plugin_id = PStr ''plug'', plugin_version = PNone, task_inputs = PDict [], parameters = PDict [],
     staged_inputs = [], resources = None, timeout_seconds = PInt 60, max_attempts = PInt 5,
     expected_artifacts = [], labels = PDict [], task_schema_version = PInt SCHEMA_VERSION \<rparr>"

definition sample_config :: RuntimeConfig where
  "sample_config = \<lparr> lease_seconds = 30, worker_id = ''w'', capacity_cpu_cores = Some 4,
     capacity_memory_bytes = Some 40, platform_fraction = 1, default_task_cpu_cores = 1,
     default_task_memory_bytes = 6 \<rparr>"

definition sample_result :: "RuntimeStatus \<Rightarrow> int \<Rightarrow> pyval \<Rightarrow> PluginResult" where
  "sample_result st code failure = \<lparr> res_status = st, exit_code = PInt code, started_at = PStr ''s'',
     ended_at = PStr ''e'', res_metrics = [], res_artifacts = [], res_failure = failure,
     provenance = PDict [], res_schema_version = PInt SCHEMA_VERSION \<rparr>"

definition retryable :: pyval where
  "retryable = PDict [(PStr ''category'', PStr ''transient''), (PStr ''retryable'', PBool True)]"

abbreviation unused :: "pyval \<times> pyval \<times> pyval" where
  "unused \<equiv> (PNone, PNone, PNone)"

text \<open>
  A run whose first worker loses its lease; the reclamation resumes the run and a second worker
  starts a new attempt. Thread 0 is the first attempt, thread 1 the reclamation, thread 2 the second.
\<close>

definition start_trace :: "action list" where
  "start_trace = [Submit 0 ''r'' ''g'' sample_task ''main'' (PStr ''1'') False None True,
     Claim 1 ''a1'' ''w1'' ''r'' ''g'' ''ws'']"

definition lost_trace :: "action list" where
  "lost_trace = start_trace @ [Reclaim 100000000, MarkLost 1 ''a1'']"

definition resume_trace :: "action list" where
  "resume_trace = lost_trace @ replicate 4 (Advance 1 100000000) @
     [Claim 100000001 ''a2'' ''w2'' ''r'' ''g'' ''ws'']"

text \<open>The first worker wakes up: its thread finds its attempt gone and records a failure.\<close>

definition stale_trace :: "action list" where
  "stale_trace = resume_trace @ [Fault 0] @ replicate 3 (Advance 0 100000002) @
     [Finish 2 100000003 (sample_result SUCCEEDED 0 PNone) unused] @ replicate 3 (Advance 2 100000003)"

text \<open>
  The second attempt has failed and its thread is about to schedule a retry; the first thread fails
  the run, a client retries it, a third attempt starts, and only then the retry is scheduled.
\<close>

definition double_trace :: "action list" where
  "double_trace = resume_trace @ [Finish 2 100000002 (sample_result FAILED 1 retryable) unused, Fault 0] @
     replicate 3 (Advance 0 100000003) @
     [Retry 100000004 ''e1'' ''r'' ''client'' ''again'', Claim 100000005 ''a3'' ''w2'' ''r'' ''g'' ''ws'',
      Advance 2 100000006, Claim 100000007 ''a4'' ''w2'' ''r'' ''g'' ''ws'']"

text \<open>A worker dies after its attempt is recorded, before the run is.\<close>

definition crash_trace :: "action list" where
  "crash_trace = start_trace @ [Finish 0 2 (sample_result SUCCEEDED 0 PNone) unused, Crash 0]"

text \<open>A worker dies between marking an attempt lost and releasing its reservation.\<close>

definition leak_trace :: "action list" where
  "leak_trace = lost_trace @ [Crash 1]"

definition after :: "action list \<Rightarrow> kernel" where
  "after as = the (run_actions sample_config as boot)"

text \<open>The attempts of a run that are running.\<close>

definition running_attempts :: "string \<Rightarrow> store \<Rightarrow> attempt_row list" where
  "running_attempts i s =
     filter (\<lambda>a. at_status a = A_RUNNING \<and> (at_stage a, i) \<in> stage_links s) (attempts s)"

text \<open>What workers and clients may do to get a run going again, short of cancelling it.\<close>

definition maintenance :: "action list" where
  "maintenance = [Reclaim 900000000, Advance 1 900000000, Sweep 8, Advance 2 900000000,
     Claim 900000000 ''a9'' ''w2'' ''r'' ''g'' ''ws'', Retry 900000000 ''e'' ''r'' ''client'' ''again'']"

lemma run_actions_reachable:
  assumes "reachable booted (kernel_step b c) k" "run_actions c as k = Some k'"
    "list_all (\<lambda>a. is_Retry a \<longrightarrow> b) as"
  shows "reachable booted (kernel_step b c) k'"
  using assms
proof (induction as arbitrary: k)
  case (Cons a as)
  then obtain k1 where k1: "perform c a k = Some k1" "run_actions c as k1 = Some k'"
    by (auto split: option.splits)
  have "kernel_step b c k k1" using k1(1) Cons.prems(3) by (auto intro: kernel_step.act)
  then show ?case using Cons.IH [OF reachable.step [OF Cons.prems(1)] k1(2)] Cons.prems(3) by simp
qed simp

lemma after_reachable:
  assumes "run_actions sample_config as boot \<noteq> None" "list_all (\<lambda>a. is_Retry a \<longrightarrow> b) as"
  shows "reachable booted (kernel_step b sample_config) (after as)"
proof -
  have init: "reachable booted (kernel_step b sample_config) boot"
    by (rule reachable.start) (simp add: booted_def)
  have "run_actions sample_config as boot = Some (after as)" using assms(1) by (simp add: after_def)
  then show ?thesis by (rule run_actions_reachable [OF init _ assms(2)])
qed

lemma resume_reachable: "reachable booted (kernel_step False sample_config) (after resume_trace)"
  by (rule after_reachable) code_simp+

lemma stale_reachable: "reachable booted (kernel_step False sample_config) (after stale_trace)"
  by (rule after_reachable) code_simp+

lemma double_reachable: "reachable booted (kernel_step True sample_config) (after double_trace)"
  by (rule after_reachable) code_simp+

lemma crash_reachable: "reachable booted (kernel_step False sample_config) (after crash_trace)"
  by (rule after_reachable) code_simp+

lemma leak_reachable: "reachable booted (kernel_step False sample_config) (after leak_trace)"
  by (rule after_reachable) code_simp+

section \<open>What always holds\<close>

lemma running_attempts_ledger:
  assumes wf: "well_formed s"
  shows "length (running_attempts i s) = (case ledger_of s i of None \<Rightarrow> 0 | Some v \<Rightarrow> e_running v)"
proof (cases "ledger_of s i")
  case None
  then have "(g, i) \<notin> stage_links s" for g
    using held_runs_exist [OF wf, of "Resuming i g []" i] by auto
  then show ?thesis using None by (simp add: running_attempts_def)
next
  case (Some v)
  then obtain r g where rg: "v = entry_of s r g" "g \<in> set (stages s)" "sg_run g = i"
    using ledger_of_Some [OF wf] by metis
  then have "(h, i) \<in> stage_links s \<longleftrightarrow> h = sg_id g" for h
    using stage_unique(2) [OF wf] by (auto simp: stage_links_def)
  then show ?thesis
    using Some rg(1) by (simp add: running_attempts_def entry_of_def attempts_running_def conj_commute)
qed

text \<open>C1: As long as no client calls \<open>request_retry\<close>, a run never has two attempts running at the same
  time, whatever the workers, their reclamations and their crashes do and however they interleave.\<close>

theorem one_attempt_at_a_time:
  assumes "reachable booted (kernel_step False c) k"
  shows "length (running_attempts i (db k)) \<le> 1"
proof -
  have q: "quiet_kernel c k" by (rule exclusive.inv_reachable [OF assms])
  then have "\<And>v. ledger_of (db k) i = Some v \<Longrightarrow> e_running v \<le> 1"
    by (force simp: quiet_kernel_def calm_def calm_entry_def)
  then show ?thesis
    using q running_attempts_ledger [of "db k" i]
    by (auto simp: quiet_kernel_def safe_def split: option.splits)
qed

theorem one_attempt_at_a_time_witness:
  "length (running_attempts ''r'' (db (after resume_trace))) \<le> 1 \<and>
   map at_id (running_attempts ''r'' (db (after resume_trace))) = [''a2'']"
proof
  show "length (running_attempts ''r'' (db (after resume_trace))) \<le> 1"
    by (rule one_attempt_at_a_time [OF resume_reachable])
  show "map at_id (running_attempts ''r'' (db (after resume_trace))) = [''a2'']"
    unfolding running_attempts_def stage_links_def by code_simp
qed

text \<open>C3: As long as no client calls \<open>request_retry\<close>, a run never makes more attempts than the
  \<open>max_attempts\<close> of its task: retries after a failure and resumptions after a lost lease count alike.\<close>

theorem attempts_within_budget:
  assumes "reachable booted (kernel_step False c) k"
    and "r \<in> set (runs (db k))" "g \<in> set (stages (db k))" "sg_run g = rn_id r"
  shows "int (attempts_made (sg_id g) (db k)) \<le> py_int (max_attempts (rn_task r))"
proof -
  have q: "quiet_kernel c k" by (rule exclusive.inv_reachable [OF assms(1)])
  then have "ledger_of (db k) (rn_id r) = Some (entry_of (db k) r g)"
    using ledger_ofI assms(2-4) by (auto simp: quiet_kernel_def safe_def)
  then have "int (e_made (entry_of (db k) r g)) \<le> e_budget (entry_of (db k) r g)"
    using q by (auto simp: quiet_kernel_def calm_def calm_entry_def)
  then show ?thesis by (simp add: entry_of_def)
qed

theorem attempts_within_budget_witness:
  "int (attempts_made ''g'' (db (after resume_trace))) \<le> 5 \<and> attempts_made ''g'' (db (after resume_trace)) = 2"
proof
  let ?s = "db (after resume_trace)"
  have "hd (runs ?s) \<in> set (runs ?s)" "hd (stages ?s) \<in> set (stages ?s)"
    "sg_run (hd (stages ?s)) = rn_id (hd (runs ?s))"
    "sg_id (hd (stages ?s)) = ''g''" "py_int (max_attempts (rn_task (hd (runs ?s)))) = 5"
    by code_simp+
  then show "int (attempts_made ''g'' ?s) \<le> 5"
    using attempts_within_budget [OF resume_reachable, of "hd (runs ?s)" "hd (stages ?s)"] by simp
  show "attempts_made ''g'' ?s = 2" by code_simp
qed

text \<open>C2: Reserved CPU and memory never exceed the platform's budget, every running attempt holds a
  reservation, and a reservation without a running attempt belongs to a lost one. This holds with
  client retries and crashes.\<close>

theorem capacity_never_oversold:
  assumes "reachable booted (kernel_step b c) k" "capacity_of c = Some cap"
  shows "fst (resource_totals (db k)) \<le> budget (cap_cpu cap) (cap_fraction cap) \<and>
    snd (resource_totals (db k)) \<le> budget (cap_memory cap) (cap_fraction cap) \<and>
    running_ids (db k) \<subseteq> reserved_ids (db k) \<and> reserved_ids (db k) \<subseteq> running_ids (db k) \<union> lost_ids (db k)"
  using kernel.inv_reachable [OF assms(1)] assms(2) by (simp add: safe_def accounted_def)

theorem capacity_never_oversold_witness:
  "fst (resource_totals (db (after resume_trace))) \<le> budget 4 1 \<and>
   running_ids (db (after resume_trace)) \<subseteq> reserved_ids (db (after resume_trace)) \<and>
   resource_totals (db (after resume_trace)) = (1, 6)"
proof -
  have "capacity_of sample_config = Some \<lparr> cap_cpu = 4, cap_memory = 40, cap_fraction = 1 \<rparr>"
    by (simp add: capacity_of_def sample_config_def)
  moreover have "resource_totals (db (after resume_trace)) = (1, 6)" by code_simp
  ultimately show ?thesis
    using capacity_never_oversold [OF resume_reachable] by simp
qed

text \<open>C5: The tables of every reachable state are well formed: unique keys, exactly one stage per run,
  always in the run's own status, and the attempts of a stage numbered 1, 2, 3 and so on without gaps.\<close>

theorem tables_well_formed:
  assumes "reachable booted (kernel_step b c) k"
  shows "well_formed (db k)"
  using kernel.inv_reachable [OF assms] by (simp add: safe_def)

theorem tables_well_formed_witness:
  "well_formed (db (after stale_trace)) \<and> map at_number (attempts (db (after stale_trace))) = [1, 2]"
proof
  show "well_formed (db (after stale_trace))" by (rule tables_well_formed [OF stale_reachable])
  show "map at_number (attempts (db (after stale_trace))) = [1, 2]" by code_simp
qed

text \<open>C4: The kernel refines the ledger machine, which knows only each run's status, budget, number of
  attempts and number of running attempts: every reachable state of the kernel is a reachable state of
  that machine.\<close>

theorem kernel_refines_ledger:
  assumes "reachable booted (kernel_step b c) k"
  shows "reachable (\<lambda>L. L = Map.empty) (ledger_step b) (ledger_of (db k))"
  by (rule kernel.sim_reachable [OF assms])

theorem kernel_refines_ledger_witness:
  "reachable (\<lambda>L. L = Map.empty) (ledger_step True) (ledger_of (db (after double_trace))) \<and>
   map_option e_running (ledger_of (db (after double_trace)) ''r'') = Some 2"
proof
  show "reachable (\<lambda>L. L = Map.empty) (ledger_step True) (ledger_of (db (after double_trace)))"
    by (rule kernel_refines_ledger [OF double_reachable])
  show "map_option e_running (ledger_of (db (after double_trace)) ''r'') = Some 2" by code_simp
qed

text \<open>C6: Evidence is permanent: the row of an attempt that has ended (succeeded, failed or lost) is
  never changed or removed by anything that happens later.\<close>

theorem ended_attempts_immutable:
  assumes "reachable booted (kernel_step b c) k" "(kernel_step b c)\<^sup>*\<^sup>* k k'"
    and "a \<in> set (attempts (db k))" "at_status a \<noteq> A_RUNNING"
  shows "a \<in> set (attempts (db k'))"
proof -
  have "extends (db k) (db k')"
  proof (rule kernel.inv_along [OF assms(1,2)])
    show "extends (db t) (db t')" if "safe c t" "kernel_step b c t t'" for t t'
      using safe_step [OF that] by (simp add: refines_def grows_def)
  qed (auto intro: extends_trans)
  then show ?thesis using assms(3,4) by (auto simp: extends_def ended_attempts_def)
qed

lemma run_actions_path:
  assumes "run_actions c as k = Some k'" "list_all (\<lambda>a. is_Retry a \<longrightarrow> b) as"
  shows "(kernel_step b c)\<^sup>*\<^sup>* k k'"
  using assms
proof (induction as arbitrary: k)
  case (Cons a as)
  then obtain k1 where k1: "perform c a k = Some k1" "run_actions c as k1 = Some k'"
    by (auto split: option.splits)
  have "kernel_step b c k k1" using k1(1) Cons.prems(2) by (auto intro: kernel_step.act)
  then show ?case using Cons.IH [OF k1(2)] Cons.prems(2) by (simp add: converse_rtranclp_into_rtranclp)
qed simp

lemma run_actions_append:
  "run_actions c (as @ bs) k = (case run_actions c as k of None \<Rightarrow> None | Some k' \<Rightarrow> run_actions c bs k')"
  by (induction as arbitrary: k) (auto split: option.splits)

lemma after_append:
  assumes "run_actions sample_config (as @ bs) boot \<noteq> None"
  shows "run_actions sample_config bs (after as) = Some (after (as @ bs))"
  using assms by (auto simp: after_def run_actions_append split: option.splits)

theorem ended_attempts_immutable_witness:
  "hd (attempts (db (after lost_trace))) \<in> set (attempts (db (after resume_trace)))"
proof (rule ended_attempts_immutable [where b = False and c = sample_config])
  show "reachable booted (kernel_step False sample_config) (after lost_trace)"
    by (rule after_reachable) code_simp+
  have "run_actions sample_config resume_trace boot \<noteq> None" by code_simp
  then have "run_actions sample_config (replicate 4 (Advance 1 100000000) @
     [Claim 100000001 ''a2'' ''w2'' ''r'' ''g'' ''ws'']) (after lost_trace) = Some (after resume_trace)"
    unfolding resume_trace_def by (rule after_append)
  then show "(kernel_step False sample_config)\<^sup>*\<^sup>* (after lost_trace) (after resume_trace)"
    by (rule run_actions_path) code_simp
  show "hd (attempts (db (after lost_trace))) \<in> set (attempts (db (after lost_trace)))"
    "at_status (hd (attempts (db (after lost_trace)))) \<noteq> A_RUNNING" by code_simp+
qed



section \<open>What can go wrong\<close>

text \<open>C8: A worker that lost its lease can fail the run that another worker is executing. The stale thread
  finds its own attempt settled, but \<open>_record_runtime_failure\<close> then fails the run whenever it is \<open>RUNNING\<close>,
  which it is because of the other worker's attempt. That attempt succeeds; the run stays failed.\<close>

theorem stale_worker_fails_live_run:
  "reachable booted (kernel_step False sample_config) (after stale_trace) \<and>
   map rn_status (runs (db (after stale_trace))) = [FAILED] \<and>
   map (\<lambda>a. (at_id a, at_status a)) (attempts (db (after stale_trace))) =
     [(''a1'', A_LOST), (''a2'', A_SUCCEEDED)]"
proof (intro conjI)
  show "reachable booted (kernel_step False sample_config) (after stale_trace)" by (rule stale_reachable)
qed code_simp+

text \<open>C9: With client retries, a run can have two attempts running at the same time: a thread that is about
  to schedule its own retry does so after a client retry has already started another attempt.\<close>

theorem retry_race_runs_two_attempts:
  "reachable booted (kernel_step True sample_config) (after double_trace) \<and>
   map at_id (running_attempts ''r'' (db (after double_trace))) = [''a3'', ''a4'']"
proof
  show "reachable booted (kernel_step True sample_config) (after double_trace)" by (rule double_reachable)
  show "map at_id (running_attempts ''r'' (db (after double_trace))) = [''a3'', ''a4'']"
    unfolding running_attempts_def stage_links_def by code_simp
qed

text \<open>C10: A run that is \<open>RUNNING\<close> with no running attempt and no thread working on it is stuck: no sequence of
  steps, reclamations, sweeps and retries included, moves it, unless a client cancels it. The witness
  reaches such a state by a crash between \<open>finish_attempt\<close> and \<open>transition_run\<close>.\<close>

theorem stranded_run_never_settles:
  assumes "reachable booted (kernel_step b c) k" "stranded i k"
    and "run_actions c as k = Some k'" "list_all (\<lambda>a. \<not> cancels i a) as"
  shows "\<exists>v. ledger_of (db k') i = Some v \<and> e_status v = RUNNING"
proof -
  have "reachable booted (kernel_step True c) k"
    by (rule reachable_mono [OF _ assms(1)]) (auto elim!: kernel_stepE intro: kernel_step.act)
  then have "safe c k" by (rule kernel.inv_reachable)
  then have "safe c k' \<and> stranded i k'"
    using assms(2-4)
  proof (induction as arbitrary: k)
    case (Cons a as)
    then obtain k1 where k1: "perform c a k = Some k1" "run_actions c as k1 = Some k'"
      by (auto split: option.splits)
    have "safe c k1" using safe_step [OF Cons.prems(1) kernel_step.act [OF k1(1), of True]] by simp
    moreover have "stranded i k1"
      using stranded_step [OF Cons.prems(2) _ _ k1(1)] Cons.prems(1,4) by (simp add: safe_def)
    ultimately show ?case using Cons.IH k1(2) Cons.prems(4) by simp
  qed simp
  then show ?thesis by (auto simp: stranded_def)
qed

lemma crash_stranded: "stranded ''r'' (after crash_trace)"
  unfolding stranded_def unattended_def
proof
  show "\<forall>th\<in>set (threads (after crash_trace)). \<not> concerns th ''r''" by code_simp
  have "map_option (\<lambda>v. (e_status v, e_running v)) (ledger_of (db (after crash_trace)) ''r'') = Some (RUNNING, 0)"
    by code_simp
  then show "\<exists>v. ledger_of (db (after crash_trace)) ''r'' = Some v \<and> e_status v = RUNNING \<and> e_running v = 0"
    by auto
qed

theorem stranded_run_never_settles_witness:
  "map rn_status (runs (db (after (crash_trace @ maintenance)))) = [RUNNING] \<and>
   (\<exists>v. ledger_of (db (after (crash_trace @ maintenance))) ''r'' = Some v \<and> e_status v = RUNNING)"
proof
  show "map rn_status (runs (db (after (crash_trace @ maintenance)))) = [RUNNING]" by code_simp
  have "run_actions sample_config (crash_trace @ maintenance) boot \<noteq> None" by code_simp
  then have "run_actions sample_config maintenance (after crash_trace) =
    Some (after (crash_trace @ maintenance))" by (rule after_append)
  then show "\<exists>v. ledger_of (db (after (crash_trace @ maintenance))) ''r'' = Some v \<and> e_status v = RUNNING"
    by (rule stranded_run_never_settles [OF crash_reachable crash_stranded]) code_simp
qed

text \<open>A reservation whose attempt is marked lost, with no thread about to release it, is never released:
  the capacity it holds is gone for good. The witness reaches such a state by a crash between the two
  statements of \<open>reclaim_expired_attempts\<close>.\<close>

theorem leaked_reservation_never_released:
  assumes "reachable booted (kernel_step b c) k" "leaked x k" "run_actions c as k = Some k'"
  shows "x \<in> set (reservations (db k'))"
proof -
  have "reachable booted (kernel_step True c) k"
    by (rule reachable_mono [OF _ assms(1)]) (auto elim!: kernel_stepE intro: kernel_step.act)
  then have "safe c k" by (rule kernel.inv_reachable)
  then have "leaked x k'"
    using assms(2,3)
  proof (induction as arbitrary: k)
    case (Cons a as)
    then obtain k1 where k1: "perform c a k = Some k1" "run_actions c as k1 = Some k'"
      by (auto split: option.splits)
    have "safe c k1" using safe_step [OF Cons.prems(1) kernel_step.act [OF k1(1), of True]] by simp
    moreover have "leaked x k1"
      using leaked_step [OF Cons.prems(2) _ _ k1(1)] Cons.prems(1) by (simp add: safe_def)
    ultimately show ?case using Cons.IH k1(2) by simp
  qed simp
  then show ?thesis by (simp add: leaked_def)
qed

theorem leaked_reservation_never_released_witness:
  "\<lparr> rs_attempt = ''a1'', rs_cpu = 1, rs_memory = 6 \<rparr> \<in>
     set (reservations (db (after (leak_trace @ maintenance)))) \<and>
   map at_status (attempts (db (after (leak_trace @ maintenance)))) = [A_LOST]"
proof
  show "map at_status (attempts (db (after (leak_trace @ maintenance)))) = [A_LOST]" by code_simp
  have "leaked \<lparr> rs_attempt = ''a1'', rs_cpu = 1, rs_memory = 6 \<rparr> (after leak_trace)"
    unfolding leaked_def lost_ids_def by (intro conjI) code_simp+
  moreover have "run_actions sample_config (leak_trace @ maintenance) boot \<noteq> None" by code_simp
  ultimately show "\<lparr> rs_attempt = ''a1'', rs_cpu = 1, rs_memory = 6 \<rparr> \<in>
     set (reservations (db (after (leak_trace @ maintenance))))"
    using leaked_reservation_never_released [OF leak_reachable] after_append by blast
qed

end
