(* ===== verification/Custody.thy ===== *)
theory Custody
  imports Store
begin

text \<open>
  \<open>core/runtime/src/openroad_platform_runtime/store.py\<close>, the evidence half of \<open>RuntimeStore\<close>: the
  content-addressed object store, artifacts, uploaded inputs, metrics, staged inputs and events.

  The SHA-256 of \<open>digest.py\<close> is the parameter \<open>H\<close>, a function from bytes to the hexadecimal digest.
  A file of the attempt workspace may change while the store works on it: the bytes it has when it
  is hashed and when it is copied are two separate values.
\<close>

section \<open>The object store\<close>

text \<open>\<open>_store_object\<close> and \<open>_store_bytes\<close>: publish bytes under a digest.\<close>

definition store_object ::
  "(bytes \<Rightarrow> string) \<Rightarrow> bytes \<Rightarrow> string \<Rightarrow> int \<Rightarrow> store \<Rightarrow> unit result \<times> store" where
  "store_object H copied digest nbytes s =
     (case objects s digest of
        Some b \<Rightarrow>
          if int (length b) \<noteq> nbytes \<or> H b \<noteq> digest
          then (Inl (RuntimeStoreError ''the object store is inconsistent''), s) else (Inr (), s)
      | None \<Rightarrow>
          if int (length copied) \<noteq> nbytes \<or> H copied \<noteq> digest
          then (Inl (RuntimeStoreError ''source changed while publishing object''), s)
          else (Inr (), s\<lparr> objects := (objects s)(digest \<mapsto> copied) \<rparr>))"

definition store_bytes ::
  "(bytes \<Rightarrow> string) \<Rightarrow> bytes \<Rightarrow> string \<Rightarrow> int \<Rightarrow> store \<Rightarrow> unit result \<times> store" where
  "store_bytes H content digest nbytes s =
     (case objects s digest of
        Some b \<Rightarrow>
          if int (length b) \<noteq> nbytes \<or> H b \<noteq> digest
          then (Inl (RuntimeStoreError ''object does not match input''), s) else (Inr (), s)
      | None \<Rightarrow>
          if int (length content) \<noteq> nbytes \<or> H content \<noteq> digest
          then (Inl (RuntimeStoreError ''uploaded input changed while publishing''), s)
          else (Inr (), s\<lparr> objects := (objects s)(digest \<mapsto> content) \<rparr>))"

section \<open>Uploaded inputs\<close>

definition insert_uploaded :: "uploaded_row \<Rightarrow> store \<Rightarrow> uploaded_row result \<times> store" where
  "insert_uploaded u s =
     (if up_id u \<in> up_id ` set (uploaded s) then (Inl IntegrityError, s)
      else (Inr u, s\<lparr> uploaded := uploaded s @ [u] \<rparr>))"

definition ingest_input ::
  "(bytes \<Rightarrow> string) \<Rightarrow> timestamp \<Rightarrow> string \<Rightarrow> bytes \<Rightarrow> store \<Rightarrow> uploaded_row result \<times> store" where
  "ingest_input H now input_id content s =
     (let digest = H content; nbytes = int (length content) in
      case store_bytes H content digest nbytes s of
        (Inl e, s1) \<Rightarrow> (Inl e, s1)
      | (Inr _, s1) \<Rightarrow> insert_uploaded \<lparr> up_id = input_id, up_store_key = digest, up_size = nbytes,
            up_sha256 = digest, up_created = now \<rparr> s1)"

text \<open>The file as hashed (\<open>None\<close>: not a readable file) and as copied.\<close>

definition ingest_input_file ::
  "(bytes \<Rightarrow> string) \<Rightarrow> timestamp \<Rightarrow> string \<Rightarrow> bytes option \<Rightarrow> bytes \<Rightarrow> store \<Rightarrow> uploaded_row result \<times> store" where
  "ingest_input_file H now input_id hashed copied s =
     (case hashed of
        None \<Rightarrow> (Inl (RuntimeStoreError ''input file is not readable''), s)
      | Some b \<Rightarrow>
          let digest = H b; nbytes = int (length b) in
          case store_object H copied digest nbytes s of
            (Inl e, s1) \<Rightarrow> (Inl e, s1)
          | (Inr _, s1) \<Rightarrow> insert_uploaded \<lparr> up_id = input_id, up_store_key = digest, up_size = nbytes,
                up_sha256 = digest, up_created = now \<rparr> s1)"

text \<open>The row and the bytes that land at the destination.\<close>

definition materialize_input ::
  "(bytes \<Rightarrow> string) \<Rightarrow> string \<Rightarrow> store \<Rightarrow> (uploaded_row \<times> bytes) result" where
  "materialize_input H input_id s =
     ebind (get_uploaded_input input_id s) (\<lambda>u.
     case objects s (up_sha256 u) of
       None \<Rightarrow> Inl (RuntimeStoreError ''uploaded input object is missing'')
     | Some b \<Rightarrow>
         if (int (length b), H b) \<noteq> (up_size u, up_sha256 u)
         then Inl (RuntimeStoreError ''uploaded input object does not match'')
         else Inr (u, b))"

section \<open>Artifacts\<close>

definition STORAGE_OBJECT :: string where
  "STORAGE_OBJECT = ''object''"

definition STORAGE_WORKSPACE :: string where
  "STORAGE_WORKSPACE = ''workspace''"

text \<open>What the file system says about \<open>workspace / store_key\<close>: its resolved path and its bytes.\<close>

record ws_file =
  wf_path :: "string list"
  wf_hashed :: "bytes option"
  wf_copied :: bytes

definition insert_artifact :: "artifact_row \<Rightarrow> store \<Rightarrow> unit result \<times> store" where
  "insert_artifact a s =
     (if ar_id a \<in> ar_id ` set (artifacts s) \<or>
         (ar_attempt a, ar_store_key a) \<in> (\<lambda>x. (ar_attempt x, ar_store_key x)) ` set (artifacts s) \<or>
         ar_attempt a \<notin> at_id ` set (attempts s)
      then (Inl IntegrityError, s)
      else (Inr (), s\<lparr> artifacts := artifacts s @ [a] \<rparr>))"

definition artifact_for ::
  "(bytes \<Rightarrow> string) \<Rightarrow> string \<Rightarrow> pyval \<Rightarrow> string \<Rightarrow> bytes \<Rightarrow> pyval \<Rightarrow> pydict \<Rightarrow> Artifact" where
  "artifact_for H aid kind key b media meta =
     \<lparr> artifact_id = PStr aid, art_kind = kind, store_key = PStr key, art_sha256 = PStr (H b),
       size_bytes = PInt (int (length b)), media_type = media, art_metadata = PDict meta,
       art_schema_version = PInt SCHEMA_VERSION \<rparr>"

text \<open>
  One declaration of \<open>register_artifacts\<close>: locate the file, refuse one that is outside the workspace
  or missing, hash it, validate, take custody of the bytes, insert the row. The declarations come
  from the runtime and carry strings for kind and store key.
\<close>

definition register_one ::
  "(bytes \<Rightarrow> string) \<Rightarrow> timestamp \<Rightarrow> string list \<Rightarrow> (string \<Rightarrow> ws_file) \<Rightarrow> string \<Rightarrow> string \<Rightarrow> pydict \<Rightarrow>
   store \<Rightarrow> unit result \<times> store" where
  "register_one H now wsroot look attempt_id aid d s =
     (case (dget d ''store_key'', dget d ''kind'', dict_or_empty (dgetN d ''metadata'')) of
        (None, _, _) \<Rightarrow> (Inl KeyError, s)
      | (Some kv, kind, meta) \<Rightarrow>
          let key = py_str kv; f = look key in
          if \<not> prefix wsroot (wf_path f)
          then (Inl (RuntimeStoreError ''artifact escapes the attempt workspace''), s)
          else (case wf_hashed f of
            None \<Rightarrow> (Inl (RuntimeStoreError ''declared artifact is missing''), s)
          | Some b \<Rightarrow>
              (case (kind, meta) of
                 (None, _) \<Rightarrow> (Inl KeyError, s)
               | (_, Inl e) \<Rightarrow> (Inl e, s)
               | (Some k, Inr m) \<Rightarrow>
                   (case Artifact_validate (artifact_for H aid (PStr (py_str k)) key b (dgetN d ''media_type'') m) of
                      Inl e \<Rightarrow> (Inl e, s)
                    | Inr _ \<Rightarrow>
                        (case store_object H (wf_copied f) (H b) (int (length b)) s of
                           (Inl e, s1) \<Rightarrow> (Inl e, s1)
                         | (Inr _, s1) \<Rightarrow> insert_artifact
                             \<lparr> ar_id = aid, ar_attempt = attempt_id, ar_kind = py_str k, ar_store_key = key,
                               ar_size = int (length b), ar_sha256 = H b, ar_metadata = PDict m,
                               ar_created = now, ar_storage = STORAGE_OBJECT \<rparr> s1)))))"

fun register_loop ::
  "(bytes \<Rightarrow> string) \<Rightarrow> timestamp \<Rightarrow> string list \<Rightarrow> (string \<Rightarrow> ws_file) \<Rightarrow> string \<Rightarrow> (string \<times> pydict) list \<Rightarrow>
   store \<Rightarrow> string list result \<times> store" where
  "register_loop H now wsroot look attempt_id [] s = (Inr [], s)"
| "register_loop H now wsroot look attempt_id ((aid, d) # ds) s =
     (case register_one H now wsroot look attempt_id aid d s of
        (Inl e, s1) \<Rightarrow> (Inl e, s1)
      | (Inr _, s1) \<Rightarrow>
          (case register_loop H now wsroot look attempt_id ds s1 of
             (Inl e, s2) \<Rightarrow> (Inl e, s2) | (Inr ids, s2) \<Rightarrow> (Inr (aid # ids), s2)))"

text \<open>
  The whole call: one transaction, rolled back on an error; the files already copied into the object
  store stay there. Each declaration comes with the identifier drawn for it.
\<close>

definition register_artifacts ::
  "(bytes \<Rightarrow> string) \<Rightarrow> timestamp \<Rightarrow> string list \<Rightarrow> (string \<Rightarrow> ws_file) \<Rightarrow> string \<Rightarrow> (string \<times> pydict) list \<Rightarrow>
   store \<Rightarrow> string list result \<times> store" where
  "register_artifacts H now wsroot look attempt_id decls s =
     (case register_loop H now wsroot look attempt_id decls s of
        (Inl e, s1) \<Rightarrow> (Inl e, s\<lparr> objects := objects s1 \<rparr>)
      | (Inr ids, s1) \<Rightarrow> (Inr ids, s1))"

definition artifact_run_id :: "string \<Rightarrow> store \<Rightarrow> string result" where
  "artifact_run_id aid s =
     (case fetchone (\<lambda>a. ar_id a = aid) (artifacts s) of
        None \<Rightarrow> Inl (RuntimeStoreError ''no such artifact'')
      | Some a \<Rightarrow> (case fetchone (\<lambda>t. at_id t = ar_attempt a) (attempts s) of
          None \<Rightarrow> Inl (RuntimeStoreError ''no such artifact'')
        | Some t \<Rightarrow> (case fetchone (\<lambda>g. sg_id g = at_stage t) (stages s) of
            None \<Rightarrow> Inl (RuntimeStoreError ''no such artifact'') | Some g \<Rightarrow> Inr (sg_run g))))"

text \<open>
  Where the bytes of an artifact are: an object, or a file of its attempt's workspace. \<open>resolve\<close> is
  \<open>Path.resolve\<close> on the workspace and on a path in it.
\<close>

datatype location = ObjectAt string | FileAt "string list"

definition artifact_path ::
  "(string \<Rightarrow> string list) \<Rightarrow> (string \<Rightarrow> string \<Rightarrow> string list) \<Rightarrow> string \<Rightarrow> store \<Rightarrow> location result" where
  "artifact_path resolve resolve_in aid s =
     (case fetchone (\<lambda>a. ar_id a = aid) (artifacts s) of
        None \<Rightarrow> Inl (RuntimeStoreError ''no such artifact'')
      | Some a \<Rightarrow> (case fetchone (\<lambda>t. at_id t = ar_attempt a) (attempts s) of
          None \<Rightarrow> Inl (RuntimeStoreError ''no such artifact'')
        | Some t \<Rightarrow>
            if ar_storage a = STORAGE_OBJECT then Inr (ObjectAt (ar_sha256 a))
            else if ar_storage a \<noteq> STORAGE_WORKSPACE
              then Inl (RuntimeStoreError ''artifact records an unknown storage'')
            else if \<not> prefix (resolve (at_workspace t)) (resolve_in (at_workspace t) (ar_store_key a))
              then Inl (RuntimeStoreError ''registered artifact escapes the runtime workspace'')
            else Inr (FileAt (resolve_in (at_workspace t) (ar_store_key a)))))"

text \<open>The bytes at a location; \<open>disk\<close> is the file system outside the object store.\<close>

definition read_location :: "(string list \<rightharpoonup> bytes) \<Rightarrow> location \<Rightarrow> store \<Rightarrow> bytes option" where
  "read_location disk loc s = (case loc of ObjectAt d \<Rightarrow> objects s d | FileAt p \<Rightarrow> disk p)"

definition materialize_artifact ::
  "(string \<Rightarrow> string list) \<Rightarrow> (string \<Rightarrow> string \<Rightarrow> string list) \<Rightarrow> (string list \<rightharpoonup> bytes) \<Rightarrow> string \<Rightarrow>
   store \<Rightarrow> (artifact_row \<times> bytes) result" where
  "materialize_artifact resolve resolve_in disk aid s =
     ebind (get_artifact aid s) (\<lambda>a.
     ebind (artifact_path resolve resolve_in aid s) (\<lambda>loc.
     case read_location disk loc s of
       None \<Rightarrow> Inl (RuntimeStoreError ''the bytes of the artifact are missing'')
     | Some b \<Rightarrow> Inr (a, b)))"

section \<open>Metrics, staged inputs, events\<close>

text \<open>Rows are written in the order given; the identifiers drawn for them are arguments.\<close>

definition metric_row_of :: "timestamp \<Rightarrow> string \<Rightarrow> string \<Rightarrow> Metric \<Rightarrow> metric_row" where
  "metric_row_of now attempt_id mid m =
     \<lparr> mr_id = mid, mr_attempt = attempt_id, mr_name = m_name m, mr_value = m_value m, mr_unit = m_unit m,
       mr_source = m_source_artifact_id m, mr_parser_id = m_parser_id m,
       mr_parser_version = m_parser_version m, mr_context = m_context m, mr_created = now \<rparr>"

fun insert_metrics ::
  "timestamp \<Rightarrow> string \<Rightarrow> (string \<times> Metric) list \<Rightarrow> store \<Rightarrow> string list result \<times> store" where
  "insert_metrics now attempt_id [] s = (Inr [], s)"
| "insert_metrics now attempt_id ((mid, m) # ms) s =
     (case Metric_validate m of
        Inl e \<Rightarrow> (Inl e, s)
      | Inr _ \<Rightarrow>
          if mid \<in> mr_id ` set (metrics s) \<or> attempt_id \<notin> at_id ` set (attempts s)
          then (Inl IntegrityError, s)
          else (case insert_metrics now attempt_id ms
                       (s\<lparr> metrics := metrics s @ [metric_row_of now attempt_id mid m] \<rparr>) of
              (Inl e, s1) \<Rightarrow> (Inl e, s1) | (Inr ids, s1) \<Rightarrow> (Inr (mid # ids), s1)))"

definition register_metrics ::
  "timestamp \<Rightarrow> string \<Rightarrow> (string \<times> Metric) list \<Rightarrow> store \<Rightarrow> string list result \<times> store" where
  "register_metrics now attempt_id ms s =
     (case insert_metrics now attempt_id ms s of
        (Inl e, _) \<Rightarrow> (Inl e, s) | (Inr ids, s1) \<Rightarrow> (Inr ids, s1))"

definition metric_of_row :: "metric_row \<Rightarrow> Metric" where
  "metric_of_row r =
     \<lparr> m_name = mr_name r, m_value = mr_value r, m_unit = mr_unit r, m_source_artifact_id = mr_source r,
       m_parser_id = mr_parser_id r, m_parser_version = mr_parser_version r, m_context = mr_context r,
       m_schema_version = PInt SCHEMA_VERSION \<rparr>"

definition list_metrics :: "string \<Rightarrow> store \<Rightarrow> Metric list" where
  "list_metrics attempt_id s = map metric_of_row (filter (\<lambda>r. mr_attempt r = attempt_id) (metrics s))"

definition list_artifacts :: "string \<Rightarrow> store \<Rightarrow> artifact_row list" where
  "list_artifacts attempt_id s = filter (\<lambda>a. ar_attempt a = attempt_id) (artifacts s)"

text \<open>\<open>INSERT OR REPLACE\<close> on the key \<open>(attempt_id, destination)\<close>: the old row goes, the new one is last.\<close>

definition input_row_of :: "timestamp \<Rightarrow> string \<Rightarrow> StagedInput \<Rightarrow> input_row" where
  "input_row_of now attempt_id i =
     \<lparr> ir_attempt = attempt_id, ir_destination = si_destination i, ir_source = si_source i,
       ir_source_artifact_id = si_source_artifact_id i, ir_source_input_id = si_source_input_id i,
       ir_present = truthy (si_present i), ir_size = si_size_bytes i, ir_sha256 = si_sha256 i,
       ir_created = now \<rparr>"

fun insert_inputs :: "timestamp \<Rightarrow> string \<Rightarrow> StagedInput list \<Rightarrow> store \<Rightarrow> unit result \<times> store" where
  "insert_inputs now attempt_id [] s = (Inr (), s)"
| "insert_inputs now attempt_id (i # is) s =
     (case StagedInput_validate i of
        Inl e \<Rightarrow> (Inl e, s)
      | Inr _ \<Rightarrow>
          if attempt_id \<notin> at_id ` set (attempts s) then (Inl IntegrityError, s)
          else insert_inputs now attempt_id is (s\<lparr> inputs :=
            delete_where (\<lambda>r. ir_attempt r = attempt_id \<and> ir_destination r = si_destination i) (inputs s)
            @ [input_row_of now attempt_id i] \<rparr>))"

definition record_inputs :: "timestamp \<Rightarrow> string \<Rightarrow> StagedInput list \<Rightarrow> store \<Rightarrow> unit result \<times> store" where
  "record_inputs now attempt_id is s =
     (case insert_inputs now attempt_id is s of (Inl e, _) \<Rightarrow> (Inl e, s) | (Inr _, s1) \<Rightarrow> (Inr (), s1))"

definition staged_of_row :: "input_row \<Rightarrow> StagedInput" where
  "staged_of_row r =
     \<lparr> si_destination = ir_destination r, si_present = PBool (ir_present r), si_size_bytes = ir_size r,
       si_sha256 = ir_sha256 r, si_source = ir_source r,
       si_source_artifact_id = ir_source_artifact_id r, si_source_input_id = ir_source_input_id r \<rparr>"

definition list_inputs :: "string \<Rightarrow> store \<Rightarrow> StagedInput list" where
  "list_inputs attempt_id s =
     map staged_of_row (sort_key (\<lambda>r. py_str (ir_destination r))
       (filter (\<lambda>r. ir_attempt r = attempt_id) (inputs s)))"

text \<open>\<open>record_event\<close> does not validate the event it builds.\<close>

definition record_event ::
  "timestamp \<Rightarrow> string \<Rightarrow> string \<Rightarrow> string \<Rightarrow> pydict \<Rightarrow> string \<Rightarrow> string option \<Rightarrow> string option \<Rightarrow> store \<Rightarrow>
   event_row result \<times> store" where
  "record_event now event_id run_id event_type payload producer stage attempt s =
     (let e = \<lparr> er_id = event_id, er_run = run_id, er_stage = stage, er_attempt = attempt,
                er_type = event_type, er_producer = producer, er_payload = payload, er_occurred = now \<rparr> in
      if event_id \<in> er_id ` set (events s) then (Inl IntegrityError, s)
      else (Inr e, s\<lparr> events := events s @ [e] \<rparr>))"

definition list_events :: "string \<Rightarrow> store \<Rightarrow> event_row list" where
  "list_events run_id s = sort_key er_occurred (filter (\<lambda>e. er_run e = run_id) (events s))"

section \<open>Reading one artifact of a run\<close>

text \<open>The artifacts of a run with their attempts, as \<open>describe_run\<close> lists them.\<close>

definition run_artifacts :: "string \<Rightarrow> store \<Rightarrow> artifact_row list" where
  "run_artifacts run_id s =
     concat (map (\<lambda>g. concat (map (\<lambda>a. list_artifacts (at_id a) s) (list_attempts (sg_id g) s)))
       (list_stages run_id s))"

record excerpt =
  ex_artifact :: string
  ex_sha256 :: string
  ex_offset :: int
  ex_chunk :: bytes
  ex_size :: int
  ex_truncated :: bool

definition MAX_EXCERPT :: int where
  "MAX_EXCERPT = 64 * 1024"

definition read_artifact_excerpt ::
  "(bytes \<Rightarrow> string) \<Rightarrow> (string \<Rightarrow> string list) \<Rightarrow> (string \<Rightarrow> string \<Rightarrow> string list) \<Rightarrow> (string list \<rightharpoonup> bytes) \<Rightarrow>
   string \<Rightarrow> string \<Rightarrow> pyval \<Rightarrow> pyval \<Rightarrow> bool \<Rightarrow> store \<Rightarrow> excerpt result" where
  "read_artifact_excerpt H resolve resolve_in disk run_id aid offset max_bytes verify s =
     (if \<not> is_int offset \<or> is_bool offset \<or> py_int offset < 0 \<or> \<not> is_int max_bytes \<or> is_bool max_bytes \<or>
         \<not> (0 < py_int max_bytes \<and> py_int max_bytes \<le> MAX_EXCERPT)
      then Inl (ValueError ''artifact excerpt bounds are invalid'')
      else ebind (get_run run_id s) (\<lambda>_.
        case filter (\<lambda>a. ar_id a = aid) (run_artifacts run_id s) of
          [a] \<Rightarrow>
            ebind (artifact_path resolve resolve_in aid s) (\<lambda>loc.
            case read_location disk loc s of
              None \<Rightarrow> Inl OSError
            | Some b \<Rightarrow>
                if verify \<and> H b \<noteq> ar_sha256 a
                then Inl (RuntimeStoreError ''registered artifact changed after registration'')
                else
                  let chunk = take (nat (py_int max_bytes)) (drop (nat (py_int offset)) b) in
                  Inr \<lparr> ex_artifact = aid, ex_sha256 = ar_sha256 a, ex_offset = py_int offset,
                        ex_chunk = chunk, ex_size = ar_size a,
                        ex_truncated = (py_int offset + int (length chunk) < ar_size a) \<rparr>)
        | _ \<Rightarrow> Inl (RuntimeStoreError ''artifact is not registered in run'')))"

section \<open>The contract of the object store\<close>

text \<open>Every object is stored under its own digest.\<close>

definition objects_ok :: "(bytes \<Rightarrow> string) \<Rightarrow> (string \<rightharpoonup> bytes) \<Rightarrow> bool" where
  "objects_ok H objs = (\<forall>d \<in> dom objs. H (the (objs d)) = d)"

locale content_store =
  fixes H :: "bytes \<Rightarrow> string"
    and publish :: "bytes \<Rightarrow> string \<Rightarrow> int \<Rightarrow> store \<Rightarrow> unit result \<times> store"
  assumes publish_only: "publish b d n s = (r, s') \<Longrightarrow> s' = s\<lparr> objects := objects s' \<rparr>"
    and publish_keeps: "publish b d n s = (r, s') \<Longrightarrow> objects s \<subseteq>\<^sub>m objects s'"
    and publish_sound: "publish b d n s = (r, s') \<Longrightarrow> objects_ok H (objects s) \<Longrightarrow> objects_ok H (objects s')"
    and publish_there: "publish b d n s = (Inr (), s') \<Longrightarrow>
      \<exists>c. objects s' d = Some c \<and> H c = d \<and> int (length c) = n"
    and publish_fresh: "publish b d n s = (Inr (), s') \<Longrightarrow> objects s d = None \<Longrightarrow> objects s' d = Some b"
    and publish_own: "objects s (H b) = None \<Longrightarrow> fst (publish b (H b) (int (length b)) s) = Inr ()"
begin

lemma publish_tables:
  assumes "publish b d n s = (r, s')"
  shows "artifacts s' = artifacts s" "uploaded s' = uploaded s" "attempts s' = attempts s"
    "stages s' = stages s" "runs s' = runs s"
  by (subst publish_only [OF assms], simp)+

text \<open>What is in the store stays, with its bytes, whatever is published afterwards.\<close>

lemma publish_kept:
  assumes "publish b d n s = (r, s')" "objects s d' = Some c"
  shows "objects s' d' = Some c"
  using publish_keeps [OF assms(1)] assms(2) by (metis domI map_le_def)

lemma publish_error:
  assumes "publish b d n s = (Inl e, s')" "objects s d = None"
  shows "H b \<noteq> d \<or> int (length b) \<noteq> n"
proof (rule ccontr)
  assume "\<not> (H b \<noteq> d \<or> int (length b) \<noteq> n)"
  then show False using publish_own [of s b] assms by auto
qed

end

interpretation obj: content_store H "store_object H" for H
  by unfold_locales
    (auto simp: store_object_def objects_ok_def dom_def map_le_def split: option.splits if_splits)

interpretation byt: content_store H "store_bytes H" for H
  by unfold_locales
    (auto simp: store_bytes_def objects_ok_def dom_def map_le_def split: option.splits if_splits)

text \<open>The row of an artifact and the bytes the platform holds for it agree.\<close>

definition in_custody :: "(bytes \<Rightarrow> string) \<Rightarrow> store \<Rightarrow> artifact_row \<Rightarrow> bool" where
  "in_custody H s a = (ar_storage a = STORAGE_OBJECT \<and>
     (\<exists>b. objects s (ar_sha256 a) = Some b \<and> H b = ar_sha256 a \<and> int (length b) = ar_size a))"

lemma in_custody_kept: "in_custody H s a \<Longrightarrow> objects s \<subseteq>\<^sub>m objects s' \<Longrightarrow> in_custody H s' a"
  unfolding in_custody_def map_le_def by (metis domI)

definition custody_step :: "(bytes \<Rightarrow> string) \<Rightarrow> store \<Rightarrow> store \<Rightarrow> bool" where
  "custody_step H s s' = (objects s \<subseteq>\<^sub>m objects s' \<and> (objects_ok H (objects s) \<longrightarrow> objects_ok H (objects s')) \<and>
     attempts s' = attempts s)"

lemma custody_step_trans: "custody_step H s t \<Longrightarrow> custody_step H t u \<Longrightarrow> custody_step H s u"
  unfolding custody_step_def using map_le_trans by auto

lemma custody_step_refl: "custody_step H s s"
  by (simp add: custody_step_def)

lemma insert_artifact_effect:
  assumes "insert_artifact a s = (r, s')"
  shows "custody_step H s s'" "r = Inr () \<Longrightarrow> artifacts s' = artifacts s @ [a]"
    "r \<noteq> Inr () \<Longrightarrow> s' = s"
  using assms by (auto simp: insert_artifact_def custody_step_def split: if_splits)

lemma register_one_effect:
  assumes "register_one H now wsroot look attempt_id aid d s = (r, s')"
  shows "custody_step H s s' \<and> (\<forall>e. r = Inl e \<longrightarrow> artifacts s' = artifacts s) \<and>
    (r = Inr () \<longrightarrow> (\<exists>a. artifacts s' = artifacts s @ [a] \<and> ar_id a = aid \<and> ar_attempt a = attempt_id \<and>
      prefix wsroot (wf_path (look (ar_store_key a))) \<and> in_custody H s' a))"
proof (cases "\<exists>key k m b. dget d ''store_key'' = Some key \<and> dget d ''kind'' = Some k \<and>
    dict_or_empty (dgetN d ''metadata'') = Inr m \<and> prefix wsroot (wf_path (look (py_str key))) \<and>
    wf_hashed (look (py_str key)) = Some b \<and>
    Artifact_validate (artifact_for H aid (PStr (py_str k)) (py_str key) b (dgetN d ''media_type'') m) = Inr ()")
  case True
  then obtain key k m b where d: "dget d ''store_key'' = Some key" "dget d ''kind'' = Some k"
    "dict_or_empty (dgetN d ''metadata'') = Inr m" "prefix wsroot (wf_path (look (py_str key)))"
    "wf_hashed (look (py_str key)) = Some b"
    "Artifact_validate (artifact_for H aid (PStr (py_str k)) (py_str key) b (dgetN d ''media_type'') m) = Inr ()"
    by blast
  let ?a = "\<lparr> ar_id = aid, ar_attempt = attempt_id, ar_kind = py_str k, ar_store_key = py_str key,
    ar_size = int (length b), ar_sha256 = H b, ar_metadata = PDict m, ar_created = now,
    ar_storage = STORAGE_OBJECT \<rparr>"
  obtain r1 s1 where st: "store_object H (wf_copied (look (py_str key))) (H b) (int (length b)) s = (r1, s1)"
    by fastforce
  have s1: "custody_step H s s1" "artifacts s1 = artifacts s"
    using obj.publish_keeps [OF st] obj.publish_sound [OF st] obj.publish_tables [OF st]
    by (auto simp: custody_step_def)
  show ?thesis
  proof (cases r1)
    case (Inl e)
    then show ?thesis using assms d st s1 by (auto simp: register_one_def)
  next
    case (Inr u)
    then have ins: "insert_artifact ?a s1 = (r, s')"
      using assms d st by (simp add: register_one_def)
    note eff = insert_artifact_effect [OF ins]
    have "in_custody H s1 ?a" using obj.publish_there [of H _ "H b"] st Inr by (fastforce simp: in_custody_def)
    then have cust: "in_custody H s' ?a"
      using in_custody_kept eff(1) by (auto simp: custody_step_def)
    show ?thesis
      using eff s1 cust d(4) custody_step_trans by (cases r) (auto intro!: exI [of _ ?a])
  qed
next
  case False
  have "(\<exists>e. r = Inl e) \<and> s' = s"
    using assms False unfolding register_one_def
    by (auto simp: Let_def split: option.splits sum.splits if_splits prod.splits) metis
  then show ?thesis by (auto simp: custody_step_refl)
qed

lemma register_loop_effect:
  assumes "register_loop H now wsroot look attempt_id decls s = (r, s')"
  shows "custody_step H s s' \<and>
    (\<forall>ids. r = Inr ids \<longrightarrow> ids = map fst decls \<and> (\<exists>new. artifacts s' = artifacts s @ new \<and> map ar_id new = ids \<and>
      (\<forall>a \<in> set new. ar_attempt a = attempt_id \<and> prefix wsroot (wf_path (look (ar_store_key a))) \<and>
        in_custody H s' a)))"
  using assms
proof (induction decls arbitrary: s r s')
  case Nil
  then show ?case by (auto simp: custody_step_refl)
next
  case (Cons x decls)
  obtain aid d where x: "x = (aid, d)" by fastforce
  obtain r1 s1 where one: "register_one H now wsroot look attempt_id aid d s = (r1, s1)" by fastforce
  note eff = register_one_effect [OF one]
  show ?case
  proof (cases r1)
    case (Inl e)
    then show ?thesis using Cons.prems x one eff by auto
  next
    case (Inr u)
    obtain r2 s2 where loop: "register_loop H now wsroot look attempt_id decls s1 = (r2, s2)" by fastforce
    note ih = Cons.IH [OF loop]
    have s2: "s' = s2" "custody_step H s s2"
      using Cons.prems x one Inr loop eff ih custody_step_trans by (auto split: sum.splits)
    obtain a where a: "artifacts s1 = artifacts s @ [a]" "ar_id a = aid" "ar_attempt a = attempt_id"
      "prefix wsroot (wf_path (look (ar_store_key a)))" "in_custody H s1 a"
      using eff Inr by auto
    have "in_custody H s2 a" using a(5) ih in_custody_kept by (auto simp: custody_step_def)
    then show ?thesis
      using Cons.prems x one Inr loop ih s2 a
      by (cases r2) (auto intro!: exI [of _ "a # _"])
  qed
qed


section \<open>Properties\<close>

text \<open>A digest for the witnesses: 64 hexadecimal digits that tell the length modulo 64.\<close>

definition toy_digest :: "bytes \<Rightarrow> string" where
  "toy_digest b = (let n = length b mod 64 in replicate n (CHR ''a'') @ replicate (64 - n) (CHR ''0''))"

definition sample_attempt :: attempt_row where
  "sample_attempt = new_attempt 0 ''a1'' ''g'' 1 ''w'' ''/ws'' 30"

definition sample_store :: store where
  "sample_store = empty_store\<lparr> attempts := [sample_attempt] \<rparr>"

definition sample_decl :: "string \<Rightarrow> pydict" where
  "sample_decl key = [(PStr ''store_key'', PStr key), (PStr ''kind'', PStr ''log'')]"

definition sample_look :: "string \<Rightarrow> ws_file" where
  "sample_look key = \<lparr> wf_path = [''ws'', key], wf_hashed = Some ''hello'', wf_copied = ''hello'' \<rparr>"

text \<open>Registering artifacts is all or nothing and takes custody: on success there is one new row per
  declaration, each for a file inside the attempt workspace whose bytes are in the object store under
  the recorded digest with the recorded size; on failure no row is added. In both cases, even if the
  workspace changes between hashing and copying, no stored object changes and every object keeps
  matching its digest.\<close>

theorem register_artifacts_custody:
  assumes "register_artifacts H now wsroot look attempt_id decls s = (r, s')"
  shows "objects s \<subseteq>\<^sub>m objects s' \<and> (objects_ok H (objects s) \<longrightarrow> objects_ok H (objects s')) \<and>
    (case r of Inl e \<Rightarrow> artifacts s' = artifacts s
     | Inr ids \<Rightarrow> ids = map fst decls \<and> (\<exists>new. artifacts s' = artifacts s @ new \<and> map ar_id new = ids \<and>
         (\<forall>a \<in> set new. ar_attempt a = attempt_id \<and> prefix wsroot (wf_path (look (ar_store_key a))) \<and>
           in_custody H s' a)))"
proof -
  obtain r1 s1 where loop: "register_loop H now wsroot look attempt_id decls s = (r1, s1)" by fastforce
  note eff = register_loop_effect [OF loop]
  have r: "r = r1" "objects s' = objects s1" "\<forall>ids. r1 = Inr ids \<longrightarrow> s' = s1"
    "\<forall>e. r1 = Inl e \<longrightarrow> artifacts s' = artifacts s"
    using assms loop by (auto simp: register_artifacts_def split: sum.splits)
  show ?thesis using eff r by (auto simp: custody_step_def split: sum.splits)
qed

theorem register_artifacts_custody_witness:
  "let s' = snd (register_artifacts toy_digest 5 [''ws''] sample_look ''a1'' [(''x1'', sample_decl ''out.log'')] sample_store)
   in objects sample_store \<subseteq>\<^sub>m objects s' \<and> map ar_sha256 (artifacts s') = [toy_digest ''hello''] \<and>
      objects s' (toy_digest ''hello'') = Some ''hello''"
proof -
  let ?c = "register_artifacts toy_digest 5 [''ws''] sample_look ''a1'' [(''x1'', sample_decl ''out.log'')] sample_store"
  have "objects sample_store \<subseteq>\<^sub>m objects (snd ?c)"
    using register_artifacts_custody [OF surjective_pairing] by blast
  moreover have "map ar_sha256 (artifacts (snd ?c)) = [toy_digest ''hello'']"
    "objects (snd ?c) (toy_digest ''hello'') = Some ''hello''" by code_simp+
  ultimately show ?thesis by (simp add: Let_def)
qed

text \<open>An uploaded input can be read back: after a successful upload, materialising it gives bytes with
  the digest and length of the upload, and the very bytes unless the store already held an object
  with that digest.\<close>

theorem ingest_then_materialize:
  assumes "ingest_input H now input_id content s = (Inr u, s')"
  shows "\<exists>b. materialize_input H input_id s' = Inr (u, b) \<and> H b = H content \<and> length b = length content \<and>
    (objects s (H content) = None \<longrightarrow> b = content)"
proof -
  obtain s1 where st: "store_bytes H content (H content) (int (length content)) s = (Inr (), s1)"
    and u: "u = \<lparr> up_id = input_id, up_store_key = H content, up_size = int (length content),
      up_sha256 = H content, up_created = now \<rparr>"
    and s': "s' = s1\<lparr> uploaded := uploaded s1 @ [u] \<rparr>" "input_id \<notin> up_id ` set (uploaded s1)"
    using assms by (auto simp: ingest_input_def insert_uploaded_def Let_def split: prod.splits sum.splits if_splits)
  obtain b where b: "objects s1 (H content) = Some b" "H b = H content" "int (length b) = int (length content)"
    using byt.publish_there [OF st] by blast
  have "fetchone (\<lambda>x. up_id x = input_id) (uploaded s1) = None"
    using s'(2) by (auto simp: fetchone_None)
  then have "get_uploaded_input input_id s' = Inr u"
    by (simp add: get_uploaded_input_def s'(1) fetchone_append u)
  moreover have "objects s (H content) = None \<longrightarrow> b = content"
    using byt.publish_fresh [OF st] b(1) by auto
  ultimately show ?thesis using b by (auto simp: materialize_input_def s'(1) u)
qed

theorem ingest_then_materialize_witness:
  "let s' = snd (ingest_input toy_digest 5 ''i1'' ''abc'' empty_store) in
   map_option up_size (fetchone (\<lambda>u. up_id u = ''i1'') (uploaded s')) = Some 3 \<and>
   (\<exists>u. materialize_input toy_digest ''i1'' s' = Inr (u, ''abc''))"
proof -
  let ?r = "ingest_input toy_digest 5 ''i1'' ''abc'' empty_store"
  have "fst ?r = Inr (projr (fst ?r))" "objects empty_store (toy_digest ''abc'') = None"
    "map_option up_size (fetchone (\<lambda>u. up_id u = ''i1'') (uploaded (snd ?r))) = Some 3" by code_simp+
  then show ?thesis
    using ingest_then_materialize [of toy_digest 5 "''i1''" "''abc''" empty_store "projr (fst ?r)" "snd ?r"]
    by (metis prod.collapse)
qed

text \<open>Uploads are immutable: what a stored input materialises to is not changed by any later upload,
  whether it succeeds or not.\<close>

theorem uploads_immutable:
  assumes "materialize_input H i s = Inr x" "ingest_input H now input_id content s = (r, s')"
  shows "materialize_input H i s' = Inr x"
proof -
  obtain r1 s1 where st: "store_bytes H content (H content) (int (length content)) s = (r1, s1)" by fastforce
  have up: "uploaded s1 = uploaded s" by (rule byt.publish_tables [OF st])
  have s': "objects s' = objects s1" "\<exists>us. uploaded s' = uploaded s @ us"
    using assms(2) st up by (auto simp: ingest_input_def insert_uploaded_def Let_def split: sum.splits if_splits)
  obtain u b where x: "get_uploaded_input i s = Inr u" "objects s (up_sha256 u) = Some b"
    "int (length b) = up_size u" "H b = up_sha256 u" "x = (u, b)"
    using assms(1) by (auto simp: materialize_input_def ebind_Inr_iff split: option.splits if_splits)
  have "get_uploaded_input i s' = Inr u"
    using x(1) s'(2) by (auto simp: get_uploaded_input_def fetchone_append split: option.splits)
  moreover have "objects s' (up_sha256 u) = Some b"
    using byt.publish_kept [OF st x(2)] s'(1) by simp
  ultimately show ?thesis using x by (simp add: materialize_input_def)
qed

theorem uploads_immutable_witness:
  "let s = snd (ingest_input toy_digest 5 ''i1'' ''abc'' empty_store);
       s' = snd (ingest_input toy_digest 6 ''i2'' ''wxyz'' s)
   in \<exists>x. materialize_input toy_digest ''i1'' s' = Inr x \<and> snd x = ''abc''"
proof -
  let ?s = "snd (ingest_input toy_digest 5 ''i1'' ''abc'' empty_store)"
  have m: "materialize_input toy_digest ''i1'' ?s = Inr (projr (materialize_input toy_digest ''i1'' ?s))"
    "snd (projr (materialize_input toy_digest ''i1'' ?s)) = ''abc''" by code_simp+
  show ?thesis
    using uploads_immutable [OF m(1) surjective_pairing, of 6 "''i2''" "''wxyz''"] m(2)
    unfolding Let_def by (intro exI conjI)
qed

section \<open>Metrics and staged inputs come back as they were given\<close>

lemma insert_metrics_effect:
  "insert_metrics now a ms s = (r, s') \<Longrightarrow>
   (case r of
      Inl e \<Rightarrow> True
    | Inr ids \<Rightarrow> ids = map fst ms \<and> (\<forall>x \<in> set ms. Metric_validate (snd x) = Inr ()) \<and>
        s' = s\<lparr> metrics := metrics s @ map (\<lambda>x. metric_row_of now a (fst x) (snd x)) ms \<rparr>)"
proof (induction now a ms s arbitrary: r s' rule: insert_metrics.induct)
  case (2 now a mid m ms s)
  show ?case
  proof (cases r)
    case (Inr ids)
    with "2.prems" obtain ids' where
      v: "Metric_validate m = Inr ()" "\<not> (mid \<in> mr_id ` set (metrics s) \<or> a \<notin> at_id ` set (attempts s))" and
      i: "insert_metrics now a ms (s\<lparr> metrics := metrics s @ [metric_row_of now a mid m] \<rparr>) = (Inr ids', s')"
        "ids = mid # ids'"
      by (auto split: sum.splits if_splits prod.splits)
    from "2.IH" [OF v(1) v(2) i(1)] i(2) v Inr show ?thesis by simp
  qed simp
qed simp

text \<open>Registering metrics is all or nothing, and what was registered is read back in order: a failing call
  leaves the store as it was; a successful one has validated every metric, appends exactly the given
  metrics to what \<open>list_metrics\<close> returns for the attempt and changes no other attempt's list.\<close>

theorem metrics_round_trip:
  "case register_metrics now a ms s of
     (Inl e, s') \<Rightarrow> s' = s
   | (Inr ids, s') \<Rightarrow> ids = map fst ms \<and> list_all (\<lambda>x. Metric_validate (snd x) = Inr ()) ms \<and>
       (\<forall>b. list_metrics b s' = list_metrics b s @
          (if b = a then map (\<lambda>x. (snd x)\<lparr> m_schema_version := PInt SCHEMA_VERSION \<rparr>) ms else []))"
proof -
  obtain r s1 where i: "insert_metrics now a ms s = (r, s1)" by fastforce
  show ?thesis
  proof (cases r)
    case (Inl e)
    then show ?thesis using i by (simp add: register_metrics_def)
  next
    case (Inr ids)
    have row: "metric_of_row (metric_row_of now a mid m) = m\<lparr> m_schema_version := PInt SCHEMA_VERSION \<rparr>"
      "mr_attempt (metric_row_of now a mid m) = a" for mid m
      by (simp_all add: metric_of_row_def metric_row_of_def)
    show ?thesis
      using insert_metrics_effect [OF i] i Inr
      by (auto simp: register_metrics_def list_metrics_def row list_all_iff filter_map o_def)
  qed
qed

lemma insert_inputs_effect:
  assumes "insert_inputs now a is s = (Inr u, s')" "distinct (map si_destination is)"
  shows "list_all (\<lambda>i. StagedInput_validate i = Inr ()) is \<and>
    s' = s\<lparr> inputs := delete_where (\<lambda>r. ir_attempt r = a \<and> ir_destination r \<in> si_destination ` set is) (inputs s)
                      @ map (input_row_of now a) is \<rparr>"
  using assms
proof (induction "now" a "is" s arbitrary: s' rule: insert_inputs.induct)
  case (2 now a i "is" s)
  let ?s = "s\<lparr> inputs := delete_where (\<lambda>r. ir_attempt r = a \<and> ir_destination r = si_destination i) (inputs s)
            @ [input_row_of now a i] \<rparr>"
  have v: "StagedInput_validate i = Inr ()" "\<not> a \<notin> at_id ` set (attempts s)" and
    i: "insert_inputs now a is ?s = (Inr u, s')"
    using "2.prems"(1) by (auto split: sum.splits if_splits)
  have new: "ir_destination (input_row_of now a i) \<notin> si_destination ` set is"
    using "2.prems"(2) by (auto simp: input_row_of_def)
  have "delete_where (\<lambda>r. ir_attempt r = a \<and> ir_destination r \<in> si_destination ` set is) (inputs ?s) =
      delete_where (\<lambda>r. ir_attempt r = a \<and> ir_destination r \<in> si_destination ` set (i # is)) (inputs s)
      @ [input_row_of now a i]"
    using new by (auto simp: delete_where_def intro!: filter_cong)
  then show ?case using "2.IH" [OF v(1) v(2) i] "2.prems"(2) v by simp
qed (simp add: delete_where_def)

lemma staged_of_input_row:
  assumes "StagedInput_validate i = Inr ()"
  shows "staged_of_row (input_row_of now a i) = i"
proof -
  obtain b where "si_present i = PBool b"
    using assms by (auto simp: StagedInput_validate_def Let_def eall_Inr_iff is_bool_iff)
  then show ?thesis by (cases i) (simp add: staged_of_row_def input_row_of_def truthy_def)
qed

text \<open>What an attempt was given is recorded faithfully: after the staged inputs of a fresh attempt are
  recorded, \<open>list_inputs\<close> returns exactly them, ordered by destination, each one valid; the inputs of every
  other attempt are unchanged.\<close>

theorem inputs_round_trip:
  assumes "record_inputs now a is s = (Inr u, s')" "distinct (map si_destination is)" "list_inputs a s = []"
  shows "list_all (\<lambda>i. StagedInput_validate i = Inr ()) is \<and>
    list_inputs b s' = (if b = a then sort_key (\<lambda>i. py_str (si_destination i)) is else list_inputs b s)"
proof -
  have i: "insert_inputs now a is s = (Inr (), s')"
    using assms(1) by (auto simp: record_inputs_def split: prod.splits sum.splits)
  note eff = insert_inputs_effect [OF i assms(2)]
  have v: "\<And>i. i \<in> set is \<Longrightarrow> StagedInput_validate i = Inr ()" using eff by (simp add: list_all_iff)
  have none: "\<forall>r \<in> set (inputs s). ir_attempt r \<noteq> a"
    using assms(3) by (simp add: list_inputs_def sort_key_empty filter_empty_conv)
  have rows: "filter (\<lambda>r. ir_attempt r = b) (inputs s') =
      (if b = a then map (input_row_of now a) is else filter (\<lambda>r. ir_attempt r = b) (inputs s))"
    using eff none by (auto simp: delete_where_def input_row_of_def intro!: filter_cong filter_False)
  have "map staged_of_row (sort_key (\<lambda>r. py_str (ir_destination r)) (map (input_row_of now a) is)) =
      map (\<lambda>i. staged_of_row (input_row_of now a i)) (sort_key (\<lambda>i. py_str (si_destination i)) is)"
    by (simp add: sort_key_map input_row_of_def o_def)
  also have "\<dots> = sort_key (\<lambda>i. py_str (si_destination i)) is"
    by (rule map_idI) (simp add: staged_of_input_row v)
  finally show ?thesis using eff rows by (simp add: list_inputs_def)
qed

definition sample_staged :: "string \<Rightarrow> StagedInput" where
  "sample_staged dest = \<lparr> si_destination = PStr dest, si_present = PBool False, si_size_bytes = PInt 0,
     si_sha256 = PNone, si_source = PStr ''/tmp/x'', si_source_artifact_id = PNone, si_source_input_id = PNone \<rparr>"

theorem inputs_round_trip_witness:
  "let is = [sample_staged ''top.v'', sample_staged ''config.mk''];
       s' = snd (record_inputs 5 ''a1'' is sample_store)
   in list_inputs ''a1'' s' = [sample_staged ''config.mk'', sample_staged ''top.v'']"
proof -
  let ?is = "[sample_staged ''top.v'', sample_staged ''config.mk'']"
  have "fst (record_inputs 5 ''a1'' ?is sample_store) = Inr ()" by code_simp
  then have p: "record_inputs 5 ''a1'' ?is sample_store = (Inr (), snd (record_inputs 5 ''a1'' ?is sample_store))"
    by (metis prod.collapse)
  have q: "distinct (map si_destination ?is)" "list_inputs ''a1'' sample_store = []"
    "sort_key (\<lambda>i. py_str (si_destination i)) ?is = [sample_staged ''config.mk'', sample_staged ''top.v'']"
    by code_simp+
  show ?thesis using inputs_round_trip [OF p q(1,2), of "''a1''"] q(3) by (simp add: Let_def)
qed

section \<open>Reading an artifact\<close>

lemma run_artifacts_owned:
  assumes "a \<in> set (run_artifacts run_id s)" "distinct (map ar_id (artifacts s))"
    "distinct (map at_id (attempts s))" "distinct (map sg_id (stages s))"
  shows "a \<in> set (artifacts s)" "artifact_run_id (ar_id a) s = Inr run_id"
proof -
  obtain g t where gt: "g \<in> set (stages s)" "sg_run g = run_id" "t \<in> set (attempts s)" "at_stage t = sg_id g"
    "a \<in> set (artifacts s)" "ar_attempt a = at_id t"
    using assms(1) by (auto simp: run_artifacts_def list_artifacts_def list_attempts_def list_stages_def)
  show "a \<in> set (artifacts s)" by (rule gt(5))
  show "artifact_run_id (ar_id a) s = Inr run_id"
    using fetchone_key [OF assms(2) gt(5)] fetchone_key [OF assms(3) gt(3)] fetchone_key [OF assms(4) gt(1)] gt
    by (simp add: artifact_run_id_def)
qed

text \<open>A caller allowed to read one run can only read that run's artifacts, and only unaltered: a verified
  excerpt comes from an artifact whose owner, as the authorisation check computes it, is the run that was
  named; it is the requested window of bytes whose digest is the registered one, never longer than asked
  for nor than 64 KiB.\<close>

theorem excerpt_of_registered_bytes:
  assumes "read_artifact_excerpt H resolve resolve_in disk run_id aid offset max_bytes True s = Inr x"
    and "distinct (map ar_id (artifacts s))" "distinct (map at_id (attempts s))" "distinct (map sg_id (stages s))"
  shows "artifact_run_id aid s = Inr run_id \<and>
    (\<exists>b. H b = ex_sha256 x \<and> ex_chunk x = take (nat (py_int max_bytes)) (drop (nat (py_int offset)) b)) \<and>
    ex_offset x = py_int offset \<and> 0 \<le> ex_offset x \<and> int (length (ex_chunk x)) \<le> py_int max_bytes \<and>
    int (length (ex_chunk x)) \<le> 65536"
proof -
  obtain a loc b where f: "filter (\<lambda>a. ar_id a = aid) (run_artifacts run_id s) = [a]" and
    bounds: "is_int offset" "0 \<le> py_int offset" "0 < py_int max_bytes" "py_int max_bytes \<le> MAX_EXCERPT" and
    H: "H b = ar_sha256 a" and
    x: "x = \<lparr> ex_artifact = aid, ex_sha256 = ar_sha256 a, ex_offset = py_int offset,
          ex_chunk = take (nat (py_int max_bytes)) (drop (nat (py_int offset)) b), ex_size = ar_size a,
          ex_truncated = (py_int offset + int (length (take (nat (py_int max_bytes)) (drop (nat (py_int offset)) b)))
            < ar_size a) \<rparr>"
    using assms(1)
    by (auto simp: read_artifact_excerpt_def ebind_Inr_iff Let_def split: if_splits list.splits option.splits)
  have "a \<in> set (run_artifacts run_id s)" "ar_id a = aid"
    using filter_eq_ConsD [OF f] by auto
  then have "artifact_run_id aid s = Inr run_id"
    using run_artifacts_owned(2) [OF _ assms(2-4)] by blast
  then show ?thesis using H bounds by (auto simp: x MAX_EXCERPT_def)
qed

text \<open>A run with one stage, one attempt and one registered artifact.\<close>

definition sample_run :: run_row where
  "sample_run = \<lparr> rn_id = ''r'', rn_task_id = PStr ''t'', rn_key = None, rn_status = RUNNING,
     rn_task = TaskSpec_of [] [] [] None, rn_created = 0, rn_started = None, rn_ended = None, rn_reason = None \<rparr>"

definition sample_stage :: stage_row where
  "sample_stage = \<lparr> sg_id = ''g'', sg_run = ''r'', sg_key = ''main'', sg_ordinal = 0, sg_plugin_id = PStr ''p'',
     sg_plugin_version = PStr ''1'', sg_status = RUNNING, sg_created = 0, sg_started = None, sg_resumable = False \<rparr>"

definition sample_evidence :: store where
  "sample_evidence = snd (register_artifacts toy_digest 5 [''ws''] sample_look ''a1'' [(''x1'', sample_decl ''out.log'')]
     (sample_store\<lparr> runs := [sample_run], stages := [sample_stage] \<rparr>))"

theorem excerpt_of_registered_bytes_witness:
  "\<exists>x. read_artifact_excerpt toy_digest (\<lambda>_. []) (\<lambda>_ _. []) Map.empty ''r'' ''x1'' (PInt 1) (PInt 3) True
      sample_evidence = Inr x \<and> ex_chunk x = ''ell'' \<and> int (length (ex_chunk x)) \<le> 3 \<and>
      artifact_run_id ''x1'' sample_evidence = Inr ''r''"
proof -
  let ?x = "read_artifact_excerpt toy_digest (\<lambda>_. []) (\<lambda>_ _. []) Map.empty ''r'' ''x1'' (PInt 1) (PInt 3) True
      sample_evidence"
  have p: "?x = Inr (projr ?x)" "ex_chunk (projr ?x) = ''ell''" "distinct (map ar_id (artifacts sample_evidence))"
    "distinct (map at_id (attempts sample_evidence))" "distinct (map sg_id (stages sample_evidence))"
    by code_simp+
  show ?thesis
    using excerpt_of_registered_bytes [OF p(1) p(3-5)] p(1,2) by (intro exI [of _ "projr ?x"]) simp
qed

end
