(* ===== verification/Adapter.thy ===== *)
theory Adapter
  imports Custody
begin

text \<open>
  \<open>core/runtime/src/openroad_platform_runtime/adapter.py\<close>: the bounded protocol between the platform and
  a plugin process. The process is outside the model: what it did is the outcome the guardian reports
  (exit code, cancellation, deadline, exceeded limit), the result file it left and the files of its
  workspace. What the platform makes of these is modelled in full.
\<close>

section \<open>Inputs of the protocol\<close>

record ProcessOutcome =
  returncode :: int
  timed_out :: bool
  cancelled :: bool
  exceeded :: "string option"
  oc_cpu_seconds :: pyval
  oc_peak_memory :: pyval
  oc_peak_processes :: pyval

record AdapterExecution =
  ex_result :: PluginResult
  ex_outcome :: ProcessOutcome
  ex_artifacts :: "pydict list"

definition SAFE_HOST_ENVIRONMENT :: "string list" where
  "SAFE_HOST_ENVIRONMENT = [''HOME'', ''LANG'', ''LC_ALL'', ''TZ'', ''TMPDIR'', ''TEMP'', ''TMP'']"

definition REQUEST_FILENAME :: string where
  "REQUEST_FILENAME = ''adapter_request.json''"

definition RESULT_FILENAME :: string where
  "RESULT_FILENAME = ''adapter_result.json''"

definition LOG_FILENAME :: string where
  "LOG_FILENAME = ''adapter.log''"

definition PROTOCOL_VERSION :: int where
  "PROTOCOL_VERSION = 1"

text \<open>The request file, and the environment and command of the process.\<close>

definition write_request :: "PluginManifest \<Rightarrow> TaskSpec \<Rightarrow> pyval result" where
  "write_request manifest task =
     ebind (TaskSpec_to_dict task) (\<lambda>t. Inr (PDict
       [ (PStr ''protocol_version'', PInt PROTOCOL_VERSION),
         (PStr ''plugin'', PDict [ (PStr ''plugin_id'', man_plugin_id manifest),
                                   (PStr ''plugin_version'', man_plugin_version manifest) ]),
         (PStr ''task'', t) ]))"

definition dupdate :: "pydict \<Rightarrow> pydict \<Rightarrow> pydict" where
  "dupdate d e = foldl (\<lambda>acc (k, v). dset acc k v) d e"

definition adapter_environment :: "(string \<Rightarrow> string option) \<Rightarrow> PluginManifest \<Rightarrow> pydict" where
  "adapter_environment host manifest =
     (let safe = List.map_filter (\<lambda>k. map_option (\<lambda>v. (PStr k, PStr v)) (host k)) SAFE_HOST_ENVIRONMENT in
      dset (dset (dupdate safe (items (environment manifest)))
        (PStr ''OPENROAD_PLATFORM_PLUGIN_ID'') (man_plugin_id manifest))
        (PStr ''OPENROAD_PLATFORM_PLUGIN_VERSION'') (man_plugin_version manifest))"

definition adapter_command :: "string \<Rightarrow> string \<Rightarrow> PluginManifest \<Rightarrow> pyval list" where
  "adapter_command request_path result_path manifest =
     adapter_entry manifest @ [PStr ''--request'', PStr request_path, PStr ''--result'', PStr result_path]"

section \<open>The result\<close>

definition plugin_result :: "RuntimeStatus \<Rightarrow> int \<Rightarrow> string \<Rightarrow> string \<Rightarrow> pydict \<Rightarrow> PluginResult" where
  "plugin_result status code started ended failure =
     \<lparr> res_status = status, exit_code = PInt code, started_at = PStr started, ended_at = PStr ended,
       res_metrics = [], res_artifacts = [], res_failure = PDict failure, provenance = PDict [],
       res_schema_version = PInt SCHEMA_VERSION \<rparr>"

definition failure_dict :: "string \<Rightarrow> string \<Rightarrow> pydict" where
  "failure_dict category message = [(PStr ''category'', PStr category), (PStr ''message'', PStr message)]"

definition protocol_failure :: "string \<Rightarrow> string \<Rightarrow> int \<Rightarrow> string \<Rightarrow> PluginResult" where
  "protocol_failure started ended code message =
     plugin_result FAILED (if code \<noteq> 0 then code else 1) started ended (failure_dict ''protocol_error'' message)"

text \<open>
  \<open>_load_result\<close>: a process the platform stopped has no say. Otherwise the result file, \<open>None\<close> when
  there is none, must be a valid result that agrees with the exit code. A \<open>ValueError\<close>, which a contract
  error is, becomes a protocol error; a \<open>TypeError\<close> does not.
\<close>

definition load_result ::
  "json_text option \<Rightarrow> ProcessOutcome \<Rightarrow> string \<Rightarrow> string \<Rightarrow> PluginResult result" where
  "load_result file outcome started ended =
     (if cancelled outcome then
        Inr (plugin_result CANCELLED (returncode outcome) started ended
          (failure_dict ''cancelled'' ''cancellation requested''))
      else if timed_out outcome then
        Inr (plugin_result TIMED_OUT (returncode outcome) started ended
          (failure_dict ''timeout'' ''adapter deadline exceeded''))
      else case exceeded outcome of
        Some msg \<Rightarrow> Inr (plugin_result FAILED (returncode outcome) started ended
          (failure_dict ''resource_exceeded'' msg @ [(PStr ''retryable'', PBool False)]))
      | None \<Rightarrow>
          (case file of
             None \<Rightarrow> Inl (AdapterProtocolError ''adapter produced no result'')
           | Some JsonGarbage \<Rightarrow> Inl (AdapterProtocolError ''invalid result'')
           | Some (JsonText v) \<Rightarrow>
               (case PluginResult_from_dict v of
                  Inl e \<Rightarrow> Inl (if is_ValueError e then AdapterProtocolError ''invalid result'' else e)
                | Inr r \<Rightarrow>
                    if returncode outcome \<noteq> 0 \<and> res_status r = SUCCEEDED
                    then Inl (AdapterProtocolError ''adapter claimed success with a non-zero process exit code'')
                    else if \<not> py_eq (PInt (returncode outcome)) (exit_code r)
                    then Inl (AdapterProtocolError ''result exit_code does not match the process exit code'')
                    else Inr r)))"

section \<open>Artifact declarations\<close>

text \<open>
  \<open>rule.get("kind")\<close> for the rules of a manifest: a rule that is not an object raises
  \<open>AttributeError\<close>, a kind that cannot be in a set \<open>TypeError\<close>.
\<close>

definition rules_ok :: "PluginManifest \<Rightarrow> unit result" where
  "rules_ok manifest = eall (map (\<lambda>rule.
     if \<not> is_dict rule then Inl AttributeError
     else let kind = dgetN (items rule) ''kind'' in
       echeck (truthy kind \<and> (is_list kind \<or> is_dict kind)) TypeError) (artifact_rules manifest))"

definition allowed_kinds :: "PluginManifest \<Rightarrow> pyval list" where
  "allowed_kinds manifest =
     filter truthy (map (\<lambda>rule. dgetN (items rule) ''kind'') (artifact_rules manifest))"

text \<open>The key of a file: its resolved path below the workspace.\<close>

definition key_of :: "string list \<Rightarrow> string list \<Rightarrow> string" where
  "key_of wsroot p = (if p = wsroot then ''.'' else join ''/'' (drop (length wsroot) p))"

definition normalize_one ::
  "(bytes \<Rightarrow> string) \<Rightarrow> string list \<Rightarrow> (string \<Rightarrow> ws_file) \<Rightarrow> PluginManifest \<Rightarrow> bool \<Rightarrow> string list \<Rightarrow> pydict \<Rightarrow>
   (string \<times> string \<times> pydict) result" where
  "normalize_one H wsroot look manifest allow_reserved seen item =
     (let kind = dgetN item ''kind''; declared = dgetN item ''path'' in
      if \<not> is_str kind \<or> \<not> is_str declared
      then Inl (AdapterProtocolError ''artifact declaration needs kind and path'')
      else ebind (dict_or_empty (dgetN item ''metadata'')) (\<lambda>meta.
        case ArtifactDeclaration_validate \<lparr> ad_kind = kind, ad_path = declared, ad_required = PBool True,
               ad_media_type = PNone, ad_metadata = PDict meta, ad_allow_reserved = allow_reserved \<rparr> of
          Inl e \<Rightarrow> Inl (if is_ContractError e then AdapterProtocolError ''invalid declaration'' else e)
        | Inr _ \<Rightarrow>
            if allowed_kinds manifest \<noteq> [] \<and> kind \<notin> set (allowed_kinds manifest) \<and> \<not> allow_reserved
            then Inl (AdapterProtocolError ''artifact kind is not allowed by the manifest'')
            else
              let f = look (py_str declared) in
              if \<not> prefix wsroot (wf_path f)
              then Inl (AdapterProtocolError ''artifact path escapes the workspace'')
              else (case wf_hashed f of
                None \<Rightarrow> Inl (AdapterProtocolError ''artifact is missing'')
              | Some b \<Rightarrow>
                  let key = key_of wsroot (wf_path f) in
                  if key \<in> set seen then Inl (AdapterProtocolError ''artifact declared more than once'')
                  else Inr (key, py_str kind,
                    [ (PStr ''kind'', kind), (PStr ''store_key'', PStr key),
                      (PStr ''size_bytes'', PInt (int (length b))), (PStr ''sha256'', PStr (H b)),
                      (PStr ''media_type'', dgetN item ''media_type''), (PStr ''metadata'', PDict meta) ]))))"

fun normalize_loop ::
  "(bytes \<Rightarrow> string) \<Rightarrow> string list \<Rightarrow> (string \<Rightarrow> ws_file) \<Rightarrow> PluginManifest \<Rightarrow> bool \<Rightarrow> string list \<Rightarrow> pydict list \<Rightarrow>
   (string \<times> string \<times> pydict) list result" where
  "normalize_loop H wsroot look manifest allow seen [] = Inr []"
| "normalize_loop H wsroot look manifest allow seen (item # rest) =
     ebind (normalize_one H wsroot look manifest allow seen item) (\<lambda>x.
     ebind (normalize_loop H wsroot look manifest allow (fst x # seen) rest) (\<lambda>xs. Inr (x # xs)))"

text \<open>
  The kinds a success must have produced: those the task expects and those the manifest requires.
  Reporting a missing kind that is not a string raises \<open>TypeError\<close>.
\<close>

definition required_kinds :: "pyval list \<Rightarrow> PluginManifest \<Rightarrow> pyval list" where
  "required_kinds expected manifest =
     filter truthy (expected @ map (\<lambda>rule. dgetN (items rule) ''kind'')
       (filter (\<lambda>rule. truthy (dgetN (items rule) ''required'')) (artifact_rules manifest)))"

definition validate_artifact_declarations ::
  "(bytes \<Rightarrow> string) \<Rightarrow> string list \<Rightarrow> (string \<Rightarrow> ws_file) \<Rightarrow> PluginManifest \<Rightarrow> pydict list \<Rightarrow> pyval list \<Rightarrow> bool \<Rightarrow>
   bool \<Rightarrow> pydict list result" where
  "validate_artifact_declarations H wsroot look manifest declarations expected require_expected allow_reserved =
     ebind (rules_ok manifest) (\<lambda>_.
     ebind (normalize_loop H wsroot look manifest allow_reserved [] declarations) (\<lambda>xs.
     let missing = filter (\<lambda>k. k \<notin> set (map (\<lambda>x. PStr (fst (snd x))) xs)) (required_kinds expected manifest) in
     if require_expected \<and> missing \<noteq> []
     then Inl (if list_all is_str missing then AdapterProtocolError ''required artifact kinds missing'' else TypeError)
     else Inr (map (\<lambda>x. snd (snd x)) xs)))"

text \<open>\<open>_validate_artifacts\<close>: the declarations of a result, each an object with a kind and a path.\<close>

definition declaration_of :: "pyval \<Rightarrow> pydict" where
  "declaration_of item =
     [ (PStr ''kind'', dgetN (items item) ''kind''), (PStr ''path'', dgetN (items item) ''path''),
       (PStr ''metadata'', dget_or (items item) ''metadata'' (PDict [])),
       (PStr ''media_type'', dgetN (items item) ''media_type'') ]"

definition validate_artifacts ::
  "(bytes \<Rightarrow> string) \<Rightarrow> string list \<Rightarrow> (string \<Rightarrow> ws_file) \<Rightarrow> PluginManifest \<Rightarrow> TaskSpec \<Rightarrow> PluginResult \<Rightarrow> bool \<Rightarrow> bool \<Rightarrow>
   pydict list result" where
  "validate_artifacts H wsroot look manifest task r require_expected allow_reserved =
     validate_artifact_declarations H wsroot look manifest (map declaration_of (res_artifacts r))
       (expected_artifacts task) require_expected allow_reserved"

section \<open>One execution\<close>

text \<open>
  \<open>execute\<close>: check the request, run the process (its outcome, result file and workspace are given),
  load the result and check its artifacts. Only a protocol error is turned into a failed result.
\<close>

definition execute ::
  "(bytes \<Rightarrow> string) \<Rightarrow> string list \<Rightarrow> (string \<Rightarrow> ws_file) \<Rightarrow> json_text option \<Rightarrow> ProcessOutcome \<Rightarrow> string \<Rightarrow> string \<Rightarrow>
   PluginManifest \<Rightarrow> TaskSpec \<Rightarrow> bool \<Rightarrow> AdapterExecution result" where
  "execute H wsroot look file outcome started ended manifest task allow_reserved =
     ebind (PluginManifest_validate manifest) (\<lambda>_.
     ebind (TaskSpec_validate task) (\<lambda>_.
     ebind (echeck (\<not> py_eq (plugin_id task) (man_plugin_id manifest)) (ValueError ''task targets another plugin'')) (\<lambda>_.
     case ebind (load_result file outcome started ended) (\<lambda>r.
          ebind (validate_artifacts H wsroot look manifest task r (res_status r = SUCCEEDED) allow_reserved) (\<lambda>as.
          Inr (r, as))) of
       Inl (AdapterProtocolError msg) \<Rightarrow>
         Inr \<lparr> ex_result = protocol_failure started ended (returncode outcome) msg, ex_outcome = outcome,
               ex_artifacts = [] \<rparr>
     | Inl e \<Rightarrow> Inl e
     | Inr (r, as) \<Rightarrow> Inr \<lparr> ex_result = r, ex_outcome = outcome, ex_artifacts = as \<rparr>)))"

section \<open>What a normalised declaration has passed\<close>

text \<open>A declaration the platform accepts, with the file it stands for.\<close>

definition accepted ::
  "(bytes \<Rightarrow> string) \<Rightarrow> string list \<Rightarrow> (string \<Rightarrow> ws_file) \<Rightarrow> PluginManifest \<Rightarrow> bool \<Rightarrow> string \<times> string \<times> pydict \<Rightarrow> bool" where
  "accepted H wsroot look manifest allow x \<longleftrightarrow>
     (\<exists>declared b. validate_relative_path ''artifact path'' (PStr declared) = Inr () \<and>
        prefix wsroot (wf_path (look declared)) \<and> wf_hashed (look declared) = Some b \<and>
        fst x = key_of wsroot (wf_path (look declared)) \<and>
        dget (snd (snd x)) ''store_key'' = Some (PStr (fst x)) \<and> dget (snd (snd x)) ''sha256'' = Some (PStr (H b)) \<and>
        dget (snd (snd x)) ''size_bytes'' = Some (PInt (int (length b)))) \<and>
     dget (snd (snd x)) ''kind'' = Some (PStr (fst (snd x))) \<and> IDENTIFIER (fst (snd x)) \<and>
     (allow \<or> fst (snd x) \<notin> set RESERVED_ARTIFACT_KINDS) \<and>
     (allow \<or> allowed_kinds manifest = [] \<or> PStr (fst (snd x)) \<in> set (allowed_kinds manifest))"

lemma normalize_one_accepted:
  assumes "normalize_one H wsroot look manifest allow seen item = Inr x"
  shows "accepted H wsroot look manifest allow x \<and> fst x \<notin> set seen"
proof -
  have kp: "is_str (dgetN item ''kind'')" "is_str (dgetN item ''path'')"
    using assms by (auto simp: normalize_one_def Let_def split: if_splits)
  then obtain k p where k: "dgetN item ''kind'' = PStr k" "dgetN item ''path'' = PStr p" by (auto simp: is_str_iff)
  then show ?thesis
    using assms by (auto simp: normalize_one_def accepted_def Let_def ebind_Inr_iff ArtifactDeclaration_validate_Inr is_str_def
      split: if_splits sum.splits option.splits)
qed

lemma normalize_loop_accepted:
  assumes "normalize_loop H wsroot look manifest allow seen ds = Inr xs"
  shows "list_all (accepted H wsroot look manifest allow) xs \<and> distinct (map fst xs) \<and> set (map fst xs) \<inter> set seen = {}"
  using assms
proof (induction ds arbitrary: seen xs)
  case (Cons item rest)
  then obtain x xs' where x: "normalize_one H wsroot look manifest allow seen item = Inr x"
    "normalize_loop H wsroot look manifest allow (fst x # seen) rest = Inr xs'" "xs = x # xs'"
    by (auto simp: ebind_Inr_iff)
  show ?case using Cons.IH [OF x(2)] normalize_one_accepted [OF x(1)] x(3) by auto
qed simp

lemma validate_declarations_Inr:
  assumes "validate_artifact_declarations H wsroot look manifest ds expected req allow = Inr as"
  obtains xs where "as = map (\<lambda>x. snd (snd x)) xs" "list_all (accepted H wsroot look manifest allow) xs"
    "distinct (map fst xs)"
    "req \<Longrightarrow> set (required_kinds expected manifest) \<subseteq> (\<lambda>x. PStr (fst (snd x))) ` set xs"
proof -
  obtain xs where xs: "normalize_loop H wsroot look manifest allow [] ds = Inr xs" "as = map (\<lambda>x. snd (snd x)) xs"
    "req \<Longrightarrow> set (required_kinds expected manifest) \<subseteq> (\<lambda>x. PStr (fst (snd x))) ` set xs"
    using assms
    by (auto simp: validate_artifact_declarations_def ebind_Inr_iff Let_def filter_empty_conv subset_iff split: if_splits)
  show thesis using normalize_loop_accepted [OF xs(1)] xs by (intro that [of xs]) simp_all
qed

lemma execute_cases:
  assumes "execute H wsroot look file outcome started ended manifest task allow = Inr x"
  obtains (failed) msg where "ex_result x = protocol_failure started ended (returncode outcome) msg" "ex_artifacts x = []"
  | (loaded) "load_result file outcome started ended = Inr (ex_result x)"
      "validate_artifacts H wsroot look manifest task (ex_result x) (res_status (ex_result x) = SUCCEEDED) allow =
        Inr (ex_artifacts x)"
proof -
  let ?e = "ebind (load_result file outcome started ended) (\<lambda>r.
      ebind (validate_artifacts H wsroot look manifest task r (res_status r = SUCCEEDED) allow) (\<lambda>as. Inr (r, as)))"
  show thesis
  proof (cases ?e)
    case (Inl e)
    then show thesis using assms failed by (cases e) (auto simp: execute_def ebind_Inr_iff)
  next
    case (Inr y)
    then show thesis using assms loaded by (cases y) (auto simp: execute_def ebind_Inr_iff)
  qed
qed

lemma load_result_succeeded:
  assumes "load_result file outcome started ended = Inr r" "res_status r = SUCCEEDED"
  shows "returncode outcome = 0 \<and> \<not> cancelled outcome \<and> \<not> timed_out outcome \<and> exceeded outcome = None \<and>
    (\<exists>v. file = Some (JsonText v) \<and> PluginResult_from_dict v = Inr r)"
  using assms
  by (auto simp: load_result_def plugin_result_def split: if_splits option.splits json_text.splits sum.splits)

section \<open>Properties\<close>

text \<open>C12: A plugin cannot lie about success. An execution is recorded as succeeded only if the process exited
  with code 0, was neither cancelled, nor timed out, nor over its limits, left a valid result file that
  claims success, and produced a file for every kind the task expects and the manifest requires.\<close>

theorem success_is_earned:
  assumes "execute H wsroot look file outcome started ended manifest task allow = Inr x"
    and "res_status (ex_result x) = SUCCEEDED"
  shows "returncode outcome = 0 \<and> \<not> cancelled outcome \<and> \<not> timed_out outcome \<and> exceeded outcome = None \<and>
    (\<exists>v. file = Some (JsonText v) \<and> PluginResult_from_dict v = Inr (ex_result x)) \<and>
    list_all (\<lambda>k. list_ex (\<lambda>a. dget a ''kind'' = Some k) (ex_artifacts x)) (required_kinds (expected_artifacts task) manifest)"
  using assms(1)
proof (cases rule: execute_cases)
  case failed
  then show ?thesis using assms(2) by (simp add: protocol_failure_def plugin_result_def)
next
  case loaded
  have v: "validate_artifact_declarations H wsroot look manifest (map declaration_of (res_artifacts (ex_result x)))
      (expected_artifacts task) True allow = Inr (ex_artifacts x)"
    using loaded(2) assms(2) by (simp add: validate_artifacts_def)
  obtain xs where xs: "ex_artifacts x = map (\<lambda>x. snd (snd x)) xs" "list_all (accepted H wsroot look manifest allow) xs"
    "set (required_kinds (expected_artifacts task) manifest) \<subseteq> (\<lambda>x. PStr (fst (snd x))) ` set xs"
    by (rule validate_declarations_Inr [OF v]) simp
  have "list_ex (\<lambda>a. dget a ''kind'' = Some k) (ex_artifacts x)"
    if k: "k \<in> set (required_kinds (expected_artifacts task) manifest)" for k
  proof -
    obtain y where "y \<in> set xs" "k = PStr (fst (snd y))" using xs(3) k by auto
    moreover have "dget (snd (snd y)) ''kind'' = Some (PStr (fst (snd y)))"
      using xs(2) \<open>y \<in> set xs\<close> by (simp add: list_all_iff accepted_def)
    ultimately show ?thesis using xs(1) by (auto simp: list_ex_iff)
  qed
  moreover have "returncode outcome = 0 \<and> \<not> cancelled outcome \<and> \<not> timed_out outcome \<and> exceeded outcome = None \<and>
    (\<exists>v. file = Some (JsonText v) \<and> PluginResult_from_dict v = Inr (ex_result x))"
    by (rule load_result_succeeded [OF loaded(1) assms(2)])
  ultimately show ?thesis by (simp add: list_all_iff)
qed

text \<open>C13: What a plugin declares stays in its workspace and its mandate. Every artifact of an execution is an
  existing file inside the attempt workspace, with the digest and size of its bytes, of a kind that is
  not reserved for the platform and that the manifest allows; no file is declared twice.\<close>

theorem declared_artifacts_contained:
  assumes "execute H wsroot look file outcome started ended manifest task False = Inr x"
  shows "\<exists>xs. ex_artifacts x = map (\<lambda>x. snd (snd x)) xs \<and> list_all (accepted H wsroot look manifest False) xs \<and>
    distinct (map fst xs)"
  using assms
proof (cases rule: execute_cases)
  case loaded
  show ?thesis
    by (rule validate_declarations_Inr [OF loaded(2) [unfolded validate_artifacts_def]]) blast
qed simp

text \<open>The platform, not the plugin, decides how a stopped process ends: after a cancellation, a missed
  deadline or an exceeded limit the result file is not read, whatever it says.\<close>

theorem stopped_process_has_no_say:
  assumes "cancelled outcome \<or> timed_out outcome \<or> exceeded outcome \<noteq> None"
  shows "execute H wsroot look file outcome started ended manifest task allow =
    execute H wsroot look file' outcome started ended manifest task allow"
proof -
  have "load_result file outcome started ended = load_result file' outcome started ended"
    using assms by (auto simp: load_result_def split: option.splits)
  then show ?thesis by (simp add: execute_def)
qed

section \<open>Sample executions\<close>

definition clean_exit :: ProcessOutcome where
  "clean_exit = \<lparr> returncode = 0, timed_out = False, cancelled = False, exceeded = None,
     oc_cpu_seconds = PNone, oc_peak_memory = PNone, oc_peak_processes = PNone \<rparr>"

definition report_manifest :: PluginManifest where
  "report_manifest = \<lparr> man_plugin_id = PStr ''plug'', man_plugin_version = PStr ''1'', adapter_entry = [PStr ''run''],
     capabilities = [PStr ''c''], supported_arch = [PStr ''x''], default_timeout_seconds = PInt 60,
     artifact_rules = [PDict [(PStr ''kind'', PStr ''report''), (PStr ''required'', PBool True)]],
     environment = PDict [], toolkit = PDict [], requirements = RuntimeRequirements_of [],
     progress_marker = PStr ''@'', man_schema_version = PInt SCHEMA_VERSION \<rparr>"

definition report_task :: TaskSpec where
  "report_task = TaskSpec_of [(PStr ''task_id'', PStr ''t''), (PStr ''project_id'', PStr ''p''),
     (PStr ''design_id'', PStr ''d''), (PStr ''plugin_id'', PStr ''plug'')] [] [] None"

text \<open>A result file that claims success and declares one report.\<close>

definition report_result :: "pyval \<Rightarrow> pyval" where
  "report_result ms = PDict
     [ (PStr ''schema_version'', PInt SCHEMA_VERSION), (PStr ''status'', PStr ''succeeded''), (PStr ''exit_code'', PInt 0),
       (PStr ''started_at'', PStr ''s''), (PStr ''ended_at'', PStr ''e''), (PStr ''metrics'', ms),
       (PStr ''artifacts'', PList [PDict [(PStr ''kind'', PStr ''report''), (PStr ''path'', PStr ''out/r.txt'')]]) ]"

definition report_look :: "bytes \<Rightarrow> string \<Rightarrow> ws_file" where
  "report_look b p = \<lparr> wf_path = ''ws'' # split_on (CHR ''/'') p, wf_hashed = Some b, wf_copied = b \<rparr>"

definition sample_execution :: "bytes \<Rightarrow> pyval \<Rightarrow> AdapterExecution result" where
  "sample_execution b ms = execute toy_digest [''ws''] (report_look b) (Some (JsonText (report_result ms)))
     clean_exit ''s'' ''e'' report_manifest report_task False"

lemma sample_execution_ok:
  "execute toy_digest [''ws''] (report_look ''hi'') (Some (JsonText (report_result (PList [])))) clean_exit ''s'' ''e''
     report_manifest report_task False = Inr (projr (sample_execution ''hi'' (PList [])))"
proof -
  have "ok (sample_execution ''hi'' (PList []))" by code_simp
  then show ?thesis by (auto simp: ok_iff sample_execution_def)
qed

theorem success_is_earned_witness:
  "list_ex (\<lambda>a. dget a ''kind'' = Some (PStr ''report'')) (ex_artifacts (projr (sample_execution ''hi'' (PList []))))"
proof -
  have "res_status (ex_result (projr (sample_execution ''hi'' (PList [])))) = SUCCEEDED"
    "required_kinds (expected_artifacts report_task) report_manifest = [PStr ''report'']" by code_simp+
  then show ?thesis using success_is_earned [OF sample_execution_ok] by simp
qed

theorem declared_artifacts_contained_witness:
  "\<exists>xs. ex_artifacts (projr (sample_execution ''hi'' (PList []))) = map (\<lambda>x. snd (snd x)) xs \<and>
     list_all (accepted toy_digest [''ws''] (report_look ''hi'') report_manifest False) xs \<and> distinct (map fst xs)"
  by (rule declared_artifacts_contained [OF sample_execution_ok])

theorem stopped_process_has_no_say_witness:
  "execute toy_digest [''ws''] (report_look ''hi'') (Some JsonGarbage) (clean_exit\<lparr> timed_out := True \<rparr>) ''s'' ''e''
     report_manifest report_task False =
   execute toy_digest [''ws''] (report_look ''hi'') None (clean_exit\<lparr> timed_out := True \<rparr>) ''s'' ''e''
     report_manifest report_task False"
  by (rule stopped_process_has_no_say) simp

section \<open>Departures from the documented protocol\<close>

text \<open>A defect: a result file whose \<open>metrics\<close> is \<open>null\<close> is a broken result, but loading it raises
  \<open>TypeError\<close>, which \<open>_load_result\<close> does not turn into a protocol error; the execution raises instead of
  yielding a failed result of category \<open>protocol_error\<close>, while text that is no JSON at all is reported
  as one.\<close>

theorem null_metrics_escape_protocol:
  "sample_execution ''hi'' PNone = Inl TypeError \<and>
   map_option ex_result (case execute toy_digest [''ws''] (report_look ''hi'') (Some JsonGarbage) clean_exit ''s'' ''e''
       report_manifest report_task False of Inl _ \<Rightarrow> None | Inr x \<Rightarrow> Some x) =
     Some (protocol_failure ''s'' ''e'' 0 ''invalid result'')"
proof
  have "(case sample_execution ''hi'' PNone of Inl e \<Rightarrow> e = TypeError | Inr _ \<Rightarrow> False)" by code_simp
  then show "sample_execution ''hi'' PNone = Inl TypeError" by (auto split: sum.splits)
qed code_simp

text \<open>A divergence: the module promises that a required artifact is present and non-empty; an empty
  file is accepted as the required artifact of a successful execution.\<close>

theorem empty_required_artifact_accepted:
  "case sample_execution [] (PList []) of
     Inl _ \<Rightarrow> False
   | Inr x \<Rightarrow> res_status (ex_result x) = SUCCEEDED \<and>
       map (\<lambda>a. (dget a ''kind'', dget a ''size_bytes'')) (ex_artifacts x) = [(Some (PStr ''report''), Some (PInt 0))]"
  by code_simp

end
