(* ===== verification/Json.thy ===== *)
theory Json
  imports PyValue
begin

text \<open>
  The text \<open>json.dumps\<close> writes for the documents the runtime hashes: the compact form with
  \<open>separators=(",", ":")\<close>, whose digest identifies a run's inputs, and the form with \<open>indent=2\<close> of the
  input manifest file. Documents are built with their keys in order (\<open>sort_keys=True\<close>) and hold no
  floats. The compact form determines the document.
\<close>

section \<open>Documents and their text\<close>

datatype jval =
    JNull
  | JBool bool
  | JInt int
  | JStr string
  | JArr "jval list"
  | JObj "(string \<times> jval) list"

definition hex_digit :: "nat \<Rightarrow> char" where
  "hex_digit d = (if d < 10 then char_of (48 + d) else char_of (87 + d))"

text \<open>The escapes of \<open>ensure_ascii\<close>: a short form for seven characters, \<open>u00xx\<close> outside printable ASCII.\<close>

definition short_escapes :: "(nat \<times> char) list" where
  "short_escapes = [(34, CHR 0x22), (92, CHR 0x5C), (10, CHR ''n''), (13, CHR ''r''), (9, CHR ''t''),
     (12, CHR ''f''), (8, CHR ''b'')]"

definition json_escape :: "char \<Rightarrow> string" where
  "json_escape c =
     (let n = (of_char c :: nat) in
      case map_of short_escapes n of
        Some e \<Rightarrow> [CHR 0x5C, e]
      | None \<Rightarrow>
          if 32 \<le> n \<and> n \<le> 126 then [c]
          else [CHR 0x5C, CHR ''u'', CHR ''0'', CHR ''0'', hex_digit (n div 16), hex_digit (n mod 16)])"

definition json_string :: "string \<Rightarrow> string" where
  "json_string s = CHR 0x22 # concat (map json_escape s) @ [CHR 0x22]"

fun dumps :: "jval \<Rightarrow> string"
  and dumps_items :: "jval list \<Rightarrow> string"
  and dumps_fields :: "(string \<times> jval) list \<Rightarrow> string" where
  "dumps JNull = ''null''"
| "dumps (JBool b) = (if b then ''true'' else ''false'')"
| "dumps (JInt n) = int_str n"
| "dumps (JStr s) = json_string s"
| "dumps (JArr []) = ''[]''"
| "dumps (JArr (x # xs)) = CHR ''['' # dumps x @ dumps_items xs"
| "dumps (JObj []) = ''{}''"
| "dumps (JObj ((k, v) # d)) = CHR ''{'' # json_string k @ CHR '':'' # dumps v @ dumps_fields d"
| "dumps_items [] = '']''"
| "dumps_items (x # xs) = CHR '','' # dumps x @ dumps_items xs"
| "dumps_fields [] = ''}''"
| "dumps_fields ((k, v) # d) = CHR '','' # json_string k @ CHR '':'' # dumps v @ dumps_fields d"

text \<open>\<open>indent=2\<close>: every element on a line of its own, indented by its depth.\<close>

definition newline :: "nat \<Rightarrow> string" where
  "newline depth = CHR 0x0A # replicate (2 * depth) (CHR '' '')"

fun dumps_indent :: "nat \<Rightarrow> jval \<Rightarrow> string"
  and indent_items :: "nat \<Rightarrow> jval list \<Rightarrow> string"
  and indent_fields :: "nat \<Rightarrow> (string \<times> jval) list \<Rightarrow> string" where
  "dumps_indent n JNull = ''null''"
| "dumps_indent n (JBool b) = (if b then ''true'' else ''false'')"
| "dumps_indent n (JInt i) = int_str i"
| "dumps_indent n (JStr s) = json_string s"
| "dumps_indent n (JArr []) = ''[]''"
| "dumps_indent n (JArr (x # xs)) =
     CHR ''['' # newline (Suc n) @ dumps_indent (Suc n) x @ indent_items n xs"
| "dumps_indent n (JObj []) = ''{}''"
| "dumps_indent n (JObj ((k, v) # d)) =
     CHR ''{'' # newline (Suc n) @ json_string k @ '': '' @ dumps_indent (Suc n) v @ indent_fields n d"
| "indent_items n [] = newline n @ '']''"
| "indent_items n (x # xs) = CHR '','' # newline (Suc n) @ dumps_indent (Suc n) x @ indent_items n xs"
| "indent_fields n [] = newline n @ ''}''"
| "indent_fields n ((k, v) # d) =
     CHR '','' # newline (Suc n) @ json_string k @ '': '' @ dumps_indent (Suc n) v @ indent_fields n d"

section \<open>The compact text determines the document\<close>

text \<open>Numbers: reading the digits back.\<close>

definition digits_value :: "string \<Rightarrow> nat" where
  "digits_value s = foldl (\<lambda>a c. 10 * a + (of_char c - 48)) 0 s"

lemma digits_value_nat_str: "digits_value (nat_str n) = n"
proof (induction n rule: nat_str.induct)
  case (1 n)
  show ?case
  proof (cases "n < 10")
    case True
    then show ?thesis by (subst nat_str.simps) (simp add: digits_value_def of_char_of)
  next
    case False
    then show ?thesis using 1 by (subst nat_str.simps) (simp add: digits_value_def of_char_of)
  qed
qed

definition is_digit :: "char \<Rightarrow> bool" where
  "is_digit c = (48 \<le> (of_char c :: nat) \<and> (of_char c :: nat) \<le> 57)"

lemma nat_str_digits: "c \<in> set (nat_str n) \<Longrightarrow> is_digit c"
proof (induction n rule: nat_str.induct)
  case (1 n)
  show ?case using 1 by (subst (asm) (2) nat_str.simps)
    (auto simp: is_digit_def of_char_of split: if_splits)
qed

lemma nat_str_nonempty [simp]: "nat_str n \<noteq> []"
  by (subst nat_str.simps) simp

lemma int_str_inj: "int_str m = int_str n \<Longrightarrow> m = n"
proof -
  have dash: "nat_str k \<noteq> CHR ''-'' # xs" for k xs
    using nat_str_digits [of "CHR ''-''" k] by (auto simp: is_digit_def)
  assume "int_str m = int_str n"
  then have "(m < 0 \<longleftrightarrow> n < 0) \<and> nat_str (nat \<bar>m\<bar>) = nat_str (nat \<bar>n\<bar>)"
    using dash dash [symmetric] by (auto simp: int_str_def split: if_splits)
  then show ?thesis using digits_value_nat_str by (metis abs_ge_zero abs_of_neg abs_of_nonneg eq_nat_nat_iff linorder_not_less minus_minus)
qed

text \<open>
  A number ends where the digits end. What may follow a value inside a document is a comma or a
  closing bracket.
\<close>

definition stops :: "string \<Rightarrow> bool" where
  "stops r = (case r of [] \<Rightarrow> True | c # _ \<Rightarrow> c \<in> set '',]}'')"

definition num_char :: "char \<Rightarrow> bool" where
  "num_char c = (is_digit c \<or> c = CHR ''-'')"

lemma int_str_chars: "c \<in> set (int_str n) \<Longrightarrow> num_char c"
  using nat_str_digits by (auto simp: int_str_def num_char_def split: if_splits)

lemma int_str_Cons: "\<exists>c cs. int_str n = c # cs \<and> num_char c"
proof -
  have "int_str n \<noteq> []" by (simp add: int_str_def)
  then obtain c cs where "int_str n = c # cs" by (auto simp: neq_Nil_conv)
  moreover from this have "num_char c" using int_str_chars [of c n] by simp
  ultimately show ?thesis by blast
qed

lemma stops_takeWhile: "stops r \<Longrightarrow> takeWhile num_char r = []"
  by (cases r) (auto simp: stops_def num_char_def is_digit_def)

lemma takeWhile_int_str:
  assumes "stops r"
  shows "takeWhile num_char (int_str n @ r) = int_str n"
proof -
  have "takeWhile num_char (int_str n @ r) = int_str n @ takeWhile num_char r"
    by (rule takeWhile_append2) (rule int_str_chars)
  then show ?thesis using stops_takeWhile [OF assms] by simp
qed

lemma int_str_split:
  assumes "int_str m @ r = int_str n @ q" "stops r" "stops q"
  shows "m = n \<and> r = q"
proof -
  have "int_str m = int_str n"
    using takeWhile_int_str [OF assms(2)] takeWhile_int_str [OF assms(3)] assms(1) by metis
  then show ?thesis using int_str_inj assms(1) by auto
qed

text \<open>
  A code is a prefix code when no code word is the beginning of another; then a text of code words
  closed by a character that begins none of them can be read back.
\<close>

locale prefix_code =
  fixes enc :: "'a \<Rightarrow> string" and stop :: char
  assumes enc_split: "enc x @ r = enc y @ q \<Longrightarrow> x = y \<and> r = q"
    and enc_start: "\<exists>c cs. enc x = c # cs \<and> c \<noteq> stop"
begin

lemma enc_stop: "enc x @ r \<noteq> stop # q"
  using enc_start [of x] by auto

lemma text_split:
  "concat (map enc xs) @ stop # r = concat (map enc ys) @ stop # q \<Longrightarrow> xs = ys \<and> r = q"
proof (induction xs arbitrary: ys)
  case Nil
  then show ?case using enc_stop [symmetric] by (cases ys) auto
next
  case (Cons x xs)
  then obtain y ys' where ys: "ys = y # ys'" using enc_stop by (cases ys) auto
  have "x = y \<and> concat (map enc xs) @ stop # r = concat (map enc ys') @ stop # q"
    using enc_split [of x _ y] Cons.prems ys by simp
  then show ?case using Cons.IH [of ys'] ys by simp
qed

end

lemma hex_digit_inj:
  assumes "hex_digit a = hex_digit b" "a < 16" "b < 16"
  shows "a = b"
proof -
  have h: "(of_char (hex_digit n) :: nat) = (if n < 10 then 48 + n else 87 + n)" if "n < 16" for n
    using that by (simp add: hex_digit_def of_char_of take_bit_eq_mod)
  have "(if a < 10 then 48 + a else 87 + a) = (if b < 10 then 48 + b else 87 + b)"
    using h [OF assms(2)] h [OF assms(3)] assms(1) by metis
  then show ?thesis using assms(2,3) by (simp split: if_splits)
qed

lemma hex_pair_inj:
  assumes "hex_digit (x div 16) = hex_digit (y div 16)" "hex_digit (x mod 16) = hex_digit (y mod 16)"
    "x < 256" "y < (256 :: nat)"
  shows "x = y"
proof -
  have "x div 16 = y div 16" "x mod 16 = y mod 16"
    using assms by (auto intro!: hex_digit_inj)
  then show ?thesis by (metis div_mult_mod_eq)
qed

lemma short_escapes_inj:
  "map_of short_escapes m = Some e \<Longrightarrow> map_of short_escapes n = Some e \<Longrightarrow> m = n"
  "map_of short_escapes m = Some e \<Longrightarrow> e \<noteq> CHR ''u''"
  "map_of short_escapes 92 \<noteq> None" "map_of short_escapes 34 \<noteq> None"
  by (auto simp: short_escapes_def split: if_splits)

lemma json_escape_cases:
  obtains (short) e where "map_of short_escapes (of_char c) = Some e" "json_escape c = [CHR 0x5C, e]"
  | (plain) "json_escape c = [c]" "c \<noteq> CHR 0x5C" "c \<noteq> CHR 0x22"
  | (hex) "json_escape c = [CHR 0x5C, CHR ''u'', CHR ''0'', CHR ''0'',
      hex_digit (of_char c div 16), hex_digit (of_char c mod 16)]"
proof (cases "map_of short_escapes (of_char c)")
  case (Some e)
  then show thesis using short by (simp add: json_escape_def)
next
  case None
  then have "c \<noteq> CHR 0x5C" "c \<noteq> CHR 0x22" using short_escapes_inj(3,4) by auto
  then show thesis using None plain hex
    by (cases "32 \<le> (of_char c :: nat) \<and> (of_char c :: nat) \<le> 126") (simp_all add: json_escape_def Let_def)
qed

lemma json_escape_split:
  assumes "json_escape c @ r = json_escape d @ q"
  shows "c = d \<and> r = q"
proof -
  have n: "(of_char c :: nat) < 256" "(of_char d :: nat) < 256" by simp_all
  show ?thesis
  proof (cases c rule: json_escape_cases)
    case (short e)
    then show ?thesis using assms short_escapes_inj(1,2)
      by (cases d rule: json_escape_cases) (auto, metis of_char_eq_iff)
  next
    case plain
    then show ?thesis using assms by (cases d rule: json_escape_cases) auto
  next
    case hex
    then show ?thesis using assms short_escapes_inj(2) hex_pair_inj [OF _ _ n]
      by (cases d rule: json_escape_cases) auto
  qed
qed

lemma json_escape_start: "\<exists>x xs. json_escape c = x # xs \<and> x \<noteq> CHR 0x22"
  by (cases c rule: json_escape_cases) auto

interpretation escapes: prefix_code json_escape "CHR 0x22"
  using json_escape_split json_escape_start by unfold_locales

lemma json_string_split:
  "json_string s @ r = json_string t @ q \<Longrightarrow> s = t \<and> r = q"
  using escapes.text_split [of s r t q] by (simp add: json_string_def)

text \<open>What follows a value inside an array or an object stops it.\<close>

lemma stops_rest [simp]: "stops (dumps_items xs @ r)" "stops (dumps_fields d @ r)"
  by (cases xs; simp add: stops_def) (cases d; auto simp: stops_def)

text \<open>The first character of a text tells what kind of value it is.\<close>

definition kind_char :: "jval \<Rightarrow> char \<Rightarrow> bool" where
  "kind_char v c =
     (case v of JNull \<Rightarrow> c = CHR ''n'' | JBool b \<Rightarrow> c = (if b then CHR ''t'' else CHR ''f'')
      | JInt _ \<Rightarrow> num_char c | JStr _ \<Rightarrow> c = CHR 0x22 | JArr _ \<Rightarrow> c = CHR ''['' | JObj _ \<Rightarrow> c = CHR ''{'')"

lemma dumps_start: "\<exists>c cs. dumps v = c # cs \<and> kind_char v c"
  using int_str_Cons
  by (cases v rule: dumps.cases) (auto simp: kind_char_def json_string_def split: if_splits)

lemma num_char_not [simp]:
  "\<not> num_char (CHR ''n'')" "\<not> num_char (CHR ''t'')" "\<not> num_char (CHR ''f'')" "\<not> num_char (CHR 0x22)"
  "\<not> num_char (CHR ''['')" "\<not> num_char (CHR ''{'')" "\<not> num_char (CHR '']'')" "\<not> num_char (CHR ''}'')"
  by (simp_all add: num_char_def is_digit_def)

fun same_kind :: "jval \<Rightarrow> jval \<Rightarrow> bool" where
  "same_kind JNull w = (w = JNull)"
| "same_kind (JBool b) w = (w = JBool b)"
| "same_kind (JInt _) w = (\<exists>n. w = JInt n)"
| "same_kind (JStr _) w = (\<exists>s. w = JStr s)"
| "same_kind (JArr _) w = (\<exists>xs. w = JArr xs)"
| "same_kind (JObj _) w = (\<exists>d. w = JObj d)"

lemma same_kindI: "kind_char v c \<Longrightarrow> kind_char w c \<Longrightarrow> same_kind v w"
  by (cases v; cases w) (auto simp: kind_char_def split: if_splits)

lemma dumps_same_kind:
  assumes "dumps v @ r = dumps w @ q"
  shows "same_kind v w"
proof -
  obtain c cs d ds where "dumps v = c # cs" "kind_char v c" "dumps w = d # ds" "kind_char w d"
    using dumps_start by metis
  then show ?thesis using assms same_kindI by auto
qed

lemma dumps_not_close: "dumps v @ r \<noteq> CHR '']'' # q" "dumps v @ r \<noteq> CHR ''}'' # q"
  using dumps_start [of v] by (cases v; auto simp: kind_char_def split: if_splits)+

lemma dumps_split:
  "dumps v @ r = dumps w @ q \<Longrightarrow> stops r \<Longrightarrow> stops q \<Longrightarrow> v = w \<and> r = q"
  "dumps_items xs @ r = dumps_items ys @ q \<Longrightarrow> xs = ys \<and> r = q"
  "dumps_fields d @ r = dumps_fields e @ q \<Longrightarrow> d = e \<and> r = q"
proof (induction v and xs and d arbitrary: w r q and ys r q and e r q rule: dumps_dumps_items_dumps_fields.induct)
  case 1
  from dumps_same_kind [OF "1.prems"(1)] have w: "w = JNull" by simp
  then show ?case using "1.prems"(1) by simp
next
  case (2 b)
  from dumps_same_kind [OF "2.prems"(1)] have w: "w = JBool b" by simp
  then show ?case using "2.prems"(1) by simp
next
  case (3 n)
  from dumps_same_kind [OF "3.prems"(1)] obtain m where w: "w = JInt m" by auto
  then show ?case using "3.prems" int_str_split [of n r m q] by simp
next
  case (4 s)
  from dumps_same_kind [OF "4.prems"(1)] obtain t where w: "w = JStr t" by auto
  then show ?case using "4.prems"(1) json_string_split [of s r t q] by simp
next
  case 5
  from dumps_same_kind [OF "5.prems"(1)] obtain ys where w: "w = JArr ys" by auto
  show ?case
  proof (cases ys)
    case Nil
    then show ?thesis using "5.prems"(1) w by simp
  next
    case (Cons y ys')
    then have "dumps y @ (dumps_items ys' @ q) = CHR '']'' # r" using "5.prems"(1) w by simp
    then show ?thesis using dumps_not_close(1) by blast
  qed
next
  case (6 x xs)
  from dumps_same_kind [OF "6.prems"(1)] obtain ys where w: "w = JArr ys" by auto
  have "ys \<noteq> []"
  proof
    assume "ys = []"
    then have "dumps x @ (dumps_items xs @ r) = CHR '']'' # q" using "6.prems"(1) w by simp
    then show False using dumps_not_close(1) by blast
  qed
  then obtain y ys' where ys: "ys = y # ys'" by (cases ys) auto
  have "dumps x @ (dumps_items xs @ r) = dumps y @ (dumps_items ys' @ q)" using "6.prems"(1) w ys by simp
  then have "x = y \<and> dumps_items xs @ r = dumps_items ys' @ q" by (rule "6.IH"(1)) simp_all
  then show ?case using "6.IH"(2) w ys by blast
next
  case 7
  from dumps_same_kind [OF "7.prems"(1)] obtain e where w: "w = JObj e" by auto
  then show ?case using "7.prems"(1) by (cases e) (auto simp: json_string_def)
next
  case (8 k v d)
  from dumps_same_kind [OF "8.prems"(1)] obtain e where w: "w = JObj e" by auto
  then obtain k' v' e' where e: "e = (k', v') # e'" using "8.prems"(1) by (cases e) (auto simp: json_string_def)
  have "json_string k @ (CHR '':'' # dumps v @ dumps_fields d @ r) =
      json_string k' @ (CHR '':'' # dumps v' @ dumps_fields e' @ q)" using "8.prems"(1) w e by simp
  then have "k = k'" "dumps v @ (dumps_fields d @ r) = dumps v' @ (dumps_fields e' @ q)"
    using json_string_split by blast+
  moreover from "8.IH"(1) [OF this(2)] have "v = v' \<and> dumps_fields d @ r = dumps_fields e' @ q" by simp
  ultimately show ?case using "8.IH"(2) w e by blast
next
  case 9
  then show ?case by (cases ys) auto
next
  case (10 x xs)
  from "10.prems" obtain y ys' where ys: "ys = y # ys'" by (cases ys) auto
  have "dumps x @ (dumps_items xs @ r) = dumps y @ (dumps_items ys' @ q)" using "10.prems"(1) ys by simp
  then have "x = y \<and> dumps_items xs @ r = dumps_items ys' @ q" by (rule "10.IH"(1)) simp_all
  then show ?case using "10.IH"(2) ys by blast
next
  case 11
  then show ?case by (cases e) auto
next
  case (12 k v d)
  from "12.prems" obtain k' v' e' where e: "e = (k', v') # e'" by (cases e) auto
  have "json_string k @ (CHR '':'' # dumps v @ dumps_fields d @ r) =
      json_string k' @ (CHR '':'' # dumps v' @ dumps_fields e' @ q)" using "12.prems"(1) e by simp
  then have "k = k'" "dumps v @ (dumps_fields d @ r) = dumps v' @ (dumps_fields e' @ q)"
    using json_string_split by blast+
  moreover from "12.IH"(1) [OF this(2)] have "v = v' \<and> dumps_fields d @ r = dumps_fields e' @ q" by simp
  ultimately show ?case using "12.IH"(2) e by blast
qed

text \<open>Different documents have different texts, so a digest of the text identifies the document.\<close>

lemma dumps_inj: "dumps v = dumps w \<Longrightarrow> v = w"
  using dumps_split(1) [of v "[]" w "[]"] by (simp add: stops_def)

end
