(* ===== verification/Staging.thy ===== *)
theory Staging
  imports Custody Capacity Json
begin

text \<open>
  The submission and staging half of \<open>WorkflowRuntime\<close>
  (\<open>core/runtime/src/openroad_platform_runtime/runtime.py\<close>): which inputs a task may name, how host
  files are frozen into the object store when a task is submitted, the digest that identifies a run's
  inputs, and how an attempt workspace is filled and checked against that digest.

  The file system outside the object store is a record of functions: what \<open>Path.resolve\<close> and
  \<open>is_file\<close> say, and the bytes of a file when it is hashed and when it is copied. The attempt
  workspace is explicit: the files under it by path.
\<close>

section \<open>The file systems\<close>

record world =
  host_path :: "string \<Rightarrow> string"
  host_file :: "string \<Rightarrow> bytes option"
  host_copied :: "string \<Rightarrow> bytes"
  resolve :: "string \<Rightarrow> string list"
  resolve_in :: "string \<Rightarrow> string \<Rightarrow> string list"
  disk :: "string list \<Rightarrow> bytes option"

type_synonym workspace = "(string list \<times> bytes) list"

text \<open>
  \<open>destination.parent.mkdir(parents=True, exist_ok=True)\<close> and a copy to \<open>destination\<close>: refused by the
  operating system when a parent is a file or the destination is a directory.
\<close>

definition write_file :: "string list \<Rightarrow> bytes \<Rightarrow> workspace \<Rightarrow> workspace result" where
  "write_file p b ws =
     (if p = [] \<or> list_ex (\<lambda>(q, _). strict_prefix q p \<or> strict_prefix p q) ws then Inl OSError
      else Inr ((p, b) # filter (\<lambda>(q, _). q \<noteq> p) ws))"

text \<open>\<open>workspace / destination\<close>, relative to the workspace.\<close>

definition dest_path :: "pyval \<Rightarrow> string list" where
  "dest_path destination = resolve_from [] (py_str destination)"

text \<open>\<open>_within\<close>: \<open>Path.relative_to\<close> on resolved absolute paths.\<close>

definition path_parts :: "string \<Rightarrow> string list" where
  "path_parts p = filter (\<lambda>c. c \<noteq> []) (split_on (CHR ''/'') p)"

definition path_within :: "string \<Rightarrow> string \<Rightarrow> bool" where
  "path_within path parent = prefix (path_parts parent) (path_parts path)"

section \<open>Submission\<close>

definition translate :: "'a result \<Rightarrow> pyexn \<Rightarrow> 'a result" where
  "translate r e' = (case r of Inl e \<Rightarrow> Inl (if is_RuntimeStoreError e then e' else e) | Inr x \<Rightarrow> Inr x)"

definition check_input :: "world \<Rightarrow> string list \<Rightarrow> store \<Rightarrow> InputFile \<Rightarrow> unit result" where
  "check_input w allowed_input_roots s d =
     (if in_input_id d \<noteq> PNone then
        translate (ebind (get_uploaded_input (py_str (in_input_id d)) s) (\<lambda>_. Inr ()))
          (InputStagingError ''input references an uploaded input the platform does not have'')
      else if in_artifact_id d \<noteq> PNone then
        translate (ebind (get_artifact (py_str (in_artifact_id d)) s) (\<lambda>_. Inr ()))
          (InputStagingError ''input references an artifact the platform does not have'')
      else
        let source = host_path w (py_str (in_source d)) in eall
          [ echeck (allowed_input_roots \<noteq> [] \<and> \<not> list_ex (path_within source) allowed_input_roots)
              (InputStagingError ''host input is outside configured input roots''),
            echeck (truthy (in_required d) \<and> host_file w source = None)
              (InputStagingError ''required input is not a readable file'') ])"

definition check_inputs :: "world \<Rightarrow> string list \<Rightarrow> store \<Rightarrow> TaskSpec \<Rightarrow> unit result" where
  "check_inputs w allowed_input_roots s task =
     eall (map (check_input w allowed_input_roots s) (staged_inputs task))"

definition host_source_label :: "nat \<Rightarrow> string" where
  "host_source_label i = HOST_SOURCE_LABEL @ nat_str i"

text \<open>
  The loop of \<open>_freeze_host_inputs\<close>: every host file that is there becomes an uploaded input. The
  identifier drawn for the upload of declaration \<open>i\<close> is \<open>new_id i\<close>.
\<close>

fun freeze_loop ::
  "(bytes \<Rightarrow> string) \<Rightarrow> timestamp \<Rightarrow> (nat \<Rightarrow> string) \<Rightarrow> world \<Rightarrow> nat \<Rightarrow> InputFile list \<Rightarrow> pydict \<Rightarrow> bool \<Rightarrow>
   store \<Rightarrow> (InputFile list \<times> pydict \<times> bool) result \<times> store" where
  "freeze_loop H now new_id w i [] lbls changed s = (Inr ([], lbls, changed), s)"
| "freeze_loop H now new_id w i (d # ds) lbls changed s =
     (let source = host_path w (py_str (in_source d)) in
      if in_source d = PNone \<or> host_file w source = None
      then (case freeze_loop H now new_id w (Suc i) ds lbls changed s of
              (Inl e, s1) \<Rightarrow> (Inl e, s1) | (Inr (fs, l, c), s1) \<Rightarrow> (Inr (d # fs, l, c), s1))
      else (case ingest_input_file H now (new_id i) (host_file w source) (host_copied w source) s of
              (Inl e, s1) \<Rightarrow> (Inl e, s1)
            | (Inr u, s1) \<Rightarrow>
                (case freeze_loop H now new_id w (Suc i) ds
                        (dset lbls (PStr (host_source_label i)) (PStr source)) True s1 of
                   (Inl e, s2) \<Rightarrow> (Inl e, s2)
                 | (Inr (fs, l, c), s2) \<Rightarrow>
                     (Inr (\<lparr> in_destination = in_destination d, in_source = PNone, in_artifact_id = PNone,
                             in_input_id = PStr (up_id u), in_required = in_required d \<rparr> # fs, l, c), s2))))"

definition freeze_host_inputs ::
  "(bytes \<Rightarrow> string) \<Rightarrow> timestamp \<Rightarrow> (nat \<Rightarrow> string) \<Rightarrow> world \<Rightarrow> TaskSpec \<Rightarrow> store \<Rightarrow> TaskSpec result \<times> store" where
  "freeze_host_inputs H now new_id w task s =
     (case freeze_loop H now new_id w 0 (staged_inputs task) (items (labels task)) False s of
        (Inl e, s1) \<Rightarrow> (Inl e, s1)
      | (Inr (fs, l, changed), s1) \<Rightarrow>
          (Inr (if changed then task\<lparr> staged_inputs := fs, labels := PDict l \<rparr> else task), s1))"

text \<open>One entry of the input manifest, and the digest over all of them.\<close>

record entry =
  en_destination :: string
  en_present :: bool
  en_sha256 :: "string option"
  en_size :: int

definition entry_json :: "entry \<Rightarrow> jval" where
  "entry_json e = JObj
     [ (''destination'', JStr (en_destination e)), (''present'', JBool (en_present e)),
       (''sha256'', case en_sha256 e of None \<Rightarrow> JNull | Some h \<Rightarrow> JStr h),
       (''size_bytes'', JInt (en_size e)) ]"

definition entries_digest :: "(bytes \<Rightarrow> string) \<Rightarrow> entry list \<Rightarrow> string" where
  "entries_digest H es = H (dumps (JArr (map entry_json es)))"

definition entry_of :: "pyval \<Rightarrow> (string \<times> int) option \<Rightarrow> entry" where
  "entry_of destination found =
     \<lparr> en_destination = py_str destination, en_present = found \<noteq> None,
       en_sha256 = map_option fst found, en_size = (case found of None \<Rightarrow> 0 | Some (_, n) \<Rightarrow> n) \<rparr>"

text \<open>What \<open>_input_manifest_digest\<close> records for one declaration: the digest and size of the bytes it names.\<close>

definition declared_bytes :: "(bytes \<Rightarrow> string) \<Rightarrow> world \<Rightarrow> store \<Rightarrow> InputFile \<Rightarrow> (string \<times> int) option result" where
  "declared_bytes H w s d =
     (if in_input_id d \<noteq> PNone then
        ebind (get_uploaded_input (py_str (in_input_id d)) s) (\<lambda>u. Inr (Some (up_sha256 u, up_size u)))
      else if in_artifact_id d \<noteq> PNone then
        ebind (get_artifact (py_str (in_artifact_id d)) s) (\<lambda>a.
        let there = (case artifact_path (resolve w) (resolve_in w) (py_str (in_artifact_id d)) s of
              Inl _ \<Rightarrow> False | Inr loc \<Rightarrow> read_location (disk w) loc s \<noteq> None)
        in Inr (if \<not> there \<and> \<not> truthy (in_required d) then None else Some (ar_sha256 a, ar_size a)))
      else
        case host_file w (host_path w (py_str (in_source d))) of
          None \<Rightarrow> if truthy (in_required d)
                  then Inl (InputStagingError ''required input is not a readable file'') else Inr None
        | Some b \<Rightarrow> Inr (Some (H b, int (length b))))"

definition manifest_entries :: "(bytes \<Rightarrow> string) \<Rightarrow> world \<Rightarrow> store \<Rightarrow> TaskSpec \<Rightarrow> entry list result" where
  "manifest_entries H w s task =
     emap (\<lambda>d. ebind (declared_bytes H w s d) (\<lambda>f. Inr (entry_of (in_destination d) f))) (staged_inputs task)"

definition input_manifest_digest :: "(bytes \<Rightarrow> string) \<Rightarrow> world \<Rightarrow> store \<Rightarrow> TaskSpec \<Rightarrow> string result" where
  "input_manifest_digest H w s task = ebind (manifest_entries H w s task) (\<lambda>es. Inr (entries_digest H es))"

text \<open>
  The middle of \<open>submit\<close>: stamp the task with the digest of its inputs, check its resources and resolve
  its plugin. The resolver stands for the plugin registry: the manifest for a plugin, a version and a
  capability.
\<close>

definition prepare ::
  "(bytes \<Rightarrow> string) \<Rightarrow> world \<Rightarrow> bool \<Rightarrow> (pyval \<Rightarrow> pyval \<Rightarrow> pyval \<Rightarrow> PluginManifest result) \<Rightarrow> RuntimeConfig \<Rightarrow> pyval \<Rightarrow>
   pyval \<Rightarrow> TaskSpec \<Rightarrow> store \<Rightarrow> (TaskSpec \<times> PluginManifest) result" where
  "prepare H w supports_limits resolver c version capability task s =
     ebind (input_manifest_digest H w s task) (\<lambda>digest.
     let t = task\<lparr> input_manifest_sha256 := PStr digest \<rparr> in
     ebind (check_resources supports_limits c t) (\<lambda>_.
     ebind (echeck (plugin_id t = PNone) (ValueError ''this runtime executes direct plugin tasks only'')) (\<lambda>_.
     ebind (echeck (truthy version \<and> truthy (plugin_version t) \<and> \<not> py_eq version (plugin_version t))
        (ValueError ''plugin_version argument conflicts with the task plugin_version'')) (\<lambda>_.
     ebind (resolver (plugin_id t) (if truthy version then version else plugin_version t) capability) (\<lambda>m.
     Inr (t, m))))))"

text \<open>
  \<open>submit\<close>. An uploaded copy of a host file stays in the store when a later check refuses the task.
\<close>

definition submit ::
  "(bytes \<Rightarrow> string) \<Rightarrow> timestamp \<Rightarrow> (nat \<Rightarrow> string) \<Rightarrow> string \<Rightarrow> string \<Rightarrow> world \<Rightarrow> bool \<Rightarrow> string list \<Rightarrow>
   (pyval \<Rightarrow> pyval \<Rightarrow> pyval \<Rightarrow> PluginManifest result) \<Rightarrow> RuntimeConfig \<Rightarrow> TaskSpec \<Rightarrow> pyval \<Rightarrow> pyval \<Rightarrow> bool \<Rightarrow>
   string option \<Rightarrow> store \<Rightarrow> run_row result \<times> store" where
  "submit H now new_id run_id stage_id w supports_limits roots resolver c task version capability idem key s =
     (case ebind (TaskSpec_validate task) (\<lambda>_. check_inputs w roots s task) of
        Inl e \<Rightarrow> (Inl e, s)
      | Inr _ \<Rightarrow>
          (case freeze_host_inputs H now new_id w task s of
             (Inl e, s1) \<Rightarrow> (Inl e, s1)
           | (Inr t1, s1) \<Rightarrow>
               (case prepare H w supports_limits resolver c version capability t1 s1 of
                  Inl e \<Rightarrow> (Inl e, s1)
                | Inr (t, m) \<Rightarrow> submit_run now run_id stage_id t ''main'' (man_plugin_version m) idem key
                    (truthy (resumable (requirements m))) s1)))"

section \<open>Staging\<close>

definition absent :: "InputFile \<Rightarrow> StagedInput" where
  "absent d = \<lparr> si_destination = in_destination d, si_present = PBool False, si_size_bytes = PInt 0,
     si_sha256 = PNone, si_source = in_source d, si_source_artifact_id = in_artifact_id d,
     si_source_input_id = in_input_id d \<rparr>"

definition placed :: "(bytes \<Rightarrow> string) \<Rightarrow> InputFile \<Rightarrow> pyval \<Rightarrow> bytes \<Rightarrow> StagedInput" where
  "placed H d source b = \<lparr> si_destination = in_destination d, si_present = PBool True,
     si_size_bytes = PInt (int (length b)), si_sha256 = PStr (H b), si_source = source,
     si_source_artifact_id = in_artifact_id d, si_source_input_id = in_input_id d \<rparr>"

text \<open>An unavailable input fails the attempt when it is required and is recorded as absent otherwise.\<close>

definition unavailable :: "InputFile \<Rightarrow> workspace \<Rightarrow> pyexn \<Rightarrow> (StagedInput \<times> workspace) result" where
  "unavailable d ws e =
     (if \<not> is_RuntimeStoreError e then Inl e
      else if truthy (in_required d) then Inl (InputStagingError ''input is unavailable'')
      else Inr (absent d, ws))"

definition stage_from_artifact ::
  "(bytes \<Rightarrow> string) \<Rightarrow> world \<Rightarrow> store \<Rightarrow> InputFile \<Rightarrow> workspace \<Rightarrow> (StagedInput \<times> workspace) result" where
  "stage_from_artifact H w s d ws =
     (case materialize_artifact (resolve w) (resolve_in w) (disk w) (py_str (in_artifact_id d)) s of
        Inl e \<Rightarrow> unavailable d ws e
      | Inr (a, b) \<Rightarrow>
          ebind (write_file (dest_path (in_destination d)) b ws) (\<lambda>ws'.
          if H b \<noteq> ar_sha256 a \<or> int (length b) \<noteq> ar_size a
          then Inl (InputStagingError ''artifact does not match its own record'')
          else Inr (placed H d PNone b, ws')))"

definition stage_from_input ::
  "(bytes \<Rightarrow> string) \<Rightarrow> store \<Rightarrow> InputFile \<Rightarrow> pyval \<Rightarrow> workspace \<Rightarrow> (StagedInput \<times> workspace) result" where
  "stage_from_input H s d source ws =
     (case materialize_input H (py_str (in_input_id d)) s of
        Inl e \<Rightarrow> unavailable d ws e
      | Inr (u, b) \<Rightarrow>
          ebind (write_file (dest_path (in_destination d)) b ws) (\<lambda>ws'.
          if H b \<noteq> up_sha256 u \<or> int (length b) \<noteq> up_size u
          then Inl (InputStagingError ''uploaded input does not match its record'')
          else Inr (placed H d source b, ws')))"

definition stage_from_host ::
  "(bytes \<Rightarrow> string) \<Rightarrow> world \<Rightarrow> InputFile \<Rightarrow> workspace \<Rightarrow> (StagedInput \<times> workspace) result" where
  "stage_from_host H w d ws =
     (let source = host_path w (py_str (in_source d)) in
      if host_file w source = None then
        if truthy (in_required d)
        then Inl (InputStagingError ''required input disappeared before it could be staged'')
        else Inr (absent d, ws)
      else ebind (write_file (dest_path (in_destination d)) (host_copied w source) ws) (\<lambda>ws'.
        Inr (placed H d (in_source d) (host_copied w source), ws')))"

definition stage_one ::
  "(bytes \<Rightarrow> string) \<Rightarrow> world \<Rightarrow> store \<Rightarrow> pydict \<Rightarrow> nat \<Rightarrow> InputFile \<Rightarrow> workspace \<Rightarrow>
   (StagedInput \<times> workspace) result" where
  "stage_one H w s lbls i d ws =
     (if in_input_id d \<noteq> PNone then stage_from_input H s d (dgetN lbls (host_source_label i)) ws
      else if in_artifact_id d \<noteq> PNone then stage_from_artifact H w s d ws
      else stage_from_host H w d ws)"

fun stage_loop ::
  "(bytes \<Rightarrow> string) \<Rightarrow> world \<Rightarrow> store \<Rightarrow> pydict \<Rightarrow> nat \<Rightarrow> InputFile list \<Rightarrow> workspace \<Rightarrow>
   (StagedInput list \<times> workspace) result" where
  "stage_loop H w s lbls i [] ws = Inr ([], ws)"
| "stage_loop H w s lbls i (d # ds) ws =
     ebind (stage_one H w s lbls i d ws) (\<lambda>(st, ws1).
     ebind (stage_loop H w s lbls (Suc i) ds ws1) (\<lambda>(sts, ws2). Inr (st # sts, ws2)))"

definition entry_of_staged :: "StagedInput \<Rightarrow> entry" where
  "entry_of_staged st =
     \<lparr> en_destination = py_str (si_destination st), en_present = truthy (si_present st),
       en_sha256 = (if si_sha256 st = PNone then None else Some (py_str (si_sha256 st))),
       en_size = py_int (si_size_bytes st) \<rparr>"

text \<open>The manifest file: its text, and its place in the workspace.\<close>

definition manifest_text :: "StagedInput list \<Rightarrow> bytes" where
  "manifest_text sts = dumps_indent 0 (JObj
     [ (''inputs'', JArr (map (\<lambda>st. entry_json (entry_of_staged st)) sts)), (''schema_version'', JInt SCHEMA_VERSION) ])"

text \<open>
  \<open>_stage_inputs\<close>: the staged inputs, the workspace, and the digest of the manifest written last; nothing
  is written for a task without staged inputs.
\<close>

definition stage_inputs ::
  "(bytes \<Rightarrow> string) \<Rightarrow> world \<Rightarrow> store \<Rightarrow> TaskSpec \<Rightarrow> workspace \<Rightarrow>
   (StagedInput list \<times> string option \<times> workspace) result" where
  "stage_inputs H w s task ws =
     (if staged_inputs task = [] then Inr ([], None, ws)
      else ebind (stage_loop H w s (items (labels task)) 0 (staged_inputs task) ws) (\<lambda>(sts, ws1).
        ebind (write_file [INPUT_MANIFEST_FILENAME] (manifest_text sts) ws1) (\<lambda>ws2.
        Inr (sts, Some (H (manifest_text sts)), ws2))))"

definition verify_input_manifest :: "(bytes \<Rightarrow> string) \<Rightarrow> TaskSpec \<Rightarrow> StagedInput list \<Rightarrow> unit result" where
  "verify_input_manifest H task sts =
     echeck (truthy (input_manifest_sha256 task) \<and>
             PStr (entries_digest H (map entry_of_staged sts)) \<noteq> input_manifest_sha256 task)
       (InputStagingError ''input bytes changed after submission; execution was refused'')"

section \<open>The digest identifies the inputs\<close>

lemma entry_json_inj: "entry_json e = entry_json f \<Longrightarrow> e = f"
  by (cases e; cases f) (auto simp: entry_json_def split: option.splits)

lemma entries_digest_eq:
  assumes "entries_digest H es = entries_digest H fs"
  shows "es = fs \<or> (\<exists>x y. x \<noteq> y \<and> H x = H y)"
proof (cases "dumps (JArr (map entry_json es)) = dumps (JArr (map entry_json fs))")
  case True
  then have "map entry_json es = map entry_json fs" using dumps_inj by blast
  moreover have "inj entry_json" by (auto intro: injI entry_json_inj)
  ultimately show ?thesis by (simp add: inj_map_eq_map)
next
  case False
  then show ?thesis using assms unfolding entries_digest_def by blast
qed

lemma verified_entries:
  assumes "verify_input_manifest H t sts = Inr u" "input_manifest_sha256 t = PStr (entries_digest H es)"
    "entries_digest H es \<noteq> []"
  shows "map entry_of_staged sts = es \<or> (\<exists>x y. x \<noteq> y \<and> H x = H y)"
  using assms entries_digest_eq [of H "map entry_of_staged sts" es]
  by (auto simp: verify_input_manifest_def truthy_def)

lemma submit_run_new:
  assumes "submit_run now run_id sid t k v False None res s = (Inr r, s1)"
  shows "rn_task r = t" "r \<in> set (runs s1)" "rn_status r = QUEUED"
  using assms by (auto simp: submit_run_def Let_def split: sum.splits if_splits)

lemma submit_run_keeps:
  assumes "submit_run now run_id sid t k v idem key res s = (r, s1)"
  shows "artifacts s1 = artifacts s" "uploaded s1 = uploaded s" "attempts s1 = attempts s" "objects s1 = objects s"
  using assms by (auto simp: submit_run_def Let_def split: sum.splits option.splits if_splits list.splits bool.splits)

lemma submit_run_error: "submit_run now run_id sid t k v idem key res s = (Inl e, s1) \<Longrightarrow> s1 = s"
  by (auto simp: submit_run_def Let_def split: sum.splits option.splits if_splits list.splits bool.splits)

lemma declared_bytes_cong:
  assumes "artifacts s1 = artifacts s" "uploaded s1 = uploaded s" "attempts s1 = attempts s" "objects s1 = objects s"
  shows "declared_bytes H w s1 d = declared_bytes H w s d"
  unfolding declared_bytes_def get_uploaded_input_def get_artifact_def artifact_path_def read_location_def assms
  by (rule refl)

lemma freeze_loop_tables:
  assumes "freeze_loop H now new_id w i ds l c s = (r, s1)"
  shows "runs s1 = runs s \<and> stages s1 = stages s \<and> attempts s1 = attempts s \<and> artifacts s1 = artifacts s \<and>
    objects s \<subseteq>\<^sub>m objects s1"
  using assms
proof (induction H now new_id w i ds l c s arbitrary: r s1 rule: freeze_loop.induct)
  case (2 H now new_id w i d ds l c s)
  let ?src = "host_path w (py_str (in_source d))"
  show ?case
  proof (cases "in_source d = PNone \<or> host_file w ?src = None")
    case True
    then show ?thesis using "2.prems" "2.IH"(1) [OF refl True]
      by (cases "freeze_loop H now new_id w (Suc i) ds l c s") (auto simp: Let_def split: sum.splits)
  next
    case False
    obtain r1 s2 where ing: "ingest_input_file H now (new_id i) (host_file w ?src) (host_copied w ?src) s = (r1, s2)"
      by fastforce
    have s2: "runs s2 = runs s \<and> stages s2 = stages s \<and> attempts s2 = attempts s \<and> artifacts s2 = artifacts s \<and>
        objects s \<subseteq>\<^sub>m objects s2"
      using ing obj.publish_tables obj.publish_keeps
      by (auto simp: ingest_input_file_def insert_uploaded_def Let_def split: option.splits sum.splits prod.splits if_splits)
    show ?thesis
    proof (cases r1)
      case (Inl e)
      then show ?thesis using "2.prems" False ing s2 by (simp add: Let_def)
    next
      case (Inr u)
      obtain r2 s3 where rest: "freeze_loop H now new_id w (Suc i) ds (dset l (PStr (host_source_label i)) (PStr ?src)) True s2 = (r2, s3)"
        by fastforce
      note ih = "2.IH"(2) [OF refl False ing [symmetric] Inr rest]
      have "s1 = s3" using "2.prems" False ing Inr rest by (auto simp: Let_def split: sum.splits)
      then show ?thesis using ih s2 map_le_trans by auto
    qed
  qed
qed simp


text \<open>What a submission that gets as far as the store has been through.\<close>

lemma prepare_Inr:
  assumes "prepare H w limits resolver c version cap t1 s = Inr (t, m)"
  shows "\<exists>es. manifest_entries H w s t1 = Inr es \<and> t = t1\<lparr> input_manifest_sha256 := PStr (entries_digest H es) \<rparr> \<and>
    check_resources limits c t = Inr () \<and>
    resolver (plugin_id t) (if truthy version then version else plugin_version t) cap = Inr m"
  using assms by (auto simp: prepare_def input_manifest_digest_def ebind_Inr_iff Let_def)

lemma submit_steps:
  assumes "submit H now new_id run_id sid w limits roots resolver c task version cap idem key s = (Inr r, s2)"
  obtains t1 s1 es t and m :: PluginManifest where
    "TaskSpec_validate task = Inr ()" "check_inputs w roots s task = Inr ()"
    "freeze_host_inputs H now new_id w task s = (Inr t1, s1)"
    "manifest_entries H w s1 t1 = Inr es" "t = t1\<lparr> input_manifest_sha256 := PStr (entries_digest H es) \<rparr>"
    "check_resources limits c t = Inr ()"
    "resolver (plugin_id t) (if truthy version then version else plugin_version t) cap = Inr m"
    "submit_run now run_id sid t ''main'' (man_plugin_version m) idem key (truthy (resumable (requirements m))) s1 = (Inr r, s2)"
proof -
  obtain t1 s1 t m where p: "prepare H w limits resolver c version cap t1 s1 = Inr (t, m)"
    "freeze_host_inputs H now new_id w task s = (Inr t1, s1)"
    "TaskSpec_validate task = Inr ()" "check_inputs w roots s task = Inr ()"
    "submit_run now run_id sid t ''main'' (man_plugin_version m) idem key (truthy (resumable (requirements m))) s1 = (Inr r, s2)"
    using assms by (auto simp: submit_def ebind_Inr_iff split: sum.splits prod.splits)
  show thesis using prepare_Inr [OF p(1)] p that by blast
qed


text \<open>A refused submission creates nothing but copies: when \<open>submit\<close> raises, no run, stage, attempt or
  artifact has been added, and the object store has lost nothing.\<close>

theorem refused_submission_creates_no_run:
  "case submit H now new_id run_id sid w limits roots resolver c task version cap idem key s of
     (Inr r, s1) \<Rightarrow> True
   | (Inl e, s1) \<Rightarrow> runs s1 = runs s \<and> stages s1 = stages s \<and> attempts s1 = attempts s \<and>
       artifacts s1 = artifacts s \<and> objects s \<subseteq>\<^sub>m objects s1"
proof -
  obtain r0 s0 where fr: "freeze_host_inputs H now new_id w task s = (r0, s0)" by fastforce
  have s0: "runs s0 = runs s \<and> stages s0 = stages s \<and> attempts s0 = attempts s \<and> artifacts s0 = artifacts s \<and>
      objects s \<subseteq>\<^sub>m objects s0"
    using fr freeze_loop_tables by (auto simp: freeze_host_inputs_def split: prod.splits sum.splits)
  show ?thesis
  proof (cases "submit H now new_id run_id sid w limits roots resolver c task version cap idem key s")
    case (Pair r s1)
    show ?thesis
    proof (cases r)
      case (Inl e)
      then have "s1 = s \<or> s1 = s0"
        using Pair fr by (auto simp: submit_def dest!: submit_run_error split: sum.splits prod.splits)
      then show ?thesis using Pair Inl s0 by auto
    qed (simp add: Pair)
  qed
qed

section \<open>The workspace holds what is recorded\<close>

lemma write_file_lookup:
  assumes "write_file p b ws = Inr ws'"
  shows "map_of ws' q = (if q = p then Some b else map_of ws q)"
proof -
  have "map_of (filter (\<lambda>(q, _). q \<noteq> p) ws) q = map_of ws q" if "q \<noteq> p"
    using that by (induction ws) auto
  then show ?thesis using assms by (auto simp: write_file_def split: if_splits)
qed

definition at_place :: "(bytes \<Rightarrow> string) \<Rightarrow> workspace \<Rightarrow> StagedInput \<Rightarrow> bool" where
  "at_place H ws st = (\<not> truthy (si_present st) \<or>
     (\<exists>b. map_of ws (dest_path (si_destination st)) = Some b \<and> si_sha256 st = PStr (H b) \<and>
        si_size_bytes st = PInt (int (length b))))"

lemma stage_one_placed:
  assumes "stage_one H w s l i d ws = Inr (st, ws')"
  shows "si_destination st = in_destination d" "at_place H ws' st"
    "p \<noteq> dest_path (in_destination d) \<Longrightarrow> map_of ws' p = map_of ws p"
  using assms write_file_lookup [of "dest_path (in_destination d)" _ ws ws']
  by (auto simp: stage_one_def stage_from_input_def stage_from_artifact_def stage_from_host_def unavailable_def
      absent_def placed_def at_place_def truthy_def ebind_Inr_iff Let_def split: if_splits sum.splits prod.splits)

lemma at_place_kept:
  assumes "at_place H ws st" "map_of ws' (dest_path (si_destination st)) = map_of ws (dest_path (si_destination st))"
  shows "at_place H ws' st"
  using assms by (simp add: at_place_def)

lemma stage_loop_placed:
  assumes "stage_loop H w s l i ds ws = Inr (sts, ws')" "distinct (map (\<lambda>d. dest_path (in_destination d)) ds)"
  shows "map si_destination sts = map in_destination ds \<and> (\<forall>st \<in> set sts. at_place H ws' st) \<and>
    (\<forall>p. p \<notin> (\<lambda>d. dest_path (in_destination d)) ` set ds \<longrightarrow> map_of ws' p = map_of ws p)"
  using assms
proof (induction ds arbitrary: i ws sts)
  case (Cons d ds)
  obtain st ws1 sts' where one: "stage_one H w s l i d ws = Inr (st, ws1)" and
    rest: "stage_loop H w s l (Suc i) ds ws1 = Inr (sts', ws')" and sts: "sts = st # sts'"
    using Cons.prems(1) by (auto simp: ebind_Inr_iff)
  note ih = Cons.IH [OF rest] and pl = stage_one_placed [OF one]
  have "map_of ws' (dest_path (si_destination st)) = map_of ws1 (dest_path (si_destination st))"
    using ih Cons.prems(2) pl(1) by auto
  then have "at_place H ws' st" using at_place_kept [OF pl(2)] by blast
  then show ?case using ih Cons.prems(2) pl sts by auto
qed simp

text \<open>When the destinations name different files and none of them is the manifest's own name, the workspace
  an attempt starts in holds exactly what the platform records: each input recorded as present is a
  file at its destination with the recorded digest and size.\<close>

theorem workspace_matches_record:
  assumes "stage_inputs H w s task ws = Inr (sts, m, ws')"
    and "distinct (map (\<lambda>d. dest_path (in_destination d)) (staged_inputs task))"
    and "[INPUT_MANIFEST_FILENAME] \<notin> (\<lambda>d. dest_path (in_destination d)) ` set (staged_inputs task)"
  shows "map si_destination sts = map in_destination (staged_inputs task) \<and> list_all (at_place H ws') sts"
proof (cases "staged_inputs task = []")
  case True
  then show ?thesis using assms(1) by (simp add: stage_inputs_def)
next
  case False
  then obtain ws1 where loop: "stage_loop H w s (items (labels task)) 0 (staged_inputs task) ws = Inr (sts, ws1)" and
    wr: "write_file [INPUT_MANIFEST_FILENAME] (manifest_text sts) ws1 = Inr ws'"
    using assms(1) by (auto simp: stage_inputs_def ebind_Inr_iff)
  note pl = stage_loop_placed [OF loop assms(2)]
  have "at_place H ws' st" if st: "st \<in> set sts" for st
  proof (rule at_place_kept)
    have "si_destination st \<in> in_destination ` set (staged_inputs task)"
      using pl st by (metis image_eqI list.set_map)
    then have "dest_path (si_destination st) \<noteq> [INPUT_MANIFEST_FILENAME]" using assms(3) by (metis imageE imageI)
    then show "map_of ws' (dest_path (si_destination st)) = map_of ws1 (dest_path (si_destination st))"
      using write_file_lookup [OF wr] by simp
  qed (use pl st in auto)
  then show ?thesis using pl by (simp add: list_all_iff)
qed

text \<open>Host files a task names are inside the configured roots: when a shared deployment sets input roots, a
  submission that succeeds names no host file whose resolved path is outside all of them.\<close>

theorem host_inputs_within_roots:
  assumes "submit H now new_id run_id sid w limits roots resolver c task version cap idem key s = (Inr r, s1)"
    and "roots \<noteq> []" "d \<in> set (staged_inputs task)" "in_source d \<noteq> PNone"
  shows "list_ex (path_within (host_path w (py_str (in_source d)))) roots"
proof -
  have "TaskSpec_validate task = Inr ()" "check_inputs w roots s task = Inr ()"
    using submit_steps [OF assms(1)] by metis+
  then have "InputFile_validate d = Inr ()" "check_input w roots s d = Inr ()"
    using assms(3) TaskSpec_validate_Inr(5) by (auto simp: check_inputs_def eall_Inr_iff)
  then show ?thesis using assms(2,4)
    by (auto simp: check_input_def InputFile_validate_Inr eall_Inr_iff Let_def list_ex_iff)
qed

section \<open>Frozen inputs no longer depend on the host\<close>

lemma freeze_loop_sources:
  assumes "freeze_loop H now new_id w i ds l c s = (Inr (fs, l', c'), s1)"
    "\<forall>d \<in> set ds. in_source d = PNone \<or> host_file w (host_path w (py_str (in_source d))) \<noteq> None"
    "\<forall>d \<in> set ds. InputFile_validate d = Inr ()"
  shows "(\<forall>f \<in> set fs. in_source f = PNone \<and> (in_input_id f \<noteq> PNone \<or> in_artifact_id f \<noteq> PNone)) \<and>
    (c' = (c \<or> (\<exists>d \<in> set ds. in_source d \<noteq> PNone))) \<and> (\<not> (\<exists>d \<in> set ds. in_source d \<noteq> PNone) \<longrightarrow> fs = ds)"
  using assms
proof (induction ds arbitrary: i l c s fs)
  case (Cons d ds)
  let ?src = "host_path w (py_str (in_source d))"
  have tl: "\<forall>d \<in> set ds. in_source d = PNone \<or> host_file w (host_path w (py_str (in_source d))) \<noteq> None"
    "\<forall>d \<in> set ds. InputFile_validate d = Inr ()" and hd: "InputFile_validate d = Inr ()"
    using Cons.prems(2,3) by simp_all
  show ?case
  proof (cases "in_source d = PNone")
    case True
    obtain fs' where rest: "freeze_loop H now new_id w (Suc i) ds l c s = (Inr (fs', l', c'), s1)" "fs = d # fs'"
      using Cons.prems(1) True by (auto simp: Let_def split: prod.splits sum.splits)
    have "in_input_id d \<noteq> PNone \<or> in_artifact_id d \<noteq> PNone"
      using hd True by (auto simp: InputFile_validate_Inr)
    then show ?thesis using Cons.IH [OF rest(1) tl] rest(2) True by simp
  next
    case False
    then have host: "host_file w ?src \<noteq> None" using Cons.prems(2) by auto
    obtain r1 s2 where ing: "ingest_input_file H now (new_id i) (host_file w ?src) (host_copied w ?src) s = (r1, s2)"
      by fastforce
    then obtain u where u: "r1 = Inr u" using Cons.prems(1) False host by (cases r1) (auto simp: Let_def)
    obtain r2 s3 where "freeze_loop H now new_id w (Suc i) ds (dset l (PStr (host_source_label i)) (PStr ?src)) True s2 = (r2, s3)"
      by fastforce
    then obtain fs' l2 f where rest: "freeze_loop H now new_id w (Suc i) ds l2 True s2 = (Inr (fs', l', c'), s1)"
      "fs = f # fs'" "in_source f = PNone" "in_input_id f \<noteq> PNone"
      using Cons.prems(1) False host ing u by (cases r2) (auto simp: Let_def)
    then show ?thesis using Cons.IH [OF rest(1) tl] False by simp
  qed
qed auto

lemma stage_loop_cong:
  assumes "\<forall>d \<in> set ds. in_input_id d \<noteq> PNone \<or> in_artifact_id d \<noteq> PNone"
    "resolve w1 = resolve w2" "resolve_in w1 = resolve_in w2" "disk w1 = disk w2"
  shows "stage_loop H w1 s l i ds ws = stage_loop H w2 s l i ds ws"
  using assms(1)
proof (induction ds arbitrary: i ws)
  case (Cons d ds)
  have "stage_one H w1 s l i d ws = stage_one H w2 s l i d ws"
    using Cons.prems assms(2-4) by (auto simp: stage_one_def stage_from_artifact_def)
  then show ?case using Cons by (cases "stage_one H w2 s l i d ws") auto
qed simp

text \<open>Submission freezes host files: once every host file a task names has been read, what a later attempt
  stages depends on the store alone; however the host's files change, the outcome is the same.\<close>

theorem staging_ignores_host:
  assumes "freeze_host_inputs H now new_id w task s = (Inr t, s1)" "TaskSpec_validate task = Inr ()"
    and "\<forall>d \<in> set (staged_inputs task). in_source d = PNone \<or> host_file w (host_path w (py_str (in_source d))) \<noteq> None"
    and "resolve w1 = resolve w2" "resolve_in w1 = resolve_in w2" "disk w1 = disk w2"
  shows "stage_inputs H w1 s2 t ws = stage_inputs H w2 s2 t ws"
proof -
  obtain fs l c where fr: "freeze_loop H now new_id w 0 (staged_inputs task) (items (labels task)) False s = (Inr (fs, l, c), s1)"
    and t: "t = (if c then task\<lparr> staged_inputs := fs, labels := PDict l \<rparr> else task)"
    using assms(1) by (auto simp: freeze_host_inputs_def split: prod.splits sum.splits)
  note src = freeze_loop_sources [OF fr assms(3) TaskSpec_validate_Inr(5) [OF assms(2)]]
  have "\<forall>d \<in> set (staged_inputs t). in_input_id d \<noteq> PNone \<or> in_artifact_id d \<noteq> PNone"
    using src t by auto
  then show ?thesis
    using stage_loop_cong [OF _ assms(4-6)] by (simp add: stage_inputs_def)
qed

section \<open>Sample submission\<close>

definition host_input :: "string \<Rightarrow> string \<Rightarrow> InputFile" where
  "host_input dest src = \<lparr> in_destination = PStr dest, in_source = PStr src, in_artifact_id = PNone,
     in_input_id = PNone, in_required = PBool True \<rparr>"

definition staged_task :: "InputFile list \<Rightarrow> TaskSpec" where
  "staged_task ins = TaskSpec_of [(PStr ''task_id'', PStr ''t''), (PStr ''project_id'', PStr ''p''),
     (PStr ''design_id'', PStr ''d''), (PStr ''plugin_id'', PStr ''plug'')] [] ins None"

definition one_input :: TaskSpec where
  "one_input = staged_task [host_input ''top.v'' ''/data/top.v'']"

text \<open>A host with every file, all of the given content.\<close>

definition sample_world :: "bytes \<Rightarrow> world" where
  "sample_world b = \<lparr> host_path = id, host_file = (\<lambda>_. Some b), host_copied = (\<lambda>_. b), resolve = (\<lambda>_. []),
     resolve_in = (\<lambda>_ _. []), disk = (\<lambda>_. None) \<rparr>"

definition sample_new_id :: "nat \<Rightarrow> string" where
  "sample_new_id i = ''input-'' @ nat_str i"

definition sample_manifest :: PluginManifest where
  "sample_manifest = \<lparr> man_plugin_id = PStr ''plug'', man_plugin_version = PStr ''1'', adapter_entry = [PStr ''run''],
     capabilities = [PStr ''c''], supported_arch = [PStr ''x''], default_timeout_seconds = PInt 60, artifact_rules = [],
     environment = PDict [], toolkit = PDict [], requirements = RuntimeRequirements_of [],
     progress_marker = PStr ''@'', man_schema_version = PInt SCHEMA_VERSION \<rparr>"

definition roomy :: RuntimeConfig where
  "roomy = \<lparr> lease_seconds = 30, worker_id = ''w'', capacity_cpu_cores = Some 4, capacity_memory_bytes = Some 40,
     platform_fraction = 1, default_task_cpu_cores = 1, default_task_memory_bytes = 6 \<rparr>"

definition sample_submission :: "run_row result \<times> store" where
  "sample_submission = submit toy_digest 0 sample_new_id ''r'' ''g'' (sample_world ''abc'') True [''/data'']
     (\<lambda>_ _ _. Inr sample_manifest) roomy one_input PNone PNone False None empty_store"

text \<open>The task the submission records, and the store it leaves.\<close>

definition frozen_task :: TaskSpec where
  "frozen_task = (staged_task [\<lparr> in_destination = PStr ''top.v'', in_source = PNone, in_artifact_id = PNone,
       in_input_id = PStr ''input-0'', in_required = PBool True \<rparr>])
     \<lparr> labels := PDict [(PStr ''__platform_host_source_0'', PStr ''/data/top.v'')],
       input_manifest_sha256 := PStr (entries_digest toy_digest [\<lparr> en_destination = ''top.v'', en_present = True,
         en_sha256 = Some (toy_digest ''abc''), en_size = 3 \<rparr>]) \<rparr>"

definition frozen_store :: store where
  "frozen_store = empty_store\<lparr> uploaded := [\<lparr> up_id = ''input-0'', up_store_key = toy_digest ''abc'', up_size = 3,
     up_sha256 = toy_digest ''abc'', up_created = 0 \<rparr>], objects := [toy_digest ''abc'' \<mapsto> ''abc''] \<rparr>"

text \<open>The recorded task staged on a host whose files have changed.\<close>

definition sample_staging :: "(StagedInput list \<times> string option \<times> workspace) result" where
  "sample_staging = stage_inputs toy_digest (sample_world ''changed'') frozen_store frozen_task []"

definition staged_input :: StagedInput where
  "staged_input = \<lparr> si_destination = PStr ''top.v'', si_present = PBool True, si_size_bytes = PInt 3,
     si_sha256 = PStr (toy_digest ''abc''), si_source = PStr ''/data/top.v'', si_source_artifact_id = PNone,
     si_source_input_id = PStr ''input-0'' \<rparr>"

lemma sample_submit:
  "\<exists>r s. submit toy_digest 0 sample_new_id ''r'' ''g'' (sample_world ''abc'') True [''/data'']
     (\<lambda>_ _ _. Inr sample_manifest) roomy one_input PNone PNone False None empty_store = (Inr r, s) \<and> rn_task r = frozen_task"
proof -
  obtain x s where x: "sample_submission = (x, s)" by fastforce
  have "case fst sample_submission of Inl _ \<Rightarrow> False | Inr r \<Rightarrow> rn_task r = frozen_task" by code_simp
  then show ?thesis unfolding sample_submission_def [symmetric] x by (auto split: sum.splits)
qed

lemma sample_stage:
  "stage_inputs toy_digest (sample_world ''changed'') frozen_store frozen_task [] =
     Inr ([staged_input], Some (toy_digest (manifest_text [staged_input])),
       [([INPUT_MANIFEST_FILENAME], manifest_text [staged_input]), ([''top.v''], ''abc'')])"
  by code_simp


theorem workspace_matches_record_witness:
  "at_place toy_digest [([INPUT_MANIFEST_FILENAME], manifest_text [staged_input]), ([''top.v''], ''abc'')] staged_input"
proof -
  have d: "distinct (map (\<lambda>d. dest_path (in_destination d)) (staged_inputs frozen_task))"
    "[INPUT_MANIFEST_FILENAME] \<notin> (\<lambda>d. dest_path (in_destination d)) ` set (staged_inputs frozen_task)"
    by code_simp+
  show ?thesis using workspace_matches_record [OF sample_stage d] by simp
qed

theorem host_inputs_within_roots_witness:
  "list_ex (path_within (host_path (sample_world ''abc'') ''/data/top.v'')) [''/data'']"
proof -
  have i: "host_input ''top.v'' ''/data/top.v'' \<in> set (staged_inputs one_input)"
    "in_source (host_input ''top.v'' ''/data/top.v'') = PStr ''/data/top.v''"
    by (simp_all add: one_input_def staged_task_def TaskSpec_of_def host_input_def)
  obtain r s where "submit toy_digest 0 sample_new_id ''r'' ''g'' (sample_world ''abc'') True [''/data'']
     (\<lambda>_ _ _. Inr sample_manifest) roomy one_input PNone PNone False None empty_store = (Inr r, s)"
    using sample_submit by blast
  from host_inputs_within_roots [OF this _ i(1)] i(2) show ?thesis by simp
qed

theorem staging_ignores_host_witness:
  "let f = freeze_host_inputs toy_digest 0 sample_new_id (sample_world ''abc'') one_input empty_store
   in stage_inputs toy_digest (sample_world ''x'') (snd f) (projr (fst f)) [] =
      stage_inputs toy_digest (sample_world ''abc'') (snd f) (projr (fst f)) []"
proof -
  let ?f = "freeze_host_inputs toy_digest 0 sample_new_id (sample_world ''abc'') one_input empty_store"
  have "ok (fst ?f)" by code_simp
  then have f: "?f = (Inr (projr (fst ?f)), snd ?f)" by (metis ok_iff prod.collapse sum.sel(2))
  have v: "TaskSpec_validate one_input = Inr ()" by code_simp
  have "stage_inputs toy_digest (sample_world ''x'') (snd ?f) (projr (fst ?f)) [] =
      stage_inputs toy_digest (sample_world ''abc'') (snd ?f) (projr (fst ?f)) []"
    by (rule staging_ignores_host [OF f v]) (simp_all add: sample_world_def)
  then show ?thesis by (simp add: Let_def)
qed

section \<open>Destinations that collide\<close>

text \<open>A defect: destinations are compared as texts, and the manifest's own name is not reserved. A valid
  task may stage one file at \<open>a\<close> and another at \<open>./a\<close>, or a file at \<open>input_manifest.json\<close>: staging and
  the check against the submitted digest both pass, yet the file in the workspace is not the recorded
  one.\<close>

theorem colliding_destinations_accepted:
  "list_all (\<lambda>dests.
     let t = staged_task (map (\<lambda>d. host_input d (''/data/'' @ d)) dests);
         w = (sample_world [])\<lparr> host_file := (\<lambda>p. Some (if p = ''/data/a'' then ''x'' else ''yy'')),
           host_copied := (\<lambda>p. if p = ''/data/a'' then ''x'' else ''yy'') \<rparr>
     in TaskSpec_validate t = Inr () \<and>
        (case freeze_host_inputs toy_digest 0 sample_new_id w t empty_store of
           (Inl _, _) \<Rightarrow> False
         | (Inr t1, s) \<Rightarrow>
             (case input_manifest_digest toy_digest w s t1 of
                Inl _ \<Rightarrow> False
              | Inr digest \<Rightarrow>
                  (case stage_inputs toy_digest w s (t1\<lparr> input_manifest_sha256 := PStr digest \<rparr>) [] of
                     Inl _ \<Rightarrow> False
                   | Inr (sts, _, ws) \<Rightarrow>
                       verify_input_manifest toy_digest (t1\<lparr> input_manifest_sha256 := PStr digest \<rparr>) sts = Inr () \<and>
                       truthy (si_present (hd sts)) \<and>
                       (case map_of ws (dest_path (si_destination (hd sts))) of
                          None \<Rightarrow> False | Some b \<Rightarrow> si_size_bytes (hd sts) \<noteq> PInt (int (length b)))))))
   [[''a'', ''./a''], [''input_manifest.json'']]"
  by code_simp

end
