(* ===== verification/Evaluation.thy ===== *)
theory Evaluation
  imports Tasks
begin

text \<open>
  \<open>contracts/src/openroad_platform_contracts/evaluation.py\<close>: the protected evaluation boundary.
  The pin's digest needs \<open>json.dumps\<close> and SHA-256, which come in as one argument \<open>digest\<close>.
\<close>

definition PROTECTED_EVALUATOR_CAPABILITY :: string where
  "PROTECTED_EVALUATOR_CAPABILITY = ''evaluate.protected''"

datatype VerdictStatus = ADMISSIBLE | REJECTED | INCOMPLETE

record Verdict =
  v_status :: VerdictStatus
  v_metrics :: "Metric list"
  v_artifacts :: "ArtifactDeclaration list"
  v_reason :: pyval
  v_loss_manifest :: pyval
  v_schema_version :: pyval

definition Verdict_validate :: "Verdict \<Rightarrow> unit result" where
  "Verdict_validate v = eall (
     [ validate_version (v_schema_version v),
       echeck (v_status v = ADMISSIBLE \<and> v_metrics v = [])
         (ContractError ''an admissible verdict must carry at least one metric''),
       echeck (v_status v \<noteq> ADMISSIBLE \<and> \<not> truthy (v_reason v))
         (ContractError ''a non-admissible verdict must state a reason'') ]
     @ concat (map (\<lambda>m.
         [ Metric_validate m,
           echeck (m_source_artifact_id m = PNone \<and>
                   \<not> truthy (dgetN (items (m_context m)) ''source_artifact_store_key''))
             (ContractError ''metric cites no source artifact'') ]) (v_metrics v))
     @ map ArtifactDeclaration_validate (v_artifacts v)
     @ [ validate_mapping ''loss_manifest'' (v_loss_manifest v) ])"

record EvaluationRequest =
  er_manifest :: PluginManifest
  er_task :: TaskSpec
  er_workspace :: pyval
  er_attempt_id :: pyval

definition EvaluationRequest_validate :: "EvaluationRequest \<Rightarrow> unit result" where
  "EvaluationRequest_validate r = eall
     [ PluginManifest_validate (er_manifest r),
       TaskSpec_validate (er_task r),
       echeck (\<not> is_str (er_workspace r) \<or> py_str (er_workspace r) = [])
         (ContractError ''workspace is required''),
       validate_identifier ''attempt_id'' (er_attempt_id r) True ]"

record EvaluatorPin =
  pin_plugin_id :: pyval
  pin_plugin_version :: pyval
  pin_manifest_sha256 :: pyval

definition EvaluatorPin_validate :: "EvaluatorPin \<Rightarrow> unit result" where
  "EvaluatorPin_validate p = eall
     [ validate_identifier ''plugin_id'' (pin_plugin_id p) True,
       validate_identifier ''plugin_version'' (pin_plugin_version p) True,
       validate_sha256 ''manifest_sha256'' (pin_manifest_sha256 p) True ]"

definition EvaluatorPin_of :: "(pyval \<Rightarrow> string) \<Rightarrow> PluginManifest \<Rightarrow> EvaluatorPin result" where
  "EvaluatorPin_of digest m =
     (if PStr PROTECTED_EVALUATOR_CAPABILITY \<notin> set (capabilities m)
      then Inl (ContractError ''plugin does not declare evaluate.protected'')
      else ebind (PluginManifest_to_dict m) (\<lambda>payload.
        let pin = \<lparr> pin_plugin_id = man_plugin_id m, pin_plugin_version = man_plugin_version m,
                    pin_manifest_sha256 = PStr (digest payload) \<rparr>
        in ebind (EvaluatorPin_validate pin) (\<lambda>_. Inr pin)))"

section \<open>Facts\<close>

lemma Verdict_metric_sourced:
  assumes "Verdict_validate v = Inr u" and "m \<in> set (v_metrics v)"
  shows "m_source_artifact_id m \<noteq> PNone \<or>
    truthy (dgetN (items (m_context m)) ''source_artifact_store_key'')"
  using assms by (auto simp: Verdict_validate_def eall_Inr_iff ball_Un ball_UN)

end
