(* ===== verification/Attempt.thy ===== *)
theory Attempt
  imports Adapter Staging Evaluation
begin

text \<open>
  The evidence side of one attempt (\<open>_run_attempt\<close> and its helpers in
  \<open>core/runtime/src/openroad_platform_runtime/runtime.py\<close>): what the platform
  writes before the plugin runs, what it refuses of what the plugin left, what it keeps copies of, and
  which artifacts and metrics it registers.
  The transactions that end the attempt are those of the kernel.
\<close>

section \<open>The protocol receipt\<close>

definition RECEIPT_ARTIFACT_KIND :: string where
  "RECEIPT_ARTIFACT_KIND = ''runtime_protocol_receipt''"

definition RECEIPT_FILENAME :: string where
  "RECEIPT_FILENAME = ''runtime_protocol_receipt.json''"

text \<open>A file the platform wrote: its name, its digest and the declaration it is registered under.\<close>

record written =
  wr_name :: string
  wr_sha256 :: string
  wr_kind :: string
  wr_metadata :: pydict

definition receipt_payload :: "pydict \<Rightarrow> string \<Rightarrow> string \<Rightarrow> pyval" where
  "receipt_payload protocol run_id attempt_id = PDict
     [ (PStr ''attempt_id'', PStr attempt_id), (PStr ''protocol'', PDict protocol), (PStr ''run_id'', PStr run_id),
       (PStr ''schema_version'', PInt 1) ]"

text \<open>
  \<open>_write_protocol_receipt\<close>: nothing unless the manifest asks for it. \<open>text\<close> is the JSON text of a value;
  the environment gains the path of the receipt and its digest.
\<close>

definition write_protocol_receipt ::
  "(bytes \<Rightarrow> string) \<Rightarrow> (pyval \<Rightarrow> bytes) \<Rightarrow> PluginManifest \<Rightarrow> TaskSpec \<Rightarrow> string \<Rightarrow> string \<Rightarrow> string \<Rightarrow> pydict \<Rightarrow> workspace \<Rightarrow>
   (written option \<times> pydict \<times> workspace) result" where
  "write_protocol_receipt H text manifest task run_id attempt_id receipt_path env ws =
     (if \<not> truthy (require_protocol_receipt (requirements manifest)) then Inr (None, env, ws)
      else case dgetN (items (task_inputs task)) ''experiment_protocol'' of
        PDict protocol \<Rightarrow>
          let content = text (receipt_payload protocol run_id attempt_id);
              variable = py_str (environment_receipt_variable (requirements manifest)) in
          ebind (write_file [RECEIPT_FILENAME] content ws) (\<lambda>ws'.
          Inr (Some \<lparr> wr_name = RECEIPT_FILENAME, wr_sha256 = H content, wr_kind = RECEIPT_ARTIFACT_KIND,
                 wr_metadata = [(PStr ''producer'', PStr ''runtime''), (PStr ''attempt_id'', PStr attempt_id)] \<rparr>,
               dset (dset env (PStr variable) (PStr receipt_path)) (PStr (variable @ ''_SHA256'')) (PStr (H content)), ws'))
      | _ \<Rightarrow> Inl (RuntimeStoreError ''plugin requires an immutable experiment_protocol in inputs''))"

definition manifest_written :: "string option \<Rightarrow> written option" where
  "manifest_written digest = map_option (\<lambda>d. \<lparr> wr_name = INPUT_MANIFEST_FILENAME, wr_sha256 = d,
     wr_kind = INPUT_MANIFEST_KIND, wr_metadata = [(PStr ''producer'', PStr ''runtime'')] \<rparr>) digest"

section \<open>What the platform refuses\<close>

text \<open>\<open>item.get("metadata") or {}\<close> and the calls on it; metadata that is no mapping raises.\<close>

definition forged :: "pyval \<Rightarrow> unit result" where
  "forged item =
     (let kind = dgetN (items item) ''kind''; raw = dgetN (items item) ''metadata'' in
      if kind = PStr RECEIPT_ARTIFACT_KIND
      then Inl (RuntimeStoreError ''adapter declared runtime-reserved artifact kind'')
      else if truthy raw \<and> \<not> is_dict raw then Inl AttributeError
      else
        let metadata = (if truthy raw then items raw else []) in
        if dgetN metadata ''official_qor'' \<noteq> PNone
        then Inl (RuntimeStoreError ''adapter declared a metric the platform reserves for the protected evaluator'')
        else echeck (startswith (py_str (dget_or metadata ''producer'' (PStr []))) ''protected-'')
          (RuntimeStoreError ''adapter claimed a protected-evaluator producer identity''))"

definition reject_forged_authority :: "AdapterExecution \<Rightarrow> unit result" where
  "reject_forged_authority x = eall (map forged (res_artifacts (ex_result x)))"

text \<open>The platform's own files must be as it wrote them; a missing one cannot be hashed.\<close>

definition untouched :: "(bytes \<Rightarrow> string) \<Rightarrow> (string \<Rightarrow> ws_file) \<Rightarrow> written \<Rightarrow> unit result" where
  "untouched H look w =
     (case wf_hashed (look (wr_name w)) of
        None \<Rightarrow> Inl OSError
      | Some b \<Rightarrow> echeck (H b \<noteq> wr_sha256 w) (RuntimeStoreError ''adapter modified the platform's own file''))"

definition check_untouched :: "(bytes \<Rightarrow> string) \<Rightarrow> (string \<Rightarrow> ws_file) \<Rightarrow> written list \<Rightarrow> unit result" where
  "check_untouched H look ws = eall (map (untouched H look) ws)"

definition written_declaration :: "written \<Rightarrow> pydict" where
  "written_declaration w = [(PStr ''kind'', PStr (wr_kind w)), (PStr ''path'', PStr (wr_name w)),
     (PStr ''metadata'', PDict (wr_metadata w))]"

section \<open>Snapshots of the platform's files\<close>

text \<open>
  \<open>snapshot_evidence\<close> of \<open>store.py\<close> copies a file of the workspace into the custody of the platform, by
  attempt and name; a copy of the same size is taken to be the file itself.
\<close>

type_synonym evidence = "(string \<times> string) \<rightharpoonup> bytes"

definition snapshot_evidence ::
  "(bytes \<Rightarrow> string) \<Rightarrow> string list \<Rightarrow> (string \<Rightarrow> ws_file) \<Rightarrow> string \<Rightarrow> string \<Rightarrow> evidence \<Rightarrow> unit result \<times> evidence" where
  "snapshot_evidence H wsroot look attempt_id name ev =
     (let f = look name in
      if \<not> prefix wsroot (wf_path f) then (Inl (RuntimeStoreError ''evidence escapes workspace''), ev)
      else case wf_hashed f of
        None \<Rightarrow> (Inr (), ev)
      | Some b \<Rightarrow>
          if (case ev (attempt_id, name) of None \<Rightarrow> False | Some c \<Rightarrow> length c = length b) then (Inr (), ev)
          else if H (wf_copied f) \<noteq> H b then (Inl (RuntimeStoreError ''evidence changed while being captured''), ev)
          else (Inr (), ev((attempt_id, name) \<mapsto> wf_copied f)))"

definition SNAPSHOT_FILES :: "string list" where
  "SNAPSHOT_FILES = [''adapter_request.json'', ''adapter_result.json'', ''adapter.log'', INPUT_MANIFEST_FILENAME,
     ''runtime_protocol_receipt.json'']"

fun snapshot_files ::
  "(bytes \<Rightarrow> string) \<Rightarrow> string list \<Rightarrow> (string \<Rightarrow> ws_file) \<Rightarrow> string \<Rightarrow> string list \<Rightarrow> evidence \<Rightarrow> unit result \<times> evidence" where
  "snapshot_files H wsroot look attempt_id [] ev = (Inr (), ev)"
| "snapshot_files H wsroot look attempt_id (f # fs) ev =
     (case snapshot_evidence H wsroot look attempt_id f ev of
        (Inl e, ev1) \<Rightarrow> (Inl e, ev1) | (Inr _, ev1) \<Rightarrow> snapshot_files H wsroot look attempt_id fs ev1)"

section \<open>Collection by the manifest\<close>

text \<open>
  \<open>_collect_manifest_artifacts\<close>. \<open>glob\<close> gives the resolved paths of the files of the workspace that match
  a pattern, or the exception a bad pattern raises. The kind is the rule's, whatever it is; \<open>str\<close> of a
  rule's kind or pattern is given for strings, integers, booleans and null.
\<close>

definition rule_patterns :: "pydict \<Rightarrow> pyval" where
  "rule_patterns rule = dget_or rule ''patterns'' (dgetN rule ''pattern'')"

definition collected_declaration :: "string \<Rightarrow> string \<Rightarrow> pydict" where
  "collected_declaration kind key = [(PStr ''kind'', PStr kind), (PStr ''store_key'', PStr key),
     (PStr ''metadata'', PDict [(PStr ''producer'', PStr ''toolkit_manifest''), (PStr ''collected'', PBool True)])]"

fun collect_paths ::
  "string list \<Rightarrow> pydict \<Rightarrow> string list list \<Rightarrow> string list \<Rightarrow> (pydict list \<times> string list) result" where
  "collect_paths wsroot rule [] occupied = Inr ([], occupied)"
| "collect_paths wsroot rule (p # ps) occupied =
     (if \<not> prefix wsroot p then Inl (RuntimeStoreError ''artifact collection escaped workspace'')
      else
        let key = key_of wsroot p in
        if key \<in> set occupied then collect_paths wsroot rule ps occupied
        else case dget rule ''kind'' of
          None \<Rightarrow> Inl KeyError
        | Some kind \<Rightarrow>
            ebind (collect_paths wsroot rule ps (key # occupied)) (\<lambda>(ds, occ).
            Inr (collected_declaration (text_of kind) key # ds, occ)))"

definition collect_rule ::
  "string list \<Rightarrow> (string \<Rightarrow> string list list result) \<Rightarrow> pydict \<Rightarrow> string list \<Rightarrow> (pydict list \<times> string list) result" where
  "collect_rule wsroot glob rule occupied =
     (let patterns = rule_patterns rule in
      if patterns = PNone \<or> \<not> truthy (dget_or rule ''collect'' (PBool True)) then Inr ([], occupied)
      else if \<not> is_str patterns \<and> \<not> is_list patterns
        then Inl (RuntimeStoreError ''artifact collection patterns must be strings'')
      else ebind (emap (\<lambda>p. glob (text_of p)) (if is_str patterns then [patterns] else elems patterns)) (\<lambda>found.
        let matches = remdups (concat found) in
        if matches = [] \<and> truthy (dgetN rule ''required'')
        then Inl (RuntimeStoreError ''required artifact collection matched nothing'')
        else collect_paths wsroot rule (sort matches) occupied))"

fun collect_rules ::
  "string list \<Rightarrow> (string \<Rightarrow> string list list result) \<Rightarrow> pydict list \<Rightarrow> string list \<Rightarrow> pydict list result" where
  "collect_rules wsroot glob [] occupied = Inr []"
| "collect_rules wsroot glob (r # rs) occupied =
     ebind (collect_rule wsroot glob r occupied) (\<lambda>(ds, occ).
     ebind (collect_rules wsroot glob rs occ) (\<lambda>es. Inr (ds @ es)))"

definition collect_manifest_artifacts ::
  "string list \<Rightarrow> (string \<Rightarrow> string list list result) \<Rightarrow> PluginManifest \<Rightarrow> string list \<Rightarrow> pydict list result" where
  "collect_manifest_artifacts wsroot glob manifest occupied =
     collect_rules wsroot glob (map items (artifact_rules manifest)) occupied"

section \<open>Evaluation and metrics\<close>

text \<open>\<open>_evaluate\<close>: the evaluator is asked only about a success; a rejected verdict fails the attempt.\<close>

definition verdict_declaration :: "ArtifactDeclaration \<Rightarrow> pydict" where
  "verdict_declaration a = [(PStr ''kind'', ad_kind a), (PStr ''path'', ad_path a), (PStr ''metadata'', ad_metadata a)]"

definition evaluate_run ::
  "(bytes \<Rightarrow> string) \<Rightarrow> string list \<Rightarrow> (string \<Rightarrow> ws_file) \<Rightarrow> (EvaluationRequest \<Rightarrow> Verdict result) option \<Rightarrow>
   AdapterExecution \<Rightarrow> PluginManifest \<Rightarrow> TaskSpec \<Rightarrow> string \<Rightarrow> string \<Rightarrow> (pydict list \<times> Metric list) result" where
  "evaluate_run H wsroot look evaluator x manifest task workspace attempt_id =
     (if res_status (ex_result x) \<noteq> SUCCEEDED then Inr ([], [])
      else case evaluator of
        None \<Rightarrow> if truthy (require_protected_evaluation (requirements manifest))
                then Inl (RuntimeStoreError ''protected evaluator is unavailable'') else Inr ([], [])
      | Some ev \<Rightarrow>
          ebind (ev \<lparr> er_manifest = manifest, er_task = task, er_workspace = PStr workspace,
                      er_attempt_id = PStr attempt_id \<rparr>) (\<lambda>v.
          ebind (Verdict_validate v) (\<lambda>_.
          if v_status v = REJECTED then Inl (RuntimeStoreError ''protected evaluator rejected the run'')
          else ebind (validate_artifact_declarations H wsroot look manifest (map verdict_declaration (v_artifacts v)) [] False False)
            (\<lambda>as. Inr (as, v_metrics v)))))"

text \<open>
  \<open>_register_metrics\<close>: the source key is replaced by the identifier its artifact was registered under;
  the parser fields move out of the context. A metric of the plugin is an object, one of the evaluator a
  \<open>Metric\<close>. A source key that cannot be hashed raises \<open>TypeError\<close>, and so does \<open>Metric(**item)\<close> for a
  missing or an unknown field.
\<close>

definition store_key_ids :: "pydict list \<Rightarrow> string list \<Rightarrow> (pyval \<times> string) list" where
  "store_key_ids registered ids = rev (zip (map (\<lambda>d. dgetN d ''store_key'') registered) ids)"

definition metric_item :: "pyval + Metric \<Rightarrow> pydict result" where
  "metric_item raw = (case raw of Inl v \<Rightarrow> dict_of v | Inr m \<Rightarrow> ebind (Metric_to_dict m) (\<lambda>v. Inr (items v)))"

definition resolve_source :: "(pyval \<times> string) list \<Rightarrow> pyval \<Rightarrow> pydict \<Rightarrow> pydict result" where
  "resolve_source by_key source item =
     (if source = PNone then Inr item
      else if is_list source \<or> is_dict source then Inl TypeError
      else case map_of by_key source of
        None \<Rightarrow> Inl (RuntimeStoreError ''metric references an unregistered artifact'')
      | Some aid \<Rightarrow> Inr (dset item (PStr ''source_artifact_id'') (PStr aid)))"

definition resolve_metric :: "(pyval \<times> string) list \<Rightarrow> pyval + Metric \<Rightarrow> Metric result" where
  "resolve_metric by_key raw =
     ebind (metric_item raw) (\<lambda>item.
     ebind (dict_or_empty (dgetN item ''context'')) (\<lambda>context.
     ebind (resolve_source by_key (dgetN context ''source_artifact_store_key'') item) (\<lambda>item1.
     let context' = dpop (dpop (dpop context ''source_artifact_store_key'') ''parser_id'') ''parser_version'';
         item2 = dpop (dset (dset (dset item1 (PStr ''parser_id'') (dgetN context ''parser_id''))
               (PStr ''parser_version'') (dgetN context ''parser_version'')) (PStr ''context'') (PDict context'))
             ''source_artifact_store_key'' in
     if unknown_keys Metric_fields (map fst item2) = [] \<and> has_key item2 ''name'' \<and> has_key item2 ''value''
     then Inr (Metric_of item2) else Inl TypeError)))"

definition resolve_metrics :: "pyval list \<Rightarrow> Metric list \<Rightarrow> pydict list \<Rightarrow> string list \<Rightarrow> Metric list result" where
  "resolve_metrics raw extra registered ids =
     emap (resolve_metric (store_key_ids registered ids)) (map Inl raw @ map Inr extra)"

section \<open>The evidence of an attempt\<close>

definition FAILURE_EVIDENCE_FILES :: "(string \<times> string) list" where
  "FAILURE_EVIDENCE_FILES =
     [ (''adapter_request.json'', ''runtime_evidence_request''), (''adapter_result.json'', ''runtime_evidence_result''),
       (''adapter.log'', ''runtime_evidence_log''), (INPUT_MANIFEST_FILENAME, ''runtime_evidence_input_manifest''),
       (''runtime_protocol_receipt.json'', ''runtime_evidence_protocol_receipt'') ]"

definition evidence_declarations :: "(string \<Rightarrow> ws_file) \<Rightarrow> string list \<Rightarrow> pydict list" where
  "evidence_declarations look existing =
     map (\<lambda>(filename, kind). [(PStr ''kind'', PStr kind), (PStr ''store_key'', PStr filename),
         (PStr ''metadata'', PDict [(PStr ''producer'', PStr ''runtime''), (PStr ''failure_evidence'', PBool True)])])
       (filter (\<lambda>(filename, _). filename \<notin> set existing \<and> wf_hashed (look filename) \<noteq> None) FAILURE_EVIDENCE_FILES)"

text \<open>
  \<open>_register_failure_evidence\<close>: the error it reports, if any. \<open>OSError\<close>, \<open>RuntimeStoreError\<close> and
  \<open>ValueError\<close> are caught, other exceptions pass through.
\<close>

definition register_failure_evidence ::
  "(bytes \<Rightarrow> string) \<Rightarrow> timestamp \<Rightarrow> string list \<Rightarrow> (string \<Rightarrow> ws_file) \<Rightarrow> string \<Rightarrow> (nat \<Rightarrow> string) \<Rightarrow> store \<Rightarrow>
   pyexn option result \<times> store" where
  "register_failure_evidence H now wsroot look attempt_id new_id s =
     (let decls = evidence_declarations look (map ar_store_key (list_artifacts attempt_id s)) in
      if decls = [] then (Inr None, s)
      else case register_artifacts H now wsroot look attempt_id (zip (map new_id [0..<length decls]) decls) s of
        (Inr _, s1) \<Rightarrow> (Inr None, s1)
      | (Inl e, s1) \<Rightarrow> if e = OSError \<or> is_RuntimeStoreError e \<or> is_ValueError e then (Inr (Some e), s1) else (Inl e, s1))"

text \<open>
  What a plugin did in one attempt: the outcome of its process, its result file and the files it left.
  The evaluator works in the same workspace, so the files may have changed again after it; the last two
  fields are the files and the matches of glob patterns from then on.
\<close>

record behaviour =
  bh_outcome :: ProcessOutcome
  bh_file :: "json_text option"
  bh_look :: "string \<Rightarrow> ws_file"
  bh_after :: "string \<Rightarrow> ws_file"
  bh_glob :: "string \<Rightarrow> string list list result"

text \<open>
  What surrounds an attempt: the clock, the identifiers drawn, the host, the resolved workspace, the
  protected evaluator and the plugin, which sees the workspace and its environment.
\<close>

record surroundings =
  sr_now :: timestamp
  sr_artifact_id :: "nat \<Rightarrow> string"
  sr_evidence_id :: "nat \<Rightarrow> string"
  sr_metric_id :: "nat \<Rightarrow> string"
  sr_world :: world
  sr_root :: "string list"
  sr_evaluator :: "(EvaluationRequest \<Rightarrow> Verdict result) option"
  sr_plugin :: "workspace \<Rightarrow> pydict \<Rightarrow> behaviour"
  sr_receipt_path :: string
  sr_environment :: pydict
  sr_started :: string
  sr_ended :: string

text \<open>
  \<open>_run_attempt\<close> from the check of the staged inputs to the refusal of forged authority.
\<close>

definition run_plugin ::
  "(bytes \<Rightarrow> string) \<Rightarrow> (pyval \<Rightarrow> bytes) \<Rightarrow> surroundings \<Rightarrow> run_row \<Rightarrow> string \<Rightarrow> PluginManifest \<Rightarrow> StagedInput list \<Rightarrow>
   workspace \<Rightarrow> (written option \<times> behaviour \<times> AdapterExecution) result" where
  "run_plugin H text sr run attempt_id manifest staged ws =
     ebind (verify_input_manifest H (rn_task run) staged) (\<lambda>_.
     ebind (write_protocol_receipt H text manifest (rn_task run) (rn_id run) attempt_id (sr_receipt_path sr)
              (sr_environment sr) ws) (\<lambda>(receipt, env, ws2).
     let bh = sr_plugin sr ws2 env in
     ebind (execute H (sr_root sr) (bh_look bh) (bh_file bh) (bh_outcome bh) (sr_started sr) (sr_ended sr) manifest
              (rn_task run) False) (\<lambda>x.
     ebind (reject_forged_authority x) (\<lambda>_. Inr (receipt, bh, x)))))"

text \<open>
  From the check of the platform's own files to the list of declarations to register, in order, with the
  evaluator's metrics.
\<close>

definition declarations_to_register ::
  "(bytes \<Rightarrow> string) \<Rightarrow> surroundings \<Rightarrow> run_row \<Rightarrow> attempt_row \<Rightarrow> PluginManifest \<Rightarrow> written option \<Rightarrow> written option \<Rightarrow>
   behaviour \<Rightarrow> AdapterExecution \<Rightarrow> (pydict list \<times> Metric list) result" where
  "declarations_to_register H sr run attempt manifest input_manifest receipt bh x =
     ebind (check_untouched H (bh_look bh) (List.map_filter id [receipt, input_manifest])) (\<lambda>_.
     ebind (validate_artifact_declarations H (sr_root sr) (bh_look bh) manifest
              (map written_declaration (List.map_filter id [input_manifest, receipt])) [] False True) (\<lambda>own.
     ebind (evaluate_run H (sr_root sr) (bh_after bh) (sr_evaluator sr) x manifest (rn_task run) (at_workspace attempt)
              (at_id attempt)) (\<lambda>(judged, ms).
     ebind (collect_manifest_artifacts (sr_root sr) (bh_glob bh) manifest
              (map (\<lambda>d. py_str (dgetN d ''store_key'')) (own @ ex_artifacts x @ judged))) (\<lambda>collected.
     Inr (own @ ex_artifacts x @ judged @ collected, ms)))))"

text \<open>
  The registration of artifacts, then failure evidence for an attempt that did not succeed and metrics
  for one that did.
\<close>

definition register_evidence ::
  "(bytes \<Rightarrow> string) \<Rightarrow> surroundings \<Rightarrow> string \<Rightarrow> behaviour \<Rightarrow> AdapterExecution \<Rightarrow> pydict list \<Rightarrow> Metric list \<Rightarrow> store \<Rightarrow>
   unit result \<times> store" where
  "register_evidence H sr attempt_id bh x decls ms s =
     (case register_artifacts H (sr_now sr) (sr_root sr) (bh_after bh) attempt_id
             (zip (map (sr_artifact_id sr) [0..<length decls]) decls) s of
        (Inl e, s1) \<Rightarrow> (Inl e, s1)
      | (Inr ids, s1) \<Rightarrow>
          if res_status (ex_result x) \<noteq> SUCCEEDED then
            (case register_failure_evidence H (sr_now sr) (sr_root sr) (bh_after bh) attempt_id (sr_evidence_id sr) s1 of
               (Inl e, s2) \<Rightarrow> (Inl e, s2)
             | (Inr (Some e), s2) \<Rightarrow> (Inl (RuntimeStoreError ''could not preserve failure evidence''), s2)
             | (Inr None, s2) \<Rightarrow> (Inr (), s2))
          else
            (case resolve_metrics (res_metrics (ex_result x)) ms decls ids of
               Inl e \<Rightarrow> (Inl e, s1)
             | Inr rs \<Rightarrow>
                 (case register_metrics (sr_now sr) attempt_id (zip (map (sr_metric_id sr) [0..<length rs]) rs) s1 of
                    (Inl e, s2) \<Rightarrow> (Inl e, s2) | (Inr _, s2) \<Rightarrow> (Inr (), s2))))"

text \<open>
  \<open>_run_attempt\<close> up to the transactions that end the attempt, which are the kernel's: stage and record
  the inputs, run the plugin, keep copies of the platform's files, check, register.
\<close>

definition run_attempt ::
  "(bytes \<Rightarrow> string) \<Rightarrow> (pyval \<Rightarrow> bytes) \<Rightarrow> surroundings \<Rightarrow> run_row \<Rightarrow> attempt_row \<Rightarrow> PluginManifest \<Rightarrow> workspace \<Rightarrow>
   store \<Rightarrow> evidence \<Rightarrow> AdapterExecution result \<times> store \<times> evidence" where
  "run_attempt H text sr run attempt manifest ws s ev =
     (case stage_inputs H (sr_world sr) s (rn_task run) ws of
        Inl e \<Rightarrow> (Inl e, s, ev)
      | Inr (staged, digest, ws1) \<Rightarrow>
          (case record_inputs (sr_now sr) (at_id attempt) staged s of
             (Inl e, s1) \<Rightarrow> (Inl e, s1, ev)
           | (Inr _, s1) \<Rightarrow>
               (case run_plugin H text sr run (at_id attempt) manifest staged ws1 of
                  Inl e \<Rightarrow> (Inl e, s1, ev)
                | Inr (receipt, bh, x) \<Rightarrow>
                    (case snapshot_files H (sr_root sr) (bh_look bh) (at_id attempt) SNAPSHOT_FILES ev of
                       (Inl e, ev1) \<Rightarrow> (Inl e, s1, ev1)
                     | (Inr _, ev1) \<Rightarrow>
                         (case declarations_to_register H sr run attempt manifest (manifest_written digest) receipt bh x of
                            Inl e \<Rightarrow> (Inl e, s1, ev1)
                          | Inr (decls, ms) \<Rightarrow>
                              (case register_evidence H sr (at_id attempt) bh x decls ms s1 of
                                 (Inl e, s2) \<Rightarrow> (Inl e, s2, ev1) | (Inr _, s2) \<Rightarrow> (Inr x, s2, ev1)))))))"

section \<open>What registration changes\<close>

text \<open>Registration touches the artifacts table and the object store only.\<close>

definition only_artifacts :: "store \<Rightarrow> store \<Rightarrow> bool" where
  "only_artifacts s s' = (s' = s\<lparr> artifacts := artifacts s', objects := objects s' \<rparr>)"

lemma only_artifacts_refl: "only_artifacts s s"
  by (simp add: only_artifacts_def)

lemma only_artifacts_trans: "only_artifacts s t \<Longrightarrow> only_artifacts t u \<Longrightarrow> only_artifacts s u"
  by (cases s; cases t; cases u) (simp add: only_artifacts_def)

lemma store_object_only: "store_object H b d n s = (r, s') \<Longrightarrow> only_artifacts s s'"
  by (auto simp: store_object_def only_artifacts_def split: option.splits if_splits)

lemma insert_artifact_only: "insert_artifact a s = (r, s') \<Longrightarrow> only_artifacts s s'"
  by (auto simp: insert_artifact_def only_artifacts_def split: if_splits)

lemma register_one_only:
  assumes "register_one H now wsroot look attempt_id aid d s = (r, s')"
  shows "only_artifacts s s'"
  using assms unfolding register_one_def
  by (auto simp: Let_def only_artifacts_refl split: option.splits sum.splits if_splits prod.splits
      dest!: store_object_only insert_artifact_only intro: only_artifacts_trans)

lemma register_one_key:
  assumes "register_one H now wsroot look attempt_id aid d s = (Inr u, s')"
  shows "\<exists>a. artifacts s' = artifacts s @ [a] \<and> ar_id a = aid \<and> ar_store_key a = py_str (dgetN d ''store_key'')"
proof -
  obtain kv k m b s1 where d: "dget d ''store_key'' = Some kv" and
    st: "store_object H (wf_copied (look (py_str kv))) (H b) (int (length b)) s = (Inr (), s1)" and
    ins: "insert_artifact \<lparr> ar_id = aid, ar_attempt = attempt_id, ar_kind = py_str k, ar_store_key = py_str kv,
      ar_size = int (length b), ar_sha256 = H b, ar_metadata = PDict m, ar_created = now,
      ar_storage = STORAGE_OBJECT \<rparr> s1 = (Inr u, s')"
    using assms unfolding register_one_def
    by (auto simp: Let_def split: option.splits sum.splits if_splits prod.splits)
  show ?thesis
    using insert_artifact_effect(2) [OF ins] obj.publish_tables [OF st] d by (simp add: dget_or_def)
qed

lemma register_loop_keys:
  assumes "register_loop H now wsroot look attempt_id decls s = (r, s')"
  shows "only_artifacts s s' \<and> (\<forall>ids. r = Inr ids \<longrightarrow> ids = map fst decls \<and>
    (\<exists>new. artifacts s' = artifacts s @ new \<and> map ar_id new = ids \<and>
      map ar_store_key new = map (\<lambda>d. py_str (dgetN (snd d) ''store_key'')) decls))"
  using assms
proof (induction decls arbitrary: s r s')
  case Nil
  then show ?case by (auto simp: only_artifacts_refl)
next
  case (Cons x decls)
  obtain aid d where x: "x = (aid, d)" by fastforce
  obtain r1 s1 where one: "register_one H now wsroot look attempt_id aid d s = (r1, s1)" by fastforce
  obtain r2 s2 where loop: "register_loop H now wsroot look attempt_id decls s1 = (r2, s2)" by fastforce
  note only = register_one_only [OF one] and ih = Cons.IH [OF loop]
  show ?case
  proof (cases r1)
    case (Inl e)
    then show ?thesis using Cons.prems x one only by auto
  next
    case (Inr u)
    obtain a where "artifacts s1 = artifacts s @ [a]" "ar_id a = aid" "ar_store_key a = py_str (dgetN d ''store_key'')"
      using register_one_key [OF one [unfolded Inr]] by blast
    then show ?thesis
      using Cons.prems x one Inr loop ih only_artifacts_trans [OF only, of s2]
      by (cases r2) (auto intro!: exI [of _ "a # _"])
  qed
qed

text \<open>New artifacts of an attempt, each with its bytes in custody.\<close>

definition grows_by :: "(bytes \<Rightarrow> string) \<Rightarrow> string \<Rightarrow> store \<Rightarrow> artifact_row list \<Rightarrow> store \<Rightarrow> bool" where
  "grows_by H attempt_id s new s' = (custody_step H s s' \<and> artifacts s' = artifacts s @ new \<and>
     (\<forall>a \<in> set new. ar_attempt a = attempt_id \<and> in_custody H s' a))"

lemma grows_by_nothing: "custody_step H s s' \<Longrightarrow> artifacts s' = artifacts s \<Longrightarrow> grows_by H attempt_id s [] s'"
  by (simp add: grows_by_def)

lemma grows_by_trans:
  assumes "grows_by H attempt_id s as t" "grows_by H attempt_id t bs u"
  shows "grows_by H attempt_id s (as @ bs) u"
proof -
  have "in_custody H u a" if "a \<in> set as" for a
    using assms that in_custody_kept by (auto simp: grows_by_def custody_step_def)
  then show ?thesis using assms custody_step_trans unfolding grows_by_def by auto
qed

lemma register_artifacts_grows:
  assumes "register_artifacts H now wsroot look attempt_id decls s = (r, s')"
  obtains new where "grows_by H attempt_id s new s'" "only_artifacts s s'" "\<forall>e. r = Inl e \<longrightarrow> new = []"
    "\<forall>ids. r = Inr ids \<longrightarrow> ids = map fst decls \<and> map ar_id new = ids \<and>
       map ar_store_key new = map (\<lambda>d. py_str (dgetN (snd d) ''store_key'')) decls"
proof -
  obtain r1 s1 where loop: "register_loop H now wsroot look attempt_id decls s = (r1, s1)" by fastforce
  note eff = register_loop_effect [OF loop] and keys = register_loop_keys [OF loop]
  show thesis
  proof (cases r1)
    case (Inl e)
    then have "r = Inl e" "s' = s\<lparr> objects := objects s1 \<rparr>" using assms loop by (auto simp: register_artifacts_def)
    then show thesis using eff by (intro that [of "[]"]) (auto simp: grows_by_def custody_step_def only_artifacts_def)
  next
    case (Inr ids)
    then have "r = Inr ids" "s' = s1" using assms loop by (auto simp: register_artifacts_def)
    then show thesis using eff keys Inr by (auto simp: grows_by_def intro!: that)
  qed
qed

lemma register_failure_evidence_grows:
  assumes "register_failure_evidence H now wsroot look attempt_id new_id s = (r, s')"
  obtains new where "grows_by H attempt_id s new s'" "only_artifacts s s'"
proof (cases "evidence_declarations look (map ar_store_key (list_artifacts attempt_id s)) = []")
  case True
  then have "s' = s" using assms by (simp add: register_failure_evidence_def Let_def)
  then show thesis by (intro that [of "[]"]) (simp_all add: grows_by_nothing custody_step_refl only_artifacts_refl)
next
  case False
  let ?ds = "evidence_declarations look (map ar_store_key (list_artifacts attempt_id s))"
  obtain r1 s1 where reg: "register_artifacts H now wsroot look attempt_id (zip (map new_id [0..<length ?ds]) ?ds) s = (r1, s1)"
    by fastforce
  have "s' = s1" using assms False reg by (auto simp: register_failure_evidence_def Let_def split: sum.splits if_splits)
  then show thesis by (auto intro: register_artifacts_grows [OF reg] that)
qed

lemma only_artifacts_fields: "only_artifacts s s' \<Longrightarrow> inputs s' = inputs s \<and> metrics s' = metrics s"
  by (cases s; cases s') (simp add: only_artifacts_def)

lemma grows_by_metrics: "grows_by H attempt_id s new (s'\<lparr> metrics := ms \<rparr>) = grows_by H attempt_id s new s'"
  by (simp add: grows_by_def custody_step_def in_custody_def)

lemma register_metrics_rows:
  assumes "register_metrics now attempt_id (zip ids rs) s = (r, s')" "length ids = length rs"
  obtains rows where "s' = s\<lparr> metrics := metrics s @ rows \<rparr>" "\<forall>e. r = Inl e \<longrightarrow> rows = []"
    "\<forall>u. r = Inr u \<longrightarrow> map mr_source rows = map m_source_artifact_id rs"
proof -
  obtain r1 s1 where i: "insert_metrics now attempt_id (zip ids rs) s = (r1, s1)" by fastforce
  let ?rows = "map (\<lambda>x. metric_row_of now attempt_id (fst x) (snd x)) (zip ids rs)"
  have rows: "map mr_source ?rows = map m_source_artifact_id rs"
    using assms(2) by (intro nth_equalityI) (simp_all add: metric_row_of_def)
  show thesis
  proof (cases r1)
    case (Inl e)
    then show thesis using assms(1) i by (intro that [of "[]"]) (auto simp: register_metrics_def)
  next
    case (Inr u)
    then show thesis
      using insert_metrics_effect [OF i] assms(1) i rows by (intro that [of ?rows]) (auto simp: register_metrics_def)
  qed
qed

text \<open>
  What \<open>register_evidence\<close> adds: artifacts in custody in every case; metrics only after the artifacts,
  and only for a success, the resolved metrics in order.
\<close>

definition adds_evidence ::
  "(bytes \<Rightarrow> string) \<Rightarrow> string \<Rightarrow> AdapterExecution \<Rightarrow> pydict list \<Rightarrow> Metric list \<Rightarrow> store \<Rightarrow> unit result \<Rightarrow> store \<Rightarrow>
   artifact_row list \<Rightarrow> metric_row list \<Rightarrow> bool" where
  "adds_evidence H attempt_id x decls ms s r s' new rows \<longleftrightarrow>
     grows_by H attempt_id s new s' \<and> inputs s' = inputs s \<and> metrics s' = metrics s @ rows \<and>
     (rows \<noteq> [] \<longrightarrow> r = Inr () \<and> res_status (ex_result x) = SUCCEEDED) \<and>
     (r = Inr () \<and> res_status (ex_result x) = SUCCEEDED \<longrightarrow>
       (\<exists>rs. resolve_metrics (res_metrics (ex_result x)) ms decls (map ar_id new) = Inr rs \<and>
          map ar_store_key new = map (\<lambda>d. py_str (dgetN d ''store_key'')) decls \<and>
          map mr_source rows = map m_source_artifact_id rs))"

lemma register_artifacts_drawn:
  assumes "register_artifacts H now wsroot look attempt_id (zip (map new_id [0..<length decls]) decls) s = (r, s')"
  obtains new where "grows_by H attempt_id s new s'" "only_artifacts s s'"
    "\<forall>ids. r = Inr ids \<longrightarrow> map ar_id new = ids \<and> map ar_store_key new = map (\<lambda>d. py_str (dgetN d ''store_key'')) decls"
proof -
  have keys: "map (\<lambda>d. py_str (dgetN (snd d) ''store_key'')) (zip (map new_id [0..<length decls]) decls) =
      map (\<lambda>d. py_str (dgetN d ''store_key'')) decls"
    by (rule nth_equalityI) simp_all
  obtain new where new: "grows_by H attempt_id s new s'" "only_artifacts s s'"
    "\<forall>ids. r = Inr ids \<longrightarrow> ids = map fst (zip (map new_id [0..<length decls]) decls) \<and> map ar_id new = ids \<and>
       map ar_store_key new = map (\<lambda>d. py_str (dgetN d ''store_key'')) decls"
    by (rule register_artifacts_grows [OF assms, unfolded keys])
  show thesis by (rule that [OF new(1,2)]) (use new(3) in blast)
qed

lemma register_evidence_adds:
  assumes "register_evidence H sr attempt_id bh x decls ms s = (r, s')"
  obtains new rows where "adds_evidence H attempt_id x decls ms s r s' new rows"
proof -
  obtain r1 s1 where reg: "register_artifacts H (sr_now sr) (sr_root sr) (bh_after bh) attempt_id
      (zip (map (sr_artifact_id sr) [0..<length decls]) decls) s = (r1, s1)"
    by fastforce
  obtain new where new: "grows_by H attempt_id s new s1" "only_artifacts s s1"
    "\<forall>ids. r1 = Inr ids \<longrightarrow> map ar_id new = ids \<and> map ar_store_key new = map (\<lambda>d. py_str (dgetN d ''store_key'')) decls"
    by (rule register_artifacts_drawn [OF reg])
  have s1: "inputs s1 = inputs s" "metrics s1 = metrics s" using only_artifacts_fields [OF new(2)] by simp_all
  consider (refused) e where "r1 = Inl e" | (failed) ids where "r1 = Inr ids" "res_status (ex_result x) \<noteq> SUCCEEDED"
    | (unresolved) ids e where "r1 = Inr ids" "res_status (ex_result x) = SUCCEEDED"
        "resolve_metrics (res_metrics (ex_result x)) ms decls ids = Inl e"
    | (resolved) ids rs where "r1 = Inr ids" "res_status (ex_result x) = SUCCEEDED"
        "resolve_metrics (res_metrics (ex_result x)) ms decls ids = Inr rs"
    by (metis sum.exhaust)
  then show thesis
  proof cases
    case refused
    then show thesis
      using assms reg new(1) s1 by (intro that [of new "[]"]) (auto simp: register_evidence_def adds_evidence_def)
  next
    case failed
    obtain r2 s2 where ev: "register_failure_evidence H (sr_now sr) (sr_root sr) (bh_after bh) attempt_id
        (sr_evidence_id sr) s1 = (r2, s2)" by fastforce
    obtain more where more: "grows_by H attempt_id s1 more s2" "only_artifacts s1 s2"
      by (rule register_failure_evidence_grows [OF ev])
    have "s' = s2"
      using assms reg failed ev by (auto simp: register_evidence_def split: sum.splits option.splits)
    then show thesis
      using grows_by_trans [OF new(1) more(1)] only_artifacts_fields [OF more(2)] s1 failed
      by (intro that [of "new @ more" "[]"]) (simp add: adds_evidence_def)
  next
    case unresolved
    then show thesis
      using assms reg new(1) s1 by (intro that [of new "[]"]) (auto simp: register_evidence_def adds_evidence_def)
  next
    case resolved
    obtain r3 s3 where m: "register_metrics (sr_now sr) attempt_id (zip (map (sr_metric_id sr) [0..<length rs]) rs) s1 = (r3, s3)"
      by fastforce
    obtain rows where rows: "s3 = s1\<lparr> metrics := metrics s1 @ rows \<rparr>" "\<forall>e. r3 = Inl e \<longrightarrow> rows = []"
      "\<forall>u. r3 = Inr u \<longrightarrow> map mr_source rows = map m_source_artifact_id rs"
      by (rule register_metrics_rows [OF m]) simp
    have s': "s' = s3" "(r = Inr ()) = (\<exists>u. r3 = Inr u)"
      using assms reg resolved m by (auto simp: register_evidence_def split: sum.splits)
    have "adds_evidence H attempt_id x decls ms s r s' new rows"
      using s' rows new resolved s1 by (cases r3) (auto simp: adds_evidence_def grows_by_metrics)
    then show thesis by (rule that)
  qed
qed

section \<open>What a metric cites\<close>

lemma dget_dpop: "dget (dpop d k) x = (if x = k then None else dget d x)"
  by (induction d) (auto simp: dpop_def dget_def)

text \<open>The source key a reported metric names in its context, and the artifact identifier it names itself.\<close>

definition cited_key :: "pyval + Metric \<Rightarrow> pyval" where
  "cited_key raw =
     (case ebind (metric_item raw) (\<lambda>item. dict_or_empty (dgetN item ''context'')) of
        Inl _ \<Rightarrow> PNone | Inr context \<Rightarrow> dgetN context ''source_artifact_store_key'')"

definition claimed_source :: "pyval + Metric \<Rightarrow> pyval" where
  "claimed_source raw = (case metric_item raw of Inl _ \<Rightarrow> PNone | Inr item \<Rightarrow> dgetN item ''source_artifact_id'')"

lemma resolve_metric_source:
  assumes "resolve_metric by_key raw = Inr m"
  shows "if cited_key raw = PNone then m_source_artifact_id m = claimed_source raw
    else \<exists>aid. map_of by_key (cited_key raw) = Some aid \<and> m_source_artifact_id m = PStr aid"
proof -
  obtain item ctx item1 where i: "metric_item raw = Inr item" "dict_or_empty (dgetN item ''context'') = Inr ctx"
    "resolve_source by_key (dgetN ctx ''source_artifact_store_key'') item = Inr item1"
    and m: "m_source_artifact_id m = dgetN item1 ''source_artifact_id''"
    using assms by (auto simp: resolve_metric_def ebind_Inr_iff Let_def Metric_of_def dget_or_def dget_dpop split: if_splits)
  have "cited_key raw = dgetN ctx ''source_artifact_store_key''" "claimed_source raw = dgetN item ''source_artifact_id''"
    using i by (simp_all add: cited_key_def claimed_source_def)
  then show ?thesis using i(3) m by (auto simp: resolve_source_def split: if_splits option.splits)
qed

lemma store_key_ids_artifact:
  assumes "map_of (store_key_ids decls (map ar_id new)) k = Some aid"
    and "map ar_store_key new = map (\<lambda>d. py_str (dgetN d ''store_key'')) decls"
  shows "\<exists>a \<in> set new. ar_id a = aid \<and> ar_store_key a = py_str k"
proof -
  have "(k, aid) \<in> set (zip (map (\<lambda>d. dgetN d ''store_key'') decls) (map ar_id new))"
    using map_of_SomeD [OF assms(1)] by (simp add: store_key_ids_def)
  then obtain i where i: "i < length decls" "i < length new" "k = dgetN (decls ! i) ''store_key''" "aid = ar_id (new ! i)"
    by (auto simp: in_set_zip)
  moreover have "ar_store_key (new ! i) = py_str (dgetN (decls ! i) ''store_key'')"
    using arg_cong [OF assms(2), of "\<lambda>xs. xs ! i"] i by simp
  ultimately show ?thesis by (auto intro!: bexI [of _ "new ! i"])
qed

lemma resolved_metrics_cite:
  assumes "resolve_metrics raw extra decls (map ar_id new) = Inr rs"
    and "map ar_store_key new = map (\<lambda>d. py_str (dgetN d ''store_key'')) decls"
  shows "list_all2 (\<lambda>r m. if cited_key r = PNone then m_source_artifact_id m = claimed_source r
      else \<exists>a \<in> set new. ar_store_key a = py_str (cited_key r) \<and> m_source_artifact_id m = PStr (ar_id a))
    (map Inl raw @ map Inr extra) rs"
proof -
  have "list_all2 (\<lambda>r m. resolve_metric (store_key_ids decls (map ar_id new)) r = Inr m) (map Inl raw @ map Inr extra) rs"
    using assms(1) by (simp add: resolve_metrics_def emap_Inr_list_all2)
  then show ?thesis
  proof (rule list_all2_mono)
    fix r m
    assume "resolve_metric (store_key_ids decls (map ar_id new)) r = Inr m"
    from resolve_metric_source [OF this]
    show "if cited_key r = PNone then m_source_artifact_id m = claimed_source r
      else \<exists>a \<in> set new. ar_store_key a = py_str (cited_key r) \<and> m_source_artifact_id m = PStr (ar_id a)"
      using store_key_ids_artifact [OF _ assms(2)] by (auto split: if_splits)
  qed
qed

lemma insert_inputs_frame:
  "insert_inputs now attempt_id is s = (r, s') \<Longrightarrow> \<exists>rows. s' = s\<lparr> inputs := rows \<rparr>"
proof (induction "is" arbitrary: s)
  case Nil
  then show ?case by (auto intro!: exI [of _ "inputs s"])
next
  case (Cons i "is")
  show ?case
  proof (cases "StagedInput_validate i = Inr () \<and> attempt_id \<in> at_id ` set (attempts s)")
    case True
    then obtain rows where "insert_inputs now attempt_id is (s\<lparr> inputs := rows \<rparr>) = (r, s')" using Cons.prems by auto
    from Cons.IH [OF this] show ?thesis by auto
  next
    case False
    then have "s' = s" using Cons.prems by (auto split: sum.splits if_splits)
    then show ?thesis by (intro exI [of _ "inputs s"]) simp
  qed
qed

lemma record_inputs_frame:
  assumes "record_inputs now attempt_id is s = (r, s')"
  shows "\<exists>rows. s' = s\<lparr> inputs := rows \<rparr>"
proof -
  obtain r1 s1 where i: "insert_inputs now attempt_id is s = (r1, s1)" by fastforce
  obtain rows where "s1 = s\<lparr> inputs := rows \<rparr>" using insert_inputs_frame [OF i] by blast
  then have "s' = s \<or> s' = s\<lparr> inputs := rows \<rparr>" using assms i by (cases r1) (auto simp: record_inputs_def)
  then show ?thesis by (metis store.surjective store.update_convs(7))
qed

lemma executed_kinds:
  assumes "run_plugin H text sr run attempt_id manifest staged ws = Inr (receipt, bh, x)"
  shows "list_all (\<lambda>a. \<exists>kind. dget a ''kind'' = Some (PStr kind) \<and> kind \<notin> set RESERVED_ARTIFACT_KINDS) (ex_artifacts x)"
proof -
  obtain look result outcome where "execute H (sr_root sr) look result outcome (sr_started sr) (sr_ended sr) manifest (rn_task run) False = Inr x"
    using assms by (auto simp: run_plugin_def ebind_Inr_iff Let_def)
  then show ?thesis
  proof (cases rule: execute_cases)
    case loaded
    obtain xs where "ex_artifacts x = map (\<lambda>x. snd (snd x)) xs" "list_all (accepted H (sr_root sr) look manifest False) xs"
      by (rule validate_declarations_Inr [OF loaded(2) [unfolded validate_artifacts_def]])
    then show ?thesis by (auto simp: list_all_iff accepted_def)
  qed simp
qed

lemma manifest_intact:
  assumes "declarations_to_register H sr run attempt manifest (manifest_written digest) receipt bh x = Inr y"
  shows "digest = None \<or> digest = map_option H (wf_hashed (bh_look bh INPUT_MANIFEST_FILENAME))"
proof (cases digest)
  case (Some d)
  have "check_untouched H (bh_look bh) (List.map_filter id [receipt, manifest_written digest]) = Inr ()"
    using assms by (auto simp: declarations_to_register_def ebind_Inr_iff)
  then have "untouched H (bh_look bh) (the (manifest_written digest)) = Inr ()"
    using Some by (cases receipt) (auto simp: check_untouched_def eall_Inr_iff map_filter_simps manifest_written_def)
  then show ?thesis using Some by (auto simp: untouched_def manifest_written_def split: option.splits)
qed simp

lemma judged_verdict:
  assumes "evaluate_run H wsroot look ev x manifest task workspace attempt_id = Inr y" "res_status (ex_result x) = SUCCEEDED"
    and "truthy (require_protected_evaluation (requirements manifest))"
  shows "\<exists>evaluator v. ev = Some evaluator \<and> evaluator \<lparr> er_manifest = manifest, er_task = task,
      er_workspace = PStr workspace, er_attempt_id = PStr attempt_id \<rparr> = Inr v \<and>
    Verdict_validate v = Inr () \<and> v_status v \<noteq> REJECTED"
  using assms by (auto simp: evaluate_run_def ebind_Inr_iff split: option.splits if_splits)

section \<open>Properties\<close>

text \<open>The steps of an attempt that reaches registration.\<close>

lemma run_attempt_cases:
  assumes "run_attempt H text sr run attempt manifest ws s ev = (r, s', ev')"
  obtains (unstaged) e where "r = Inl e" "s' = s" "case stage_inputs H (sr_world sr) s (rn_task run) ws of
      Inl _ \<Rightarrow> True | Inr (staged, _, _) \<Rightarrow> snd (record_inputs (sr_now sr) (at_id attempt) staged s) = s"
  | (stopped) staged digest ws1 e where "stage_inputs H (sr_world sr) s (rn_task run) ws = Inr (staged, digest, ws1)"
      "record_inputs (sr_now sr) (at_id attempt) staged s = (Inr (), s')" "r = Inl e"
  | (registered) staged digest ws1 s1 receipt bh x decls ms r2 where
      "stage_inputs H (sr_world sr) s (rn_task run) ws = Inr (staged, digest, ws1)"
      "record_inputs (sr_now sr) (at_id attempt) staged s = (Inr (), s1)"
      "run_plugin H text sr run (at_id attempt) manifest staged ws1 = Inr (receipt, bh, x)"
      "declarations_to_register H sr run attempt manifest (manifest_written digest) receipt bh x = Inr (decls, ms)"
      "register_evidence H sr (at_id attempt) bh x decls ms s1 = (r2, s')"
      "r = (case r2 of Inl e \<Rightarrow> Inl e | Inr _ \<Rightarrow> Inr x)"
proof (cases "stage_inputs H (sr_world sr) s (rn_task run) ws")
  case (Inl e)
  then show thesis using assms unstaged by (auto simp: run_attempt_def)
next
  case (Inr st)
  then obtain staged digest ws1 where st: "stage_inputs H (sr_world sr) s (rn_task run) ws = Inr (staged, digest, ws1)"
    by (cases st) auto
  obtain r1 s1 where rec1: "record_inputs (sr_now sr) (at_id attempt) staged s = (r1, s1)" by fastforce
  show thesis
  proof (cases r1)
    case (Inl e)
    then have "s1 = s" using rec1 by (auto simp: record_inputs_def split: prod.splits sum.splits)
    then show thesis using assms st rec1 Inl unstaged by (auto simp: run_attempt_def)
  next
    case r1: (Inr u)
    show thesis
    proof (cases "\<exists>e. r = Inl e \<and> s' = s1")
      case True
      then show thesis using stopped st rec1 r1 by auto
    next
      case False
      with assms st rec1 r1 obtain receipt bh x ev1 decls ms r2 s2 where
        "run_plugin H text sr run (at_id attempt) manifest staged ws1 = Inr (receipt, bh, x)"
        "declarations_to_register H sr run attempt manifest (manifest_written digest) receipt bh x = Inr (decls, ms)"
        "register_evidence H sr (at_id attempt) bh x decls ms s1 = (r2, s')"
        "r = (case r2 of Inl e \<Rightarrow> Inl e | Inr _ \<Rightarrow> Inr x)"
        by (auto simp: run_attempt_def split: sum.splits prod.splits)
      then show thesis using registered [OF st] rec1 r1 by simp
    qed
  qed
qed

text \<open>C15: Whatever happens in an attempt, the evidence is sound. An attempt never changes a stored object or an
  attempt row, only adds artifacts, each one its own and with its bytes in custody, and adds metrics only
  if it ends as a success. Once its inputs are recorded, they stay recorded, however the attempt ends.\<close>

theorem attempt_evidence_in_custody:
  assumes "run_attempt H text sr run attempt manifest ws s ev = (r, s', ev')"
  shows "objects s \<subseteq>\<^sub>m objects s' \<and> (objects_ok H (objects s) \<longrightarrow> objects_ok H (objects s')) \<and> attempts s' = attempts s \<and>
    (\<exists>new rows. artifacts s' = artifacts s @ new \<and> metrics s' = metrics s @ rows \<and>
      list_all (\<lambda>a. ar_attempt a = at_id attempt \<and> in_custody H s' a) new \<and>
      (rows = [] \<or> (case r of Inl _ \<Rightarrow> False | Inr x \<Rightarrow> res_status (ex_result x) = SUCCEEDED))) \<and>
    (case stage_inputs H (sr_world sr) s (rn_task run) ws of
       Inl _ \<Rightarrow> s' = s
     | Inr (staged, _, _) \<Rightarrow> inputs s' = inputs (snd (record_inputs (sr_now sr) (at_id attempt) staged s)))"
  using assms
proof (cases rule: run_attempt_cases)
  case unstaged
  then show ?thesis by (auto split: sum.splits)
next
  case (stopped staged digest ws1 e)
  then show ?thesis using record_inputs_frame [OF stopped(2)] by (auto intro!: exI [of _ "[]"])
next
  case (registered staged digest ws1 s1 receipt bh x decls ms r2)
  obtain new rows where add: "adds_evidence H (at_id attempt) x decls ms s1 r2 s' new rows"
    by (rule register_evidence_adds [OF registered(5)])
  show ?thesis
    using add record_inputs_frame [OF registered(2)] registered(1,2,6)
    by (auto simp: adds_evidence_def grows_by_def custody_step_def list_all_iff split: sum.splits)
qed

text \<open>A metric is attached to the artifact it was read from. After a successful attempt the metrics table has
  one new row per metric the plugin and the evaluator reported, in order; a metric whose context names a
  source file cites the artifact this very attempt registered for that file. A metric that names no file
  keeps the artifact identifier it came with.\<close>

theorem metrics_cite_own_artifacts:
  assumes "run_attempt H text sr run attempt manifest ws s ev = (Inr x, s', ev')"
    and "res_status (ex_result x) = SUCCEEDED"
  shows "\<exists>new extra rows. artifacts s' = artifacts s @ new \<and> metrics s' = metrics s @ rows \<and>
    list_all2 (\<lambda>reported row.
        if cited_key reported = PNone then mr_source row = claimed_source reported
        else list_ex (\<lambda>a. ar_attempt a = at_id attempt \<and> ar_store_key a = py_str (cited_key reported) \<and>
               mr_source row = PStr (ar_id a)) new)
      (map Inl (res_metrics (ex_result x)) @ map Inr extra) rows"
  using assms(1)
proof (cases rule: run_attempt_cases)
  case (registered staged digest ws1 s1 receipt bh y decls ms r2)
  then have y: "y = x" "r2 = Inr ()" by (auto split: sum.splits)
  obtain new rows where add: "adds_evidence H (at_id attempt) x decls ms s1 r2 s' new rows"
    using register_evidence_adds [OF registered(5)] y by blast
  then obtain rs where rs: "resolve_metrics (res_metrics (ex_result x)) ms decls (map ar_id new) = Inr rs"
    "map ar_store_key new = map (\<lambda>d. py_str (dgetN d ''store_key'')) decls"
    "map mr_source rows = map m_source_artifact_id rs"
    using assms(2) y by (auto simp: adds_evidence_def)
  have len: "length rows = length rs" using arg_cong [OF rs(3), of length] by simp
  have source: "mr_source (rows ! i) = m_source_artifact_id (rs ! i)" if "i < length rs" for i
    using arg_cong [OF rs(3), of "\<lambda>xs. xs ! i"] that len by simp
  have own: "\<forall>a \<in> set new. ar_attempt a = at_id attempt" using add by (simp add: adds_evidence_def grows_by_def)
  note cites = resolved_metrics_cite [OF rs(1,2), unfolded list_all2_conv_all_nth]
  have "list_all2 (\<lambda>reported row. if cited_key reported = PNone then mr_source row = claimed_source reported
        else list_ex (\<lambda>a. ar_attempt a = at_id attempt \<and> ar_store_key a = py_str (cited_key reported) \<and>
               mr_source row = PStr (ar_id a)) new)
      (map Inl (res_metrics (ex_result x)) @ map Inr ms) rows"
    unfolding list_all2_conv_all_nth list_ex_iff using cites len source own by (metis (no_types, lifting))
  moreover have "artifacts s' = artifacts s @ new" "metrics s' = metrics s @ rows"
    using add record_inputs_frame [OF registered(2)] by (auto simp: adds_evidence_def grows_by_def)
  ultimately show ?thesis by blast
qed simp_all


section \<open>A sample attempt\<close>

text \<open>
  A task run by a plugin that writes one report and reports two metrics: one read from the report, one that
  claims an artifact identifier of its own. A second rule of the manifest collects a file under a reserved kind.
\<close>

definition collecting_manifest :: PluginManifest where
  "collecting_manifest = report_manifest\<lparr> artifact_rules :=
     [ PDict [(PStr ''kind'', PStr ''report''), (PStr ''required'', PBool True)],
       PDict [(PStr ''kind'', PStr ''protected_evaluation''), (PStr ''pattern'', PStr ''fake.json'')] ] \<rparr>"

definition two_metrics :: pyval where
  "two_metrics = PList
     [ PDict [(PStr ''name'', PStr ''area''), (PStr ''value'', PInt 7),
         (PStr ''context'', PDict [(PStr ''source_artifact_store_key'', PStr ''out/r.txt'')])],
       PDict [(PStr ''name'', PStr ''wns''), (PStr ''value'', PInt 0), (PStr ''source_artifact_id'', PStr ''elsewhere'')] ]"

definition sample_behaviour :: behaviour where
  "sample_behaviour = \<lparr> bh_outcome = clean_exit, bh_file = Some (JsonText (report_result two_metrics)),
     bh_look = report_look ''hi'', bh_after = report_look ''hi'',
     bh_glob = (\<lambda>p. if p = ''fake.json'' then Inr [[''ws'', ''fake.json'']] else Inr []) \<rparr>"

definition sample_surroundings :: surroundings where
  "sample_surroundings = \<lparr> sr_now = 0, sr_artifact_id = (\<lambda>i. ''art-'' @ nat_str i), sr_evidence_id = (\<lambda>i. ''ev-'' @ nat_str i),
     sr_metric_id = (\<lambda>i. ''met-'' @ nat_str i), sr_world = sample_world [], sr_root = [''ws''], sr_evaluator = None,
     sr_plugin = (\<lambda>_ _. sample_behaviour), sr_receipt_path = ''/ws/r'', sr_environment = [], sr_started = ''s'', sr_ended = ''e'' \<rparr>"

definition sample_run :: run_row where
  "sample_run = \<lparr> rn_id = ''r'', rn_task_id = PStr ''t'', rn_key = None, rn_status = RUNNING, rn_task = report_task,
     rn_created = 0, rn_started = Some 0, rn_ended = None, rn_reason = None \<rparr>"

definition sample_outcome :: "AdapterExecution result \<times> store \<times> evidence" where
  "sample_outcome = run_attempt toy_digest (\<lambda>_. []) sample_surroundings sample_run sample_attempt collecting_manifest []
     sample_store Map.empty"

definition summary ::
  "AdapterExecution result \<times> store \<times> evidence \<Rightarrow>
   RuntimeStatus option \<times> (string \<times> string \<times> string) list \<times> (pyval \<times> pyval) list" where
  "summary = (\<lambda>(r, s, ev).
     (case r of Inl _ \<Rightarrow> None | Inr x \<Rightarrow> Some (res_status (ex_result x)),
      map (\<lambda>a. (ar_id a, ar_kind a, ar_store_key a)) (artifacts s), map (\<lambda>m. (mr_name m, mr_source m)) (metrics s)))"

lemma sample_summary:
  "summary sample_outcome = (Some SUCCEEDED,
     [(''art-0'', ''report'', ''out/r.txt''), (''art-1'', ''protected_evaluation'', ''fake.json'')],
     [(PStr ''area'', PStr ''art-0''), (PStr ''wns'', PStr ''elsewhere'')])"
  by code_simp

lemma sample_outcome_cases:
  obtains x s' ev' where "sample_outcome = (Inr x, s', ev')" "res_status (ex_result x) = SUCCEEDED"
    "map (\<lambda>a. (ar_id a, ar_kind a, ar_store_key a)) (artifacts s') =
       [(''art-0'', ''report'', ''out/r.txt''), (''art-1'', ''protected_evaluation'', ''fake.json'')]"
    "map (\<lambda>m. (mr_name m, mr_source m)) (metrics s') = [(PStr ''area'', PStr ''art-0''), (PStr ''wns'', PStr ''elsewhere'')]"
proof -
  obtain r s' ev' where o: "sample_outcome = (r, s', ev')" by (cases sample_outcome)
  note sum = sample_summary [unfolded o summary_def prod.case]
  obtain x where x: "r = Inr x" using sum by (cases r) auto
  show thesis using sum o x by (intro that [of x s' ev']) simp_all
qed

theorem attempt_evidence_in_custody_witness:
  "case sample_outcome of (r, s', ev') \<Rightarrow> \<exists>new. artifacts s' = artifacts sample_store @ new \<and>
     list_all (\<lambda>a. ar_attempt a = at_id sample_attempt \<and> in_custody toy_digest s' a) new"
proof -
  obtain x s' ev' where o: "sample_outcome = (Inr x, s', ev')" by (rule sample_outcome_cases)
  note evidence = attempt_evidence_in_custody [OF o [unfolded sample_outcome_def]]
  show ?thesis unfolding o prod.case
    using evidence [THEN conjunct2, THEN conjunct2, THEN conjunct2, THEN conjunct1] by (elim exE conjE) (intro exI conjI)
qed

theorem metrics_cite_own_artifacts_witness:
  "case sample_outcome of (r, s', ev') \<Rightarrow> \<exists>rows. metrics s' = metrics sample_store @ rows \<and>
     length rows \<ge> length (res_metrics (ex_result (projr r)))"
proof -
  obtain x s' ev' where o: "sample_outcome = (Inr x, s', ev')" "res_status (ex_result x) = SUCCEEDED" by (rule sample_outcome_cases)
  obtain new extra rows where rows: "artifacts s' = artifacts sample_store @ new" "metrics s' = metrics sample_store @ rows" and
    cites: "list_all2 (\<lambda>reported row. if cited_key reported = PNone then mr_source row = claimed_source reported
        else list_ex (\<lambda>a. ar_attempt a = at_id sample_attempt \<and> ar_store_key a = py_str (cited_key reported) \<and>
               mr_source row = PStr (ar_id a)) new)
      (map Inl (res_metrics (ex_result x)) @ map Inr (extra :: Metric list)) rows"
    using metrics_cite_own_artifacts [OF o(1) [unfolded sample_outcome_def] o(2)]
    by (elim exE conjE)
  have "length rows \<ge> length (res_metrics (ex_result x))" using list_all2_lengthD [OF cites] by simp
  then show ?thesis unfolding o(1) prod.case sum.sel using rows(2) by (intro exI conjI)
qed


section \<open>Departures from the documented authority\<close>

text \<open>A defect: the platform says that listing a reserved kind in a manifest grants nothing, and refuses a
  plugin that declares an artifact of such a kind; but the manifest's own collection rule registers any file the
  plugin wrote under it. Here a plugin without any evaluator ends as a success with a registered artifact of
  kind \<open>protected_evaluation\<close>, the kind of the evaluator's verdict.\<close>

theorem collection_forges_reserved_kind:
  "sr_evaluator sample_surroundings = None \<and> ''protected_evaluation'' \<in> set RESERVED_ARTIFACT_KINDS \<and>
   (case sample_outcome of (r, s', ev') \<Rightarrow> map_sum id (\<lambda>x. res_status (ex_result x)) r = Inr SUCCEEDED \<and>
      ''protected_evaluation'' \<in> ar_kind ` set (artifacts s'))"
proof -
  obtain x s' ev' where o: "sample_outcome = (Inr x, s', ev')" "res_status (ex_result x) = SUCCEEDED"
    "map (\<lambda>a. (ar_id a, ar_kind a, ar_store_key a)) (artifacts s') =
       [(''art-0'', ''report'', ''out/r.txt''), (''art-1'', ''protected_evaluation'', ''fake.json'')]"
    by (rule sample_outcome_cases)
  have "''protected_evaluation'' \<in> ar_kind ` set (artifacts s')"
    using arg_cong [OF o(3), of "\<lambda>xs. (\<lambda>x. fst (snd x)) ` set xs"] by (auto simp: image_image)
  then show ?thesis unfolding o(1) using o(2) by (simp add: sample_surroundings_def RESERVED_ARTIFACT_KINDS_def)
qed

text \<open>A defect: a metric whose source cannot be resolved is documented to be refused, since the platform will not
  store a number it cannot trace. A plugin that puts an artifact identifier of its own choosing into the metric
  passes: the recorded metric cites an artifact that does not exist.\<close>

theorem untraceable_metric_stored:
  "case sample_outcome of (r, s', ev') \<Rightarrow> map_sum id (\<lambda>x. res_status (ex_result x)) r = Inr SUCCEEDED \<and>
     list_ex (\<lambda>m. mr_source m = PStr ''elsewhere'') (metrics s') \<and> ''elsewhere'' \<notin> ar_id ` set (artifacts s')"
proof -
  obtain x s' ev' where o: "sample_outcome = (Inr x, s', ev')" "res_status (ex_result x) = SUCCEEDED"
    "map (\<lambda>a. (ar_id a, ar_kind a, ar_store_key a)) (artifacts s') =
       [(''art-0'', ''report'', ''out/r.txt''), (''art-1'', ''protected_evaluation'', ''fake.json'')]"
    "map (\<lambda>m. (mr_name m, mr_source m)) (metrics s') = [(PStr ''area'', PStr ''art-0''), (PStr ''wns'', PStr ''elsewhere'')]"
    by (rule sample_outcome_cases)
  have ids: "ar_id ` set (artifacts s') = {''art-0'', ''art-1''}"
    using arg_cong [OF o(3), of "\<lambda>xs. fst ` set xs"] by (simp add: image_image)
  have "PStr ''elsewhere'' \<in> mr_source ` set (metrics s')"
    using arg_cong [OF o(4), of "\<lambda>xs. snd ` set xs"] by (simp add: image_image)
  then have "list_ex (\<lambda>m. mr_source m = PStr ''elsewhere'') (metrics s')" by (simp add: list_ex_iff image_iff) metis
  moreover have "''elsewhere'' \<notin> ar_id ` set (artifacts s')" unfolding ids by simp
  ultimately show ?thesis unfolding o(1) prod.case using o(2) by simp
qed

end
