(* ===== verification/Registry.thy ===== *)
theory Registry
  imports Staging "HOL-Library.Product_Lexorder"
begin

text \<open>
  \<open>core/registry/src/openroad_platform_registry/registry.py\<close> and \<open>validate.py\<close>: discovery and admission of
  plugins, the lookup the runtime resolves manifests with, and the checker plugin authors run.

  The files of a plugin directory are given: the texts of its manifests and of its provenance record,
  what \<open>Path.resolve\<close> makes of an entry of the form \<open>./x\<close>, and the mode of that file. The directory of
  admission records is a function from the plugin identifier to the text of its record.
\<close>

section \<open>Provenance\<close>

definition ADMITTED :: string where
  "ADMITTED = ''admitted''"

definition SOURCE_AUDIT_ONLY :: string where
  "SOURCE_AUDIT_ONLY = ''source-audit-only''"

definition UNKNOWN :: string where
  "UNKNOWN = ''unknown''"

definition EXECUTABLE_LICENSES :: "string list" where
  "EXECUTABLE_LICENSES = [''green'', ''yellow'']"

record Provenance =
  pv_license :: pyval
  source_url :: pyval
  source_commit :: pyval
  pv_notes :: pyval

definition unstated :: Provenance where
  "unstated = \<lparr> pv_license = PNone, source_url = PNone, source_commit = PNone, pv_notes = PNone \<rparr>"

text \<open>
  Unknown fields are joined into the message, which raises \<open>TypeError\<close> for a name that is no string; a
  payload that is not a mapping raises \<open>AttributeError\<close> at the first \<open>get\<close>.
\<close>

definition refuse_fields :: "string \<Rightarrow> string list \<Rightarrow> pyval \<Rightarrow> pydict result" where
  "refuse_fields msg known payload =
     ebind (keys_of payload) (\<lambda>ks.
     let unknown = unknown_keys known ks in
     if unknown \<noteq> [] then Inl (if list_all is_str unknown then RegistryError msg else TypeError)
     else if \<not> is_dict payload then Inl AttributeError
     else Inr (items payload))"

definition PROVENANCE_FIELDS :: "string list" where
  "PROVENANCE_FIELDS = [''license'', ''notes'', ''source_commit'', ''source_url'']"

definition Provenance_from_dict :: "pyval \<Rightarrow> Provenance result" where
  "Provenance_from_dict payload =
     ebind (refuse_fields ''unknown provenance fields'' PROVENANCE_FIELDS payload) (\<lambda>d.
     if list_ex (\<lambda>f. dgetN d f \<noteq> PNone \<and> \<not> is_str (dgetN d f)) PROVENANCE_FIELDS
     then Inl (RegistryError ''provenance field must be a string'')
     else Inr \<lparr> pv_license = dgetN d ''license'', source_url = dgetN d ''source_url'',
                source_commit = dgetN d ''source_commit'', pv_notes = dgetN d ''notes'' \<rparr>)"

section \<open>Admission\<close>

record Admission =
  ad_plugin_id :: pyval
  ad_status :: string
  license_review :: pyval
  approved_commit :: pyval
  reviewer :: pyval
  ad_reason :: pyval

text \<open>\<open>(license_review or "").lower() in EXECUTABLE_LICENSES\<close>.\<close>

definition license_ok :: "pyval \<Rightarrow> bool result" where
  "license_ok v =
     (if \<not> truthy v then Inr False
      else if \<not> is_str v then Inl AttributeError
      else Inr (lower (py_str v) \<in> set EXECUTABLE_LICENSES))"

definition Admission_validate :: "Admission \<Rightarrow> unit result" where
  "Admission_validate a =
     ebind (validate_identifier ''plugin_id'' (ad_plugin_id a) True) (\<lambda>_.
     ebind (echeck (ad_status a \<notin> {ADMITTED, SOURCE_AUDIT_ONLY, UNKNOWN}) (RegistryError ''unknown admission status'')) (\<lambda>_.
     if ad_status a = ADMITTED then
       ebind (license_ok (license_review a)) (\<lambda>fine.
       if \<not> fine then Inl (RegistryError ''admitted requires an executable licence'')
       else echeck (\<not> truthy (approved_commit a)) (RegistryError ''admitted without a pinned commit''))
     else echeck (\<not> truthy (ad_reason a)) (RegistryError ''no reason recorded'')))"

text \<open>\<open>str(payload.get("status", UNKNOWN))\<close>: no other value than a string prints as a known status.\<close>

definition status_text :: "pyval \<Rightarrow> string" where
  "status_text v = (case v of PStr s \<Rightarrow> s | _ \<Rightarrow> ''<other>'')"

definition ADMISSION_FIELDS :: "string list" where
  "ADMISSION_FIELDS = [''plugin_id'', ''status'', ''license_review'', ''approved_commit'', ''reviewer'', ''reason'']"

definition Admission_from_dict :: "pyval \<Rightarrow> pyval \<Rightarrow> Admission result" where
  "Admission_from_dict pid payload =
     ebind (refuse_fields ''unknown admission fields'' ADMISSION_FIELDS payload) (\<lambda>d.
     if dgetN d ''plugin_id'' \<noteq> PNone \<and> \<not> py_eq (dgetN d ''plugin_id'') pid
     then Inl (RegistryError ''admission record declares another plugin'')
     else
       let a = \<lparr> ad_plugin_id = pid, ad_status = status_text (dget_or d ''status'' (PStr UNKNOWN)),
                 license_review = dgetN d ''license_review'', approved_commit = dgetN d ''approved_commit'',
                 reviewer = dgetN d ''reviewer'', ad_reason = dgetN d ''reason'' \<rparr>
       in ebind (Admission_validate a) (\<lambda>_. Inr a))"

text \<open>\<open>_load_admission\<close>: the records of the platform, \<open>None\<close> when no directory is configured.\<close>

type_synonym admissions = "(string \<Rightarrow> json_text option) option"

definition unknown_admission :: "pyval \<Rightarrow> string \<Rightarrow> Admission" where
  "unknown_admission pid why = \<lparr> ad_plugin_id = pid, ad_status = UNKNOWN, license_review = PNone,
     approved_commit = PNone, reviewer = PNone, ad_reason = PStr why \<rparr>"

definition load_admission :: "pyval \<Rightarrow> admissions \<Rightarrow> Admission result" where
  "load_admission pid adm =
     (case adm of
        None \<Rightarrow> Inr (unknown_admission pid ''no admissions directory was configured'')
      | Some record \<Rightarrow>
          (case record (py_str pid) of
             None \<Rightarrow> Inr (unknown_admission pid ''no admission record'')
           | Some JsonGarbage \<Rightarrow> Inr (unknown_admission pid ''admission record is unreadable'')
           | Some (JsonText v) \<Rightarrow> Admission_from_dict pid v))"

definition check_reviewed_commit :: "Admission \<Rightarrow> Provenance \<Rightarrow> unit result" where
  "check_reviewed_commit a p =
     echeck (truthy (approved_commit a) \<and> truthy (source_commit p) \<and> \<not> py_eq (approved_commit a) (source_commit p))
       (RegistryError ''the checkout is not the revision that was reviewed'')"

section \<open>Loading a plugin\<close>

record plugin_dir =
  pd_path :: "string list"
  pd_manifests :: "(string \<times> json_text) list"
  pd_provenance :: "json_text option"
  pd_resolve :: "string \<Rightarrow> string list"
  pd_file :: "string \<Rightarrow> bool option"

record RegisteredPlugin =
  rp_manifest :: PluginManifest
  rp_admission :: Admission
  rp_provenance :: Provenance
  rp_path :: string
  rp_entry :: "pyval list"

definition executable :: "RegisteredPlugin \<Rightarrow> bool" where
  "executable p = (ad_status (rp_admission p) = ADMITTED)"

definition load_provenance :: "plugin_dir \<Rightarrow> Provenance result" where
  "load_provenance dir =
     (case pd_provenance dir of
        None \<Rightarrow> Inr unstated
      | Some JsonGarbage \<Rightarrow> Inr (unstated\<lparr> pv_notes := PStr ''provenance.json is unreadable'' \<rparr>)
      | Some (JsonText v) \<Rightarrow> Provenance_from_dict v)"

text \<open>\<open>"/../" in item\<close>.\<close>

definition contains :: "string \<Rightarrow> string \<Rightarrow> bool" where
  "contains needle s = list_ex (\<lambda>i. prefix needle (drop i s)) [0..<length s + 1]"

definition resolve_entry :: "plugin_dir \<Rightarrow> pyval \<Rightarrow> pyval result" where
  "resolve_entry dir item =
     (if startswith (py_str item) ''./'' then
        let candidate = pd_resolve dir (drop 2 (py_str item)) in
        if \<not> prefix (pd_path dir) candidate then Inl (RegistryError ''adapter entry escapes its own directory'')
        else Inr (PStr (CHR ''/'' # join ''/'' candidate))
      else if startswith (py_str item) ''../'' \<or> contains ''/../'' (py_str item)
        then Inl (RegistryError ''adapter entry climbs out of its directory'')
      else Inr item)"

text \<open>A \<open>ContractError\<close> becomes a \<open>RegistryError\<close>; other exceptions of \<open>from_dict\<close> pass through.\<close>

definition load_manifest :: "json_text \<Rightarrow> PluginManifest result" where
  "load_manifest text =
     (case text of
        JsonGarbage \<Rightarrow> Inl (RegistryError ''invalid manifest'')
      | JsonText v \<Rightarrow>
          (case PluginManifest_from_dict v of
             Inl e \<Rightarrow> Inl (if is_ContractError e then RegistryError ''invalid manifest'' else e)
           | Inr m \<Rightarrow> Inr m))"

definition load_plugin :: "admissions \<Rightarrow> plugin_dir \<Rightarrow> string \<times> json_text \<Rightarrow> RegisteredPlugin result" where
  "load_plugin adm dir file =
     ebind (load_manifest (snd file)) (\<lambda>m.
     ebind (emap (resolve_entry dir) (adapter_entry m)) (\<lambda>entry.
     ebind (load_provenance dir) (\<lambda>prov.
     ebind (load_admission (man_plugin_id m) adm) (\<lambda>a.
     ebind (check_reviewed_commit a prov) (\<lambda>_.
     Inr \<lparr> rp_manifest = m\<lparr> adapter_entry := entry \<rparr>, rp_admission = a, rp_provenance = prov,
           rp_path = fst file, rp_entry = entry \<rparr>)))))"

section \<open>The registry\<close>

text \<open>A dict from plugin identifier and version to the plugin, in insertion order.\<close>

type_synonym registry = "((string \<times> string) \<times> RegisteredPlugin) list"

definition identity :: "RegisteredPlugin \<Rightarrow> string \<times> string" where
  "identity p = (py_str (man_plugin_id (rp_manifest p)), py_str (man_plugin_version (rp_manifest p)))"

definition register :: "RegisteredPlugin \<Rightarrow> registry \<Rightarrow> registry result" where
  "register p reg =
     ebind (PluginManifest_validate (rp_manifest p)) (\<lambda>_.
     ebind (Admission_validate (rp_admission p)) (\<lambda>_.
     if \<not> py_eq (ad_plugin_id (rp_admission p)) (man_plugin_id (rp_manifest p))
     then Inl (RegistryError ''intake declares another plugin than the manifest'')
     else if identity p \<in> fst ` set reg then Inl (RegistryError ''plugin is already registered'')
     else Inr (reg @ [(identity p, p)])))"

fun register_files :: "admissions \<Rightarrow> plugin_dir \<Rightarrow> (string \<times> json_text) list \<Rightarrow> registry \<Rightarrow> registry result" where
  "register_files adm dir [] reg = Inr reg"
| "register_files adm dir (f # fs) reg =
     ebind (load_plugin adm dir f) (\<lambda>p. ebind (register p reg) (\<lambda>reg'. register_files adm dir fs reg'))"

fun register_dirs :: "admissions \<Rightarrow> plugin_dir list \<Rightarrow> registry \<Rightarrow> registry result" where
  "register_dirs adm [] reg = Inr reg"
| "register_dirs adm (dir # dirs) reg =
     ebind (register_files adm dir (sort_key fst (pd_manifests dir)) reg) (\<lambda>reg'. register_dirs adm dirs reg')"

text \<open>The directories under the plugin root, \<open>None\<close> when the root is no directory.\<close>

definition from_directory :: "plugin_dir list option \<Rightarrow> admissions \<Rightarrow> registry result" where
  "from_directory root_dirs adm =
     (case root_dirs of
        None \<Rightarrow> Inl (RegistryError ''plugin root not found'')
      | Some dirs \<Rightarrow> register_dirs adm (sort_key pd_path dirs) [])"

definition find_plugins :: "pyval \<Rightarrow> pyval \<Rightarrow> registry \<Rightarrow> RegisteredPlugin list" where
  "find_plugins pid version reg =
     map snd (filter (\<lambda>(k, p). PStr (fst k) = pid \<and>
       (version = PNone \<or> py_eq (man_plugin_version (rp_manifest p)) version)) reg)"

definition resolve_plugin :: "pyval \<Rightarrow> pyval \<Rightarrow> pyval \<Rightarrow> pyval \<Rightarrow> bool \<Rightarrow> registry \<Rightarrow> PluginManifest result" where
  "resolve_plugin pid version capability arch require_admitted reg =
     (case find_plugins pid version reg of
        [] \<Rightarrow> Inl (RegistryError ''unknown plugin'')
      | [p] \<Rightarrow>
          if require_admitted \<and> \<not> executable p then Inl (RegistryError ''plugin is not admitted'')
          else if truthy capability \<and> capability \<notin> set (capabilities (rp_manifest p))
            then Inl (RegistryError ''plugin lacks capability'')
          else if truthy arch \<and> arch \<notin> set (supported_arch (rp_manifest p))
            then Inl (RegistryError ''plugin does not support architecture'')
          else Inr (rp_manifest p)
      | _ \<Rightarrow> Inl (RegistryError ''plugin has several versions''))"

definition get_plugin :: "pyval \<Rightarrow> registry \<Rightarrow> RegisteredPlugin result" where
  "get_plugin pid reg =
     (case find_plugins pid PNone reg of
        [p] \<Rightarrow> Inr p | _ \<Rightarrow> Inl (RegistryError ''expected exactly one registered version''))"

definition list_plugins :: "registry \<Rightarrow> RegisteredPlugin list" where
  "list_plugins reg = map snd (sort_key fst reg)"

definition catalogue_entry :: "RegisteredPlugin \<Rightarrow> pyval" where
  "catalogue_entry p = PDict
     [ (PStr ''plugin_id'', man_plugin_id (rp_manifest p)), (PStr ''plugin_version'', man_plugin_version (rp_manifest p)),
       (PStr ''capabilities'', PList (capabilities (rp_manifest p))),
       (PStr ''admission'', PStr (ad_status (rp_admission p))), (PStr ''executable'', PBool (executable p)),
       (PStr ''reason'', ad_reason (rp_admission p)), (PStr ''reviewer'', reviewer (rp_admission p)),
       (PStr ''license_review'', license_review (rp_admission p)),
       (PStr ''declared'', PDict [ (PStr ''license'', pv_license (rp_provenance p)),
          (PStr ''source_url'', source_url (rp_provenance p)), (PStr ''source_commit'', source_commit (rp_provenance p)) ]),
       (PStr ''adapter_entry'', PList (if rp_entry p \<noteq> [] then rp_entry p else adapter_entry (rp_manifest p))) ]"

definition catalogue :: "registry \<Rightarrow> pyval list" where
  "catalogue reg = map catalogue_entry (list_plugins reg)"

section \<open>The checker\<close>

text \<open>A report: the errors and the notes, each the fixed part of its text.\<close>

record Report =
  rep_errors :: "string list"
  rep_notes :: "string list"

definition report_error :: "string \<Rightarrow> Report \<Rightarrow> Report" where
  "report_error m r = r\<lparr> rep_errors := rep_errors r @ [m] \<rparr>"

definition report_note :: "string \<Rightarrow> Report \<Rightarrow> Report" where
  "report_note m r = r\<lparr> rep_notes := rep_notes r @ [m] \<rparr>"

definition report_ok :: "Report \<Rightarrow> bool" where
  "report_ok r = (rep_errors r = [])"

text \<open>\<open>pd_file\<close> says of a path below the directory whether it is a file, and if so whether it may be executed.\<close>

definition check_entry_item :: "plugin_dir \<Rightarrow> pyval \<Rightarrow> Report \<Rightarrow> Report" where
  "check_entry_item dir item r =
     (if startswith (py_str item) ''./'' then
        if \<not> prefix (pd_path dir) (pd_resolve dir (drop 2 (py_str item)))
        then report_error ''adapter_entry resolves outside the plugin directory'' r
        else (case pd_file dir (drop 2 (py_str item)) of
                None \<Rightarrow> report_error ''adapter_entry names a file that is absent'' r
              | Some False \<Rightarrow> report_note ''adapter_entry is not marked executable'' r
              | Some True \<Rightarrow> r)
      else if startswith (py_str item) ''../'' \<or> contains ''/../'' (py_str item)
        then report_error ''adapter_entry climbs out of the plugin directory'' r
      else r)"

definition check_entry :: "PluginManifest \<Rightarrow> plugin_dir \<Rightarrow> Report \<Rightarrow> Report" where
  "check_entry m dir r =
     (let r1 = fold (check_entry_item dir) (adapter_entry m) r in
      case adapter_entry m of
        item # _ \<Rightarrow> if startswith (py_str item) ''/'' then report_note ''adapter_entry is absolute: not checked'' r1 else r1
      | [] \<Rightarrow> r1)"

text \<open>\<open>str(rule.get("kind"))\<close> tells kinds apart; rules are objects.\<close>

definition check_artifact_rules :: "PluginManifest \<Rightarrow> Report \<Rightarrow> Report" where
  "check_artifact_rules m r =
     (let kinds = map (\<lambda>rule. dgetN (items rule) ''kind'') (artifact_rules m);
          r1 = (if list_ex (\<lambda>k. k \<in> PStr ` set RESERVED_ARTIFACT_KINDS) kinds
                then report_note ''artifact_rules list platform-reserved kinds; it grants no authority to declare them'' r
                else r)
      in if \<not> distinct kinds then report_error ''artifact_rules declare the same kind more than once'' r1 else r1)"

definition check_provenance :: "plugin_dir \<Rightarrow> Report \<Rightarrow> Report result" where
  "check_provenance dir r =
     (case pd_provenance dir of
        None \<Rightarrow> Inr (report_note ''no provenance.json: the plugin states no origin'' r)
      | Some JsonGarbage \<Rightarrow> Inr (report_error ''provenance.json is not valid provenance'' r)
      | Some (JsonText v) \<Rightarrow>
          (case Provenance_from_dict v of
             Inr _ \<Rightarrow> Inr r
           | Inl (RegistryError _) \<Rightarrow> Inr (report_error ''provenance.json is not valid provenance'' r)
           | Inl e \<Rightarrow> Inl e))"

definition check_admission :: "pyval \<Rightarrow> admissions \<Rightarrow> Report \<Rightarrow> Report result" where
  "check_admission pid adm r =
     (case adm of
        None \<Rightarrow> Inr (report_note ''no --admissions-root given'' r)
      | Some record \<Rightarrow>
          (case record (py_str pid) of
             None \<Rightarrow> Inr (report_note ''no admission record'' r)
           | Some JsonGarbage \<Rightarrow> Inr (report_error ''admission record is not admissible'' r)
           | Some (JsonText v) \<Rightarrow>
               (case Admission_from_dict pid v of
                  Inl (RegistryError _) \<Rightarrow> Inr (report_error ''admission record is not admissible'' r)
                | Inl e \<Rightarrow> Inl e
                | Inr a \<Rightarrow>
                    let r1 = report_note ''admission record'' r in
                    Inr (if ad_status a \<noteq> ADMITTED
                         then report_note ''the platform will list this plugin and refuse to run it'' r1 else r1))))"

definition check_manifest_file :: "admissions \<Rightarrow> plugin_dir \<Rightarrow> string \<times> json_text \<Rightarrow> Report \<Rightarrow> Report result" where
  "check_manifest_file adm dir file r =
     (case snd file of
        JsonGarbage \<Rightarrow> Inr (report_error ''manifest is not readable JSON'' r)
      | JsonText v \<Rightarrow>
          (case PluginManifest_from_dict v of
             Inl e \<Rightarrow> if is_ContractError e then Inr (report_error ''invalid manifest'' r) else Inl e
           | Inr m \<Rightarrow>
               ebind (if list_all is_dict (artifact_rules m) then Inr () else Inl AttributeError) (\<lambda>_.
               check_admission (man_plugin_id m) adm
                 (check_artifact_rules m (check_entry m dir (report_note ''manifest'' r))))))"

fun check_files :: "admissions \<Rightarrow> plugin_dir \<Rightarrow> (string \<times> json_text) list \<Rightarrow> Report \<Rightarrow> Report result" where
  "check_files adm dir [] r = Inr r"
| "check_files adm dir (f # fs) r = ebind (check_manifest_file adm dir f r) (check_files adm dir fs)"

definition validate_directory :: "plugin_dir option \<Rightarrow> admissions \<Rightarrow> Report result" where
  "validate_directory directory adm =
     (let r = \<lparr> rep_errors = [], rep_notes = [] \<rparr> in
      case directory of
        None \<Rightarrow> Inr (report_error ''not a directory'' r)
      | Some dir \<Rightarrow>
          if pd_manifests dir = [] then Inr (report_error ''no *.plugin.json in this directory'' r)
          else
            ebind (check_files adm dir (sort_key fst (pd_manifests dir))
              (if length (pd_manifests dir) > 1 then report_note ''several manifests in one directory'' r else r))
            (check_provenance dir))"

section \<open>The registry as an index\<close>

text \<open>
  What the lookups rely on: an index with unique keys that never replaces an entry.
\<close>

locale plugin_index =
  fixes insert_plugin :: "'p \<Rightarrow> 'r \<Rightarrow> 'r result"
    and lookup :: "'r \<Rightarrow> 'k \<Rightarrow> 'p option"
    and key :: "'p \<Rightarrow> 'k"
    and sound :: "'r \<Rightarrow> bool"
  assumes insert_sound: "insert_plugin p r = Inr r' \<Longrightarrow> sound r \<Longrightarrow> sound r'"
    and insert_lookup: "insert_plugin p r = Inr r' \<Longrightarrow> lookup r' k = (if k = key p then Some p else lookup r k)"
    and insert_refuses: "lookup r (key p) \<noteq> None \<Longrightarrow> \<not> ok (insert_plugin p r)"
begin

lemma insert_keeps: "insert_plugin p r = Inr r' \<Longrightarrow> lookup r k = Some q \<Longrightarrow> lookup r' k = Some q"
  using insert_lookup [of p r r' k] insert_refuses [of r p] by auto

fun insert_all :: "'p list \<Rightarrow> 'r \<Rightarrow> 'r result" where
  "insert_all [] r = Inr r"
| "insert_all (p # ps) r = ebind (insert_plugin p r) (insert_all ps)"

text \<open>Whatever is registered later, in whatever order, an entry stays what it was.\<close>

lemma insert_all_keeps: "insert_all ps r = Inr r' \<Longrightarrow> lookup r k = Some q \<Longrightarrow> lookup r' k = Some q"
  by (induction ps arbitrary: r) (auto simp: ebind_Inr_iff dest: insert_keeps)

lemma insert_all_sound: "insert_all ps r = Inr r' \<Longrightarrow> sound r \<Longrightarrow> sound r'"
  by (induction ps arbitrary: r) (auto simp: ebind_Inr_iff dest: insert_sound)

lemma insert_all_origin: "insert_all ps r = Inr r' \<Longrightarrow> lookup r' k = Some q \<Longrightarrow> lookup r k = Some q \<or> q \<in> set ps"
proof (induction ps arbitrary: r)
  case (Cons p ps)
  obtain r1 where r1: "insert_plugin p r = Inr r1" "insert_all ps r1 = Inr r'"
    using Cons.prems(1) by (auto simp: ebind_Inr_iff)
  show ?case using Cons.IH [OF r1(2) Cons.prems(2)] insert_lookup [OF r1(1)] by (auto split: if_splits)
qed simp

end

definition plugin_sound :: "(string \<times> string) \<times> RegisteredPlugin \<Rightarrow> bool" where
  "plugin_sound kp = (fst kp = identity (snd kp) \<and> PluginManifest_validate (rp_manifest (snd kp)) = Inr () \<and>
     Admission_validate (rp_admission (snd kp)) = Inr () \<and>
     man_plugin_id (rp_manifest (snd kp)) = ad_plugin_id (rp_admission (snd kp)))"

definition registry_sound :: "registry \<Rightarrow> bool" where
  "registry_sound reg = (distinct (map fst reg) \<and> list_all plugin_sound reg)"

lemma validated_plugin_id:
  assumes "PluginManifest_validate m = Inr u"
  shows "\<exists>i v. man_plugin_id m = PStr i \<and> man_plugin_version m = PStr v"
  using assms by (auto simp: PluginManifest_validate_def eall_Inr_iff validate_identifier_Inr)

lemma register_Inr:
  assumes "register p reg = Inr reg'"
  shows "reg' = reg @ [(identity p, p)]" "identity p \<notin> fst ` set reg" "plugin_sound (identity p, p)"
proof -
  have r: "PluginManifest_validate (rp_manifest p) = Inr ()" "Admission_validate (rp_admission p) = Inr ()"
    "py_eq (ad_plugin_id (rp_admission p)) (man_plugin_id (rp_manifest p))" "identity p \<notin> fst ` set reg"
    "reg' = reg @ [(identity p, p)]"
    using assms by (auto simp: register_def ebind_Inr_iff split: if_splits)
  have "\<exists>s. ad_plugin_id (rp_admission p) = PStr s"
    using r(2) by (auto simp: Admission_validate_def ebind_Inr_iff validate_identifier_Inr)
  then show "reg' = reg @ [(identity p, p)]" "identity p \<notin> fst ` set reg" "plugin_sound (identity p, p)"
    using r by (auto simp: plugin_sound_def)
qed

interpretation plugins: plugin_index register map_of identity registry_sound
proof
  fix p and r r' :: registry assume r: "register p r = Inr r'" and "registry_sound r"
  then show "registry_sound r'" using register_Inr [OF r] by (auto simp: registry_sound_def)
next
  fix p and r r' :: registry and k assume "register p r = Inr r'"
  then have r': "r' = r @ [(identity p, p)]" "identity p \<notin> fst ` set r" by (rule register_Inr)+
  then have "map_of r (identity p) = None" by (simp add: map_of_eq_None_iff)
  then show "map_of r' k = (if k = identity p then Some p else map_of r k)"
    unfolding r'(1) map_of_append by (auto simp: map_add_def split: option.splits)
next
  fix r :: registry and p assume "map_of r (identity p) \<noteq> None"
  then have "identity p \<in> fst ` set r" by (simp add: map_of_eq_None_iff)
  then show "\<not> ok (register p r)" by (auto simp: ok_iff dest: register_Inr)
qed

lemma registry_sound_empty: "registry_sound []"
  by (simp add: registry_sound_def)

section \<open>Where a discovered plugin comes from\<close>

lemma register_files_origin:
  assumes "register_files adm dir fs reg = Inr reg'" "registry_sound reg"
  shows "registry_sound reg' \<and> (\<forall>kp \<in> set reg'. kp \<in> set reg \<or> (\<exists>f \<in> set fs. load_plugin adm dir f = Inr (snd kp)))"
  using assms
proof (induction fs arbitrary: reg)
  case (Cons f fs)
  obtain p reg1 where p: "load_plugin adm dir f = Inr p" "register p reg = Inr reg1"
    "register_files adm dir fs reg1 = Inr reg'"
    using Cons.prems(1) by (auto simp: ebind_Inr_iff)
  have "registry_sound reg1" by (rule plugins.insert_sound [OF p(2) Cons.prems(2)])
  then show ?case using Cons.IH [OF p(3)] register_Inr(1) [OF p(2)] p(1) by auto
qed simp

lemma register_dirs_origin:
  assumes "register_dirs adm dirs reg = Inr reg'" "registry_sound reg"
  shows "registry_sound reg' \<and>
    (\<forall>kp \<in> set reg'. kp \<in> set reg \<or> (\<exists>dir \<in> set dirs. \<exists>f \<in> set (pd_manifests dir). load_plugin adm dir f = Inr (snd kp)))"
  using assms
proof (induction dirs arbitrary: reg)
  case (Cons dir dirs)
  obtain reg1 where r: "register_files adm dir (sort_key fst (pd_manifests dir)) reg = Inr reg1"
    "register_dirs adm dirs reg1 = Inr reg'"
    using Cons.prems(1) by (auto simp: ebind_Inr_iff)
  note f = register_files_origin [OF r(1) Cons.prems(2)]
  show ?case using Cons.IH [OF r(2)] f by (fastforce simp: set_sort)
qed simp

lemma load_plugin_Inr:
  assumes "load_plugin adm dir f = Inr p"
  shows "load_admission (ad_plugin_id (rp_admission p)) adm = Inr (rp_admission p)"
    "load_provenance dir = Inr (rp_provenance p)"
    "check_reviewed_commit (rp_admission p) (rp_provenance p) = Inr ()"
proof -
  obtain m :: PluginManifest and a where m: "load_admission (man_plugin_id m) adm = Inr a" "load_provenance dir = Inr (rp_provenance p)"
    "check_reviewed_commit a (rp_provenance p) = Inr ()" "rp_admission p = a"
    using assms by (auto simp: load_plugin_def ebind_Inr_iff)
  have "ad_plugin_id a = man_plugin_id m"
    using m(1) by (auto simp: load_admission_def unknown_admission_def Admission_from_dict_def ebind_Inr_iff Let_def
      split: option.splits json_text.splits if_splits)
  then show "load_admission (ad_plugin_id (rp_admission p)) adm = Inr (rp_admission p)"
    "load_provenance dir = Inr (rp_provenance p)" "check_reviewed_commit (rp_admission p) (rp_provenance p) = Inr ()"
    using m by auto
qed

lemma from_directory_origin:
  assumes "from_directory (Some dirs) adm = Inr reg"
  shows "registry_sound reg \<and> (\<forall>kp \<in> set reg. \<exists>dir \<in> set dirs. \<exists>f \<in> set (pd_manifests dir). load_plugin adm dir f = Inr (snd kp))"
  using register_dirs_origin [of adm "sort_key pd_path dirs" "[]" reg] assms registry_sound_empty
  by (auto simp: from_directory_def)

lemma resolve_plugin_Inr:
  assumes "resolve_plugin pid version cap arch req reg = Inr m"
  shows "\<exists>kp \<in> set reg. rp_manifest (snd kp) = m \<and> (req \<longrightarrow> executable (snd kp)) \<and> PStr (fst (fst kp)) = pid \<and>
    (version = PNone \<or> py_eq (man_plugin_version m) version) \<and> (truthy cap \<longrightarrow> cap \<in> set (capabilities m)) \<and>
    (truthy arch \<longrightarrow> arch \<in> set (supported_arch m))"
proof -
  obtain p where p: "find_plugins pid version reg = [p]" "m = rp_manifest p" "req \<longrightarrow> executable p"
    "truthy cap \<longrightarrow> cap \<in> set (capabilities m)" "truthy arch \<longrightarrow> arch \<in> set (supported_arch m)"
    using assms by (auto simp: resolve_plugin_def split: list.splits if_splits)
  have "p \<in> set (find_plugins pid version reg)" using p(1) by simp
  then obtain k where "(k, p) \<in> set reg" "PStr (fst k) = pid" "version = PNone \<or> py_eq (man_plugin_version (rp_manifest p)) version"
    by (auto simp: find_plugins_def)
  then show ?thesis using p by (intro bexI [of _ "(k, p)"]) auto
qed

text \<open>An admission that was loaded as admitted is a record of the platform that passed its checks.\<close>

lemma load_admission_admitted:
  assumes "load_admission pid adm = Inr a" "ad_status a = ADMITTED"
  shows "\<exists>rec v. adm = Some rec \<and> rec (py_str pid) = Some (JsonText v) \<and> Admission_from_dict pid v = Inr a \<and>
    license_ok (license_review a) = Inr True \<and> truthy (approved_commit a)"
proof -
  obtain rec v where r: "adm = Some rec" "rec (py_str pid) = Some (JsonText v)" "Admission_from_dict pid v = Inr a"
    using assms by (auto simp: load_admission_def unknown_admission_def ADMITTED_def UNKNOWN_def
      split: option.splits json_text.splits)
  then have "Admission_validate a = Inr ()"
    by (auto simp: Admission_from_dict_def ebind_Inr_iff Let_def split: if_splits)
  then have "license_ok (license_review a) = Inr True \<and> truthy (approved_commit a)"
    using assms(2) by (auto simp: Admission_validate_def ebind_Inr_iff split: if_splits)
  then show ?thesis using r by blast
qed


section \<open>Lookups\<close>

lemma find_plugins_append:
  "find_plugins pid version (reg @ [(k, p)]) = find_plugins pid version reg @
     (if PStr (fst k) = pid \<and> (version = PNone \<or> py_eq (man_plugin_version (rp_manifest p)) version) then [p] else [])"
  by (simp add: find_plugins_def)

lemma find_plugins_exact:
  assumes "registry_sound reg" "(i, v) \<notin> fst ` set reg"
  shows "find_plugins (PStr i) (PStr v) reg = []"
proof -
  have "\<not> (PStr (fst k) = PStr i \<and> py_eq (man_plugin_version (rp_manifest p)) (PStr v))" if kp: "(k, p) \<in> set reg" for k p
  proof
    assume eq: "PStr (fst k) = PStr i \<and> py_eq (man_plugin_version (rp_manifest p)) (PStr v)"
    have s: "plugin_sound (k, p)" using assms(1) kp by (auto simp: registry_sound_def list_all_iff)
    then obtain i' v' where "man_plugin_id (rp_manifest p) = PStr i'" "man_plugin_version (rp_manifest p) = PStr v'"
      using validated_plugin_id [of "rp_manifest p"] by (auto simp: plugin_sound_def)
    then have "k = (i, v)" using s eq by (cases k) (auto simp: plugin_sound_def identity_def)
    then show False using assms(2) kp by force
  qed
  then show ?thesis by (auto simp: find_plugins_def filter_empty_conv)
qed

text \<open>Registration and lookup fit together: after a successful registration, an admitted plugin resolves
  under its own identifier and version to its own manifest, a plugin that is not admitted is refused,
  and every lookup of another plugin gives what it gave before.\<close>

theorem resolve_after_register:
  assumes "register p reg = Inr reg'" "registry_sound reg"
  shows "resolve_plugin (man_plugin_id (rp_manifest p)) (man_plugin_version (rp_manifest p)) PNone PNone True reg' =
      (if executable p then Inr (rp_manifest p) else Inl (RegistryError ''plugin is not admitted'')) \<and>
    (q \<noteq> man_plugin_id (rp_manifest p) \<longrightarrow> resolve_plugin q v cap arch req reg' = resolve_plugin q v cap arch req reg)"
proof -
  note r = register_Inr [OF assms(1)]
  obtain i w where iw: "man_plugin_id (rp_manifest p) = PStr i" "man_plugin_version (rp_manifest p) = PStr w"
    using r(3) validated_plugin_id [of "rp_manifest p"] by (auto simp: plugin_sound_def)
  then have k: "identity p = (i, w)" by (simp add: identity_def)
  have "find_plugins (PStr i) (PStr w) reg' = [p]"
    unfolding r(1) find_plugins_append using find_plugins_exact [OF assms(2), of i w] r(2) k iw by simp
  moreover have "find_plugins q v reg' = find_plugins q v reg" if "q \<noteq> PStr i"
    unfolding r(1) find_plugins_append using that k by simp
  ultimately show ?thesis by (simp add: resolve_plugin_def iw truthy_def)
qed

text \<open>End to end, a submitted run is pinned to a reviewed plugin: with the registry as the runtime's
  resolver, a run that \<open>submit\<close> creates has one stage, for the plugin the task names, at the version of a
  registered, admitted plugin that supports the host's architecture.\<close>

theorem submitted_run_pins_admitted_plugin:
  assumes "submit H now new_id run_id sid w limits roots (\<lambda>pid v cap. resolve_plugin pid v cap arch True reg) c task
      version cap False None s = (Inr r, s1)"
  shows "\<exists>kp \<in> set reg. \<exists>g \<in> set (stages s1). sg_run g = rn_id r \<and>
    sg_plugin_version g = man_plugin_version (rp_manifest (snd kp)) \<and> sg_plugin_id g = plugin_id (rn_task r) \<and>
    PStr (fst (fst kp)) = plugin_id (rn_task r) \<and> executable (snd kp) \<and>
    (truthy arch \<longrightarrow> arch \<in> set (supported_arch (rp_manifest (snd kp))))"
proof -
  obtain t s0 and m :: PluginManifest where t: "resolve_plugin (plugin_id t) (if truthy version then version else plugin_version t) cap arch True reg = Inr m"
    "submit_run now run_id sid t ''main'' (man_plugin_version m) False None (truthy (resumable (requirements m))) s0 = (Inr r, s1)"
    using submit_steps [OF assms] by metis
  obtain kp where kp: "kp \<in> set reg" "rp_manifest (snd kp) = m" "executable (snd kp)" "PStr (fst (fst kp)) = plugin_id t"
    "truthy arch \<longrightarrow> arch \<in> set (supported_arch m)"
    using resolve_plugin_Inr [OF t(1)] by auto
  have "rn_task r = t" by (rule submit_run_new [OF t(2)])
  moreover have "\<exists>g. g \<in> set (stages s1) \<and> sg_run g = rn_id r \<and> sg_plugin_version g = man_plugin_version m \<and>
      sg_plugin_id g = plugin_id t"
    using t(2) by (auto simp: submit_run_def Let_def split: sum.splits if_splits)
  ultimately show ?thesis using kp by (intro bexI [of _ kp]) auto
qed

section \<open>The checker against the platform\<close>

text \<open>Checks only ever add to the errors, so a report without errors had none at any point.\<close>

lemma report_simps [simp]:
  "report_ok (report_note m r) = report_ok r" "\<not> report_ok (report_error m r)"
  by (simp_all add: report_ok_def report_note_def report_error_def)

lemma check_entry_item_ok:
  assumes "report_ok (check_entry_item dir item r)"
  shows "report_ok r \<and> ok (resolve_entry dir item)"
  using assms by (auto simp: check_entry_item_def resolve_entry_def Let_def split: if_splits option.splits bool.splits)

lemma fold_check_entry_ok:
  assumes "report_ok (fold (check_entry_item dir) xs r)"
  shows "report_ok r \<and> list_all (\<lambda>i. ok (resolve_entry dir i)) xs"
  using assms
proof (induction xs arbitrary: r)
  case (Cons x xs)
  then have "report_ok (check_entry_item dir x r) \<and> list_all (\<lambda>i. ok (resolve_entry dir i)) xs" by simp
  then show ?case using check_entry_item_ok [of dir x r] by simp
qed simp

lemma check_entry_ok:
  assumes "report_ok (check_entry m dir r)"
  shows "report_ok r \<and> list_all (\<lambda>i. ok (resolve_entry dir i)) (adapter_entry m)"
  using assms fold_check_entry_ok [of dir "adapter_entry m" r]
  by (auto simp: check_entry_def Let_def split: list.splits if_splits)

lemma check_artifact_rules_ok: "report_ok (check_artifact_rules m r) \<Longrightarrow> report_ok r"
  by (auto simp: check_artifact_rules_def Let_def split: if_splits)

lemma check_admission_ok:
  assumes "check_admission pid adm r = Inr r'" "report_ok r'"
  shows "report_ok r \<and> ok (load_admission pid adm)"
  using assms
  by (auto simp: check_admission_def load_admission_def Let_def
      split: option.splits json_text.splits sum.splits pyexn.splits if_splits)

lemma emap_ok: "list_all (\<lambda>x. ok (f x)) xs \<Longrightarrow> \<exists>ys. emap f xs = Inr ys"
  by (induction xs) (auto simp: ok_iff)

lemma check_manifest_file_ok:
  assumes "check_manifest_file adm dir file r = Inr r'" "report_ok r'"
  shows "report_ok r \<and> (\<exists>m es a. load_manifest (snd file) = Inr m \<and> emap (resolve_entry dir) (adapter_entry m) = Inr es \<and>
    load_admission (man_plugin_id m) adm = Inr a)"
proof -
  obtain v m where m: "snd file = JsonText v" "PluginManifest_from_dict v = Inr m"
    "check_admission (man_plugin_id m) adm (check_artifact_rules m (check_entry m dir (report_note ''manifest'' r))) = Inr r'"
    using assms by (auto simp: check_manifest_file_def ebind_Inr_iff split: json_text.splits sum.splits if_splits)
  have a: "report_ok (check_artifact_rules m (check_entry m dir (report_note ''manifest'' r)))"
    "ok (load_admission (man_plugin_id m) adm)"
    using check_admission_ok [OF m(3) assms(2)] by auto
  have "report_ok r" "list_all (\<lambda>i. ok (resolve_entry dir i)) (adapter_entry m)"
    using check_entry_ok [OF check_artifact_rules_ok [OF a(1)]] by auto
  then show ?thesis using m a(2) emap_ok [of "resolve_entry dir" "adapter_entry m"] by (auto simp: load_manifest_def ok_iff)
qed

lemma check_files_ok:
  assumes "check_files adm dir fs r = Inr r'" "report_ok r'"
  shows "report_ok r \<and> (\<forall>f \<in> set fs. \<exists>m es a. load_manifest (snd f) = Inr m \<and>
    emap (resolve_entry dir) (adapter_entry m) = Inr es \<and> load_admission (man_plugin_id m) adm = Inr a)"
  using assms
proof (induction fs arbitrary: r)
  case (Cons f fs)
  obtain r1 where r1: "check_manifest_file adm dir f r = Inr r1" "check_files adm dir fs r1 = Inr r'"
    using Cons.prems(1) by (auto simp: ebind_Inr_iff)
  note ih = Cons.IH [OF r1(2) Cons.prems(2)]
  show ?case using ih check_manifest_file_ok [OF r1(1)] by auto
qed simp

lemma check_provenance_ok:
  assumes "check_provenance dir r = Inr r'" "report_ok r'"
  shows "report_ok r \<and> ok (load_provenance dir)"
  using assms by (auto simp: check_provenance_def load_provenance_def
    split: option.splits json_text.splits sum.splits pyexn.splits)


section \<open>Sample plugin\<close>

definition sample_manifest_json :: pyval where
  "sample_manifest_json = PDict
     [ (PStr ''schema_version'', PInt SCHEMA_VERSION), (PStr ''plugin_id'', PStr ''p''), (PStr ''plugin_version'', PStr ''1''),
       (PStr ''adapter_entry'', PList [PStr ''./run'']), (PStr ''capabilities'', PList [PStr ''c'']),
       (PStr ''supported_arch'', PList [PStr ''x'']) ]"

definition sample_admission :: pyval where
  "sample_admission = PDict [ (PStr ''status'', PStr ''admitted''), (PStr ''license_review'', PStr ''green''),
     (PStr ''approved_commit'', PStr ''abc'') ]"

definition sample_dir :: "json_text option \<Rightarrow> plugin_dir" where
  "sample_dir prov = \<lparr> pd_path = [''plugins'', ''p''], pd_manifests = [(''p.plugin.json'', JsonText sample_manifest_json)],
     pd_provenance = prov, pd_resolve = (\<lambda>x. [''plugins'', ''p'', x]), pd_file = (\<lambda>_. Some True) \<rparr>"

definition sample_admissions :: admissions where
  "sample_admissions = Some (\<lambda>_. Some (JsonText sample_admission))"

definition sample_registry :: registry where
  "sample_registry = projr (from_directory (Some [sample_dir None]) sample_admissions)"

lemma sample_registry_ok: "from_directory (Some [sample_dir None]) sample_admissions = Inr sample_registry"
proof -
  have "ok (from_directory (Some [sample_dir None]) sample_admissions)" by code_simp
  then show ?thesis by (auto simp: ok_iff sample_registry_def)
qed

definition sample_resolved :: PluginManifest where
  "sample_resolved = projr (resolve_plugin (PStr ''p'') PNone (PStr ''c'') (PStr ''x'') True sample_registry)"

lemma sample_resolved_ok: "resolve_plugin (PStr ''p'') PNone (PStr ''c'') (PStr ''x'') True sample_registry = Inr sample_resolved"
proof -
  have "ok (resolve_plugin (PStr ''p'') PNone (PStr ''c'') (PStr ''x'') True sample_registry)" by code_simp
  then show ?thesis by (auto simp: ok_iff sample_resolved_def)
qed


definition sample_plugin :: RegisteredPlugin where
  "sample_plugin = projr (load_plugin sample_admissions (sample_dir None) (''p.plugin.json'', JsonText sample_manifest_json))"

theorem resolve_after_register_witness:
  "\<exists>reg. register sample_plugin [] = Inr reg \<and>
     resolve_plugin (man_plugin_id (rp_manifest sample_plugin)) (man_plugin_version (rp_manifest sample_plugin)) PNone PNone True reg =
       Inr (rp_manifest sample_plugin)"
proof -
  have "ok (register sample_plugin [])" and e: "executable sample_plugin" by code_simp+
  then obtain reg where r: "register sample_plugin [] = Inr reg" by (auto simp: ok_iff)
  show ?thesis using resolve_after_register [OF r registry_sound_empty] r e by auto
qed

definition sample_run_submission :: "run_row result \<times> store" where
  "sample_run_submission = submit toy_digest 0 sample_new_id ''r'' ''g'' (sample_world []) True []
     (\<lambda>pid v cap. resolve_plugin pid v cap (PStr ''x'') True sample_registry) roomy
     (TaskSpec_of [(PStr ''task_id'', PStr ''t''), (PStr ''project_id'', PStr ''q''), (PStr ''design_id'', PStr ''d''),
        (PStr ''plugin_id'', PStr ''p'')] [] [] None) PNone PNone False None empty_store"

theorem submitted_run_pins_admitted_plugin_witness:
  "\<exists>kp. kp \<in> set sample_registry \<and> executable (snd kp) \<and> fst (fst kp) = ''p''"
proof -
  obtain x s where x: "sample_run_submission = (x, s)" by fastforce
  have "case fst sample_run_submission of Inl _ \<Rightarrow> False | Inr r \<Rightarrow> plugin_id (rn_task r) = PStr ''p''" by code_simp
  then obtain r where "x = Inr r" and p: "plugin_id (rn_task r) = PStr ''p''"
    unfolding x by (auto split: sum.splits)
  then have r: "sample_run_submission = (Inr r, s)" by (simp add: x)
  obtain kp where "kp \<in> set sample_registry" "executable (snd kp)" "PStr (fst (fst kp)) = plugin_id (rn_task r)"
    using submitted_run_pins_admitted_plugin [OF r [unfolded sample_run_submission_def]] by blast
  then show ?thesis using p by (intro exI [of _ kp]) simp
qed


text \<open>A divergence: a plugin's origin record that is malformed is documented to mean the same as a missing
  one, no error; an unknown or non-string field makes the whole discovery raise, and so does a record
  that is no object, while text that is no JSON is treated as documented.\<close>

theorem malformed_provenance_stops_discovery:
  "map (\<lambda>prov. from_directory (Some [sample_dir (Some prov)]) sample_admissions)
     [JsonText (PDict [(PStr ''licence'', PStr ''MIT'')]), JsonText (PDict [(PStr ''license'', PInt 1)]), JsonText (PList [])] =
     [Inl (RegistryError ''unknown provenance fields''), Inl (RegistryError ''provenance field must be a string''),
      Inl AttributeError] \<and>
   ok (from_directory (Some [sample_dir (Some JsonGarbage)]) sample_admissions)"
proof
  have "list_all2 (\<lambda>prov e. case from_directory (Some [sample_dir (Some prov)]) sample_admissions of
       Inl e' \<Rightarrow> e' = e | Inr _ \<Rightarrow> False)
     [JsonText (PDict [(PStr ''licence'', PStr ''MIT'')]), JsonText (PDict [(PStr ''license'', PInt 1)]), JsonText (PList [])]
     [RegistryError ''unknown provenance fields'', RegistryError ''provenance field must be a string'', AttributeError]"
    by code_simp
  then show "map (\<lambda>prov. from_directory (Some [sample_dir (Some prov)]) sample_admissions)
     [JsonText (PDict [(PStr ''licence'', PStr ''MIT'')]), JsonText (PDict [(PStr ''license'', PInt 1)]), JsonText (PList [])] =
     [Inl (RegistryError ''unknown provenance fields''), Inl (RegistryError ''provenance field must be a string''),
      Inl AttributeError]"
    by (auto split: sum.splits)
qed code_simp

text \<open>A divergence: the checker is documented never to reject what the platform accepts; an unreadable origin
  record is an error to the checker, and the platform loads and admits the plugin.\<close>

theorem checker_rejects_what_platform_loads:
  "(case validate_directory (Some (sample_dir (Some JsonGarbage))) sample_admissions of
      Inl _ \<Rightarrow> False | Inr r \<Rightarrow> rep_errors r = [''provenance.json is not valid provenance'']) \<and>
   (case from_directory (Some [sample_dir (Some JsonGarbage)]) sample_admissions of
      Inl _ \<Rightarrow> False | Inr reg \<Rightarrow> map (\<lambda>kp. executable (snd kp)) reg = [True])"
  by code_simp

end
