(* ===== verification/Evaluator.thy ===== *)
theory Evaluator
  imports Attempt Registry
begin

text \<open>
  \<open>core/evaluator/src/openroad_platform_evaluator/boundary.py\<close>: the protected evaluator as a plugin. It runs
  through the adapter protocol like any other plugin, and its answer is refused unless every number in it
  points at something. The files of the evaluated workspace after the evaluator has run, its process outcome
  and its result file are given; \<open>parse\<close> is the JSON reading of a text file.
\<close>

section \<open>The evaluator\<close>

definition VERDICT_ARTIFACT_KIND :: string where
  "VERDICT_ARTIFACT_KIND = ''protected_evaluation''"

record EvaluationOutcome =
  eo_verdict :: Verdict
  eo_pin :: EvaluatorPin
  eo_path :: "string list"
  eo_sha256 :: string

record PluginBackedEvaluator =
  pe_manifest :: PluginManifest
  pe_pin :: EvaluatorPin
  pe_timeout :: int

definition PluginBackedEvaluator_init ::
  "(pyval \<Rightarrow> string) \<Rightarrow> PluginManifest \<Rightarrow> int \<Rightarrow> PluginBackedEvaluator result" where
  "PluginBackedEvaluator_init digest manifest timeout =
     ebind (PluginManifest_validate manifest) (\<lambda>_.
     if PStr PROTECTED_EVALUATOR_CAPABILITY \<notin> set (capabilities manifest)
     then Inl (EvaluationError ''plugin does not declare the protected capability; it cannot be the evaluator'')
     else ebind (EvaluatorPin_of digest manifest) (\<lambda>pin.
       Inr \<lparr> pe_manifest = manifest, pe_pin = pin, pe_timeout = timeout \<rparr>))"

text \<open>\<open>min(a, b)\<close> of an integer and a number: the second only if it is smaller.\<close>

definition py_min :: "int \<Rightarrow> pyval \<Rightarrow> pyval" where
  "py_min a b =
     (case py_num b of
        Some (FFin q) \<Rightarrow> if q < of_int a then b else PInt a
      | Some FNegInf \<Rightarrow> b
      | _ \<Rightarrow> PInt a)"

text \<open>The task the evaluator is given. The runtime declares no artifacts in its request.\<close>

definition evaluation_task :: "PluginBackedEvaluator \<Rightarrow> string \<Rightarrow> EvaluationRequest \<Rightarrow> TaskSpec result" where
  "evaluation_task e workspace r =
     ebind (TaskSpec_to_dict (er_task r)) (\<lambda>t.
     Inr (TaskSpec_of
       [ (PStr ''task_id'', PStr (''evaluate-'' @ py_str (er_attempt_id r))),
         (PStr ''project_id'', project_id (er_task r)), (PStr ''design_id'', design_id (er_task r)),
         (PStr ''plugin_id'', man_plugin_id (pe_manifest e)),
         (PStr ''inputs'', PDict
            [ (PStr ''workspace'', PStr workspace),
              (PStr ''evaluated_plugin_id'', man_plugin_id (er_manifest r)),
              (PStr ''evaluated_task'', t), (PStr ''declared_artifacts'', PList []) ]),
         (PStr ''timeout_seconds'', py_min (pe_timeout e) (default_timeout_seconds (pe_manifest e))) ]
       [PStr VERDICT_ARTIFACT_KIND] [] None))"

section \<open>Reading the verdict\<close>

text \<open>\<open>_locate_verdict\<close>: exactly one artifact of the verdict's kind; the key of its file.\<close>

definition locate_verdict :: "pydict list \<Rightarrow> string result" where
  "locate_verdict given =
     (case filter (\<lambda>a. dgetN a ''kind'' = PStr VERDICT_ARTIFACT_KIND) given of
        [a] \<Rightarrow> Inr (py_str (dgetN a ''store_key''))
      | _ \<Rightarrow> Inl (EvaluationError ''the evaluator must produce exactly one protected_evaluation artifact''))"

definition VerdictStatus_of :: "pyval \<Rightarrow> VerdictStatus option" where
  "VerdictStatus_of v =
     (if v = PStr ''admissible'' then Some ADMISSIBLE
      else if v = PStr ''rejected'' then Some REJECTED
      else if v = PStr ''incomplete'' then Some INCOMPLETE else None)"

text \<open>\<open>{"schema_version": SCHEMA_VERSION, **item}\<close>: an item that is no mapping raises \<open>TypeError\<close>.\<close>

definition verdict_metric :: "pyval \<Rightarrow> Metric result" where
  "verdict_metric item =
     (if \<not> is_dict item then Inl TypeError
      else Metric_from_dict (PDict (dupdate [(PStr ''schema_version'', PInt SCHEMA_VERSION)] (items item))))"

definition verdict_artifact :: "pyval \<Rightarrow> ArtifactDeclaration result" where
  "verdict_artifact item =
     (if \<not> is_dict item then Inl TypeError
      else case (dget (items item) ''kind'', dget (items item) ''path'') of
        (Some kind, Some path) \<Rightarrow>
          ebind (dict_or_empty (dgetN (items item) ''metadata'')) (\<lambda>meta.
          Inr \<lparr> ad_kind = kind, ad_path = path, ad_required = PBool True, ad_media_type = PNone,
                ad_metadata = PDict meta, ad_allow_reserved = False \<rparr>)
      | _ \<Rightarrow> Inl KeyError)"

text \<open>
  \<open>_load_verdict\<close>. Only contract errors of the verdict itself become evaluation errors; an error of a metric
  or of the loss manifest passes through.
\<close>

definition validated_verdict :: "Verdict \<Rightarrow> Verdict result" where
  "validated_verdict v =
     (case Verdict_validate v of
        Inl e \<Rightarrow> Inl (if is_ContractError e then EvaluationError ''the verdict does not satisfy its contract'' else e)
      | Inr _ \<Rightarrow> Inr v)"

definition load_verdict :: "json_text option \<Rightarrow> Verdict result" where
  "load_verdict text =
     (case text of
        Some (JsonText (PDict payload)) \<Rightarrow>
          (case VerdictStatus_of (dgetN payload ''status'') of
             None \<Rightarrow> Inl (EvaluationError ''verdict status is not one of the known ones'')
           | Some status \<Rightarrow>
               ebind (iter_of (dget_or payload ''metrics'' (PList []))) (\<lambda>raw.
               ebind (emap verdict_metric raw) (\<lambda>ms.
               ebind (iter_of (dget_or payload ''artifacts'' (PList []))) (\<lambda>declared.
               ebind (emap verdict_artifact declared) (\<lambda>as.
               ebind (dict_or_empty (dgetN payload ''loss_manifest'')) (\<lambda>loss.
               validated_verdict \<lparr> v_status = status, v_metrics = ms, v_artifacts = as, v_reason = dgetN payload ''reason'',
                 v_loss_manifest = PDict loss, v_schema_version = PInt SCHEMA_VERSION \<rparr>))))))
      | Some (JsonText _) \<Rightarrow> Inl AttributeError
      | _ \<Rightarrow> Inl (EvaluationError ''verdict is not readable JSON''))"

text \<open>\<open>_check_traceability\<close>: every claimed artifact and every cited file exists inside the workspace.\<close>

definition in_workspace :: "string list \<Rightarrow> (string \<Rightarrow> ws_file) \<Rightarrow> string \<Rightarrow> bool" where
  "in_workspace wsroot look p = (prefix wsroot (wf_path (look p)) \<and> wf_hashed (look p) \<noteq> None)"

definition check_file :: "string list \<Rightarrow> (string \<Rightarrow> ws_file) \<Rightarrow> string \<Rightarrow> unit result" where
  "check_file wsroot look p = eall
     [ echeck (\<not> prefix wsroot (wf_path (look p))) (EvaluationError ''path outside the workspace''),
       echeck (wf_hashed (look p) = None) (EvaluationError ''file does not exist'') ]"

definition check_metric :: "string list \<Rightarrow> (string \<Rightarrow> ws_file) \<Rightarrow> Metric \<Rightarrow> unit result" where
  "check_metric wsroot look m =
     (if m_source_artifact_id m \<noteq> PNone then Inr ()
      else
        let key = dgetN (items (m_context m)) ''source_artifact_store_key'' in
        if \<not> truthy key then Inl (EvaluationError ''metric cites no source artifact'')
        else check_file wsroot look (text_of key))"

definition check_traceability :: "string list \<Rightarrow> (string \<Rightarrow> ws_file) \<Rightarrow> Verdict \<Rightarrow> unit result" where
  "check_traceability wsroot look v = eall
     (map (\<lambda>a. check_file wsroot look (py_str (ad_path a))) (v_artifacts v) @ map (check_metric wsroot look) (v_metrics v))"

section \<open>One evaluation\<close>

text \<open>The circumstances of an evaluation: the workspace, its files afterwards, and what the process did.\<close>

record evaluation =
  ev_workspace :: string
  ev_root :: "string list"
  ev_is_dir :: bool
  ev_look :: "string \<Rightarrow> ws_file"
  ev_file :: "json_text option"
  ev_outcome :: ProcessOutcome
  ev_started :: string
  ev_ended :: string

definition evaluate_with_evidence ::
  "(bytes \<Rightarrow> string) \<Rightarrow> (bytes \<Rightarrow> json_text) \<Rightarrow> PluginBackedEvaluator \<Rightarrow> evaluation \<Rightarrow> EvaluationRequest \<Rightarrow>
   EvaluationOutcome result" where
  "evaluate_with_evidence H parse e v r =
     ebind (EvaluationRequest_validate r) (\<lambda>_.
     ebind (echeck (\<not> ev_is_dir v) (EvaluationError ''evaluation workspace does not exist'')) (\<lambda>_.
     ebind (evaluation_task e (ev_workspace v) r) (\<lambda>task.
     ebind (execute H (ev_root v) (ev_look v) (ev_file v) (ev_outcome v) (ev_started v) (ev_ended v) (pe_manifest e) task True)
       (\<lambda>x.
     ebind (echeck (res_status (ex_result x) \<noteq> SUCCEEDED) (EvaluationError ''the protected evaluator failed'')) (\<lambda>_.
     ebind (locate_verdict (ex_artifacts x)) (\<lambda>key.
     ebind (load_verdict (map_option parse (wf_hashed (ev_look v key)))) (\<lambda>verdict.
     ebind (check_traceability (ev_root v) (ev_look v) verdict) (\<lambda>_.
     Inr \<lparr> eo_verdict = verdict, eo_pin = pe_pin e, eo_path = wf_path (ev_look v key),
           eo_sha256 = H (the (wf_hashed (ev_look v key))) \<rparr>))))))))"

definition evaluate ::
  "(bytes \<Rightarrow> string) \<Rightarrow> (bytes \<Rightarrow> json_text) \<Rightarrow> PluginBackedEvaluator \<Rightarrow> evaluation \<Rightarrow> EvaluationRequest \<Rightarrow> Verdict result" where
  "evaluate H parse e v r = ebind (evaluate_with_evidence H parse e v r) (\<lambda>x. Inr (eo_verdict x))"

text \<open>\<open>resolve_evaluator\<close>: the one executable plugin with the protected capability.\<close>

definition evaluator_candidates :: "registry \<Rightarrow> pyval \<Rightarrow> RegisteredPlugin list" where
  "evaluator_candidates reg pid =
     filter (\<lambda>p. PStr PROTECTED_EVALUATOR_CAPABILITY \<in> set (capabilities (rp_manifest p)) \<and> executable p \<and>
       (pid = PNone \<or> py_eq (man_plugin_id (rp_manifest p)) pid)) (list_plugins reg)"

definition resolve_evaluator :: "registry \<Rightarrow> pyval \<Rightarrow> PluginManifest result" where
  "resolve_evaluator reg pid =
     (case evaluator_candidates reg pid of
        [] \<Rightarrow> Inl (EvaluationError ''no admitted plugin declares the protected capability'')
      | [p] \<Rightarrow> Inr (rp_manifest p)
      | _ \<Rightarrow> Inl (EvaluationError ''several plugins claim to be the protected evaluator''))"

section \<open>What the boundary lets through\<close>

lemma check_file_Inr: "check_file wsroot look p = Inr u \<longleftrightarrow> in_workspace wsroot look p"
  by (auto simp: check_file_def in_workspace_def eall_Inr_iff)

text \<open>A metric that is allowed through: it names an artifact identifier or a file of the workspace.\<close>

definition sourced :: "string list \<Rightarrow> (string \<Rightarrow> ws_file) \<Rightarrow> Metric \<Rightarrow> bool" where
  "sourced wsroot look m = (m_source_artifact_id m \<noteq> PNone \<or>
     in_workspace wsroot look (text_of (dgetN (items (m_context m)) ''source_artifact_store_key'')))"

lemma check_traceability_Inr:
  assumes "check_traceability wsroot look v = Inr u"
  shows "list_all (\<lambda>a. in_workspace wsroot look (py_str (ad_path a))) (v_artifacts v)"
    "list_all (sourced wsroot look) (v_metrics v)"
  using assms
  by (auto simp: check_traceability_def eall_Inr_iff check_file_Inr check_metric_def sourced_def list_all_iff Let_def ball_Un
      split: if_splits)

lemma validated_verdict_Inr: "validated_verdict v = Inr w \<longleftrightarrow> w = v \<and> Verdict_validate v = Inr ()"
  by (cases "Verdict_validate v") (auto simp: validated_verdict_def)

lemma load_verdict_valid: "load_verdict text = Inr v \<Longrightarrow> Verdict_validate v = Inr ()"
  by (auto simp: load_verdict_def ebind_Inr_iff validated_verdict_Inr split: option.splits json_text.splits pyval.splits)

lemma evaluate_with_evidence_Inr:
  assumes "evaluate_with_evidence H parse e v r = Inr x"
  obtains task ex key b where "evaluation_task e (ev_workspace v) r = Inr task"
    "execute H (ev_root v) (ev_look v) (ev_file v) (ev_outcome v) (ev_started v) (ev_ended v) (pe_manifest e) task True = Inr ex"
    "res_status (ex_result ex) = SUCCEEDED" "locate_verdict (ex_artifacts ex) = Inr key"
    "wf_hashed (ev_look v key) = Some b" "load_verdict (Some (parse b)) = Inr (eo_verdict x)"
    "check_traceability (ev_root v) (ev_look v) (eo_verdict x) = Inr ()" "eo_pin x = pe_pin e" "eo_sha256 x = H b"
proof -
  obtain task ex key where t: "evaluation_task e (ev_workspace v) r = Inr task"
    "execute H (ev_root v) (ev_look v) (ev_file v) (ev_outcome v) (ev_started v) (ev_ended v) (pe_manifest e) task True = Inr ex"
    "res_status (ex_result ex) = SUCCEEDED" "locate_verdict (ex_artifacts ex) = Inr key"
    "load_verdict (map_option parse (wf_hashed (ev_look v key))) = Inr (eo_verdict x)"
    "check_traceability (ev_root v) (ev_look v) (eo_verdict x) = Inr ()" "eo_pin x = pe_pin e"
    "eo_sha256 x = H (the (wf_hashed (ev_look v key)))"
    using assms by (auto simp: evaluate_with_evidence_def ebind_Inr_iff)
  moreover obtain b where "wf_hashed (ev_look v key) = Some b"
    using t(5) by (cases "wf_hashed (ev_look v key)") (auto simp: load_verdict_def)
  ultimately show thesis by (intro that [of task ex key b]) simp_all
qed

section \<open>The interface the runtime relies on\<close>

text \<open>
  The kernel's \<open>ProtectedEvaluator\<close> protocol: an evaluator answers with a valid verdict whose metrics are all
  sourced, in a workspace that is the runtime's own.
\<close>

locale protected_evaluator =
  fixes eval :: "EvaluationRequest \<Rightarrow> Verdict result"
    and wsroot :: "string list"
    and look :: "string \<Rightarrow> ws_file"
  assumes eval_valid: "eval r = Inr v \<Longrightarrow> Verdict_validate v = Inr ()"
    and eval_sourced: "eval r = Inr v \<Longrightarrow> list_all (sourced wsroot look) (v_metrics v)"
begin

lemma evaluated_metrics_sourced:
  assumes "evaluate_run H base after (Some eval) x manifest task workspace attempt_id = Inr (as, ms)"
  shows "list_all (sourced wsroot look) ms"
  using assms eval_sourced
  by (auto simp: evaluate_run_def ebind_Inr_iff split: if_splits)

lemma revalidation_redundant:
  assumes "res_status (ex_result x) = SUCCEEDED"
    and "eval \<lparr> er_manifest = manifest, er_task = task, er_workspace = PStr workspace, er_attempt_id = PStr attempt_id \<rparr> = Inr v"
  shows "evaluate_run H base after (Some eval) x manifest task workspace attempt_id =
    (if v_status v = REJECTED then Inl (RuntimeStoreError ''protected evaluator rejected the run'')
     else ebind (validate_artifact_declarations H base after manifest (map verdict_declaration (v_artifacts v)) [] False False)
       (\<lambda>as. Inr (as, v_metrics v)))"
  using assms eval_valid by (simp add: evaluate_run_def)

end

interpretation boundary: protected_evaluator "evaluate H parse e v" "ev_root v" "ev_look v" for H parse e v
proof
  fix r w assume "evaluate H parse e v r = Inr w"
  then obtain x where x: "evaluate_with_evidence H parse e v r = Inr x" "w = eo_verdict x"
    by (auto simp: evaluate_def ebind_Inr_iff)
  obtain b where b: "load_verdict (Some (parse b)) = Inr (eo_verdict x)"
    "check_traceability (ev_root v) (ev_look v) (eo_verdict x) = Inr ()"
    by (rule evaluate_with_evidence_Inr [OF x(1)])
  show "Verdict_validate w = Inr ()" using load_verdict_valid [OF b(1)] x(2) by simp
  show "list_all (sourced (ev_root v) (ev_look v)) (v_metrics w)" using check_traceability_Inr(2) [OF b(2)] x(2) by simp
qed

section \<open>Properties\<close>


text \<open>The resolved evaluator is the only candidate, and it can be set up as the evaluator.\<close>

lemma resolve_evaluator_sole:
  assumes "resolve_evaluator reg pid = Inr m"
  shows "\<exists>p. evaluator_candidates reg pid = [p] \<and> m = rp_manifest p \<and> executable p"
proof -
  obtain p where p: "evaluator_candidates reg pid = [p]" "m = rp_manifest p"
    using assms by (auto simp: resolve_evaluator_def split: list.splits)
  then have "p \<in> set (evaluator_candidates reg pid)" by simp
  then show ?thesis using p by (auto simp: evaluator_candidates_def)
qed

lemma resolved_evaluator_starts:
  assumes "resolve_evaluator reg pid = Inr m" "registry_sound reg" "\<And>x. SHA256_HEX (digest x)"
  shows "\<exists>e. PluginBackedEvaluator_init digest m timeout = Inr e \<and> pe_manifest e = m"
proof -
  obtain p where p: "evaluator_candidates reg pid = [p]" "m = rp_manifest p" using resolve_evaluator_sole [OF assms(1)] by blast
  have mem: "p \<in> set (evaluator_candidates reg pid)" by (simp add: p(1))
  then have cap: "PStr PROTECTED_EVALUATOR_CAPABILITY \<in> set (capabilities m)" and "p \<in> snd ` set reg"
    by (auto simp: evaluator_candidates_def p(2) list_plugins_def)
  then have v: "PluginManifest_validate m = Inr ()"
    using assms(2) p(2) by (auto simp: registry_sound_def list_all_iff plugin_sound_def)
  then have ids: "validate_identifier ''plugin_id'' (man_plugin_id m) True = Inr ()"
    "validate_identifier ''plugin_version'' (man_plugin_version m) True = Inr ()"
    by (auto simp: PluginManifest_validate_def eall_Inr_iff)
  obtain payload where "PluginManifest_to_dict m = Inr payload" using v by (auto simp: PluginManifest_to_dict_def)
  then have "\<exists>pin. EvaluatorPin_of digest m = Inr pin"
    using cap ids assms(3) by (auto simp: EvaluatorPin_of_def EvaluatorPin_validate_def ebind_Inr_iff eall_Inr_iff validate_sha256_def
      is_str_def py_str_def Let_def)
  then show ?thesis using v cap by (auto simp: PluginBackedEvaluator_init_def)
qed

section \<open>A sample evaluation\<close>

text \<open>A workspace whose only file is the verdict: one metric that claims an artifact identifier of its own.\<close>

definition sample_evaluator :: PluginBackedEvaluator where
  "sample_evaluator = \<lparr> pe_manifest = sample_manifest\<lparr> capabilities := [PStr PROTECTED_EVALUATOR_CAPABILITY] \<rparr>,
     pe_pin = \<lparr> pin_plugin_id = PStr ''plug'', pin_plugin_version = PStr ''1'', pin_manifest_sha256 = PStr (toy_digest []) \<rparr>,
     pe_timeout = 600 \<rparr>"

definition sample_evaluation :: evaluation where
  "sample_evaluation = \<lparr> ev_workspace = ''/ws'', ev_root = [''ws''], ev_is_dir = True,
     ev_look = (\<lambda>p. \<lparr> wf_path = [''ws'', p], wf_hashed = (if p = ''v.json'' then Some ''v'' else None), wf_copied = ''v'' \<rparr>),
     ev_file = Some (JsonText (PDict
       [ (PStr ''schema_version'', PInt SCHEMA_VERSION), (PStr ''status'', PStr ''succeeded''), (PStr ''exit_code'', PInt 0),
         (PStr ''started_at'', PStr ''s''), (PStr ''ended_at'', PStr ''e''), (PStr ''metrics'', PList []),
         (PStr ''artifacts'', PList [PDict [(PStr ''kind'', PStr VERDICT_ARTIFACT_KIND), (PStr ''path'', PStr ''v.json'')]]) ])),
     ev_outcome = clean_exit, ev_started = ''s'', ev_ended = ''e'' \<rparr>"

definition sample_verdict :: "bytes \<Rightarrow> json_text" where
  "sample_verdict _ = JsonText (PDict
     [ (PStr ''status'', PStr ''admissible''),
       (PStr ''metrics'', PList [PDict [(PStr ''name'', PStr ''wns''), (PStr ''value'', PInt 0),
          (PStr ''source_artifact_id'', PStr ''elsewhere'')]]) ])"

definition sample_request :: EvaluationRequest where
  "sample_request = \<lparr> er_manifest = report_manifest, er_task = report_task, er_workspace = PStr ''/ws'',
     er_attempt_id = PStr ''a1'' \<rparr>"

definition sample_acceptance :: "EvaluationOutcome result" where
  "sample_acceptance = evaluate_with_evidence toy_digest sample_verdict sample_evaluator sample_evaluation sample_request"

lemma sample_acceptance_value:
  "case sample_acceptance of Inl _ \<Rightarrow> False
   | Inr x \<Rightarrow> v_status (eo_verdict x) = ADMISSIBLE \<and> v_artifacts (eo_verdict x) = [] \<and>
       map (\<lambda>m. (m_name m, m_source_artifact_id m)) (v_metrics (eo_verdict x)) = [(PStr ''wns'', PStr ''elsewhere'')]"
  by code_simp


text \<open>A divergence: the module promises that every metric of an accepted verdict points at an artifact that exists in the
  evaluated workspace. A verdict whose only metric names an artifact identifier is accepted without any look at
  what it names; here the workspace holds nothing but the verdict.\<close>

theorem evaluator_trusts_source_ids:
  "(\<forall>p. in_workspace (ev_root sample_evaluation) (ev_look sample_evaluation) p = (p = ''v.json'')) \<and>
   (case sample_acceptance of Inl _ \<Rightarrow> False
    | Inr x \<Rightarrow> v_status (eo_verdict x) = ADMISSIBLE \<and> v_artifacts (eo_verdict x) = [] \<and>
        map (\<lambda>m. (m_name m, m_source_artifact_id m)) (v_metrics (eo_verdict x)) = [(PStr ''wns'', PStr ''elsewhere'')])"
  using sample_acceptance_value by (simp add: in_workspace_def sample_evaluation_def)

end
