(* ===== verification/Plans.thy ===== *)
theory Plans
  imports Tasks
begin

text \<open>
  \<open>apps/plan_executor/src/openroad_app_plan_executor/__main__.py\<close>: durable plans of ordered steps, executed one
  task at a time through the kernel's API. The plan store is modelled in full, the executor with the kernel's
  answers as a parameter. A row's JSON columns hold the values themselves. The executor is the only writer of
  steps; its reads and writes of one plan are taken as one operation, between which requests may come in.
\<close>

section \<open>The plan store\<close>

record plan_row =
  pl_id :: string
  pl_owner :: "string option"
  pl_status :: string
  pl_failure :: pyval
  pl_created :: int

record step_row =
  sp_plan :: string
  sp_ordinal :: nat
  sp_id :: string
  sp_task :: pyval
  sp_bindings :: "pyval list"
  sp_run :: "string option"
  sp_status :: string
  sp_failure :: pyval

record plan_store =
  plans :: "plan_row list"
  plan_steps :: "step_row list"

definition MAX_STEPS :: nat where
  "MAX_STEPS = 64"

definition ACTIVE :: "string list" where
  "ACTIVE = [''queued'', ''preparing'', ''running'', ''retry_wait'', ''cancel_requested'']"

definition FAILED_STATUSES :: "string list" where
  "FAILED_STATUSES = [''failed'', ''cancelled'', ''timed_out'', ''lost'']"

definition PLATFORM_FAILURES :: "string list" where
  "PLATFORM_FAILURES = [''cancelled'', ''lease_expired'', ''protocol_error'', ''resource_exceeded'', ''runtime_error'', ''timeout'']"

fun PLAN_IDENTIFIER :: "string \<Rightarrow> bool" where
  "PLAN_IDENTIFIER [] = False"
| "PLAN_IDENTIFIER (c # cs) =
     (is_alnum c \<and> length cs \<le> 127 \<and> list_all (\<lambda>x. is_alnum x \<or> x \<in> set ''._-'') cs)"

subsection \<open>Validation\<close>

definition nonempty_str :: "pyval \<Rightarrow> bool" where
  "nonempty_str v = (is_str v \<and> py_str v \<noteq> [])"

definition validate_binding :: "string list \<Rightarrow> pyval \<Rightarrow> unit result" where
  "validate_binding earlier binding =
     (if \<not> is_dict binding then Inl (PlanError ''non-object binding'' 400)
      else
        let source = dgetN (items binding) ''from_step'' in
        if is_list source \<or> is_dict source then Inl TypeError
        else eall
          [ echeck (source \<notin> PStr ` set earlier) (PlanError ''binding must refer to an earlier step'' 400),
            echeck (\<not> nonempty_str (dgetN (items binding) ''artifact_kind'')) (PlanError ''binding needs artifact_kind'' 400),
            echeck (\<not> nonempty_str (dgetN (items binding) ''destination'')) (PlanError ''binding needs destination'' 400),
            echeck (\<not> is_dict (dget_or (items binding) ''metadata'' (PDict [])))
              (PlanError ''binding metadata must be an object'' 400) ])"

definition validate_task :: "pyval \<Rightarrow> unit result" where
  "validate_task task =
     (case TaskSpec_from_dict task of
        Inl e \<Rightarrow> Inl (if is_ValueError e \<or> e = TypeError then PlanError ''step has an invalid task'' 400 else e)
      | Inr _ \<Rightarrow> Inr ())"

text \<open>One step; the result is its identifier, which joins those seen.\<close>

definition validate_step :: "string list \<Rightarrow> pyval \<Rightarrow> string result" where
  "validate_step seen step =
     (if \<not> is_dict step then Inl (PlanError ''every step must be an object'' 400)
      else
        let d = items step; step_id = dgetN d ''step_id'' in
        if \<not> is_str step_id \<or> \<not> PLAN_IDENTIFIER (py_str step_id)
        then Inl (PlanError ''every step needs an identifier step_id'' 400)
        else if py_str step_id \<in> set seen then Inl (PlanError ''duplicate step_id'' 400)
        else if \<not> is_dict (dgetN d ''task'') then Inl (PlanError ''step needs a task object'' 400)
        else ebind (validate_task (dgetN d ''task'')) (\<lambda>_.
          if \<not> is_list (dget_or d ''bindings'' (PList [])) then Inl (PlanError ''step bindings must be a list'' 400)
          else ebind (eall (map (validate_binding seen) (elems (dget_or d ''bindings'' (PList []))))) (\<lambda>_.
            Inr (py_str step_id))))"

fun validate_steps :: "string list \<Rightarrow> pyval list \<Rightarrow> unit result" where
  "validate_steps seen [] = Inr ()"
| "validate_steps seen (step # rest) = ebind (validate_step seen step) (\<lambda>i. validate_steps (i # seen) rest)"

definition validate_plan :: "string \<Rightarrow> pyval \<Rightarrow> unit result" where
  "validate_plan plan_id given =
     (if \<not> PLAN_IDENTIFIER plan_id then Inl (PlanError ''plan_id must be a non-empty identifier'' 400)
      else if \<not> is_list given \<or> elems given = [] \<or> MAX_STEPS < length (elems given)
      then Inl (PlanError ''steps must contain between 1 and 64 entries'' 400)
      else validate_steps [] (elems given))"

subsection \<open>Operations\<close>

definition step_of :: "string \<Rightarrow> nat \<Rightarrow> pyval \<Rightarrow> step_row" where
  "step_of plan_id ordinal step =
     \<lparr> sp_plan = plan_id, sp_ordinal = ordinal, sp_id = py_str (dgetN (items step) ''step_id''),
       sp_task = dgetN (items step) ''task'', sp_bindings = elems (dget_or (items step) ''bindings'' (PList [])),
       sp_run = None, sp_status = ''queued'', sp_failure = PNone \<rparr>"

text \<open>\<open>create_owned\<close>; \<open>fresh\<close> is the identifier drawn when the payload names none.\<close>

definition create_owned :: "int \<Rightarrow> string \<Rightarrow> pydict \<Rightarrow> string option \<Rightarrow> plan_store \<Rightarrow> string result \<times> plan_store" where
  "create_owned now fresh payload owner s =
     (let plan_id = (if truthy (dgetN payload ''plan_id'') then text_of (dgetN payload ''plan_id'') else fresh);
          given = dgetN payload ''steps'' in
      case validate_plan plan_id given of
        Inl e \<Rightarrow> (Inl e, s)
      | Inr _ \<Rightarrow>
          let rows = map (\<lambda>(i, step). step_of plan_id i step) (enumerate 0 (elems given)) in
          if plan_id \<in> pl_id ` set (plans s) \<or>
             list_ex (\<lambda>x. list_ex (\<lambda>y. sp_plan y = plan_id \<and> (sp_id y = sp_id x \<or> sp_ordinal y = sp_ordinal x)) (plan_steps s)) rows
          then (Inl (PlanError ''plan_id already exists'' 409), s)
          else (Inr plan_id, s\<lparr> plans := plans s @ [\<lparr> pl_id = plan_id, pl_owner = owner, pl_status = ''queued'',
                  pl_failure = PNone, pl_created = now \<rparr>], plan_steps := plan_steps s @ rows \<rparr>))"

record plan_view =
  pv_id :: string
  pv_status :: string
  pv_valid :: pyval
  pv_failure :: pyval
  pv_steps :: "step_row list"

definition steps_of :: "string \<Rightarrow> plan_store \<Rightarrow> step_row list" where
  "steps_of plan_id s = sort_key sp_ordinal (filter (\<lambda>x. sp_plan x = plan_id) (plan_steps s))"

definition get_plan :: "string \<Rightarrow> string option \<Rightarrow> bool \<Rightarrow> plan_store \<Rightarrow> plan_view result" where
  "get_plan plan_id owner developer s =
     (case fetchone (\<lambda>p. pl_id p = plan_id) (plans s) of
        None \<Rightarrow> Inl (PlanError ''unknown plan'' 404)
      | Some p \<Rightarrow>
          if owner \<noteq> None \<and> \<not> developer \<and> pl_owner p \<noteq> owner then Inl (PlanError ''plan not found'' 404)
          else Inr \<lparr> pv_id = plan_id, pv_status = pl_status p,
            pv_valid = (if pl_status p = ''succeeded'' then PBool True
                        else if pl_status p \<in> set FAILED_STATUSES then PBool False else PNone),
            pv_failure = pl_failure p, pv_steps = steps_of plan_id s \<rparr>)"

definition active_plans :: "plan_store \<Rightarrow> string list" where
  "active_plans s = map pl_id (sort_key pl_created
     (filter (\<lambda>p. pl_status p \<in> {''queued'', ''running'', ''retry_wait'', ''cancel_requested''}) (plans s)))"

text \<open>An empty failure is stored as none.\<close>

definition stored_failure :: "pydict \<Rightarrow> pyval" where
  "stored_failure f = (if f = [] then PNone else PDict f)"

definition update_plan :: "string \<Rightarrow> string \<Rightarrow> pydict \<Rightarrow> plan_store \<Rightarrow> plan_store" where
  "update_plan plan_id status failure s = s\<lparr> plans := update_where (\<lambda>p. pl_id p = plan_id)
     (\<lambda>p. p\<lparr> pl_status := status, pl_failure := stored_failure failure \<rparr>) (plans s) \<rparr>"

definition step_status :: "string \<Rightarrow> string \<Rightarrow> string \<Rightarrow> pydict \<Rightarrow> plan_store \<Rightarrow> plan_store" where
  "step_status plan_id step_id status failure s = s\<lparr> plan_steps := update_where (\<lambda>x. sp_plan x = plan_id \<and> sp_id x = step_id)
     (\<lambda>x. x\<lparr> sp_status := status, sp_failure := stored_failure failure \<rparr>) (plan_steps s) \<rparr>"

definition submitted :: "string \<Rightarrow> string \<Rightarrow> string \<Rightarrow> plan_store \<Rightarrow> plan_store" where
  "submitted plan_id step_id run_id s = s\<lparr>
     plan_steps := update_where (\<lambda>x. sp_plan x = plan_id \<and> sp_id x = step_id)
       (\<lambda>x. x\<lparr> sp_status := ''queued'', sp_failure := PNone, sp_run := Some run_id \<rparr>) (plan_steps s),
     plans := update_where (\<lambda>p. pl_id p = plan_id \<and> pl_status p \<noteq> ''cancel_requested'')
       (\<lambda>p. p\<lparr> pl_status := ''running'', pl_failure := PNone \<rparr>) (plans s) \<rparr>"

definition request_cancel_plan :: "string \<Rightarrow> plan_store \<Rightarrow> unit result \<times> plan_store" where
  "request_cancel_plan plan_id s =
     (case get_plan plan_id None False s of
        Inl e \<Rightarrow> (Inl e, s)
      | Inr v \<Rightarrow>
          if pv_status v \<in> set (''succeeded'' # FAILED_STATUSES) then (Inl (PlanError ''cannot cancel a plan that has ended'' 409), s)
          else (Inr (), update_plan plan_id ''cancel_requested'' [] s))"

definition retry_wait :: "string \<Rightarrow> pydict \<Rightarrow> plan_store \<Rightarrow> plan_store" where
  "retry_wait plan_id failure s = update_plan plan_id ''retry_wait'' failure s"

definition finish_plan :: "string \<Rightarrow> string \<Rightarrow> pydict \<Rightarrow> plan_store \<Rightarrow> plan_store" where
  "finish_plan plan_id status failure s = update_plan plan_id status failure s"

section \<open>The executor\<close>

text \<open>What the kernel answers during one operation of the executor.\<close>

record kernel_client =
  kc_submit :: "pyval \<Rightarrow> string \<Rightarrow> string result"
  kc_run :: "string \<Rightarrow> pydict result"
  kc_artifacts :: "string \<Rightarrow> pydict list result"
  kc_cancel :: "string \<Rightarrow> unit result"

definition failure_report :: "string \<Rightarrow> string \<Rightarrow> string \<Rightarrow> bool \<Rightarrow> pydict" where
  "failure_report source category message retryable =
     [ (PStr ''source'', PStr source), (PStr ''category'', PStr category), (PStr ''message'', PStr message),
       (PStr ''retryable'', PBool retryable) ]"

definition dict_update :: "pydict \<Rightarrow> pydict \<Rightarrow> pydict" where
  "dict_update d e = foldl (\<lambda>acc (k, v). dset acc k v) d e"

definition or_else :: "pyval \<Rightarrow> pyval \<Rightarrow> pyval" where
  "or_else a b = (if truthy a then a else b)"

definition classify_failure :: "pydict \<Rightarrow> pydict" where
  "classify_failure detail =
     (let attempts = concat (map (\<lambda>stage. elems (dget_or (items stage) ''attempts'' (PList [])))
            (elems (dget_or detail ''stages'' (PList []))));
          failure = (if attempts = [] then [] else items (dgetN (items (last attempts)) ''failure''));
          category = text_of (or_else (dgetN failure ''category'') (or_else (dgetN detail ''terminal_reason'')
            (or_else (dgetN detail ''status'') (PStr ''unknown'')))) in
      dict_update failure (failure_report (if category \<in> set PLATFORM_FAILURES then ''platform'' else ''plugin'') category
        (text_of (or_else (dgetN failure ''message'') (PStr category))) (truthy (dget_or failure ''retryable'' (PBool False)))))"

text \<open>\<open>_task_for\<close>: the step's task with one staged input per binding.\<close>

definition artifact_matches :: "pyval \<Rightarrow> pydict \<Rightarrow> bool" where
  "artifact_matches binding artifact =
     (py_eq (dgetN artifact ''kind'') (dgetN (items binding) ''artifact_kind'') \<and>
      list_all (\<lambda>(k, v). py_eq (dgetN (items (dgetN artifact ''metadata'')) (py_str k)) v)
        (items (dgetN (items binding) ''metadata'')))"

definition bind_input :: "kernel_client \<Rightarrow> step_row list \<Rightarrow> pyval \<Rightarrow> pyval result" where
  "bind_input k all_steps binding =
     (case fetchone (\<lambda>x. PStr (sp_id x) = dgetN (items binding) ''from_step'') all_steps of
        None \<Rightarrow> Inl KeyError
      | Some source \<Rightarrow>
          ebind (kc_artifacts k (case sp_run source of None \<Rightarrow> ''None'' | Some r \<Rightarrow> r)) (\<lambda>artifacts.
          case filter (artifact_matches binding) artifacts of
            [a] \<Rightarrow>
              (case dget a ''artifact_id'' of
                 None \<Rightarrow> Inl KeyError
               | Some aid \<Rightarrow> Inr (PDict [(PStr ''artifact_id'', aid),
                   (PStr ''destination'', dgetN (items binding) ''destination''), (PStr ''required'', PBool True)]))
          | _ \<Rightarrow> Inl (PlanError ''binding expected one artifact'' 400)))"

definition task_for :: "kernel_client \<Rightarrow> step_row list \<Rightarrow> step_row \<Rightarrow> pyval result" where
  "task_for k all_steps step =
     ebind (if truthy (dgetN (items (sp_task step)) ''staged_inputs'')
            then iter_of (dgetN (items (sp_task step)) ''staged_inputs'') else Inr []) (\<lambda>staged.
     ebind (emap (bind_input k all_steps) (sp_bindings step)) (\<lambda>bound.
     Inr (if staged @ bound = [] then sp_task step
          else PDict (dset (items (sp_task step)) (PStr ''staged_inputs'') (PList (staged @ bound))))))"

definition step_key :: "string \<Rightarrow> string \<Rightarrow> string" where
  "step_key plan_id step_id = ''plan:'' @ plan_id @ '':step:'' @ step_id"

definition run_detail :: "kernel_client \<Rightarrow> string \<Rightarrow> pydict result" where
  "run_detail k run_id = ebind (kc_run k run_id) (\<lambda>d. if dget d ''status'' = None then Inl KeyError else Inr d)"

definition run_status :: "pydict \<Rightarrow> string" where
  "run_status detail = text_of (dgetN detail ''status'')"

definition pending_step :: "step_row list \<Rightarrow> step_row option" where
  "pending_step xs = fetchone (\<lambda>x. sp_status x \<noteq> ''succeeded'') xs"

definition ending :: "string \<Rightarrow> string" where
  "ending status = (if status \<in> set FAILED_STATUSES then status else ''failed'')"

definition cancellation :: pydict where
  "cancellation = failure_report ''platform'' ''cancelled'' ''execution plan cancelled'' False"

definition cancel_steps :: "string \<Rightarrow> step_row list \<Rightarrow> plan_store \<Rightarrow> plan_store" where
  "cancel_steps plan_id xs s = foldl (\<lambda>acc x. step_status plan_id (sp_id x) ''cancelled'' cancellation acc) s xs"

text \<open>\<open>_cancel\<close>. The executor stops what is running, then ends the plan according to what it finds.\<close>

definition cancel_plan :: "kernel_client \<Rightarrow> plan_view \<Rightarrow> plan_store \<Rightarrow> plan_store result" where
  "cancel_plan k plan s =
     (let pid = pv_id plan;
          cancel_all = finish_plan pid ''cancelled'' cancellation
            (cancel_steps pid (filter (\<lambda>x. sp_status x \<noteq> ''succeeded'') (pv_steps plan)) s) in
      case pending_step (pv_steps plan) of
        None \<Rightarrow> Inr (finish_plan pid ''succeeded'' [] s)
      | Some step \<Rightarrow>
          (case sp_run step of
             None \<Rightarrow> Inr cancel_all
           | Some run_id \<Rightarrow>
               ebind (kc_cancel k run_id) (\<lambda>_.
               ebind (run_detail k run_id) (\<lambda>detail.
               let status = run_status detail in
               if status \<in> set ACTIVE then Inr (step_status pid (sp_id step) status [] s)
               else if status = ''succeeded'' then
                 (let remaining = filter (\<lambda>x. sp_id x \<noteq> sp_id step \<and> sp_status x \<noteq> ''succeeded'') (pv_steps plan) in
                  Inr (finish_plan pid (if remaining = [] then ''succeeded'' else ''cancelled'') []
                    (cancel_steps pid remaining (step_status pid (sp_id step) ''succeeded'' [] s))))
               else if status \<noteq> ''cancelled'' then
                 Inr (finish_plan pid (ending status) (classify_failure detail)
                   (step_status pid (sp_id step) status (classify_failure detail) s))
               else Inr cancel_all))))"

text \<open>\<open>_advance\<close>: one observable transition of one plan. An exception leaves the store as it was.\<close>

definition advance_plan :: "kernel_client \<Rightarrow> string \<Rightarrow> plan_store \<Rightarrow> plan_store result" where
  "advance_plan k plan_id s =
     ebind (get_plan plan_id None False s) (\<lambda>plan.
     if pv_status plan = ''cancel_requested'' then cancel_plan k plan s
     else case pending_step (pv_steps plan) of
       None \<Rightarrow> Inr (finish_plan plan_id ''succeeded'' [] s)
     | Some step \<Rightarrow>
         (case sp_run step of
            None \<Rightarrow>
              ebind (task_for k (pv_steps plan) step) (\<lambda>task.
              ebind (kc_submit k task (step_key plan_id (sp_id step))) (\<lambda>run_id.
              Inr (submitted plan_id (sp_id step) run_id s)))
          | Some run_id \<Rightarrow>
              ebind (run_detail k run_id) (\<lambda>detail.
              let status = run_status detail in
              if status \<in> set ACTIVE then Inr (step_status plan_id (sp_id step) status [] s)
              else if status = ''succeeded'' then
                (let s1 = step_status plan_id (sp_id step) ''succeeded'' [] s in
                 Inr (if list_all (\<lambda>x. sp_status x = ''succeeded'' \<or> sp_id x = sp_id step) (pv_steps plan)
                      then finish_plan plan_id ''succeeded'' [] s1 else s1))
              else Inr (finish_plan plan_id (ending status) (classify_failure detail)
                (step_status plan_id (sp_id step) status (classify_failure detail) s)))))"

record executor =
  ex_store :: plan_store
  ex_retry_at :: "string \<rightharpoonup> int"

text \<open>
  One plan of a \<open>cycle\<close>: whether it counts as advanced. The text of a kernel's exception is left out. \<open>now\<close> is the monotonic clock; a plan whose kernel was
  unreachable is left alone for a while.
\<close>

definition cycle_one :: "int \<Rightarrow> int \<Rightarrow> kernel_client \<Rightarrow> string \<Rightarrow> executor \<Rightarrow> nat result \<times> executor" where
  "cycle_one delay now k plan_id ex =
     (if (case ex_retry_at ex plan_id of None \<Rightarrow> False | Some t \<Rightarrow> now < t) then (Inr 0, ex)
      else case advance_plan k plan_id (ex_store ex) of
        Inr s \<Rightarrow> (Inr 1, ex\<lparr> ex_store := s, ex_retry_at := (ex_retry_at ex)(plan_id := None) \<rparr>)
      | Inl KernelUnavailable \<Rightarrow>
          (Inr 0, ex\<lparr> ex_store := retry_wait plan_id (failure_report ''platform'' ''kernel_unavailable'' [] True) (ex_store ex),
                      ex_retry_at := (ex_retry_at ex)(plan_id \<mapsto> now + delay) \<rparr>)
      | Inl KernelError \<Rightarrow>
          (Inr 1, ex\<lparr> ex_store := finish_plan plan_id ''failed'' (failure_report ''platform'' ''submission_refused'' [] False) (ex_store ex) \<rparr>)
      | Inl (PlanError m c) \<Rightarrow>
          (Inr 1, ex\<lparr> ex_store := finish_plan plan_id ''failed'' (failure_report ''platform'' ''artifact_binding_error'' m False) (ex_store ex) \<rparr>)
      | Inl e \<Rightarrow> (Inl e, ex))"

fun cycle_loop :: "int \<Rightarrow> int \<Rightarrow> (string \<Rightarrow> kernel_client) \<Rightarrow> string list \<Rightarrow> executor \<Rightarrow> nat result \<times> executor" where
  "cycle_loop delay now k [] ex = (Inr 0, ex)"
| "cycle_loop delay now k (p # ps) ex =
     (case cycle_one delay now (k p) p ex of
        (Inl e, ex1) \<Rightarrow> (Inl e, ex1)
      | (Inr n, ex1) \<Rightarrow>
          (case cycle_loop delay now k ps ex1 of (Inl e, ex2) \<Rightarrow> (Inl e, ex2) | (Inr m, ex2) \<Rightarrow> (Inr (n + m), ex2)))"

definition cycle :: "int \<Rightarrow> int \<Rightarrow> (string \<Rightarrow> kernel_client) \<Rightarrow> executor \<Rightarrow> nat result \<times> executor" where
  "cycle delay now k ex = cycle_loop delay now k (active_plans (ex_store ex)) ex"

text \<open>\<open>serve_forever\<close>, for as many turns as the list holds: the clock and the kernel's answers at each.\<close>

fun serve_forever :: "int \<Rightarrow> (int \<times> (string \<Rightarrow> kernel_client)) list \<Rightarrow> executor \<Rightarrow> unit result \<times> executor" where
  "serve_forever delay [] ex = (Inr (), ex)"
| "serve_forever delay ((now, k) # turns) ex =
     (case cycle delay now k ex of
        (Inr _, ex1) \<Rightarrow> serve_forever delay turns ex1
      | (Inl KernelUnavailable, ex1) \<Rightarrow> serve_forever delay turns ex1
      | (Inl e, ex1) \<Rightarrow> (Inl e, ex1))"

section \<open>The service\<close>

text \<open>
  How the service is configured, the kernel's answer to a session query with a caller's token (the user and
  whether it is a developer), and the HTTP status of a refusal by the kernel, 502 when there is none.
\<close>

record plan_service =
  ps_require_auth :: bool
  ps_base_url :: string
  ps_session :: "string \<Rightarrow> (string \<times> bool) option result"
  ps_refusal :: nat

definition plan_caller :: "plan_service \<Rightarrow> string \<Rightarrow> (string option \<times> bool) result" where
  "plan_caller sv header =
     (if \<not> ps_require_auth sv then Inr (None, True)
      else if take 7 (lower header) \<noteq> ''bearer '' then Inl (PlanError ''authentication required'' 401)
      else if ps_base_url sv = [] then Inl (PlanError ''plan authentication is not configured'' 500)
      else ebind (ps_session sv (strip (drop 7 header))) (\<lambda>session.
        case session of None \<Rightarrow> Inl (PlanError ''authentication required'' 401)
        | Some (user, developer) \<Rightarrow> Inr (Some user, developer)))"

text \<open>\<open>_body\<close>: the announced length, and what the JSON parser reads.\<close>

definition plan_body :: "nat \<Rightarrow> pyval option \<Rightarrow> pydict result" where
  "plan_body len parsed =
     (if \<not> (0 < len \<and> len \<le> 1024 * 1024) then Inl (PlanError ''request body must be non-empty and at most 1 MiB'' 400)
      else case parsed of
        None \<Rightarrow> Inl (PlanError ''request body must be JSON'' 400)
      | Some v \<Rightarrow> if is_dict v then Inr (items v) else Inl (PlanError ''request body must be a JSON object'' 400))"

text \<open>The routes that serve plans: a status and the plan sent, or the exception that the handler lets through.\<close>

type_synonym reply = "(nat \<times> plan_view option) result"

definition get_reply :: "nat \<Rightarrow> plan_view result \<Rightarrow> reply" where
  "get_reply refusal r =
     (case r of Inr v \<Rightarrow> Inr (200, Some v) | Inl (PlanError m c) \<Rightarrow> Inr (c, None)
      | Inl KernelUnavailable \<Rightarrow> Inr (503, None) | Inl KernelError \<Rightarrow> Inr (refusal, None) | Inl e \<Rightarrow> Inl e)"

definition post_reply :: "nat \<Rightarrow> plan_view result \<Rightarrow> reply" where
  "post_reply code r = (case r of Inr v \<Rightarrow> Inr (code, Some v) | Inl (PlanError m c) \<Rightarrow> Inr (c, None) | Inl e \<Rightarrow> Inl e)"

definition serve_get :: "plan_service \<Rightarrow> string \<Rightarrow> string \<Rightarrow> plan_store \<Rightarrow> reply" where
  "serve_get sv header plan_id s =
     get_reply (ps_refusal sv) (ebind (plan_caller sv header) (\<lambda>(owner, developer). get_plan plan_id owner developer s))"

definition serve_create ::
  "plan_service \<Rightarrow> string \<Rightarrow> nat \<Rightarrow> pyval option \<Rightarrow> int \<Rightarrow> string \<Rightarrow> plan_store \<Rightarrow> reply \<times> plan_store" where
  "serve_create sv header len parsed now fresh s =
     (case ebind (plan_caller sv header) (\<lambda>(owner, _). ebind (plan_body len parsed) (\<lambda>payload. Inr (owner, payload))) of
        Inl e \<Rightarrow> (post_reply 201 (Inl e), s)
      | Inr (owner, payload) \<Rightarrow>
          (case create_owned now fresh payload owner s of
             (Inl e, s1) \<Rightarrow> (post_reply 201 (Inl e), s1)
           | (Inr plan_id, s1) \<Rightarrow> (post_reply 201 (get_plan plan_id None False s1), s1)))"

definition serve_cancel :: "plan_service \<Rightarrow> string \<Rightarrow> string \<Rightarrow> plan_store \<Rightarrow> reply \<times> plan_store" where
  "serve_cancel sv header plan_id s =
     (case ebind (plan_caller sv header) (\<lambda>(owner, developer).
             ebind (get_plan plan_id owner developer s) (\<lambda>_. Inr (owner, developer))) of
        Inl e \<Rightarrow> (post_reply 202 (Inl e), s)
      | Inr (owner, developer) \<Rightarrow>
          (case request_cancel_plan plan_id s of
             (Inl e, s1) \<Rightarrow> (post_reply 202 (Inl e), s1)
           | (Inr _, s1) \<Rightarrow> (post_reply 202 (get_plan plan_id owner developer s1), s1)))"

section \<open>Steps in order\<close>

abbreviation done_step :: "step_row \<Rightarrow> bool" where
  "done_step x \<equiv> sp_status x = ''succeeded''"

text \<open>
  The steps of a plan, in order: those that succeeded, each with a run; then at most one that may have a run;
  then those that were never submitted.
\<close>

definition in_order :: "step_row list \<Rightarrow> bool" where
  "in_order xs \<longleftrightarrow> (\<exists>pre rest. xs = pre @ rest \<and> list_all (\<lambda>x. done_step x \<and> sp_run x \<noteq> None) pre \<and>
     list_all (\<lambda>x. \<not> done_step x) rest \<and> list_all (\<lambda>x. sp_run x = None) (tl rest))"

lemma in_orderI:
  assumes "xs = pre @ rest" "list_all (\<lambda>x. done_step x \<and> sp_run x \<noteq> None) pre"
    "list_all (\<lambda>x. \<not> done_step x) rest" "list_all (\<lambda>x. sp_run x = None) (tl rest)"
  shows "in_order xs"
  using assms unfolding in_order_def by blast

lemma in_order_fresh: "list_all (\<lambda>x. \<not> done_step x \<and> sp_run x = None) xs \<Longrightarrow> in_order xs"
  by (cases xs) (auto simp: list_all_iff intro!: in_orderI [of _ "[]" xs])

lemma in_order_pending:
  assumes "in_order xs" "pending_step xs = Some p"
  obtains pre post where "xs = pre @ p # post" "list_all (\<lambda>x. done_step x \<and> sp_run x \<noteq> None) pre"
    "\<not> done_step p" "list_all (\<lambda>x. \<not> done_step x \<and> sp_run x = None) post"
proof -
  obtain pre rest where xs: "xs = pre @ rest" "list_all (\<lambda>x. done_step x \<and> sp_run x \<noteq> None) pre"
    "list_all (\<lambda>x. \<not> done_step x) rest" "list_all (\<lambda>x. sp_run x = None) (tl rest)"
    using assms(1) by (auto simp: in_order_def)
  have "fetchone (\<lambda>x. \<not> done_step x) pre = None" using xs(2) by (auto simp: fetchone_None list_all_iff)
  then have "fetchone (\<lambda>x. \<not> done_step x) rest = Some p" using assms(2) xs(1) by (simp add: pending_step_def fetchone_append)
  then obtain post where "rest = p # post" using xs(3) by (cases rest) auto
  then show thesis using xs that by (auto simp: list_all_iff)
qed

lemma in_order_split:
  assumes "list_all (\<lambda>x. done_step x \<and> sp_run x \<noteq> None) pre" "list_all (\<lambda>x. \<not> done_step x \<and> sp_run x = None) post"
  shows "in_order (pre @ q # post) \<longleftrightarrow> (done_step q \<longrightarrow> sp_run q \<noteq> None)"
proof
  assume "in_order (pre @ q # post)"
  then obtain pre' rest where e: "pre @ q # post = pre' @ rest" "list_all (\<lambda>x. done_step x \<and> sp_run x \<noteq> None) pre'"
    "list_all (\<lambda>x. \<not> done_step x) rest" by (auto simp: in_order_def)
  then have "q \<in> set pre' \<or> q \<in> set rest" by (metis Un_iff in_set_conv_decomp set_append)
  then show "done_step q \<longrightarrow> sp_run q \<noteq> None" using e(2,3) by (auto simp: list_all_iff)
next
  assume q: "done_step q \<longrightarrow> sp_run q \<noteq> None"
  show "in_order (pre @ q # post)"
  proof (cases "done_step q")
    case True
    then show ?thesis using assms q
      by (intro in_orderI [of _ "pre @ [q]" post]; cases post) (auto simp: list_all_iff)
  next
    case False
    then show ?thesis using assms by (intro in_orderI [of _ pre "q # post"]) (auto simp: list_all_iff)
  qed
qed

lemma in_order_map:
  assumes "in_order xs" "\<And>x. done_step (f x) = done_step x" "\<And>x. sp_run (f x) = sp_run x"
  shows "in_order (map f xs)"
proof -
  obtain pre rest where xs: "xs = pre @ rest" "list_all (\<lambda>x. done_step x \<and> sp_run x \<noteq> None) pre"
    "list_all (\<lambda>x. \<not> done_step x) rest" "list_all (\<lambda>x. sp_run x = None) (tl rest)"
    using assms(1) by (auto simp: in_order_def)
  show ?thesis
    using xs assms(2,3) by (intro in_orderI [of _ "map f pre" "map f rest"]) (auto simp: list_all_iff simp flip: map_tl)
qed

section \<open>The store's updates, seen through a plan's steps\<close>

lemma sort_key_update_where:
  assumes "\<And>x. k (f x) = k x"
  shows "sort_key k (update_where P f xs) = update_where P f (sort_key k xs)"
  using assms by (simp add: update_where_def sort_key_map o_def if_distrib [of k] cong: if_cong)

lemma steps_of_update:
  assumes "\<And>x. sp_ordinal (f x) = sp_ordinal x" "\<And>x. sp_plan (f x) = sp_plan x"
  shows "steps_of plan_id (s\<lparr> plan_steps := update_where (\<lambda>x. sp_plan x = p \<and> Q x) f (plan_steps s) \<rparr>) =
    (if p = plan_id then update_where Q f (steps_of plan_id s) else steps_of plan_id s)"
proof -
  have "filter (\<lambda>x. sp_plan x = plan_id) (update_where (\<lambda>x. sp_plan x = p \<and> Q x) f xs) =
    (if p = plan_id then update_where Q f (filter (\<lambda>x. sp_plan x = plan_id) xs) else filter (\<lambda>x. sp_plan x = plan_id) xs)" for xs
    using assms(2) by (induction xs) auto
  then show ?thesis using sort_key_update_where [of sp_ordinal f, OF assms(1)] by (simp add: steps_of_def)
qed

lemma steps_of_step_status:
  "steps_of plan_id (step_status p i st fl s) =
    (if p = plan_id then update_where (\<lambda>x. sp_id x = i) (\<lambda>x. x\<lparr> sp_status := st, sp_failure := stored_failure fl \<rparr>) (steps_of plan_id s)
     else steps_of plan_id s)"
  unfolding step_status_def by (rule steps_of_update) simp_all

lemma steps_of_submitted:
  "steps_of plan_id (submitted p i r s) =
    (if p = plan_id then update_where (\<lambda>x. sp_id x = i)
       (\<lambda>x. x\<lparr> sp_status := ''queued'', sp_failure := PNone, sp_run := Some r \<rparr>) (steps_of plan_id s)
     else steps_of plan_id s)"
proof -
  have "steps_of plan_id (submitted p i r s) = steps_of plan_id (s\<lparr> plan_steps := update_where (\<lambda>x. sp_plan x = p \<and> sp_id x = i)
     (\<lambda>x. x\<lparr> sp_status := ''queued'', sp_failure := PNone, sp_run := Some r \<rparr>) (plan_steps s) \<rparr>)"
    by (simp add: submitted_def steps_of_def)
  also have "\<dots> = (if p = plan_id then update_where (\<lambda>x. sp_id x = i)
       (\<lambda>x. x\<lparr> sp_status := ''queued'', sp_failure := PNone, sp_run := Some r \<rparr>) (steps_of plan_id s)
     else steps_of plan_id s)" by (rule steps_of_update) simp_all
  finally show ?thesis .
qed

lemma steps_of_update_plan [simp]: "steps_of plan_id (update_plan p st fl s) = steps_of plan_id s"
  by (simp add: update_plan_def steps_of_def)

lemma update_one:
  assumes "distinct (map sp_id (pre @ p # post))"
  shows "update_where (\<lambda>x. sp_id x = sp_id p) f (pre @ p # post) = pre @ f p # post"
proof -
  have "update_where (\<lambda>x. sp_id x = sp_id p) f pre = pre" "update_where (\<lambda>x. sp_id x = sp_id p) f post = post"
    using assms by (auto intro!: update_where_none simp: rev_image_eqI)
  then show ?thesis by (simp add: update_where_def)
qed

text \<open>Cancelling steps that have not succeeded.\<close>

definition cancelled_step :: "step_row \<Rightarrow> step_row" where
  "cancelled_step x = x\<lparr> sp_status := ''cancelled'', sp_failure := PDict cancellation \<rparr>"

lemma steps_of_cancel_steps:
  "steps_of plan_id (cancel_steps p ys s) =
    (if p = plan_id then update_where (\<lambda>x. sp_id x \<in> sp_id ` set ys) cancelled_step (steps_of plan_id s) else steps_of plan_id s)"
proof (induction ys arbitrary: s)
  case Nil
  then show ?case by (simp add: cancel_steps_def update_where_def)
next
  case (Cons y ys)
  have "cancel_steps p (y # ys) s = cancel_steps p ys (step_status p (sp_id y) ''cancelled'' cancellation s)"
    by (simp add: cancel_steps_def)
  moreover have "stored_failure cancellation = PDict cancellation"
    by (simp add: stored_failure_def cancellation_def failure_report_def)
  ultimately show ?case
    using Cons by (auto simp: steps_of_step_status update_where_def cancelled_step_def)
qed

text \<open>What no operation on a plan changes: the other plans, and the identity of the plan's own steps.\<close>

definition shape :: "step_row list \<Rightarrow> (string \<times> pyval list \<times> pyval) list" where
  "shape xs = map (\<lambda>x. (sp_id x, sp_bindings x, sp_task x)) xs"

definition touches :: "string \<Rightarrow> plan_store \<Rightarrow> plan_store \<Rightarrow> bool" where
  "touches pid s s' \<longleftrightarrow> map pl_id (plans s') = map pl_id (plans s) \<and>
     filter (\<lambda>p. pl_id p \<noteq> pid) (plans s') = filter (\<lambda>p. pl_id p \<noteq> pid) (plans s) \<and>
     sp_plan ` set (plan_steps s') = sp_plan ` set (plan_steps s) \<and>
     shape (steps_of pid s') = shape (steps_of pid s) \<and> (\<forall>q. q \<noteq> pid \<longrightarrow> steps_of q s' = steps_of q s)"

lemma touches_refl: "touches pid s s"
  by (simp add: touches_def)

lemma touches_trans: "touches pid s t \<Longrightarrow> touches pid t u \<Longrightarrow> touches pid s u"
  by (simp add: touches_def)

lemma shape_update_where:
  assumes "\<And>x. sp_id (f x) = sp_id x" "\<And>x. sp_bindings (f x) = sp_bindings x" "\<And>x. sp_task (f x) = sp_task x"
  shows "shape (update_where P f xs) = shape xs"
  unfolding shape_def by (rule map_update_where) (simp add: assms)

lemma touches_update_plan: "touches pid s (update_plan pid st fl s)"
proof -
  have "filter (\<lambda>p. pl_id p \<noteq> pid) (update_where (\<lambda>p. pl_id p = pid) (\<lambda>p. p\<lparr> pl_status := st, pl_failure := stored_failure fl \<rparr>) ps) =
      filter (\<lambda>p. pl_id p \<noteq> pid) ps" for ps
    by (induction ps) auto
  then show ?thesis by (simp add: touches_def update_plan_def steps_of_def map_update_where)
qed

lemma sp_plan_update_where:
  assumes "\<And>x. sp_plan (f x) = sp_plan x"
  shows "sp_plan ` set (update_where P f xs) = sp_plan ` set xs"
  using map_update_where [of sp_plan f P xs, OF assms] by (metis list.set_map)

lemma touches_step_status: "touches pid s (step_status pid i st fl s)"
  unfolding touches_def steps_of_step_status
  by (simp add: shape_update_where step_status_def sp_plan_update_where)

lemma touches_submitted: "touches pid s (submitted pid i r s)"
proof -
  have "filter (\<lambda>p. pl_id p \<noteq> pid) (update_where (\<lambda>p. pl_id p = pid \<and> pl_status p \<noteq> ''cancel_requested'')
      (\<lambda>p. p\<lparr> pl_status := ''running'', pl_failure := PNone \<rparr>) ps) = filter (\<lambda>p. pl_id p \<noteq> pid) ps" for ps
    by (induction ps) auto
  then show ?thesis unfolding touches_def steps_of_submitted
    by (simp add: shape_update_where submitted_def sp_plan_update_where map_update_where)
qed

lemma touches_cancel_steps: "touches pid s (cancel_steps pid ys s)"
proof (induction ys arbitrary: s)
  case Nil
  then show ?case by (simp add: cancel_steps_def touches_refl)
next
  case (Cons y ys)
  have "cancel_steps pid (y # ys) s = cancel_steps pid ys (step_status pid (sp_id y) ''cancelled'' cancellation s)"
    by (simp add: cancel_steps_def)
  then show ?case using touches_trans [OF touches_step_status Cons] by simp
qed

lemma plans_step_status [simp]: "plans (step_status pid i st fl s) = plans s"
  by (simp add: step_status_def)

lemma plans_cancel_steps [simp]: "plans (cancel_steps pid ys s) = plans s"
  by (induction ys arbitrary: s) (simp_all add: cancel_steps_def)

text \<open>A plan that is in order, and that is called succeeded only if every step is.\<close>

definition good :: "string \<Rightarrow> plan_store \<Rightarrow> bool" where
  "good pid s \<longleftrightarrow> in_order (steps_of pid s) \<and> distinct (map sp_id (steps_of pid s)) \<and>
     (\<forall>p \<in> set (plans s). pl_id p = pid \<and> pl_status p = ''succeeded'' \<longrightarrow> list_all done_step (steps_of pid s))"

lemma good_update_plan:
  assumes "in_order (steps_of pid s)" "distinct (map sp_id (steps_of pid s))"
    and "st = ''succeeded'' \<longrightarrow> list_all done_step (steps_of pid s)"
  shows "good pid (update_plan pid st fl s)"
proof -
  have st: "\<forall>p \<in> set (plans (update_plan pid st fl s)). pl_id p = pid \<longrightarrow> pl_status p = st"
    by (simp add: update_plan_def update_where_def ball_Un)
  show ?thesis unfolding good_def steps_of_update_plan using assms st by (intro conjI ballI) auto
qed

lemma pending_replaced:
  assumes "in_order (steps_of pid s)" "distinct (map sp_id (steps_of pid s))" "pending_step (steps_of pid s) = Some p"
    and "\<And>x. sp_id (f x) = sp_id x" "done_step (f p) \<longrightarrow> sp_run (f p) \<noteq> None"
  shows "in_order (update_where (\<lambda>x. sp_id x = sp_id p) f (steps_of pid s)) \<and>
    (list_all done_step (update_where (\<lambda>x. sp_id x = sp_id p) f (steps_of pid s)) \<longleftrightarrow>
      list_all (\<lambda>x. done_step x \<or> sp_id x = sp_id p) (steps_of pid s) \<and> done_step (f p))"
proof -
  obtain pre post where xs: "steps_of pid s = pre @ p # post" "list_all (\<lambda>x. done_step x \<and> sp_run x \<noteq> None) pre"
    "\<not> done_step p" "list_all (\<lambda>x. \<not> done_step x \<and> sp_run x = None) post"
    by (rule in_order_pending [OF assms(1,3)])
  have u: "update_where (\<lambda>x. sp_id x = sp_id p) f (steps_of pid s) = pre @ f p # post"
    using update_one assms(2) unfolding xs(1) by blast
  have "\<forall>x \<in> set post. sp_id x \<noteq> sp_id p" using assms(2) unfolding xs(1) by (auto simp: rev_image_eqI)
  then have "list_all done_step post \<longleftrightarrow> list_all (\<lambda>x. done_step x \<or> sp_id x = sp_id p) post"
    by (auto simp: list_all_iff)
  then show ?thesis using in_order_split [OF xs(2,4), of "f p"] assms(5) xs(2) u xs(1) by (auto simp: list_all_iff)
qed

lemma distinct_ids: "touches pid s s' \<Longrightarrow> distinct (map sp_id (steps_of pid s)) \<Longrightarrow> distinct (map sp_id (steps_of pid s'))"
proof -
  assume "touches pid s s'"
  then have "map fst (shape (steps_of pid s')) = map fst (shape (steps_of pid s))" by (simp add: touches_def)
  moreover assume "distinct (map sp_id (steps_of pid s))"
  ultimately show ?thesis by (simp add: shape_def o_def)
qed

lemma good_step_status:
  assumes "good pid s" "pending_step (steps_of pid s) = Some p" "st = ''succeeded'' \<longrightarrow> sp_run p \<noteq> None"
  shows "in_order (steps_of pid (step_status pid (sp_id p) st fl s)) \<and> distinct (map sp_id (steps_of pid (step_status pid (sp_id p) st fl s))) \<and>
    (list_all done_step (steps_of pid (step_status pid (sp_id p) st fl s)) \<longleftrightarrow>
      list_all (\<lambda>x. done_step x \<or> sp_id x = sp_id p) (steps_of pid s) \<and> st = ''succeeded'')"
  using pending_replaced [where f = "\<lambda>x. x\<lparr> sp_status := st, sp_failure := stored_failure fl \<rparr>", of pid s p] assms
    distinct_ids [OF touches_step_status]
  by (simp add: good_def steps_of_step_status)

lemma in_order_cancel_steps:
  assumes "in_order (steps_of pid s)" "list_all (\<lambda>y. \<not> done_step y) (filter (\<lambda>x. sp_id x \<in> sp_id ` set ys) (steps_of pid s))"
  shows "in_order (steps_of pid (cancel_steps pid ys s))"
proof -
  have "update_where (\<lambda>x. sp_id x \<in> sp_id ` set ys) cancelled_step (steps_of pid s) =
      map (\<lambda>x. if sp_id x \<in> sp_id ` set ys \<and> \<not> done_step x then cancelled_step x else x) (steps_of pid s)"
    using assms(2) by (auto simp: update_where_def list_all_iff)
  then show ?thesis using assms(1)
    by (simp add: steps_of_cancel_steps) (rule in_order_map, auto simp: cancelled_step_def)
qed

section \<open>One advance\<close>

lemma pending_None: "pending_step xs = None \<longleftrightarrow> list_all done_step xs"
  by (auto simp: pending_step_def fetchone_None list_all_iff)

lemma good_pending_status:
  assumes "good pid s" "pending_step (steps_of pid s) = Some p" "st \<noteq> ''succeeded''"
  shows "good pid (step_status pid (sp_id p) st fl s)"
proof -
  have "\<not> list_all done_step (steps_of pid s)" using assms(2) pending_None by (metis option.simps(3))
  then have "\<forall>q \<in> set (plans s). \<not> (pl_id q = pid \<and> pl_status q = ''succeeded'')" using assms(1) by (auto simp: good_def)
  then show ?thesis using good_step_status [OF assms(1,2)] assms(3) unfolding good_def plans_step_status by blast
qed

lemma same_id_nondone:
  assumes "distinct (map sp_id xs)" "ys = filter (\<lambda>x. P x \<and> \<not> done_step x) xs"
  shows "list_all (\<lambda>y. \<not> done_step y) (filter (\<lambda>x. sp_id x \<in> sp_id ` set ys) xs)"
  using assms by (auto simp: list_all_iff distinct_map dest: inj_onD)

lemma good_cancel_all:
  assumes "in_order (steps_of pid s)" "distinct (map sp_id (steps_of pid s))"
    and "ys = filter (\<lambda>x. P x \<and> \<not> done_step x) (steps_of pid s)"
  shows "good pid (finish_plan pid ''cancelled'' fl (cancel_steps pid ys s))"
  unfolding finish_plan_def
  using in_order_cancel_steps [OF assms(1) same_id_nondone [OF assms(2,3)]] distinct_ids [OF touches_cancel_steps assms(2)]
  by (intro good_update_plan) simp_all

lemma touches_finish: "touches pid s t \<Longrightarrow> touches pid s (finish_plan pid st fl t)"
  unfolding finish_plan_def by (rule touches_trans [OF _ touches_update_plan])

lemma cancel_succeeded_good:
  assumes "good pid s" "pending_step (steps_of pid s) = Some p" "sp_run p \<noteq> None"
    and "rest = filter (\<lambda>x. sp_id x \<noteq> sp_id p \<and> \<not> done_step x) (steps_of pid s)"
  shows "good pid (finish_plan pid (if rest = [] then ''succeeded'' else ''cancelled'') []
    (cancel_steps pid rest (step_status pid (sp_id p) ''succeeded'' [] s)))"
proof -
  let ?t = "step_status pid (sp_id p) ''succeeded'' [] s"
  note st = good_step_status [OF assms(1,2), of "''succeeded''" "[]"]
  have ok: "in_order (steps_of pid ?t)" "distinct (map sp_id (steps_of pid ?t))" using st assms(3) by simp_all
  show ?thesis
  proof (cases "rest = []")
    case True
    then have "list_all (\<lambda>x. done_step x \<or> sp_id x = sp_id p) (steps_of pid s)"
      using assms(4) by (auto simp: list_all_iff filter_empty_conv)
    then show ?thesis using st assms(3) ok True
      unfolding finish_plan_def by (intro good_update_plan) (simp_all add: cancel_steps_def)
  next
    case False
    have ids: "sp_id ` set rest = sp_id ` set (filter (\<lambda>x. True \<and> \<not> done_step x) (steps_of pid ?t))"
      unfolding assms(4) steps_of_step_status by (force simp: update_where_def image_iff)
    have "list_all (\<lambda>y. \<not> done_step y) (filter (\<lambda>x. sp_id x \<in> sp_id ` set rest) (steps_of pid ?t))"
      unfolding ids by (rule same_id_nondone [OF ok(2) refl])
    then have "in_order (steps_of pid (cancel_steps pid rest ?t))" by (rule in_order_cancel_steps [OF ok(1)])
    then show ?thesis using False distinct_ids [OF touches_cancel_steps ok(2)]
      unfolding finish_plan_def by (intro good_update_plan) simp_all
  qed
qed

lemma ending_failed: "ending st \<noteq> ''succeeded''"
  by (auto simp: ending_def FAILED_STATUSES_def)

lemma good_ended:
  assumes "good pid s" "pending_step (steps_of pid s) = Some p" "st \<noteq> ''succeeded''"
  shows "good pid (finish_plan pid (ending st) fl (step_status pid (sp_id p) st fl s))"
  using good_pending_status [OF assms] ending_failed unfolding finish_plan_def by (intro good_update_plan) (simp_all add: good_def)

lemma touches_ended: "touches pid s (finish_plan pid st fl (step_status pid i st' fl' s))"
  by (rule touches_finish [OF touches_step_status])

lemma cancel_plan_good:
  assumes "cancel_plan k v s = Inr s'" "good (pv_id v) s" "pv_steps v = steps_of (pv_id v) s"
  shows "good (pv_id v) s' \<and> touches (pv_id v) s s'"
proof (cases "pending_step (pv_steps v)")
  case None
  then have "s' = finish_plan (pv_id v) ''succeeded'' [] s" using assms(1) by (simp add: cancel_plan_def Let_def)
  then show ?thesis using None assms(2,3) touches_finish [OF touches_refl]
    by (auto simp: finish_plan_def pending_None good_def intro!: good_update_plan [unfolded good_def])
next
  case (Some p)
  note pend = Some [unfolded assms(3)]
  have all: "good (pv_id v) (finish_plan (pv_id v) ''cancelled'' cancellation
      (cancel_steps (pv_id v) (filter (\<lambda>x. \<not> done_step x) (steps_of (pv_id v) s)) s))"
    using assms(2) by (intro good_cancel_all [where P = "\<lambda>_. True"]) (simp_all add: good_def)
  have t: "touches (pv_id v) s (finish_plan (pv_id v) st fl (cancel_steps (pv_id v) ys s))" for st fl ys
    by (rule touches_finish [OF touches_cancel_steps])
  show ?thesis
  proof (cases "sp_run p")
    case None
    then have "s' = finish_plan (pv_id v) ''cancelled'' cancellation
        (cancel_steps (pv_id v) (filter (\<lambda>x. \<not> done_step x) (steps_of (pv_id v) s)) s)"
      using assms(1,3) Some by (simp add: cancel_plan_def Let_def)
    then show ?thesis using all t by simp
  next
    case run: (Some r)
    then obtain detail where d: "run_detail k r = Inr detail" using assms(1) Some by (auto simp: cancel_plan_def Let_def ebind_Inr_iff)
    let ?st = "run_status detail"
    consider "?st \<in> set ACTIVE" | "?st \<notin> set ACTIVE" "?st = ''succeeded''" | "?st \<notin> set ACTIVE" "?st \<noteq> ''succeeded''" "?st \<noteq> ''cancelled''"
      | "?st = ''cancelled''" by blast
    then show ?thesis
    proof cases
      case 1
      then have "s' = step_status (pv_id v) (sp_id p) ?st [] s" "?st \<noteq> ''succeeded''"
        using assms(1,3) Some run d by (auto simp: cancel_plan_def Let_def ebind_Inr_iff ACTIVE_def)
      then show ?thesis using good_pending_status [OF assms(2) pend] touches_step_status by simp
    next
      case 2
      let ?rest = "filter (\<lambda>x. sp_id x \<noteq> sp_id p \<and> \<not> done_step x) (steps_of (pv_id v) s)"
      have "s' = finish_plan (pv_id v) (if ?rest = [] then ''succeeded'' else ''cancelled'') []
          (cancel_steps (pv_id v) ?rest (step_status (pv_id v) (sp_id p) ''succeeded'' [] s))"
        using assms(1,3) Some run d 2 by (auto simp: cancel_plan_def Let_def ebind_Inr_iff)
      then show ?thesis using cancel_succeeded_good [OF assms(2) pend _ refl] run
          touches_finish [OF touches_trans [OF touches_step_status touches_cancel_steps]] by simp
    next
      case 3
      then have "s' = finish_plan (pv_id v) (ending ?st) (classify_failure detail)
          (step_status (pv_id v) (sp_id p) ?st (classify_failure detail) s)"
        using assms(1,3) Some run d by (auto simp: cancel_plan_def Let_def ebind_Inr_iff)
      then show ?thesis using good_ended [OF assms(2) pend 3(2)] touches_ended by simp
    next
      case 4
      then have "s' = finish_plan (pv_id v) ''cancelled'' cancellation
          (cancel_steps (pv_id v) (filter (\<lambda>x. \<not> done_step x) (steps_of (pv_id v) s)) s)"
        using assms(1,3) Some run d by (auto simp: cancel_plan_def Let_def ebind_Inr_iff ACTIVE_def)
      then show ?thesis using all t by simp
    qed
  qed
qed

lemma get_plan_Inr:
  assumes "get_plan pid owner developer s = Inr v"
  shows "pv_id v = pid" "pv_steps v = steps_of pid s" "\<exists>p \<in> set (plans s). pl_id p = pid \<and> pv_status v = pl_status p"
  using assms by (auto simp: get_plan_def dest: fetchone_Some split: option.splits if_splits)

lemma good_submitted:
  assumes "good pid s" "pending_step (steps_of pid s) = Some p"
  shows "good pid (submitted pid (sp_id p) r s)"
proof -
  let ?t = "submitted pid (sp_id p) r s"
  have s: "in_order (steps_of pid s)" "distinct (map sp_id (steps_of pid s))" using assms(1) by (simp_all add: good_def)
  have o: "in_order (steps_of pid ?t)"
    using pending_replaced [OF s assms(2), of "\<lambda>x. x\<lparr> sp_status := ''queued'', sp_failure := PNone, sp_run := Some r \<rparr>"]
    by (simp add: steps_of_submitted)
  have "\<not> list_all done_step (steps_of pid s)" using assms(2) pending_None by (metis option.simps(3))
  then have "\<forall>q \<in> set (plans s). \<not> (pl_id q = pid \<and> pl_status q = ''succeeded'')" using assms(1) by (auto simp: good_def)
  then have "\<forall>q \<in> set (plans ?t). \<not> (pl_id q = pid \<and> pl_status q = ''succeeded'')"
    by (simp add: submitted_def update_where_def ball_Un)
  then show ?thesis using o distinct_ids [OF touches_submitted s(2)] unfolding good_def by blast
qed

lemma advance_plan_good:
  assumes "advance_plan k pid s = Inr s'" "good pid s"
  shows "good pid s' \<and> touches pid s s'"
proof -
  obtain v where v: "get_plan pid None False s = Inr v" using assms(1) by (auto simp: advance_plan_def ebind_Inr_iff)
  note get = get_plan_Inr [OF v]
  show ?thesis
  proof (cases "pv_status v = ''cancel_requested''")
    case True
    then have "cancel_plan k v s = Inr s'" using assms(1) v by (simp add: advance_plan_def)
    then show ?thesis using cancel_plan_good [of k v s s'] get assms(2) by simp
  next
    case run_on: False
    show ?thesis
    proof (cases "pending_step (steps_of pid s)")
      case None
      then have "s' = finish_plan pid ''succeeded'' [] s" using assms(1) v run_on get by (simp add: advance_plan_def)
      then show ?thesis using None assms(2) touches_finish [OF touches_refl] unfolding finish_plan_def
        by (auto simp: pending_None good_def intro!: good_update_plan [unfolded good_def])
    next
      case (Some p)
      show ?thesis
      proof (cases "sp_run p")
        case None
        then obtain r where "s' = submitted pid (sp_id p) r s"
          using assms(1) v run_on get Some by (auto simp: advance_plan_def ebind_Inr_iff)
        then show ?thesis using good_submitted [OF assms(2) Some] touches_submitted by simp
      next
        case run: (Some r)
        then obtain detail where d: "run_detail k r = Inr detail"
          using assms(1) v run_on get Some by (auto simp: advance_plan_def ebind_Inr_iff)
        let ?st = "run_status detail"
        consider "?st \<in> set ACTIVE" | "?st \<notin> set ACTIVE" "?st = ''succeeded''" | "?st \<notin> set ACTIVE" "?st \<noteq> ''succeeded''" by blast
        then show ?thesis
        proof cases
          case 1
          then have "s' = step_status pid (sp_id p) ?st [] s" "?st \<noteq> ''succeeded''"
            using assms(1) v run_on get Some run d by (auto simp: advance_plan_def Let_def ebind_Inr_iff ACTIVE_def)
          then show ?thesis using good_pending_status [OF assms(2) Some] touches_step_status by simp
        next
          case 2
          let ?t = "step_status pid (sp_id p) ''succeeded'' [] s"
          let ?all = "list_all (\<lambda>x. done_step x \<or> sp_id x = sp_id p) (steps_of pid s)"
          have s': "s' = (if ?all then finish_plan pid ''succeeded'' [] ?t else ?t)"
            using assms(1) v run_on get Some run d 2 by (auto simp: advance_plan_def Let_def ebind_Inr_iff)
          note st = good_step_status [OF assms(2) Some, of "''succeeded''" "[]"]
          have "\<not> list_all done_step (steps_of pid s)" using Some pending_None by (metis option.simps(3))
          then have "\<forall>q \<in> set (plans s). \<not> (pl_id q = pid \<and> pl_status q = ''succeeded'')"
            using assms(2) by (auto simp: good_def)
          then have "good pid ?t" using st run by (auto simp: good_def)
          moreover have "good pid (finish_plan pid ''succeeded'' [] ?t)" if ?all
            using st run that unfolding finish_plan_def by (intro good_update_plan) simp_all
          ultimately show ?thesis
            using s' touches_step_status touches_finish [OF touches_step_status] by (cases ?all) simp_all
        next
          case 3
          then have "s' = finish_plan pid (ending ?st) (classify_failure detail)
              (step_status pid (sp_id p) ?st (classify_failure detail) s)"
            using assms(1) v run_on get Some run d by (auto simp: advance_plan_def Let_def ebind_Inr_iff)
          then show ?thesis using good_ended [OF assms(2) Some 3(2)] touches_ended by simp
        qed
      qed
    qed
  qed
qed

section \<open>Reachable states\<close>

text \<open>Plans are created and cancelled by requests; the executor's thread runs one cycle after another.\<close>

inductive plan_reachable :: "executor \<Rightarrow> bool" where
  start: "plan_reachable \<lparr> ex_store = \<lparr> plans = [], plan_steps = [] \<rparr>, ex_retry_at = Map.empty \<rparr>"
| created: "plan_reachable ex \<Longrightarrow> create_owned now fresh payload owner (ex_store ex) = (r, s') \<Longrightarrow>
    plan_reachable (ex\<lparr> ex_store := s' \<rparr>)"
| cancelled: "plan_reachable ex \<Longrightarrow> request_cancel_plan pid (ex_store ex) = (r, s') \<Longrightarrow> plan_reachable (ex\<lparr> ex_store := s' \<rparr>)"
| cycled: "plan_reachable ex \<Longrightarrow> cycle delay now k ex = (r, ex') \<Longrightarrow> plan_reachable ex'"

text \<open>Every binding of a step refers to an earlier one, every task is valid, and a plan is not too long.\<close>

definition shape_ok :: "(string \<times> pyval list \<times> pyval) list \<Rightarrow> bool" where
  "shape_ok xs \<longleftrightarrow> length xs \<le> MAX_STEPS \<and> list_all (\<lambda>x. is_dict (snd (snd x)) \<and> validate_task (snd (snd x)) = Inr ()) xs \<and>
     (\<forall>i < length xs. \<forall>b \<in> set (fst (snd (xs ! i))). \<exists>j < i. PStr (fst (xs ! j)) = dgetN (items b) ''from_step'')"

definition plan_wf :: "plan_store \<Rightarrow> bool" where
  "plan_wf s \<longleftrightarrow> distinct (map pl_id (plans s)) \<and> sp_plan ` set (plan_steps s) \<subseteq> pl_id ` set (plans s) \<and>
     (\<forall>pid. good pid s \<and> shape_ok (shape (steps_of pid s)))"

lemma touches_other_plan: "touches pid s s' \<Longrightarrow> q \<noteq> pid \<Longrightarrow> (p \<in> set (plans s') \<and> pl_id p = q) = (p \<in> set (plans s) \<and> pl_id p = q)"
proof -
  assume t: "touches pid s s'" and "q \<noteq> pid"
  have "set (filter (\<lambda>p. pl_id p \<noteq> pid) (plans s')) = set (filter (\<lambda>p. pl_id p \<noteq> pid) (plans s))"
    using t unfolding touches_def by simp
  then have "p \<in> set (plans s') \<and> pl_id p \<noteq> pid \<longleftrightarrow> p \<in> set (plans s) \<and> pl_id p \<noteq> pid"
    unfolding set_filter by blast
  then show ?thesis using \<open>q \<noteq> pid\<close> by auto
qed

lemma plan_wf_touches:
  assumes "plan_wf s" "touches pid s s'" "good pid s'"
  shows "plan_wf s'"
proof -
  have other: "good q s'" if "q \<noteq> pid" for q
    using assms(1,2) touches_other_plan [OF assms(2) that] that unfolding plan_wf_def good_def touches_def by metis
  have "shape_ok (shape (steps_of q s'))" for q
    using assms(1,2) unfolding plan_wf_def touches_def by (cases "q = pid") metis+
  moreover have "pl_id ` set (plans s') = pl_id ` set (plans s)"
    using assms(2) unfolding touches_def by (metis list.set_map)
  ultimately show ?thesis
    using assms other unfolding plan_wf_def touches_def by metis
qed

lemma cycle_one_wf:
  assumes "cycle_one delay now k pid ex = (r, ex')" "plan_wf (ex_store ex)"
  shows "plan_wf (ex_store ex')"
proof -
  have good: "good pid (ex_store ex)" using assms(2) by (simp add: plan_wf_def)
  have upd: "plan_wf (update_plan pid st fl (ex_store ex))" if "st \<noteq> ''succeeded''" for st fl
    using good that by (intro plan_wf_touches [OF assms(2) touches_update_plan] good_update_plan) (simp_all add: good_def)
  have adv: "plan_wf s" if "advance_plan k pid (ex_store ex) = Inr s" for s
    using advance_plan_good [OF that good] plan_wf_touches [OF assms(2)] by blast
  show ?thesis
    using assms adv upd unfolding cycle_one_def retry_wait_def finish_plan_def
    by (auto split: if_splits option.splits sum.splits pyexn.splits)
qed

lemma cycle_loop_wf: "cycle_loop delay now k ps ex = (r, ex') \<Longrightarrow> plan_wf (ex_store ex) \<Longrightarrow> plan_wf (ex_store ex')"
proof (induction ps arbitrary: ex r ex')
  case (Cons p ps)
  obtain r1 ex1 where one: "cycle_one delay now (k p) p ex = (r1, ex1)" by fastforce
  note wf = cycle_one_wf [OF one Cons.prems(2)]
  obtain r2 ex2 where loop: "cycle_loop delay now k ps ex1 = (r2, ex2)" by fastforce
  have "ex' = ex1 \<or> ex' = ex2" using Cons.prems(1) one loop by (auto split: sum.splits)
  then show ?case using wf Cons.IH [OF loop wf] by auto
qed simp


subsection \<open>A new plan\<close>

abbreviation given_id :: "pyval \<Rightarrow> string" where
  "given_id step \<equiv> py_str (dgetN (items step) ''step_id'')"

abbreviation given_bindings :: "pyval \<Rightarrow> pyval list" where
  "given_bindings step \<equiv> elems (dget_or (items step) ''bindings'' (PList []))"

abbreviation given_task :: "pyval \<Rightarrow> pyval" where
  "given_task step \<equiv> dgetN (items step) ''task''"

lemma validate_binding_ok:
  "validate_binding earlier b = Inr () \<Longrightarrow> \<exists>a \<in> set earlier. PStr a = dgetN (items b) ''from_step''"
  by (auto simp: validate_binding_def Let_def echeck_def split: if_splits)

lemma validate_step_ok:
  assumes "validate_step seen step = Inr i"
  shows "i = given_id step \<and> i \<notin> set seen \<and> PLAN_IDENTIFIER i \<and> is_dict (given_task step) \<and> validate_task (given_task step) = Inr () \<and>
    (\<forall>b \<in> set (given_bindings step). \<exists>a \<in> set seen. PStr a = dgetN (items b) ''from_step'')"
proof -
  have "eall (map (validate_binding seen) (given_bindings step)) = Inr ()"
    using assms by (auto simp: validate_step_def Let_def ebind_Inr_iff split: if_splits)
  then have "\<forall>b \<in> set (given_bindings step). validate_binding seen b = Inr ()" by (auto simp: eall_Inr_iff)
  then show ?thesis using assms validate_binding_ok
    by (auto simp: validate_step_def Let_def ebind_Inr_iff split: if_splits)
qed

lemma validate_steps_ok:
  assumes "validate_steps seen xs = Inr ()"
  shows "distinct (map given_id xs) \<and> set (map given_id xs) \<inter> set seen = {} \<and> list_all (\<lambda>x. PLAN_IDENTIFIER (given_id x)) xs \<and>
    list_all (\<lambda>x. is_dict (given_task x) \<and> validate_task (given_task x) = Inr ()) xs \<and>
    (\<forall>i < length xs. \<forall>b \<in> set (given_bindings (xs ! i)).
      \<exists>a \<in> set seen \<union> set (take i (map given_id xs)). PStr a = dgetN (items b) ''from_step'')"
  using assms
proof (induction xs arbitrary: seen)
  case (Cons x xs)
  then obtain i where i: "validate_step seen x = Inr i" "validate_steps (i # seen) xs = Inr ()" by (auto simp: ebind_Inr_iff)
  note one = validate_step_ok [OF i(1)] and rest = Cons.IH [OF i(2)]
  have "\<exists>a \<in> set seen \<union> set (take n (map given_id (x # xs))). PStr a = dgetN (items b) ''from_step''"
    if "n < length (x # xs)" "b \<in> set (given_bindings ((x # xs) ! n))" for n b
    using that one rest by (cases n) auto
  then show ?case using one rest by auto
qed simp

lemma new_rows:
  assumes "rows = map (\<lambda>(i, step). step_of p i step) (enumerate 0 xs)"
  shows "map sp_ordinal rows = [0..<length xs]" "shape rows = map (\<lambda>x. (given_id x, given_bindings x, given_task x)) xs"
    "list_all (\<lambda>x. sp_plan x = p \<and> sp_run x = None \<and> sp_status x = ''queued'' \<and> sp_failure x = PNone) rows"
    "length rows = length xs"
proof -
  have "map sp_ordinal rows = map fst (enumerate 0 xs)"
    unfolding assms map_map by (rule map_cong) (auto simp: step_of_def)
  then show "map sp_ordinal rows = [0..<length xs]" by simp
  have "shape rows = map (\<lambda>x. (given_id x, given_bindings x, given_task x)) (map snd (enumerate 0 xs))"
    unfolding assms shape_def map_map by (rule map_cong) (auto simp: step_of_def)
  then show "shape rows = map (\<lambda>x. (given_id x, given_bindings x, given_task x)) xs" by simp
qed (auto simp: assms list_all_iff step_of_def)

lemma create_owned_steps:
  assumes "create_owned now fresh payload owner s = (Inr pid, s')" "plan_wf s"
  defines "xs \<equiv> elems (dgetN payload ''steps'')"
  defines "rows \<equiv> map (\<lambda>(i, step). step_of pid i step) (enumerate 0 xs)"
  shows "plans s' = plans s @ [\<lparr> pl_id = pid, pl_owner = owner, pl_status = ''queued'', pl_failure = PNone, pl_created = now \<rparr>]"
    "plan_steps s' = plan_steps s @ rows" "pid \<notin> pl_id ` set (plans s)"
    "steps_of q s' = (if q = pid then rows else steps_of q s)" "validate_steps [] xs = Inr ()" "xs \<noteq> []" "PLAN_IDENTIFIER pid" "length xs \<le> MAX_STEPS"
proof -
  show c: "plans s' = plans s @ [\<lparr> pl_id = pid, pl_owner = owner, pl_status = ''queued'', pl_failure = PNone, pl_created = now \<rparr>]"
    "plan_steps s' = plan_steps s @ rows" and new: "pid \<notin> pl_id ` set (plans s)"
    and "validate_steps [] xs = Inr ()" "xs \<noteq> []" "PLAN_IDENTIFIER pid" "length xs \<le> MAX_STEPS"
    using assms(1) by (auto simp: create_owned_def Let_def validate_plan_def xs_def rows_def split: sum.splits if_splits)
  note rows = new_rows [OF rows_def [THEN meta_eq_to_obj_eq]]
  have "filter (\<lambda>x. sp_plan x = pid) (plan_steps s) = []" using assms(2) new by (auto simp: plan_wf_def filter_empty_conv)
  moreover have "filter (\<lambda>x. sp_plan x = q) rows = (if q = pid then rows else [])"
    using rows(3) by (auto simp: list_all_iff filter_empty_conv)
  moreover have "sort_key sp_ordinal rows = rows" using rows(1) by (intro sort_key_id_if_sorted) simp
  ultimately show "steps_of q s' = (if q = pid then rows else steps_of q s)" using c(2) by (simp add: steps_of_def)
qed

lemma create_owned_wf:
  assumes "create_owned now fresh payload owner s = (r, s')" "plan_wf s"
  shows "plan_wf s'"
proof (cases r)
  case (Inl e)
  then have "s' = s" using assms(1) by (auto simp: create_owned_def Let_def split: sum.splits if_splits)
  then show ?thesis using assms(2) by simp
next
  case (Inr pid)
  note c = create_owned_steps [OF assms(1) [unfolded Inr] assms(2)]
  let ?xs = "elems (dgetN payload ''steps'')"
  let ?rows = "map (\<lambda>(i, step). step_of pid i step) (enumerate 0 ?xs)"
  note rows = new_rows [OF refl, of pid ?xs] and v = validate_steps_ok [OF c(5)]
  have "in_order ?rows" using rows(3) by (intro in_order_fresh list.pred_mono_strong [OF rows(3)]) simp
  moreover have "distinct (map sp_id ?rows)"
    using arg_cong [OF rows(2), of "map fst"] v by (simp add: shape_def o_def)
  ultimately have good_new: "good pid s'" using c(1,3,4) by (auto simp: good_def)
  have earlier: "\<exists>j < i. PStr (fst (map (\<lambda>x. (given_id x, given_bindings x, given_task x)) ?xs ! j)) = dgetN (items b) ''from_step''"
    if i: "i < length ?xs" and b: "b \<in> set (given_bindings (?xs ! i))" for i b
  proof -
    obtain a where a: "a \<in> set (take i (map given_id ?xs))" "PStr a = dgetN (items b) ''from_step''" using v i b by force
    then obtain j where "j < i" "a = given_id (?xs ! j)" using i by (auto simp: in_set_conv_nth)
    then show ?thesis using i a(2) by (intro exI [of _ j]) simp
  qed
  then have bound: "shape_ok (shape ?rows)"
    unfolding rows(2) shape_ok_def using v c(8) by (simp add: list_all_length)
  have "good q s'" if "q \<noteq> pid" for q
    using assms(2) that c(1,4) by (auto simp: plan_wf_def good_def)
  then have "good q s'" for q using good_new by (cases "q = pid") simp_all
  moreover have "shape_ok (shape (steps_of q s'))" for q
    using bound assms(2) c(4) by (simp add: plan_wf_def)
  moreover have "sp_plan ` set (plan_steps s') \<subseteq> pl_id ` set (plans s')"
    using assms(2) c(1,2) rows(3) by (auto simp: plan_wf_def list_all_iff)
  ultimately show ?thesis using assms(2) c(1,3) by (simp add: plan_wf_def)
qed

lemma request_cancel_wf:
  assumes "request_cancel_plan pid s = (r, s')" "plan_wf s"
  shows "plan_wf s'"
proof -
  have "plan_wf (update_plan pid ''cancel_requested'' [] s)"
    using assms(2) by (intro plan_wf_touches [OF assms(2) touches_update_plan] good_update_plan) (simp_all add: plan_wf_def good_def)
  then show ?thesis using assms by (auto simp: request_cancel_plan_def split: sum.splits if_splits)
qed

lemma reachable_plan_wf: "plan_reachable ex \<Longrightarrow> plan_wf (ex_store ex)"
proof (induction rule: plan_reachable.induct)
  case start
  then show ?case by (simp add: plan_wf_def good_def steps_of_def shape_ok_def shape_def in_orderI [of _ "[]" "[]"])
next
  case (created ex now fresh payload owner r s')
  then show ?case using create_owned_wf by fastforce
next
  case (cancelled ex pid r s')
  then show ?case using request_cancel_wf by fastforce
next
  case (cycled ex delay now k r ex')
  then show ?case using cycle_loop_wf by (simp add: cycle_def)
qed

end
