(* ===== verification/PlanProps.thy ===== *)
theory PlanProps
  imports Plans
begin

text \<open>
  What the plan executor promises: steps run in order and take their inputs from steps that succeeded, its thread
  survives whatever the kernel answers, plans come to an end, and a plan belongs to its owner.
\<close>

section \<open>What the kernel may answer\<close>

definition answers :: "'a result \<Rightarrow> bool" where
  "answers r = (case r of Inl e \<Rightarrow> e = KernelUnavailable \<or> e = KernelError | Inr _ \<Rightarrow> True)"

definition client_ok :: "kernel_client \<Rightarrow> bool" where
  "client_ok k \<longleftrightarrow> (\<forall>t i. answers (kc_submit k t i)) \<and>
     (\<forall>r. answers (kc_run k r) \<and> answers (kc_artifacts k r) \<and> answers (kc_cancel k r)) \<and>
     (\<forall>r d. kc_run k r = Inr d \<longrightarrow> dget d ''status'' \<noteq> None) \<and>
     (\<forall>r as. kc_artifacts k r = Inr as \<longrightarrow> list_all (\<lambda>a. dget a ''artifact_id'' \<noteq> None) as)"

text \<open>A kernel that can be reached, and whose runs have ended.\<close>

definition settled :: "kernel_client \<Rightarrow> bool" where
  "settled k \<longleftrightarrow> client_ok k \<and> (\<forall>t i. kc_submit k t i \<noteq> Inl KernelUnavailable) \<and>
     (\<forall>r. kc_run k r \<noteq> Inl KernelUnavailable \<and> kc_artifacts k r \<noteq> Inl KernelUnavailable \<and> kc_cancel k r \<noteq> Inl KernelUnavailable) \<and>
     (\<forall>r d. kc_run k r = Inr d \<longrightarrow> run_status d \<notin> set ACTIVE)"

section \<open>Where the inputs of a step come from\<close>

lemma valid_task_iter:
  assumes "is_dict task" "validate_task task = Inr ()"
  shows "\<exists>xs. iter_of (dget_or (items task) ''staged_inputs'' (PList [])) = Inr xs"
proof -
  obtain t where "TaskSpec_from_dict task = Inr t" using assms(2) by (auto simp: validate_task_def split: sum.splits)
  then show ?thesis by (auto simp: TaskSpec_from_dict_def ebind_Inr_iff known_payload_Inr)
qed

lemma truthy_staged:
  assumes "is_dict task" "validate_task task = Inr ()" "truthy (dgetN (items task) ''staged_inputs'')"
  shows "\<exists>xs. iter_of (dgetN (items task) ''staged_inputs'') = Inr xs"
  using valid_task_iter [OF assms(1,2)] assms(3) by (auto simp: dget_or_def truthy_def split: option.splits)

lemma pending_in: "pending_step xs = Some p \<Longrightarrow> p \<in> set xs"
  by (auto simp: pending_step_def dest: fetchone_Some)

lemma wf_task:
  assumes "plan_wf s" "p \<in> set (steps_of pid s)"
  shows "is_dict (sp_task p)" "validate_task (sp_task p) = Inr ()"
  using assms by (auto simp: plan_wf_def shape_ok_def shape_def list_all_iff)

lemma binding_source:
  assumes "plan_wf s" "pending_step (steps_of pid s) = Some p" "b \<in> set (sp_bindings p)"
  obtains src r where "fetchone (\<lambda>x. PStr (sp_id x) = dgetN (items b) ''from_step'') (steps_of pid s) = Some src"
    "src \<in> set (steps_of pid s)" "PStr (sp_id src) = dgetN (items b) ''from_step''" "done_step src" "sp_run src = Some r"
proof -
  let ?xs = "steps_of pid s"
  have ord: "in_order ?xs" and dist: "distinct (map sp_id ?xs)" and ok: "shape_ok (shape ?xs)"
    using assms(1) by (simp_all add: plan_wf_def good_def)
  obtain pre post where xs: "?xs = pre @ p # post" "list_all (\<lambda>x. done_step x \<and> sp_run x \<noteq> None) pre"
    by (rule in_order_pending [OF ord assms(2)])
  have "b \<in> set (fst (snd (shape ?xs ! length pre)))" using assms(3) by (simp add: xs(1) shape_def nth_append)
  moreover have "length pre < length (shape ?xs)" by (simp add: xs(1) shape_def)
  ultimately obtain j where j: "j < length pre" "PStr (fst (shape ?xs ! j)) = dgetN (items b) ''from_step''"
    using ok unfolding shape_ok_def by blast
  then have from_pre: "PStr (sp_id (pre ! j)) = dgetN (items b) ''from_step''" by (simp add: xs(1) shape_def nth_append)
  have mem: "pre ! j \<in> set pre" using j(1) by simp
  then have "fetchone (\<lambda>x. PStr (sp_id x) = dgetN (items b) ''from_step'') ?xs \<noteq> None"
    using from_pre xs(1) by (auto simp: fetchone_None)
  then obtain src where src: "fetchone (\<lambda>x. PStr (sp_id x) = dgetN (items b) ''from_step'') ?xs = Some src" by auto
  have in_xs: "src \<in> set ?xs" and id: "PStr (sp_id src) = dgetN (items b) ''from_step''" using fetchone_Some [OF src] by auto
  have "PStr (sp_id src) = PStr (sp_id (pre ! j))" by (simp only: id from_pre)
  then have same: "sp_id src = sp_id (pre ! j)" by simp
  have "inj_on sp_id (set ?xs)" using dist by (simp add: distinct_map)
  moreover have "pre ! j \<in> set ?xs" using mem xs(1) by simp
  ultimately have "src = pre ! j" using same in_xs by (meson inj_onD)
  then show thesis using that [OF src in_xs id] mem xs(2) by (auto simp: list_all_iff)
qed


lemma only_Inr: "(case xs of [a] \<Rightarrow> f a | _ \<Rightarrow> Inl e) = Inr v \<longleftrightarrow> (\<exists>a. xs = [a] \<and> f a = Inr v)"
  by (cases xs; cases "tl xs") auto

lemma only_Inl: "(case xs of [a] \<Rightarrow> f a | _ \<Rightarrow> Inl e) = Inl e' \<longleftrightarrow> (\<exists>a. xs = [a] \<and> f a = Inl e') \<or> (\<nexists>a. xs = [a]) \<and> e' = e"
  by (cases xs; cases "tl xs") auto

lemma bind_input_ok:
  assumes "plan_wf s" "pending_step (steps_of pid s) = Some p" "b \<in> set (sp_bindings p)"
    and "bind_input k (steps_of pid s) b = Inr v"
  shows "\<exists>src r found a aid. src \<in> set (steps_of pid s) \<and> PStr (sp_id src) = dgetN (items b) ''from_step'' \<and> done_step src \<and>
    sp_run src = Some r \<and> kc_artifacts k r = Inr found \<and> filter (artifact_matches b) found = [a] \<and>
    dget a ''artifact_id'' = Some aid \<and>
    v = PDict [(PStr ''artifact_id'', aid), (PStr ''destination'', dgetN (items b) ''destination''), (PStr ''required'', PBool True)]"
proof -
  obtain src r where src: "fetchone (\<lambda>x. PStr (sp_id x) = dgetN (items b) ''from_step'') (steps_of pid s) = Some src"
    "src \<in> set (steps_of pid s)" "PStr (sp_id src) = dgetN (items b) ''from_step''" "done_step src" "sp_run src = Some r"
    by (rule binding_source [OF assms(1-3)])
  obtain found a aid where "kc_artifacts k r = Inr found" "filter (artifact_matches b) found = [a]" "dget a ''artifact_id'' = Some aid"
    "v = PDict [(PStr ''artifact_id'', aid), (PStr ''destination'', dgetN (items b) ''destination''), (PStr ''required'', PBool True)]"
    using assms(4) src(1,5) by (auto simp: bind_input_def ebind_Inr_iff only_Inr split: option.splits)
  then show ?thesis using src by blast
qed

lemma bind_input_err:
  assumes "plan_wf s" "pending_step (steps_of pid s) = Some p" "b \<in> set (sp_bindings p)" "client_ok k"
    and "bind_input k (steps_of pid s) b = Inl e"
  shows "(e = KernelUnavailable \<or> e = KernelError \<or> (\<exists>m c. e = PlanError m c)) \<and>
    (e = KernelUnavailable \<longrightarrow> (\<exists>r. kc_artifacts k r = Inl KernelUnavailable))"
proof -
  obtain src r where src: "fetchone (\<lambda>x. PStr (sp_id x) = dgetN (items b) ''from_step'') (steps_of pid s) = Some src"
    "sp_run src = Some r"
    by (rule binding_source [OF assms(1-3)])
  show ?thesis
  proof (cases "kc_artifacts k r")
    case (Inl e')
    then have "e = e'" using assms(5) src by (simp add: bind_input_def)
    moreover have "answers (kc_artifacts k r)" using assms(4) by (simp add: client_ok_def)
    ultimately show ?thesis using Inl by (auto simp: answers_def)
  next
    case (Inr found)
    then have ids: "list_all (\<lambda>a. dget a ''artifact_id'' \<noteq> None) found" using assms(4) by (simp add: client_ok_def)
    have id: "dget a ''artifact_id'' \<noteq> None" if "filter (artifact_matches b) found = [a]" for a
      using arg_cong [OF that, of set] ids by (auto simp: list_all_iff)
    have "\<nexists>a. filter (artifact_matches b) found = [a]"
    proof
      assume "\<exists>a. filter (artifact_matches b) found = [a]"
      then obtain a aid where "filter (artifact_matches b) found = [a]" "dget a ''artifact_id'' = Some aid" using id by blast
      then show False using assms(5) src Inr by (simp add: bind_input_def)
    qed
    then have "e = PlanError ''binding expected one artifact'' 400"
      using assms(5) src Inr by (simp add: bind_input_def only_Inl)
    then show ?thesis by simp
  qed
qed

lemma emap_Inl: "emap f xs = Inl e \<Longrightarrow> \<exists>x \<in> set xs. f x = Inl e"
  by (induction xs) (auto simp: ebind_def split: sum.splits)

lemma task_for_err:
  assumes "plan_wf s" "pending_step (steps_of pid s) = Some p" "client_ok k" "task_for k (steps_of pid s) p = Inl e"
  shows "(e = KernelUnavailable \<or> e = KernelError \<or> (\<exists>m c. e = PlanError m c)) \<and>
    (e = KernelUnavailable \<longrightarrow> (\<exists>r. kc_artifacts k r = Inl KernelUnavailable))"
proof -
  obtain staged where "(if truthy (dgetN (items (sp_task p)) ''staged_inputs'')
      then iter_of (dgetN (items (sp_task p)) ''staged_inputs'') else Inr []) = Inr staged"
    using truthy_staged wf_task [OF assms(1) pending_in [OF assms(2)]] by (cases "truthy (dgetN (items (sp_task p)) ''staged_inputs'')") auto
  then have "emap (bind_input k (steps_of pid s)) (sp_bindings p) = Inl e"
    using assms(4) by (cases "emap (bind_input k (steps_of pid s)) (sp_bindings p)") (simp_all add: task_for_def)
  then show ?thesis using emap_Inl bind_input_err [OF assms(1,2) _ assms(3)] by blast
qed

section \<open>What one turn of a plan can raise\<close>

lemma answersD: "answers r \<Longrightarrow> r = Inl e \<Longrightarrow> e = KernelUnavailable \<or> e = KernelError"
  by (simp add: answers_def)

lemma run_detail_err:
  assumes "client_ok k" "run_detail k r = Inl e"
  shows "(e = KernelUnavailable \<or> e = KernelError) \<and> kc_run k r = Inl e"
proof (cases "kc_run k r")
  case (Inl e')
  then show ?thesis using assms by (auto simp: run_detail_def client_ok_def dest!: answersD)
next
  case (Inr d)
  then have "dget d ''status'' \<noteq> None" using assms(1) by (simp add: client_ok_def)
  then show ?thesis using assms(2) Inr by (auto simp: run_detail_def)
qed

text \<open>What an advance may raise: an answer of the kernel, or a binding that cannot be satisfied.\<close>

definition expected_error :: "kernel_client \<Rightarrow> pyexn \<Rightarrow> bool" where
  "expected_error k e \<longleftrightarrow> e = KernelError \<or> (\<exists>m c. e = PlanError m c) \<or> (e = KernelUnavailable \<and> \<not> settled k)"

lemma expected_errorI:
  assumes "e = KernelUnavailable \<or> e = KernelError \<or> (\<exists>m c. e = PlanError m c)"
    and "e = KernelUnavailable \<longrightarrow> (\<exists>r. kc_artifacts k r = Inl e \<or> kc_run k r = Inl e \<or> kc_cancel k r = Inl e) \<or> (\<exists>t i. kc_submit k t i = Inl e)"
  shows "expected_error k e"
  using assms unfolding expected_error_def settled_def by blast

lemma cancel_plan_err:
  assumes "client_ok k" "cancel_plan k v s = Inl e"
  shows "expected_error k e"
proof -
  obtain p r where p: "pending_step (pv_steps v) = Some p" "sp_run p = Some r"
    using assms(2) by (auto simp: cancel_plan_def Let_def split: option.splits)
  show ?thesis
  proof (cases "kc_cancel k r")
    case (Inl e')
    then have "kc_cancel k r = Inl e" using assms(2) p by (simp add: cancel_plan_def Let_def)
    moreover have "answers (kc_cancel k r)" using assms(1) by (simp add: client_ok_def)
    ultimately show ?thesis by (intro expected_errorI) (auto dest!: answersD)
  next
    case (Inr u)
    then have "run_detail k r = Inl e"
      using assms(2) p by (cases "run_detail k r") (auto simp: cancel_plan_def Let_def split: if_splits)
    then show ?thesis using run_detail_err [OF assms(1)] by (intro expected_errorI) blast+
  qed
qed

lemma advance_plan_err:
  assumes "plan_wf s" "client_ok k" "pid \<in> pl_id ` set (plans s)" "advance_plan k pid s = Inl e"
  shows "expected_error k e"
proof -
  have "fetchone (\<lambda>p. pl_id p = pid) (plans s) \<noteq> None" using assms(3) by (auto simp: fetchone_None)
  then obtain v where v: "get_plan pid None False s = Inr v" by (auto simp: get_plan_def)
  note get = get_plan_Inr [OF v]
  show ?thesis
  proof (cases "pv_status v = ''cancel_requested''")
    case True
    then show ?thesis using cancel_plan_err [OF assms(2)] assms(4) v by (simp add: advance_plan_def)
  next
    case run_on: False
    then obtain p where p: "pending_step (steps_of pid s) = Some p"
      using assms(4) v get by (auto simp: advance_plan_def split: option.splits)
    show ?thesis
    proof (cases "sp_run p")
      case (Some r)
      then have "run_detail k r = Inl e" using assms(4) v get run_on p
        by (cases "run_detail k r") (auto simp: advance_plan_def Let_def split: if_splits)
      then show ?thesis using run_detail_err [OF assms(2)] by (intro expected_errorI) blast+
    next
      case None
      then have a: "ebind (task_for k (steps_of pid s) p) (\<lambda>task. ebind (kc_submit k task (step_key pid (sp_id p)))
          (\<lambda>run_id. Inr (submitted pid (sp_id p) run_id s))) = Inl e"
        using assms(4) v get run_on p by (simp add: advance_plan_def)
      show ?thesis
      proof (cases "task_for k (steps_of pid s) p")
        case (Inl e')
        then show ?thesis using a task_for_err [OF assms(1) p assms(2)] by (intro expected_errorI) auto
      next
        case (Inr task)
        then have "kc_submit k task (step_key pid (sp_id p)) = Inl e"
          using a by (cases "kc_submit k task (step_key pid (sp_id p))") simp_all
        moreover have "answers (kc_submit k task (step_key pid (sp_id p)))" using assms(2) by (simp add: client_ok_def)
        ultimately show ?thesis by (intro expected_errorI) (auto dest!: answersD)
      qed
    qed
  qed
qed

section \<open>Plans come to an end\<close>

abbreviation working :: "string set" where
  "working \<equiv> {''queued'', ''running'', ''retry_wait'', ''cancel_requested''}"

lemma active_iff: "pid \<in> set (active_plans s) \<longleftrightarrow> (\<exists>p \<in> set (plans s). pl_id p = pid \<and> pl_status p \<in> working)"
  by (auto simp: active_plans_def)

text \<open>What is left to do: two turns for a step that has to be submitted, one for a step that has a run, and one to end the plan.\<close>

definition weight :: "step_row \<Rightarrow> nat" where
  "weight x = (if done_step x then 0 else if sp_run x = None then 2 else 1)"

definition rank :: "string \<Rightarrow> plan_store \<Rightarrow> nat" where
  "rank pid s = (if pid \<in> set (active_plans s) then Suc (sum_list (map weight (steps_of pid s))) else 0)"

lemma rank_other: "touches pid s s' \<Longrightarrow> q \<noteq> pid \<Longrightarrow> rank q s' = rank q s"
proof -
  assume t: "touches pid s s'" and q: "q \<noteq> pid"
  have "q \<in> set (active_plans s') \<longleftrightarrow> q \<in> set (active_plans s)"
    unfolding active_iff using touches_other_plan [OF t q] by blast
  then show ?thesis using t q by (simp add: rank_def touches_def)
qed

lemma rank_finished: "st \<notin> working \<Longrightarrow> rank pid (finish_plan pid st fl s) = 0"
proof -
  assume "st \<notin> working"
  moreover have "\<forall>p \<in> set (plans (finish_plan pid st fl s)). pl_id p = pid \<longrightarrow> pl_status p = st"
    by (simp add: finish_plan_def update_plan_def update_where_def ball_Un)
  ultimately have "pid \<notin> set (active_plans (finish_plan pid st fl s))" unfolding active_iff by blast
  then show ?thesis by (simp add: rank_def)
qed

lemma rank_bound: "plan_wf s \<Longrightarrow> rank pid s \<le> 2 * MAX_STEPS + 1"
proof -
  assume "plan_wf s"
  then have "length (steps_of pid s) \<le> MAX_STEPS" by (simp add: plan_wf_def shape_ok_def shape_def)
  moreover have "sum_list (map weight xs) \<le> 2 * length xs" for xs by (induction xs) (auto simp: weight_def)
  from this [of "steps_of pid s"] and calculation have "sum_list (map weight (steps_of pid s)) \<le> 2 * MAX_STEPS" by linarith
  then show ?thesis by (simp add: rank_def)
qed

lemma weight_pending:
  assumes "good pid s" "pending_step (steps_of pid s) = Some p" "weight (f p) < weight p"
  shows "sum_list (map weight (update_where (\<lambda>x. sp_id x = sp_id p) f (steps_of pid s))) < sum_list (map weight (steps_of pid s))"
proof -
  obtain pre post where xs: "steps_of pid s = pre @ p # post"
    using in_order_pending assms(1,2) unfolding good_def by metis
  have "update_where (\<lambda>x. sp_id x = sp_id p) f (steps_of pid s) = pre @ f p # post"
    using update_one assms(1) unfolding xs good_def by metis
  then show ?thesis using xs assms(3) by simp
qed

lemma pending_not_done: "pending_step xs = Some p \<Longrightarrow> \<not> done_step p"
  by (auto simp: pending_step_def dest: fetchone_Some)

lemma ending_idle: "ending st \<notin> working"
  by (simp add: ending_def FAILED_STATUSES_def)

text \<open>What one advance does when the kernel's runs have ended.\<close>

lemma advance_settled:
  assumes "settled k" "advance_plan k pid s = Inr s'"
  obtains (finished) st fl t where "s' = finish_plan pid st fl t" "st \<notin> working"
  | (submitted) p r where "pending_step (steps_of pid s) = Some p" "sp_run p = None" "s' = submitted pid (sp_id p) r s"
  | (succeeded) p r where "pending_step (steps_of pid s) = Some p" "sp_run p = Some r"
      "s' = step_status pid (sp_id p) ''succeeded'' [] s"
proof -
  obtain v where v: "get_plan pid None False s = Inr v" using assms(2) by (auto simp: advance_plan_def ebind_Inr_iff)
  note get = get_plan_Inr [OF v]
  have ended: "run_status d \<notin> set ACTIVE" if "run_detail k r = Inr d" for r d
    using assms(1) that by (auto simp: settled_def run_detail_def ebind_Inr_iff split: if_splits)
  show thesis
  proof (cases "pv_status v = ''cancel_requested''")
    case True
    then have c: "cancel_plan k v s = Inr s'" using assms(2) v by (simp add: advance_plan_def)
    have "\<exists>st fl t. s' = finish_plan pid st fl t \<and> st \<notin> working"
    proof (cases "pending_step (pv_steps v)")
      case None
      then have "s' = finish_plan pid ''succeeded'' [] s" using c get by (simp add: cancel_plan_def Let_def)
      then show ?thesis by fastforce
    next
      case (Some p)
      show ?thesis
      proof (cases "sp_run p")
        case None
        then show ?thesis using c get Some by (auto simp: cancel_plan_def Let_def)
      next
        case run: (Some r)
        then obtain d where d: "run_detail k r = Inr d" using c Some by (auto simp: cancel_plan_def Let_def ebind_Inr_iff)
        then show ?thesis using c get Some run ended [OF d] ending_idle
          by (auto simp: cancel_plan_def Let_def ebind_Inr_iff split: if_splits)
      qed
    qed
    then show ?thesis using finished by blast
  next
    case run_on: False
    show ?thesis
    proof (cases "pending_step (steps_of pid s)")
      case None
      then show ?thesis using assms(2) v run_on get finished [of "''succeeded''" "[]" s] by (simp add: advance_plan_def)
    next
      case (Some p)
      show ?thesis
      proof (cases "sp_run p")
        case None
        then show ?thesis using assms(2) v run_on get Some submitted by (auto simp: advance_plan_def ebind_Inr_iff)
      next
        case run: (Some r)
        then obtain d where d: "run_detail k r = Inr d"
          using assms(2) v run_on get Some by (auto simp: advance_plan_def ebind_Inr_iff)
        then have "s' = finish_plan pid ''succeeded'' [] (step_status pid (sp_id p) ''succeeded'' [] s) \<or>
            s' = step_status pid (sp_id p) ''succeeded'' [] s \<or> (\<exists>fl t. s' = finish_plan pid (ending (run_status d)) fl t)"
          using assms(2) v run_on get Some run ended [OF d] by (auto simp: advance_plan_def Let_def split: if_splits)
        then show ?thesis using finished succeeded [OF Some run] ending_idle by (elim disjE exE) auto
      qed
    qed
  qed
qed

lemma active_submitted: "pid \<in> set (active_plans (submitted p i r s)) \<Longrightarrow> pid \<in> set (active_plans s) \<or> pid = p"
  unfolding active_iff by (auto simp: submitted_def update_where_def split: if_splits)

lemma active_step_status [simp]: "active_plans (step_status p i st fl s) = active_plans s"
  by (simp add: active_plans_def)

lemma advance_rank:
  assumes "settled k" "advance_plan k pid s = Inr s'" "good pid s" "pid \<in> set (active_plans s)"
  shows "rank pid s' < rank pid s"
  using assms(1,2)
proof (cases rule: advance_settled)
  case (finished st fl t)
  then show ?thesis using rank_finished assms(4) by (simp add: rank_def)
next
  case (submitted p r)
  then have "weight (p\<lparr> sp_status := ''queued'', sp_failure := PNone, sp_run := Some r \<rparr>) < weight p"
    using pending_not_done by (simp add: weight_def)
  from weight_pending [OF assms(3) submitted(1), of "\<lambda>x. x\<lparr> sp_status := ''queued'', sp_failure := PNone, sp_run := Some r \<rparr>", OF this]
  show ?thesis using assms(4) submitted(3) by (simp add: rank_def steps_of_submitted)
next
  case (succeeded p r)
  then have "weight (p\<lparr> sp_status := ''succeeded'', sp_failure := stored_failure [] \<rparr>) < weight p"
    using pending_not_done by (simp add: weight_def)
  from weight_pending [OF assms(3) succeeded(1), of "\<lambda>x. x\<lparr> sp_status := ''succeeded'', sp_failure := stored_failure [] \<rparr>", OF this]
  show ?thesis using assms(4) succeeded(3) by (simp add: rank_def steps_of_step_status)
qed

section \<open>The executor's thread\<close>

lemma cycle_one_outcome:
  assumes "plan_wf (ex_store ex)" "client_ok k" "pid \<in> pl_id ` set (plans (ex_store ex))" "cycle_one delay now k pid ex = (r, ex')"
  shows "(\<exists>n. r = Inr n) \<and> touches pid (ex_store ex) (ex_store ex')"
proof (cases "advance_plan k pid (ex_store ex)")
  case (Inr s)
  have "good pid (ex_store ex)" using assms(1) by (simp add: plan_wf_def)
  then have "touches pid (ex_store ex) s" using advance_plan_good [OF Inr] by blast
  then show ?thesis using assms(4) Inr touches_refl by (auto simp: cycle_one_def split: if_splits option.splits)
next
  case (Inl e)
  have "expected_error k e" by (rule advance_plan_err [OF assms(1-3) Inl])
  then show ?thesis using assms(4) Inl touches_refl touches_update_plan
    by (auto simp: cycle_one_def expected_error_def retry_wait_def finish_plan_def split: if_splits option.splits)
qed

definition unblocked :: "int \<Rightarrow> executor \<Rightarrow> bool" where
  "unblocked now ex \<longleftrightarrow> (\<forall>p t. ex_retry_at ex p = Some t \<longrightarrow> t \<le> now)"

lemma cycle_one_settled:
  assumes "plan_wf (ex_store ex)" "settled k" "pid \<in> set (active_plans (ex_store ex))" "unblocked now ex"
    and "cycle_one delay now k pid ex = (r, ex')"
  shows "rank pid (ex_store ex') < rank pid (ex_store ex) \<and> (\<forall>q t. ex_retry_at ex' q = Some t \<longrightarrow> ex_retry_at ex q = Some t)"
proof -
  have free: "\<not> (case ex_retry_at ex pid of None \<Rightarrow> False | Some t \<Rightarrow> now < t)"
    using assms(4) by (fastforce simp: unblocked_def split: option.splits)
  have good: "good pid (ex_store ex)" using assms(1) by (simp add: plan_wf_def)
  show ?thesis
  proof (cases "advance_plan k pid (ex_store ex)")
    case (Inr s)
    then show ?thesis using assms(5) free advance_rank [OF assms(2) Inr good assms(3)] by (auto simp: cycle_one_def split: if_split_asm)
  next
    case (Inl e)
    have mem: "pid \<in> pl_id ` set (plans (ex_store ex))" using assms(3) by (auto simp: active_iff)
    have "client_ok k" using assms(2) by (simp add: settled_def)
    from advance_plan_err [OF assms(1) this mem Inl] have e: "e = KernelError \<or> (\<exists>m c. e = PlanError m c)"
      using assms(2) by (auto simp: expected_error_def)
    have "rank pid (finish_plan pid ''failed'' fl (ex_store ex)) = 0" for fl by (rule rank_finished) simp
    moreover have "0 < rank pid (ex_store ex)" using assms(3) by (simp add: rank_def)
    ultimately show ?thesis using assms(5) free Inl e by (auto simp: cycle_one_def)
  qed
qed

lemma touches_ids: "touches pid s s' \<Longrightarrow> pl_id ` set (plans s') = pl_id ` set (plans s)"
  unfolding touches_def by (metis list.set_map)

lemma cycle_loop_ok:
  assumes "plan_wf (ex_store ex)" "\<forall>p. client_ok (k p)" "set ps \<subseteq> pl_id ` set (plans (ex_store ex))"
    and "cycle_loop delay now k ps ex = (r, ex')"
  shows "\<exists>n. r = Inr n"
  using assms(1,3,4)
proof (induction ps arbitrary: ex r ex')
  case (Cons p ps)
  obtain r1 ex1 where one: "cycle_one delay now (k p) p ex = (r1, ex1)" by fastforce
  have mem: "p \<in> pl_id ` set (plans (ex_store ex))" using Cons.prems(2) by simp
  have "client_ok (k p)" using assms(2) by blast
  from cycle_one_outcome [OF Cons.prems(1) this mem one] obtain n where n: "r1 = Inr n"
    and t: "touches p (ex_store ex) (ex_store ex1)" by blast
  obtain r2 ex2 where loop: "cycle_loop delay now k ps ex1 = (r2, ex2)" by fastforce
  have "set ps \<subseteq> pl_id ` set (plans (ex_store ex1))" using Cons.prems(2) touches_ids [OF t] by simp
  from Cons.IH [OF cycle_one_wf [OF one Cons.prems(1)] this loop] obtain m where "r2 = Inr m" by blast
  then show ?case using Cons.prems(3) one n loop by auto
qed auto

lemma cycle_loop_settled:
  assumes "plan_wf (ex_store ex)" "\<forall>p. settled (k p)" "set ps \<subseteq> set (active_plans (ex_store ex))" "distinct ps" "unblocked now ex"
    and "cycle_loop delay now k ps ex = (r, ex')"
  shows "(\<forall>q. rank q (ex_store ex') \<le> rank q (ex_store ex) - (if q \<in> set ps then 1 else 0)) \<and>
    (\<forall>q t. ex_retry_at ex' q = Some t \<longrightarrow> ex_retry_at ex q = Some t)"
  using assms(1,3-6)
proof (induction ps arbitrary: ex r ex')
  case (Cons p ps)
  obtain r1 ex1 where one: "cycle_one delay now (k p) p ex = (r1, ex1)" by fastforce
  have act: "p \<in> set (active_plans (ex_store ex))" using Cons.prems(2) by simp
  then have mem: "p \<in> pl_id ` set (plans (ex_store ex))" by (auto simp: active_iff)
  have set: "settled (k p)" "client_ok (k p)" using assms(2) by (auto simp: settled_def)
  from cycle_one_outcome [OF Cons.prems(1) set(2) mem one] obtain n where n: "r1 = Inr n"
    and t: "touches p (ex_store ex) (ex_store ex1)" by blast
  note step = cycle_one_settled [OF Cons.prems(1) set(1) act Cons.prems(4) one]
  have rest: "set ps \<subseteq> set (active_plans (ex_store ex1))"
  proof
    fix q assume q: "q \<in> set ps"
    then have "q \<noteq> p" "q \<in> set (active_plans (ex_store ex))" using Cons.prems(2,3) by auto
    then have "rank q (ex_store ex1) \<noteq> 0" using rank_other [OF t] by (simp add: rank_def)
    then show "q \<in> set (active_plans (ex_store ex1))" by (metis rank_def)
  qed
  obtain r2 ex2 where loop: "cycle_loop delay now k ps ex1 = (r2, ex2)" by fastforce
  have unb: "unblocked now ex1" using Cons.prems(4) step unfolding unblocked_def by blast
  have dist: "distinct ps" "p \<notin> set ps" using Cons.prems(3) by simp_all
  note ih = Cons.IH [OF cycle_one_wf [OF one Cons.prems(1)] rest dist(1) unb loop]
  have ex': "ex' = ex2" using Cons.prems(5) one n loop by (auto split: sum.splits)
  have ih_rank: "rank q (ex_store ex') \<le> rank q (ex_store ex1) - (if q \<in> set ps then 1 else 0)" for q
    using ih ex' by blast
  have "rank q (ex_store ex') \<le> rank q (ex_store ex) - (if q \<in> set (p # ps) then 1 else 0)" for q
    using ih_rank [of q] step dist(2) rank_other [OF t, of q] by (cases "q = p") auto
  then show ?case using ih step ex' by blast
qed simp

lemma distinct_active: "plan_wf s \<Longrightarrow> distinct (active_plans s)"
  by (auto simp: plan_wf_def active_plans_def distinct_map intro: inj_on_subset)

lemma cycle_ok:
  assumes "plan_wf (ex_store ex)" "\<forall>p. client_ok (k p)"
  shows "\<exists>n ex1. cycle delay now k ex = (Inr n, ex1) \<and> plan_wf (ex_store ex1)"
proof -
  obtain r ex1 where c: "cycle_loop delay now k (active_plans (ex_store ex)) ex = (r, ex1)" by fastforce
  have "set (active_plans (ex_store ex)) \<subseteq> pl_id ` set (plans (ex_store ex))" by (auto simp: active_iff)
  from cycle_loop_ok [OF assms this c] cycle_loop_wf [OF c assms(1)] show ?thesis using c by (auto simp: cycle_def)
qed

lemma cycle_settled:
  assumes "plan_wf (ex_store ex)" "\<forall>p. settled (k p)" "unblocked now ex" "cycle delay now k ex = (r, ex1)"
  shows "(\<forall>q. rank q (ex_store ex1) \<le> rank q (ex_store ex) - 1) \<and> (\<forall>q t. ex_retry_at ex1 q = Some t \<longrightarrow> ex_retry_at ex q = Some t)"
proof -
  have c: "cycle_loop delay now k (active_plans (ex_store ex)) ex = (r, ex1)" using assms(4) by (simp add: cycle_def)
  note loop = cycle_loop_settled [OF assms(1,2) subset_refl distinct_active [OF assms(1)] assms(3) c]
  have "rank q (ex_store ex1) \<le> rank q (ex_store ex) - (if q \<in> set (active_plans (ex_store ex)) then 1 else 0)" for q
    using loop by blast
  then have "rank q (ex_store ex1) \<le> rank q (ex_store ex) - 1" for q
    by (cases "q \<in> set (active_plans (ex_store ex))") (metis, metis diff_0_eq_0 diff_zero rank_def)
  then show ?thesis using loop by blast
qed

lemma serve_forever_ok:
  assumes "\<forall>(now, k) \<in> set turns. \<forall>p. client_ok (k p)" "plan_wf (ex_store ex)"
  shows "fst (serve_forever delay turns ex) = Inr ()"
  using assms
proof (induction turns arbitrary: ex)
  case (Cons turn turns)
  obtain now k where turn: "turn = (now, k)" by fastforce
  have k: "\<forall>p. client_ok (k p)" using Cons.prems(1) turn by simp
  obtain n ex1 where "cycle delay now k ex = (Inr n, ex1)" "plan_wf (ex_store ex1)"
    using cycle_ok [OF Cons.prems(2) k] by blast
  then show ?case using Cons.IH Cons.prems(1) turn by simp
qed simp

lemma serve_forever_settled:
  assumes "\<forall>(now, k) \<in> set turns. unblocked now ex \<and> (\<forall>p. settled (k p))" "plan_wf (ex_store ex)"
  shows "rank q (ex_store (snd (serve_forever delay turns ex))) \<le> rank q (ex_store ex) - length turns"
  using assms
proof (induction turns arbitrary: ex)
  case (Cons turn turns)
  obtain now k where turn: "turn = (now, k)" by fastforce
  have k: "\<forall>p. settled (k p)" "\<forall>p. client_ok (k p)" "unblocked now ex" using Cons.prems(1) turn by (auto simp: settled_def)
  obtain n ex1 where c: "cycle delay now k ex = (Inr n, ex1)" "plan_wf (ex_store ex1)"
    using cycle_ok [OF Cons.prems(2) k(2)] by blast
  note step = cycle_settled [OF Cons.prems(2) k(1,3) c(1)]
  have "\<forall>(now, k) \<in> set turns. unblocked now ex1 \<and> (\<forall>p. settled (k p))"
    using Cons.prems(1) step unfolding unblocked_def by fastforce
  from Cons.IH [OF this c(2)]
  have "rank q (ex_store (snd (serve_forever delay turns ex1))) \<le> rank q (ex_store ex1) - length turns" .
  moreover have "rank q (ex_store ex1) \<le> rank q (ex_store ex) - 1" using step by blast
  ultimately show ?case using turn c(1) by simp
qed simp

section \<open>A plan of two steps\<close>

definition plan_task :: pyval where
  "plan_task = PDict [(PStr ''schema_version'', PInt SCHEMA_VERSION), (PStr ''task_id'', PStr ''t''),
     (PStr ''project_id'', PStr ''p''), (PStr ''design_id'', PStr ''d''), (PStr ''plugin_id'', PStr ''g'')]"

definition sample_binding :: pyval where
  "sample_binding = PDict [(PStr ''from_step'', PStr ''a''), (PStr ''artifact_kind'', PStr ''gds''), (PStr ''destination'', PStr ''in.gds'')]"

definition sample_plan :: pydict where
  "sample_plan = [(PStr ''plan_id'', PStr ''p''), (PStr ''steps'', PList
     [ PDict [(PStr ''step_id'', PStr ''a''), (PStr ''task'', plan_task)],
       PDict [(PStr ''step_id'', PStr ''b''), (PStr ''task'', plan_task), (PStr ''bindings'', PList [sample_binding])] ])]"

definition sample_kernel :: kernel_client where
  "sample_kernel = \<lparr> kc_submit = (\<lambda>_ _. Inr ''r''), kc_run = (\<lambda>_. Inr [(PStr ''status'', PStr ''succeeded'')]),
     kc_artifacts = (\<lambda>_. Inr [[(PStr ''artifact_id'', PStr ''x''), (PStr ''kind'', PStr ''gds'')]]), kc_cancel = (\<lambda>_. Inr ()) \<rparr>"

definition sample_created :: executor where
  "sample_created = \<lparr> ex_store = snd (create_owned 1 ''f'' sample_plan (Some ''u'') \<lparr> plans = [], plan_steps = [] \<rparr>), ex_retry_at = Map.empty \<rparr>"

fun sample_after :: "nat \<Rightarrow> executor" where
  "sample_after 0 = sample_created"
| "sample_after (Suc n) = snd (cycle 0 0 (\<lambda>_. sample_kernel) (sample_after n))"

definition down_kernel :: kernel_client where
  "down_kernel = \<lparr> kc_submit = (\<lambda>_ _. Inl KernelUnavailable), kc_run = (\<lambda>_. Inl KernelUnavailable),
     kc_artifacts = (\<lambda>_. Inl KernelUnavailable), kc_cancel = (\<lambda>_. Inl KernelUnavailable) \<rparr>"

definition sample_service :: plan_service where
  "sample_service = \<lparr> ps_require_auth = True, ps_base_url = ''http://k'', ps_session = (\<lambda>_. Inr (Some (''u'', False))), ps_refusal = 502 \<rparr>"

lemma sample_reachable: "plan_reachable (sample_after n)"
proof (induction n)
  case 0
  obtain r s' where "create_owned 1 ''f'' sample_plan (Some ''u'') \<lparr> plans = [], plan_steps = [] \<rparr> = (r, s')" by fastforce
  then show ?case using plan_reachable.created [OF plan_reachable.start, of 1 "''f''" sample_plan "Some ''u''" r s']
    by (simp add: sample_created_def)
next
  case (Suc n)
  then show ?case using plan_reachable.cycled [OF Suc, of 0 0 "\<lambda>_. sample_kernel"] by (simp add: prod_eq_iff)
qed

lemma sample_kernel_settled: "settled sample_kernel" "client_ok sample_kernel" "client_ok down_kernel"
  by (simp_all add: settled_def client_ok_def answers_def sample_kernel_def down_kernel_def run_status_def ACTIVE_def
      dget_or_def dget_def text_of_def key_primitive_def)

lemma step_key_inject:
  assumes "step_key p i = step_key q j" "PLAN_IDENTIFIER p" "PLAN_IDENTIFIER q"
  shows "p = q \<and> i = j"
proof -
  have colon: "CHR '':'' \<notin> set x" if "PLAN_IDENTIFIER x" for x
    using that by (cases x) (auto simp: list_all_iff is_alnum_def)
  have cut: "takeWhile (\<lambda>c. c \<noteq> CHR '':'') (x @ '':step:'' @ y) = x" if "PLAN_IDENTIFIER x" for x y
    using colon [OF that] by (subst takeWhile_append2) auto
  have eq: "p @ '':step:'' @ i = q @ '':step:'' @ j" using assms(1) by (simp add: step_key_def)
  then have "p = q" using cut [OF assms(2), of i] cut [OF assms(3), of j] by metis
  then show ?thesis using eq by simp
qed

lemma update_plan_status:
  assumes "get_plan pid None False s = Inr v"
  shows "\<exists>w. get_plan pid None False (update_plan pid st fl s) = Inr w \<and> pv_status w = st"
proof -
  obtain p where p: "fetchone (\<lambda>p. pl_id p = pid) (plans s) = Some p" using assms by (auto simp: get_plan_def split: option.splits)
  have "pid \<in> pl_id ` set (plans (update_plan pid st fl s))"
    using fetchone_Some [OF p] touches_ids [OF touches_update_plan, of pid st fl s] by auto
  then have "fetchone (\<lambda>p. pl_id p = pid) (plans (update_plan pid st fl s)) \<noteq> None" by (auto simp: fetchone_None)
  then obtain q where q: "fetchone (\<lambda>p. pl_id p = pid) (plans (update_plan pid st fl s)) = Some q" by auto
  have "\<forall>p \<in> set (plans (update_plan pid st fl s)). pl_id p = pid \<longrightarrow> pl_status p = st"
    by (simp add: update_plan_def update_where_def ball_Un)
  then have "pl_status q = st" using fetchone_Some [OF q] by blast
  then show ?thesis using q by (simp add: get_plan_def)
qed

lemma advance_without_cancel:
  assumes "get_plan pid None False s = Inr v" "pv_status v \<noteq> ''cancel_requested''"
  shows "advance_plan (k\<lparr> kc_cancel := c \<rparr>) pid s = advance_plan k pid s"
proof -
  have "bind_input (k\<lparr> kc_cancel := c \<rparr>) = bind_input k" by (intro ext) (simp add: bind_input_def split: option.split)
  then have "task_for (k\<lparr> kc_cancel := c \<rparr>) = task_for k" by (intro ext) (simp add: task_for_def)
  moreover have "run_detail (k\<lparr> kc_cancel := c \<rparr>) = run_detail k" by (intro ext) (simp add: run_detail_def)
  ultimately show ?thesis using assms by (simp add: advance_plan_def split: option.split)
qed

lemma caller_auth:
  assumes "ps_require_auth sv" "plan_caller sv header = Inr (owner, developer)"
  shows "\<exists>u. owner = Some u \<and> ps_session sv (strip (drop 7 header)) = Inr (Some (u, developer))"
  using assms by (auto simp: plan_caller_def ebind_Inr_iff split: if_splits option.splits)

section \<open>Properties\<close>

text \<open>C25: 
  However plans are created, cancelled and advanced, and whatever the kernel answers, a step has a run only when
  every earlier step of its plan has a run and has succeeded.
\<close>

theorem steps_run_in_order:
  assumes "plan_reachable ex" "x \<in> set (plan_steps (ex_store ex))" "y \<in> set (plan_steps (ex_store ex))"
    and "sp_plan y = sp_plan x" "sp_ordinal y < sp_ordinal x" "sp_run x \<noteq> None"
  shows "sp_status y = ''succeeded'' \<and> sp_run y \<noteq> None"
proof -
  let ?xs = "steps_of (sp_plan x) (ex_store ex)"
  have "in_order ?xs" using reachable_plan_wf [OF assms(1)] by (simp add: plan_wf_def good_def)
  then obtain pre rest where xs: "?xs = pre @ rest" "list_all (\<lambda>x. done_step x \<and> sp_run x \<noteq> None) pre"
    "list_all (\<lambda>x. sp_run x = None) (tl rest)" by (auto simp: in_order_def)
  have "x \<in> set ?xs" "y \<in> set ?xs" using assms(2-4) by (simp_all add: steps_of_def)
  moreover have "sorted (map sp_ordinal (pre @ rest))" using xs(1) by (metis steps_of_def sorted_sort_key)
  ultimately have "y \<in> set pre" using xs assms(5,6) by (cases rest) (fastforce simp: sorted_append list_all_iff)+
  then show ?thesis using xs(2) by (simp add: list_all_iff)
qed

theorem steps_run_in_order_witness:
  "sp_run (plan_steps (ex_store (sample_after 3)) ! 1) \<noteq> None \<and> sp_status (plan_steps (ex_store (sample_after 3)) ! 0) = ''succeeded'' \<and>
    sp_run (plan_steps (ex_store (sample_after 3)) ! 0) \<noteq> None"
proof -
  let ?xs = "plan_steps (ex_store (sample_after 3))"
  have rows: "map (\<lambda>x. (sp_plan x, sp_ordinal x, sp_run x)) ?xs = [(''p'', 0, Some ''r''), (''p'', 1, Some ''r'')]" by code_simp
  then obtain y x where xs: "?xs = [y, x]" by (auto simp: map_eq_Cons_conv)
  show ?thesis using steps_run_in_order [OF sample_reachable, of x 3 y] rows by (simp add: xs)
qed

text \<open>
  A plan the service reports as valid is complete: every one of its steps has a run and has succeeded.
\<close>

theorem valid_plan_complete:
  assumes "plan_reachable ex" "get_plan pid owner developer (ex_store ex) = Inr v" "pv_valid v = PBool True"
  shows "list_all (\<lambda>x. sp_status x = ''succeeded'' \<and> sp_run x \<noteq> None) (pv_steps v)"
proof -
  have wf: "good pid (ex_store ex)" using reachable_plan_wf [OF assms(1)] by (simp add: plan_wf_def)
  obtain p where "p \<in> set (plans (ex_store ex))" "pl_id p = pid" "pl_status p = ''succeeded''" "pv_steps v = steps_of pid (ex_store ex)"
    using assms(2,3) by (auto simp: get_plan_def dest: fetchone_Some split: option.splits if_splits)
  then have "list_all done_step (pv_steps v)" "in_order (pv_steps v)" using wf by (auto simp: good_def)
  then show ?thesis by (auto simp: in_order_def list_all_iff)
qed

theorem valid_plan_complete_witness:
  "\<exists>v. get_plan ''p'' (Some ''u'') False (ex_store (sample_after 4)) = Inr v \<and> pv_valid v = PBool True \<and>
    list_all (\<lambda>x. sp_status x = ''succeeded'' \<and> sp_run x \<noteq> None) (pv_steps v)"
proof -
  have "(case get_plan ''p'' (Some ''u'') False (ex_store (sample_after 4)) of Inl _ \<Rightarrow> False | Inr v \<Rightarrow> pv_valid v = PBool True)"
    by code_simp
  then obtain v where v: "get_plan ''p'' (Some ''u'') False (ex_store (sample_after 4)) = Inr v" "pv_valid v = PBool True"
    by (auto split: sum.splits)
  then show ?thesis using valid_plan_complete [OF sample_reachable v] by blast
qed

text \<open>C26: 
  The task submitted for a step carries, after the inputs the plan gave it, one staged input for each of its bindings:
  the only artifact that matches the binding among those of the run of an earlier step that has succeeded.
\<close>

theorem bound_inputs_from_succeeded_steps:
  assumes "plan_reachable ex" "get_plan pid None False (ex_store ex) = Inr v" "pending_step (pv_steps v) = Some p"
    and "task_for k (pv_steps v) p = Inr task" "sp_bindings p \<noteq> []"
  shows "\<exists>staged bound. task = PDict (dset (items (sp_task p)) (PStr ''staged_inputs'') (PList (staged @ bound))) \<and>
    list_all2 (\<lambda>b i. \<exists>src r found a aid. src \<in> set (pv_steps v) \<and> PStr (sp_id src) = dgetN (items b) ''from_step'' \<and>
      sp_status src = ''succeeded'' \<and> sp_run src = Some r \<and> kc_artifacts k r = Inr found \<and>
      filter (artifact_matches b) found = [a] \<and> dget a ''artifact_id'' = Some aid \<and>
      i = PDict [(PStr ''artifact_id'', aid), (PStr ''destination'', dgetN (items b) ''destination''), (PStr ''required'', PBool True)])
    (sp_bindings p) bound"
proof -
  have steps: "pv_steps v = steps_of pid (ex_store ex)" by (rule get_plan_Inr(2) [OF assms(2)])
  note wf = reachable_plan_wf [OF assms(1)]
  obtain staged bound where b: "emap (bind_input k (steps_of pid (ex_store ex))) (sp_bindings p) = Inr bound"
    and task: "task = (if staged @ bound = [] then sp_task p
          else PDict (dset (items (sp_task p)) (PStr ''staged_inputs'') (PList (staged @ bound))))"
    using assms(4) steps by (auto simp: task_for_def ebind_Inr_iff)
  have all: "list_all2 (\<lambda>x y. bind_input k (steps_of pid (ex_store ex)) x = Inr y) (sp_bindings p) bound"
    using b by (simp add: emap_Inr_list_all2)
  then have "bound \<noteq> []" using assms(5) by (cases bound) auto
  then have t: "task = PDict (dset (items (sp_task p)) (PStr ''staged_inputs'') (PList (staged @ bound)))" using task by simp
  note ok = bind_input_ok [OF wf assms(3) [unfolded steps]]
  show ?thesis unfolding steps
    by (intro exI conjI, rule t, rule list.rel_mono_strong [OF all]) (rule ok)
qed

theorem bound_inputs_from_succeeded_steps_witness:
  "\<exists>v p task staged bound. get_plan ''p'' None False (ex_store (sample_after 2)) = Inr v \<and> pending_step (pv_steps v) = Some p \<and>
    task_for sample_kernel (pv_steps v) p = Inr task \<and>
    task = PDict (dset (items (sp_task p)) (PStr ''staged_inputs'') (PList (staged @ bound))) \<and> length bound = length (sp_bindings p)"
proof -
  have "(case get_plan ''p'' None False (ex_store (sample_after 2)) of Inl _ \<Rightarrow> False | Inr v \<Rightarrow>
      (case pending_step (pv_steps v) of None \<Rightarrow> False | Some p \<Rightarrow>
        \<not> isl (task_for sample_kernel (pv_steps v) p) \<and> sp_bindings p \<noteq> []))"
    by code_simp
  then obtain v p where v: "get_plan ''p'' None False (ex_store (sample_after 2)) = Inr v" "pending_step (pv_steps v) = Some p"
    "sp_bindings p \<noteq> []" "\<not> isl (task_for sample_kernel (pv_steps v) p)" by (auto split: sum.split_asm option.split_asm)
  then obtain task where task: "task_for sample_kernel (pv_steps v) p = Inr task" by (cases "task_for sample_kernel (pv_steps v) p") auto
  from bound_inputs_from_succeeded_steps [OF sample_reachable v(1,2) task v(3)]
  obtain staged bound where "task = PDict (dset (items (sp_task p)) (PStr ''staged_inputs'') (PList (staged @ bound)))"
    "length bound = length (sp_bindings p)" by (elim exE conjE) (auto dest: list_all2_lengthD)
  then show ?thesis using v task by blast
qed



text \<open>C23: 
  Plans come to an end: once the kernel can be reached, its runs have ended and no plan waits for a retry, more than
  twice \<open>MAX_STEPS\<close> turns of the executor leave no plan active.
\<close>

theorem plans_end:
  assumes "plan_reachable ex" "\<forall>(now, k) \<in> set turns. unblocked now ex \<and> (\<forall>p. settled (k p))" "2 * MAX_STEPS < length turns"
  shows "active_plans (ex_store (snd (serve_forever delay turns ex))) = []"
proof -
  note wf = reachable_plan_wf [OF assms(1)]
  have "rank q (ex_store (snd (serve_forever delay turns ex))) = 0" for q
    using serve_forever_settled [OF assms(2) wf, of q delay] rank_bound [OF wf, of q] assms(3) by linarith
  then have "q \<notin> set (active_plans (ex_store (snd (serve_forever delay turns ex))))" for q by (metis nat.distinct(1) rank_def)
  then show ?thesis by (metis list.set_intros(1) neq_Nil_conv)
qed

theorem plans_end_witness:
  "active_plans (ex_store (sample_after 0)) = [''p''] \<and>
    active_plans (ex_store (snd (serve_forever 0 (replicate 129 (0, \<lambda>_. sample_kernel)) (sample_after 0)))) = []"
proof
  show "active_plans (ex_store (sample_after 0)) = [''p'']" by code_simp
  show "active_plans (ex_store (snd (serve_forever 0 (replicate 129 (0, \<lambda>_. sample_kernel)) (sample_after 0)))) = []"
    by (rule plans_end [OF sample_reachable])
      (simp_all add: sample_kernel_settled unblocked_def sample_created_def MAX_STEPS_def)
qed

text \<open>
  A plan read back right after it was created lists the steps of the request, in their order, none of them started.
\<close>

theorem create_then_get:
  assumes "plan_reachable ex" "create_owned now fresh payload owner (ex_store ex) = (Inr pid, s')"
  shows "\<exists>v. get_plan pid owner False s' = Inr v \<and> pv_status v = ''queued'' \<and> pv_valid v = PNone \<and>
    pv_steps v = map (\<lambda>(i, step). step_of pid i step) (enumerate 0 (elems (dgetN payload ''steps'')))"
proof -
  note c = create_owned_steps [OF assms(2) reachable_plan_wf [OF assms(1)]]
  have "fetchone (\<lambda>p. pl_id p = pid) (plans s') =
      Some \<lparr> pl_id = pid, pl_owner = owner, pl_status = ''queued'', pl_failure = PNone, pl_created = now \<rparr>"
    using c(1,3) by (auto simp: fetchone_append fetchone_None split: option.splits dest: fetchone_Some)
  then show ?thesis using c(4) [of pid] by (simp add: get_plan_def FAILED_STATUSES_def)
qed

theorem create_then_get_witness:
  "\<exists>v. get_plan ''p'' (Some ''u'') False (ex_store (sample_after 0)) = Inr v \<and> map sp_id (pv_steps v) = [''a'', ''b'']"
proof -
  let ?c = "create_owned 1 ''f'' sample_plan (Some ''u'') \<lparr> plans = [], plan_steps = [] \<rparr>"
  have "fst ?c = Inr ''p''" by code_simp
  then have c: "create_owned 1 ''f'' sample_plan (Some ''u'') (ex_store \<lparr> ex_store = \<lparr> plans = [], plan_steps = [] \<rparr>, ex_retry_at = Map.empty \<rparr>) =
      (Inr ''p'', ex_store (sample_after 0))" by (simp add: sample_created_def prod_eq_iff)
  have "map sp_id (map (\<lambda>(i, step). step_of ''p'' i step) (enumerate 0 (elems (dgetN sample_plan ''steps'')))) = [''a'', ''b'']" by code_simp
  then show ?thesis using create_then_get [OF plan_reachable.start c] by fastforce
qed

text \<open>
  Two steps of two plans are submitted with different idempotency keys, so the kernel never takes one for the other.
\<close>

theorem step_keys_distinct:
  assumes "PLAN_IDENTIFIER p" "PLAN_IDENTIFIER q" "(p, i) \<noteq> (q, j)"
  shows "step_key p i \<noteq> step_key q j"
  using step_key_inject assms by blast

theorem step_keys_distinct_witness: "step_key ''p'' ''a'' \<noteq> step_key ''q'' ''a''"
  by (rule step_keys_distinct) (simp_all add: is_alnum_def)

text \<open>
  With authentication required, only a session of the plan's owner or of a developer cancels a plan: any other request
  leaves the store as it was.
\<close>

theorem cancel_needs_owner:
  assumes "ps_require_auth sv" "serve_cancel sv header pid s = (r, s')" "s' \<noteq> s"
  shows "\<exists>u developer p. ps_session sv (strip (drop 7 header)) = Inr (Some (u, developer)) \<and>
    p \<in> set (plans s) \<and> pl_id p = pid \<and> (developer \<or> pl_owner p = Some u)"
proof -
  obtain owner developer v where c: "plan_caller sv header = Inr (owner, developer)" and v: "get_plan pid owner developer s = Inr v"
    using assms(2,3) by (auto simp: serve_cancel_def ebind_def split: sum.splits)
  obtain u where u: "owner = Some u" "ps_session sv (strip (drop 7 header)) = Inr (Some (u, developer))"
    using caller_auth [OF assms(1) c] by blast
  obtain p where p: "fetchone (\<lambda>p. pl_id p = pid) (plans s) = Some p" "developer \<or> pl_owner p = Some u"
    using v u(1) by (auto simp: get_plan_def split: option.splits if_splits)
  then show ?thesis using u(2) fetchone_Some [OF p(1)] by blast
qed

theorem cancel_needs_owner_witness:
  "\<exists>u developer p. ps_session sample_service (strip (drop 7 ''Bearer x'')) = Inr (Some (u, developer)) \<and>
    p \<in> set (plans (ex_store (sample_after 1))) \<and> pl_id p = ''p'' \<and> (developer \<or> pl_owner p = Some u)"
proof -
  let ?s = "ex_store (sample_after 1)"
  have "map pl_status (plans (snd (serve_cancel sample_service ''Bearer x'' ''p'' ?s))) \<noteq> map pl_status (plans ?s)" by code_simp
  then have "snd (serve_cancel sample_service ''Bearer x'' ''p'' ?s) \<noteq> ?s" by metis
  then show ?thesis using cancel_needs_owner [of sample_service "''Bearer x''" "''p''" ?s] by (simp add: prod_eq_iff sample_service_def)
qed

text \<open>
  A cancellation is forgotten when the kernel cannot be reached: the plan waits for a retry, and what the executor
  does next no longer depends on the kernel's cancel operation.
\<close>

theorem cancel_forgotten:
  assumes "get_plan pid None False (ex_store ex) = Inr v" "pv_status v = ''cancel_requested''"
    and "pending_step (pv_steps v) = Some p" "sp_run p = Some r" "kc_cancel k r = Inl KernelUnavailable" "ex_retry_at ex pid = None"
  shows "\<exists>w. get_plan pid None False (ex_store (snd (cycle_one delay now k pid ex))) = Inr w \<and> pv_status w = ''retry_wait'' \<and>
    (\<forall>k' c. advance_plan (k'\<lparr> kc_cancel := c \<rparr>) pid (ex_store (snd (cycle_one delay now k pid ex))) =
      advance_plan k' pid (ex_store (snd (cycle_one delay now k pid ex))))"
proof -
  have "advance_plan k pid (ex_store ex) = Inl KernelUnavailable"
    using assms(1-5) by (simp add: advance_plan_def cancel_plan_def Let_def)
  then have "ex_store (snd (cycle_one delay now k pid ex)) =
      update_plan pid ''retry_wait'' (failure_report ''platform'' ''kernel_unavailable'' [] True) (ex_store ex)"
    using assms(6) by (simp add: cycle_one_def retry_wait_def)
  then show ?thesis using update_plan_status [OF assms(1), of "''retry_wait''"] advance_without_cancel by fastforce
qed

theorem cancel_forgotten_witness:
  "\<exists>w. get_plan ''p'' None False (ex_store (snd (cycle_one 0 0 down_kernel ''p''
      ((sample_after 1)\<lparr> ex_store := snd (request_cancel_plan ''p'' (ex_store (sample_after 1))) \<rparr>)))) = Inr w \<and> pv_status w = ''retry_wait''"
proof -
  let ?ex = "(sample_after 1)\<lparr> ex_store := snd (request_cancel_plan ''p'' (ex_store (sample_after 1))) \<rparr>"
  have "(case get_plan ''p'' None False (ex_store ?ex) of Inl _ \<Rightarrow> False | Inr v \<Rightarrow> pv_status v = ''cancel_requested'' \<and>
      (case pending_step (pv_steps v) of None \<Rightarrow> False | Some p \<Rightarrow> sp_run p = Some ''r'')) \<and> ex_retry_at ?ex ''p'' = None"
    by code_simp
  then obtain v p where v: "get_plan ''p'' None False (ex_store ?ex) = Inr v" "pv_status v = ''cancel_requested''"
    "pending_step (pv_steps v) = Some p" "sp_run p = Some ''r''"
    and free: "ex_retry_at ?ex ''p'' = None" by (auto split: sum.splits option.splits)
  have "kc_cancel down_kernel ''r'' = Inl KernelUnavailable" by (simp add: down_kernel_def)
  from cancel_forgotten [OF v this free, of 0 0] show ?thesis by blast
qed

end
