(* ===== verification/Identity.thy ===== *)
theory Identity
  imports Prelude PyValue
begin

text \<open>
  \<open>core/identity/src/openroad_platform_identity/auth.py\<close>: users, sessions, resource ownership and
  allowances. The tables are lists of rows; key, uniqueness and foreign-key violations raise
  \<open>IntegrityError\<close>. The clock is in microseconds; salts, tokens and identifiers drawn at random are
  arguments, and so are the password derivation (PBKDF2) \<open>derive\<close> and the token digest (SHA-256) \<open>H\<close>.
\<close>

section \<open>Tables\<close>

record user_row =
  us_id :: string
  us_name :: string
  us_salt :: string
  us_hash :: string
  us_iterations :: int
  us_role :: string
  us_created :: int

record session_row =
  ss_hash :: string
  ss_id :: string
  ss_user :: string
  ss_created :: int
  ss_expires :: int
  ss_seen :: int

record owner_row =
  ow_type :: string
  ow_resource :: string
  ow_user :: string
  ow_created :: int

record usage_row =
  fu_user :: string
  fu_feature :: string
  fu_window :: int
  fu_count :: int
  fu_updated :: int

record ident =
  users :: "user_row list"
  sessions :: "session_row list"
  owners :: "owner_row list"
  usages :: "usage_row list"

definition empty_ident :: ident where
  "empty_ident = \<lparr> users = [], sessions = [], owners = [], usages = [] \<rparr>"

record AuthSession =
  au_user_id :: string
  au_username :: string
  au_developer :: bool
  au_session_id :: string

definition public :: "AuthSession \<Rightarrow> pyval" where
  "public a = PDict
     [ (PStr ''authenticated'', PBool True),
       (PStr ''user'', PDict [ (PStr ''id'', PStr (au_user_id a)), (PStr ''username'', PStr (au_username a)),
          (PStr ''role'', PStr (if au_developer a then ''developer'' else ''member'')) ]),
       (PStr ''developer'', PBool (au_developer a)), (PStr ''session_id'', PStr (au_session_id a)) ]"

definition PBKDF2_ITERATIONS :: int where
  "PBKDF2_ITERATIONS = 310000"

text \<open>A week, in the microseconds of the clock.\<close>

definition SESSION_SECONDS :: int where
  "SESSION_SECONDS = 7 * 24 * 3600"

definition MIN_PASSWORD_LENGTH :: nat where
  "MIN_PASSWORD_LENGTH = 8"

definition MAX_PASSWORD_LENGTH :: nat where
  "MAX_PASSWORD_LENGTH = 256"

section \<open>Names and passwords\<close>

definition letter_or_digit :: "char \<Rightarrow> bool" where
  "letter_or_digit c = (let n = (of_char c :: nat) in (48 \<le> n \<and> n \<le> 57) \<or> (65 \<le> n \<and> n \<le> 90) \<or> (97 \<le> n \<and> n \<le> 122))"

text \<open>The pattern \<open>USERNAME\<close>: 3 to 32 characters, the first a letter or digit.\<close>

definition USERNAME :: "string \<Rightarrow> bool" where
  "USERNAME s = (3 \<le> length s \<and> length s \<le> 32 \<and> letter_or_digit (hd s) \<and>
     list_all (\<lambda>c. letter_or_digit c \<or> c \<in> set ''_.-'') (tl s))"

definition username :: "string \<Rightarrow> string result" where
  "username v =
     (let name = strip v in
      if \<not> USERNAME name then Inl (ValueError ''Username must be 3-32 characters'') else Inr name)"

definition password_ok :: "string \<Rightarrow> unit result" where
  "password_ok v = echeck (length v < MIN_PASSWORD_LENGTH \<or> MAX_PASSWORD_LENGTH < length v)
     (ValueError ''Password must contain 8-256 characters'')"

definition resource_type_ok :: "string \<Rightarrow> unit result" where
  "resource_type_ok v = echeck (v = [] \<or> 64 < length v) (ValueError ''invalid resource_type'')"

text \<open>SQLite's \<open>NOCASE\<close> collation folds the 26 ASCII letters.\<close>

definition fold_case :: "char \<Rightarrow> char" where
  "fold_case c = (let n = (of_char c :: nat) in if 65 \<le> n \<and> n \<le> 90 then char_of (n + 32) else c)"

definition nocase :: "string \<Rightarrow> string" where
  "nocase s = map fold_case s"

section \<open>Accounts and sessions\<close>

text \<open>\<open>INSERT INTO identity_users\<close>, with the primary key and the unique name.\<close>

definition insert_user :: "user_row \<Rightarrow> ident \<Rightarrow> unit result \<times> ident" where
  "insert_user u s =
     (if us_id u \<in> us_id ` set (users s) \<or> nocase (us_name u) \<in> (\<lambda>x. nocase (us_name x)) ` set (users s)
      then (Inl IntegrityError, s)
      else (Inr (), s\<lparr> users := users s @ [u] \<rparr>))"

definition new_session ::
  "(string \<Rightarrow> string) \<Rightarrow> int \<Rightarrow> string \<Rightarrow> string \<Rightarrow> string \<Rightarrow> string \<Rightarrow> bool \<Rightarrow> ident \<Rightarrow> (AuthSession \<times> string) result \<times> ident" where
  "new_session H now token session_id user_id name developer s =
     (if H token \<in> ss_hash ` set (sessions s) \<or> session_id \<in> ss_id ` set (sessions s) \<or> user_id \<notin> us_id ` set (users s)
      then (Inl IntegrityError, s)
      else (Inr (\<lparr> au_user_id = user_id, au_username = name, au_developer = developer, au_session_id = session_id \<rparr>, token),
            s\<lparr> sessions := sessions s @ [\<lparr> ss_hash = H token, ss_id = session_id, ss_user = user_id, ss_created = now,
                 ss_expires = now + SESSION_SECONDS * 1000000, ss_seen = now \<rparr>] \<rparr>))"

text \<open>The first transaction of \<open>register\<close>, after the checks of name and password.\<close>

definition register_user ::
  "(string \<Rightarrow> string \<Rightarrow> int \<Rightarrow> string) \<Rightarrow> int \<Rightarrow> string \<Rightarrow> string \<Rightarrow> string \<Rightarrow> string \<Rightarrow> ident \<Rightarrow> bool result \<times> ident" where
  "register_user derive now user_id salt name password s =
     (let first_user = (users s = []) in
      case insert_user \<lparr> us_id = user_id, us_name = name, us_salt = salt, us_hash = derive password salt PBKDF2_ITERATIONS,
             us_iterations = PBKDF2_ITERATIONS, us_role = (if first_user then ''developer'' else ''member''), us_created = now \<rparr> s of
        (Inl e, s1) \<Rightarrow> (Inl (ValueError ''Username is already registered''), s1)
      | (Inr _, s1) \<Rightarrow> (Inr first_user, s1))"

definition register_account ::
  "(string \<Rightarrow> string) \<Rightarrow> (string \<Rightarrow> string \<Rightarrow> int \<Rightarrow> string) \<Rightarrow> int \<Rightarrow> string \<Rightarrow> string \<Rightarrow> string \<Rightarrow> string \<Rightarrow> string \<Rightarrow> string \<Rightarrow>
   ident \<Rightarrow> (AuthSession \<times> string) result \<times> ident" where
  "register_account H derive now user_id salt token session_id name password s =
     (case ebind (username name) (\<lambda>n. ebind (password_ok password) (\<lambda>_. Inr n)) of
        Inl e \<Rightarrow> (Inl e, s)
      | Inr n \<Rightarrow>
          (case register_user derive now user_id salt n password s of
             (Inl e, s1) \<Rightarrow> (Inl e, s1)
           | (Inr first_user, s1) \<Rightarrow> new_session H now token session_id user_id n first_user s1))"

text \<open>\<open>login\<close>; the dummy derivation for an unknown name has no effect on the outcome.\<close>

definition login ::
  "(string \<Rightarrow> string) \<Rightarrow> (string \<Rightarrow> string \<Rightarrow> int \<Rightarrow> string) \<Rightarrow> int \<Rightarrow> string \<Rightarrow> string \<Rightarrow> string \<Rightarrow> string \<Rightarrow> ident \<Rightarrow>
   (AuthSession \<times> string) result \<times> ident" where
  "login H derive now token session_id name password s =
     (case username name of
        Inl e \<Rightarrow> (Inl e, s)
      | Inr n \<Rightarrow>
          (case fetchone (\<lambda>u. nocase (us_name u) = nocase n) (users s) of
             None \<Rightarrow> (Inl (ValueError ''Invalid username or password''), s)
           | Some u \<Rightarrow>
               if derive password (us_salt u) (us_iterations u) \<noteq> us_hash u
               then (Inl (ValueError ''Invalid username or password''), s)
               else new_session H now token session_id (us_id u) (us_name u) (us_role u = ''developer'') s))"

text \<open>\<open>resolve\<close>: the session of a token. An expired one is deleted, a live one is touched.\<close>

definition resolve_token ::
  "(string \<Rightarrow> string) \<Rightarrow> int \<Rightarrow> string option \<Rightarrow> ident \<Rightarrow> AuthSession option \<times> ident" where
  "resolve_token H now token s =
     (case token of
        None \<Rightarrow> (None, s)
      | Some t \<Rightarrow>
          if t = [] then (None, s)
          else (case fetchone (\<lambda>x. ss_hash x = H t \<and> ss_user x \<in> us_id ` set (users s)) (sessions s) of
            None \<Rightarrow> (None, s)
          | Some x \<Rightarrow>
              if ss_expires x \<le> now
              then (None, s\<lparr> sessions := delete_where (\<lambda>y. ss_hash y = H t) (sessions s) \<rparr>)
              else (case fetchone (\<lambda>u. us_id u = ss_user x) (users s) of
                None \<Rightarrow> (None, s)
              | Some u \<Rightarrow>
                  (Some \<lparr> au_user_id = ss_user x, au_username = us_name u, au_developer = (us_role u = ''developer''),
                     au_session_id = ss_id x \<rparr>,
                   s\<lparr> sessions := update_where (\<lambda>y. ss_hash y = H t) (\<lambda>y. y\<lparr> ss_seen := now \<rparr>) (sessions s) \<rparr>))))"

definition logout :: "(string \<Rightarrow> string) \<Rightarrow> string option \<Rightarrow> ident \<Rightarrow> ident" where
  "logout H token s =
     (case token of
        None \<Rightarrow> s
      | Some t \<Rightarrow> if t = [] then s else s\<lparr> sessions := delete_where (\<lambda>y. ss_hash y = H t) (sessions s) \<rparr>)"

text \<open>\<open>ensure_local_user\<close>: the column's collation makes the lookup insensitive to case.\<close>

definition ensure_local_user :: "int \<Rightarrow> string \<Rightarrow> ident \<Rightarrow> bool result \<times> ident" where
  "ensure_local_user now user_id s =
     (case fetchone (\<lambda>u. nocase (us_name u) = nocase ''local-user'') (users s) of
        Some _ \<Rightarrow> (Inr False, s)
      | None \<Rightarrow>
          (case insert_user \<lparr> us_id = user_id, us_name = ''local-user'', us_salt = [], us_hash = [],
                  us_iterations = PBKDF2_ITERATIONS, us_role = ''developer'', us_created = now \<rparr> s of
             (Inl e, s1) \<Rightarrow> (Inl e, s1) | (Inr _, s1) \<Rightarrow> (Inr True, s1)))"

definition has_user :: "string \<Rightarrow> ident \<Rightarrow> bool" where
  "has_user user_id s = (fetchone (\<lambda>u. us_id u = user_id) (users s) \<noteq> None)"

definition list_users :: "ident \<Rightarrow> (string \<times> string \<times> string \<times> int) list" where
  "list_users s = map (\<lambda>u. (us_id u, us_name u, us_role u, us_created u)) (sort_key us_created (users s))"

text \<open>
  \<open>build_kernel\<close> of the gateway (\<open>bootstrap.py\<close>) takes the listed user of that name as the identity of requests
  without a session, comparing exactly; \<open>None\<close> stands for the \<open>StopIteration\<close> of \<open>next\<close>.
\<close>

definition anonymous_user :: "ident \<Rightarrow> string option" where
  "anonymous_user s = map_option fst (fetchone (\<lambda>u. fst (snd u) = ''local-user'') (list_users s))"

section \<open>Ownership\<close>

definition bind_resource :: "int \<Rightarrow> string \<Rightarrow> string \<Rightarrow> string \<Rightarrow> ident \<Rightarrow> unit result \<times> ident" where
  "bind_resource now rtype rid user_id s =
     (case ebind (resource_type_ok rtype) (\<lambda>_. echeck (rid = []) (ValueError ''resource_id is required'')) of
        Inl e \<Rightarrow> (Inl e, s)
      | Inr _ \<Rightarrow>
          (case fetchone (\<lambda>o'. ow_type o' = rtype \<and> ow_resource o' = rid) (owners s) of
             Some o' \<Rightarrow>
               (if ow_user o' \<noteq> user_id then Inl (ValueError ''already owned by another user'') else Inr (), s)
           | None \<Rightarrow>
               if user_id \<notin> us_id ` set (users s) then (Inl IntegrityError, s)
               else (Inr (), s\<lparr> owners := owners s @
                 [\<lparr> ow_type = rtype, ow_resource = rid, ow_user = user_id, ow_created = now \<rparr>] \<rparr>)))"

definition owner_of :: "string \<Rightarrow> string \<Rightarrow> ident \<Rightarrow> string option" where
  "owner_of rtype rid s =
     map_option ow_user (fetchone (\<lambda>o'. ow_type o' = rtype \<and> ow_resource o' = rid) (owners s))"

definition owns_resource :: "string \<Rightarrow> string \<Rightarrow> string \<Rightarrow> bool \<Rightarrow> ident \<Rightarrow> bool" where
  "owns_resource rtype rid user_id developer_all s =
     (case owner_of rtype rid s of
        None \<Rightarrow> True
      | Some owner \<Rightarrow>
          if owner = user_id then True
          else if \<not> developer_all then False
          else (case fetchone (\<lambda>u. us_id u = user_id) (users s) of None \<Rightarrow> False | Some u \<Rightarrow> us_role u = ''developer''))"

definition resources_owned :: "string \<Rightarrow> string \<Rightarrow> ident \<Rightarrow> string list" where
  "resources_owned rtype user_id s =
     map ow_resource (filter (\<lambda>o'. ow_type o' = rtype \<and> ow_user o' = user_id) (owners s))"

section \<open>Allowances\<close>

definition usage_of :: "string \<Rightarrow> string \<Rightarrow> int \<Rightarrow> ident \<Rightarrow> int" where
  "usage_of user_id feature window s =
     (case fetchone (\<lambda>r. fu_user r = user_id \<and> fu_feature r = feature \<and> fu_window r = window) (usages s) of
        None \<Rightarrow> 0 | Some r \<Rightarrow> fu_count r)"

definition window_of :: "int \<Rightarrow> int \<Rightarrow> int" where
  "window_of now window_seconds = now div (window_seconds * 1000000)"

text \<open>The upsert: a new row with count 1, or the row's count plus 1.\<close>

definition upsert_usage :: "string \<Rightarrow> string \<Rightarrow> int \<Rightarrow> int \<Rightarrow> ident \<Rightarrow> unit result \<times> ident" where
  "upsert_usage user_id feature window now s =
     (let here = (\<lambda>r. fu_user r = user_id \<and> fu_feature r = feature \<and> fu_window r = window) in
      if user_id \<notin> us_id ` set (users s) then (Inl IntegrityError, s)
      else if list_ex here (usages s)
      then (Inr (), s\<lparr> usages := update_where here (\<lambda>r. r\<lparr> fu_count := fu_count r + 1, fu_updated := now \<rparr>) (usages s) \<rparr>)
      else (Inr (), s\<lparr> usages := usages s @
        [\<lparr> fu_user = user_id, fu_feature = feature, fu_window = window, fu_count = 1, fu_updated = now \<rparr>] \<rparr>))"

definition consume_allowance ::
  "int \<Rightarrow> string \<Rightarrow> string \<Rightarrow> int \<Rightarrow> int \<Rightarrow> ident \<Rightarrow> (bool \<times> int) result \<times> ident" where
  "consume_allowance now user_id feature limit window_seconds s =
     (if limit < 1 \<or> window_seconds < 60 then (Inl (ValueError ''invalid feature allowance''), s)
      else
        let window = window_of now window_seconds; used = usage_of user_id feature window s in
        if used \<ge> limit then (Inr (False, 0), s)
        else (case upsert_usage user_id feature window now s of
          (Inl e, s1) \<Rightarrow> (Inl e, s1) | (Inr _, s1) \<Rightarrow> (Inr (True, limit - used - 1), s1)))"

section \<open>Histories\<close>

text \<open>
  The transactions of the store, in any order, by any number of threads; \<open>register_account\<close> is two of
  them. A label tells the grants of an allowance and the tokens that are withdrawn.
\<close>

datatype label = Granted string string int int | Dropped string | Silent

inductive identity_step ::
  "(string \<Rightarrow> string) \<Rightarrow> (string \<Rightarrow> string \<Rightarrow> int \<Rightarrow> string) \<Rightarrow> ident \<Rightarrow> label \<Rightarrow> ident \<Rightarrow> bool" for H derive where
  registered: "register_user derive now user_id salt name password s = (r, s') \<Longrightarrow> identity_step H derive s Silent s'"
| opened: "new_session H now token session_id user_id name developer s = (r, s') \<Longrightarrow> identity_step H derive s Silent s'"
| resolved: "resolve_token H now (Some token) s = (a, s') \<Longrightarrow>
    identity_step H derive s (if a = None then Dropped (H token) else Silent) s'"
| logged_out: "identity_step H derive s (Dropped (H token)) (logout H (Some token) s)"
| local: "ensure_local_user now user_id s = (r, s') \<Longrightarrow> identity_step H derive s Silent s'"
| bound: "bind_resource now rtype rid user_id s = (r, s') \<Longrightarrow> identity_step H derive s Silent s'"
| granted: "consume_allowance now user_id feature limit window_seconds s = (Inr (True, left), s') \<Longrightarrow>
    identity_step H derive s (Granted user_id feature (window_of now window_seconds) limit) s'"
| refused: "consume_allowance now user_id feature limit window_seconds s = (Inr (False, left), s') \<Longrightarrow>
    identity_step H derive s Silent s'"
| failed: "consume_allowance now user_id feature limit window_seconds s = (Inl e, s') \<Longrightarrow>
    identity_step H derive s Silent s'"

inductive history ::
  "(string \<Rightarrow> string) \<Rightarrow> (string \<Rightarrow> string \<Rightarrow> int \<Rightarrow> string) \<Rightarrow> label list \<Rightarrow> ident \<Rightarrow> bool" for H derive where
  start: "history H derive [] empty_ident"
| go_on: "history H derive ls s \<Longrightarrow> identity_step H derive s l s' \<Longrightarrow> history H derive (ls @ [l]) s'"

inductive steps ::
  "(string \<Rightarrow> string) \<Rightarrow> (string \<Rightarrow> string \<Rightarrow> int \<Rightarrow> string) \<Rightarrow> ident \<Rightarrow> label list \<Rightarrow> ident \<Rightarrow> bool" for H derive where
  none: "steps H derive s [] s"
| more: "steps H derive s ls s' \<Longrightarrow> identity_step H derive s' l s'' \<Longrightarrow> steps H derive s (ls @ [l]) s''"

text \<open>How each transaction changes the tables.\<close>

lemma insert_user_effect:
  assumes "insert_user u s = (r, s')"
  shows "(s' = s \<and> (\<exists>e. r = Inl e)) \<or>
    (s' = s\<lparr> users := users s @ [u] \<rparr> \<and> r = Inr () \<and> us_id u \<notin> us_id ` set (users s) \<and>
     nocase (us_name u) \<notin> (\<lambda>x. nocase (us_name x)) ` set (users s))"
  using assms by (auto simp: insert_user_def split: if_splits)

text \<open>Every transaction does one of a few things to the tables.\<close>

datatype change = Add_User user_row | Add_Session session_row | Drop_Session string | Touch string int
  | Add_Owner owner_row | Use string string int int | Keep

fun apply_change :: "change \<Rightarrow> ident \<Rightarrow> ident" where
  "apply_change (Add_User u) s = s\<lparr> users := users s @ [u] \<rparr>"
| "apply_change (Add_Session x) s = s\<lparr> sessions := sessions s @ [x] \<rparr>"
| "apply_change (Drop_Session h) s = s\<lparr> sessions := delete_where (\<lambda>y. ss_hash y = h) (sessions s) \<rparr>"
| "apply_change (Touch h now) s =
     s\<lparr> sessions := update_where (\<lambda>y. ss_hash y = h) (\<lambda>y. y\<lparr> ss_seen := now \<rparr>) (sessions s) \<rparr>"
| "apply_change (Add_Owner x) s = s\<lparr> owners := owners s @ [x] \<rparr>"
| "apply_change (Use u f w now) s = snd (upsert_usage u f w now s)"
| "apply_change Keep s = s"

text \<open>The conditions under which the source makes the change.\<close>

fun allowed_change :: "change \<Rightarrow> label \<Rightarrow> ident \<Rightarrow> bool" where
  "allowed_change (Add_User u) l s = (l = Silent \<and> us_id u \<notin> us_id ` set (users s) \<and>
     nocase (us_name u) \<notin> (\<lambda>x. nocase (us_name x)) ` set (users s) \<and> (users s = [] \<longrightarrow> us_role u = ''developer''))"
| "allowed_change (Add_Session x) l s = (l = Silent \<and> ss_hash x \<notin> ss_hash ` set (sessions s) \<and>
     ss_id x \<notin> ss_id ` set (sessions s) \<and> ss_user x \<in> us_id ` set (users s))"
| "allowed_change (Drop_Session h) l s = (l = Dropped h)"
| "allowed_change (Touch h now) l s = (l = Silent)"
| "allowed_change (Add_Owner x) l s = (l = Silent \<and> ow_user x \<in> us_id ` set (users s) \<and>
     (\<forall>y \<in> set (owners s). \<not> (ow_type y = ow_type x \<and> ow_resource y = ow_resource x)))"
| "allowed_change (Use u f w now) l s = (u \<in> us_id ` set (users s) \<and> (\<exists>lim'. l = Granted u f w lim' \<and> usage_of u f w s < lim'))"
| "allowed_change Keep l s = (\<forall>u f w lim'. l \<noteq> Granted u f w lim')"

lemma keep_change: "\<exists>c. s = apply_change c s \<and> allowed_change c Silent s"
  by (rule exI [of _ Keep]) simp

lemma insert_user_change:
  assumes "insert_user u s = (r, s')" "us_role u = ''developer'' \<or> users s \<noteq> []"
  shows "\<exists>c. s' = apply_change c s \<and> allowed_change c Silent s"
  using insert_user_effect [OF assms(1)]
proof
  assume "s' = s \<and> (\<exists>e. r = Inl e)"
  then show ?thesis using keep_change by simp
next
  assume "s' = s\<lparr> users := users s @ [u] \<rparr> \<and> r = Inr () \<and> us_id u \<notin> us_id ` set (users s) \<and>
     nocase (us_name u) \<notin> (\<lambda>x. nocase (us_name x)) ` set (users s)"
  then show ?thesis using assms(2) by (intro exI [of _ "Add_User u"]) auto
qed

lemma identity_step_change:
  assumes "identity_step H derive s l s'"
  shows "\<exists>c. s' = apply_change c s \<and> allowed_change c l s"
  using assms
proof cases
  case (registered now user_id salt name password r)
  let ?u = "\<lparr> us_id = user_id, us_name = name, us_salt = salt, us_hash = derive password salt PBKDF2_ITERATIONS,
     us_iterations = PBKDF2_ITERATIONS, us_role = (if users s = [] then ''developer'' else ''member''), us_created = now \<rparr>"
  obtain r1 where "insert_user ?u s = (r1, s')"
    using registered by (auto simp: register_user_def Let_def split: prod.splits sum.splits)
  then show ?thesis using registered(1) insert_user_change [of ?u s r1 s'] by simp
next
  case (opened now token session_id user_id name developer r)
  then show ?thesis
    by (auto simp: new_session_def intro: exI [of _ Keep] exI [of _ "Add_Session _"] split: if_splits)
next
  case (resolved now token a)
  then show ?thesis
    by (auto simp: resolve_token_def intro: exI [of _ Keep] exI [of _ "Drop_Session _"] exI [of _ "Touch _ _"]
        split: if_splits option.splits)
next
  case (logged_out token)
  then show ?thesis
    by (auto simp: logout_def intro: exI [of _ Keep] exI [of _ "Drop_Session (H token)"])
next
  case (local now user_id r)
  let ?u = "\<lparr> us_id = user_id, us_name = ''local-user'', us_salt = [], us_hash = [],
     us_iterations = PBKDF2_ITERATIONS, us_role = ''developer'', us_created = now \<rparr>"
  have "s' = s \<or> (\<exists>r1. insert_user ?u s = (r1, s'))"
    using local by (auto simp: ensure_local_user_def split: prod.splits sum.splits option.splits)
  then show ?thesis using local(1) keep_change insert_user_change [of ?u s _ s'] by auto
next
  case (bound now rtype rid user_id r)
  then show ?thesis
    by (auto simp: bind_resource_def tables intro: exI [of _ Keep] exI [of _ "Add_Owner _"] split: if_splits option.splits sum.splits)
next
  case (granted now user_id feature limit window_seconds left)
  then show ?thesis
    by (auto simp: consume_allowance_def upsert_usage_def Let_def intro!: exI [of _ "Use user_id feature (window_of now window_seconds) now"]
        split: if_splits sum.splits prod.splits)
next
  case (refused now user_id feature limit window_seconds left)
  then show ?thesis
    by (auto simp: consume_allowance_def Let_def intro: exI [of _ Keep] split: if_splits sum.splits prod.splits)
next
  case (failed now user_id feature limit window_seconds e)
  then show ?thesis
    by (auto simp: consume_allowance_def upsert_usage_def Let_def intro: exI [of _ Keep] split: if_splits sum.splits prod.splits)
qed

section \<open>The invariant\<close>

definition usage_key :: "usage_row \<Rightarrow> string \<times> string \<times> int" where
  "usage_key r = (fu_user r, fu_feature r, fu_window r)"

definition owner_key :: "owner_row \<Rightarrow> string \<times> string" where
  "owner_key o' = (ow_type o', ow_resource o')"

definition identity_wf :: "ident \<Rightarrow> bool" where
  "identity_wf s \<longleftrightarrow>
     distinct (map us_id (users s)) \<and> distinct (map (\<lambda>u. nocase (us_name u)) (users s)) \<and>
     (users s \<noteq> [] \<longrightarrow> us_role (hd (users s)) = ''developer'') \<and>
     distinct (map ss_hash (sessions s)) \<and> distinct (map ss_id (sessions s)) \<and>
     ss_user ` set (sessions s) \<subseteq> us_id ` set (users s) \<and>
     distinct (map owner_key (owners s)) \<and> ow_user ` set (owners s) \<subseteq> us_id ` set (users s) \<and>
     distinct (map usage_key (usages s)) \<and> fu_user ` set (usages s) \<subseteq> us_id ` set (users s)"

lemma upsert_usage_wf:
  assumes "identity_wf s" "u \<in> us_id ` set (users s)"
  shows "identity_wf (snd (upsert_usage u f w now s))"
proof (cases "list_ex (\<lambda>r. fu_user r = u \<and> fu_feature r = f \<and> fu_window r = w) (usages s)")
  case True
  have "map usage_key (update_where P (\<lambda>r. r\<lparr> fu_count := fu_count r + 1, fu_updated := now \<rparr>) rows) = map usage_key rows" for P rows
    by (rule map_update_where) (simp add: usage_key_def)
  then show ?thesis
    using assms True by (auto simp: upsert_usage_def identity_wf_def tables)
next
  case False
  then have "(u, f, w) \<notin> usage_key ` set (usages s)" by (auto simp: usage_key_def list_ex_iff)
  then show ?thesis using assms False by (auto simp: upsert_usage_def identity_wf_def usage_key_def)
qed

lemma apply_change_wf:
  assumes "identity_wf s" "allowed_change c l s"
  shows "identity_wf (apply_change c s)"
proof (cases c)
  case (Add_User u)
  then show ?thesis using assms by (cases "users s") (auto simp: identity_wf_def)
next
  case (Drop_Session h)
  then show ?thesis using assms distinct_map_delete_where by (auto simp: identity_wf_def tables)
next
  case (Touch h now)
  have "map k (update_where P (\<lambda>y. y\<lparr> ss_seen := now \<rparr>) rows) = map k rows" if "k = ss_hash \<or> k = ss_id" for k P rows
    using that by (intro map_update_where) auto
  then show ?thesis using assms Touch by (auto simp: identity_wf_def tables)
next
  case (Add_Owner x)
  then show ?thesis using assms by (auto simp: identity_wf_def owner_key_def)
next
  case (Use u f w now)
  then show ?thesis using assms upsert_usage_wf by simp
qed (use assms in \<open>auto simp: identity_wf_def\<close>)

lemma history_wf: "history H derive ls s \<Longrightarrow> identity_wf s"
proof (induction rule: history.induct)
  case start
  then show ?case by (simp add: identity_wf_def empty_ident_def)
next
  case (go_on ls s l s')
  then show ?case using identity_step_change [OF go_on(2)] apply_change_wf by auto
qed

section \<open>Allowances\<close>

definition grants :: "string \<Rightarrow> string \<Rightarrow> int \<Rightarrow> label list \<Rightarrow> int list" where
  "grants u f w ls = List.map_filter
     (\<lambda>l. case l of Granted u' f' w' k \<Rightarrow> if (u', f', w') = (u, f, w) then Some k else None | _ \<Rightarrow> None) ls"

lemma grants_simps [simp]:
  "grants u f w [] = []"
  "grants u f w (ls @ [l]) = grants u f w ls @ (case l of Granted u' f' w' k \<Rightarrow> if (u', f', w') = (u, f, w) then [k] else [] | _ \<Rightarrow> [])"
  by (auto simp: grants_def List.map_filter_def split: label.splits)

lemma usage_of_upsert:
  assumes "u \<in> us_id ` set (users s)"
  shows "usage_of u' f' w' (snd (upsert_usage u f w now s)) =
    usage_of u' f' w' s + (if (u', f', w') = (u, f, w) then 1 else 0)"
proof (cases "list_ex (\<lambda>r. fu_user r = u \<and> fu_feature r = f \<and> fu_window r = w) (usages s)")
  case True
  let ?P = "\<lambda>r. fu_user r = u \<and> fu_feature r = f \<and> fu_window r = w"
  let ?Q = "\<lambda>r. fu_user r = u' \<and> fu_feature r = f' \<and> fu_window r = w'"
  have look: "fetchone ?Q (update_where ?P (\<lambda>r. r\<lparr> fu_count := fu_count r + 1, fu_updated := now \<rparr>) (usages s)) =
      map_option (\<lambda>r. if ?P r then r\<lparr> fu_count := fu_count r + 1, fu_updated := now \<rparr> else r) (fetchone ?Q (usages s))"
    by (rule fetchone_update_where) simp
  have some: "fetchone ?Q (usages s) \<noteq> None" if "(u', f', w') = (u, f, w)"
    using True that by (auto simp: list_ex_iff fetchone_None)
  show ?thesis
    using True assms look some
    by (auto simp: upsert_usage_def usage_of_def dest: fetchone_Some split: option.splits)
next
  case False
  then have "fetchone (\<lambda>r. fu_user r = u \<and> fu_feature r = f \<and> fu_window r = w) (usages s) = None"
    by (auto simp: fetchone_None list_ex_iff)
  then show ?thesis
    using False assms by (auto simp: upsert_usage_def usage_of_def fetchone_append split: option.splits)
qed

lemma usage_of_other: "usages s' = usages s \<Longrightarrow> usage_of u f w s' = usage_of u f w s"
  by (simp add: usage_of_def)

lemma history_usage:
  "history H derive ls s \<Longrightarrow> usage_of u f w s = int (length (grants u f w ls)) \<and>
     (\<forall>m. (\<forall>k \<in> set (grants u f w ls). k \<le> m) \<longrightarrow> grants u f w ls = [] \<or> int (length (grants u f w ls)) \<le> m)"
proof (induction rule: history.induct)
  case start
  then show ?case by (simp add: usage_of_def empty_ident_def)
next
  case (go_on ls s l s')
  obtain c where c: "s' = apply_change c s" "allowed_change c l s" using identity_step_change [OF go_on(2)] by blast
  show ?case
  proof (cases c)
    case (Use u' f' w' now)
    then obtain k where k: "l = Granted u' f' w' k" "usage_of u' f' w' s < k" "u' \<in> us_id ` set (users s)" using c(2) by auto
    show ?thesis
    proof (cases "(u', f', w') = (u, f, w)")
      case True
      then show ?thesis using go_on(3) k Use c(1) usage_of_upsert [OF k(3), of u f w f' w' now] by auto
    next
      case False
      then show ?thesis using go_on(3) k(1) Use c(1) usage_of_upsert [OF k(3), of u f w f' w' now] by auto
    qed
  qed (use go_on(3) c in \<open>auto simp: usage_of_def split: label.splits\<close>)
qed

section \<open>What later transactions keep\<close>

lemma step_keeps_users:
  assumes "identity_step H derive s l s'" "fetchone P (users s) = Some u"
  shows "fetchone P (users s') = Some u"
proof -
  obtain c where c: "s' = apply_change c s" "allowed_change c l s" using identity_step_change [OF assms(1)] by blast
  have "\<exists>more. users s' = users s @ more" unfolding c(1) by (cases c) (auto simp: upsert_usage_def Let_def)
  then show ?thesis using assms(2) by (auto simp: fetchone_append)
qed

lemma step_keeps_owner:
  assumes "identity_step H derive s l s'" "owner_of rtype rid s = Some u"
  shows "owner_of rtype rid s' = Some u"
proof -
  obtain c where c: "s' = apply_change c s" "allowed_change c l s" using identity_step_change [OF assms(1)] by blast
  have "\<exists>more. owners s' = owners s @ more" unfolding c(1) by (cases c) (auto simp: upsert_usage_def Let_def)
  then show ?thesis using assms(2) by (auto simp: owner_of_def fetchone_append)
qed

lemma step_keeps_session:
  assumes "identity_step H derive s l s'" "fetchone (\<lambda>x. ss_hash x = h) (sessions s) = Some x" "l \<noteq> Dropped h"
  shows "\<exists>seen. fetchone (\<lambda>x. ss_hash x = h) (sessions s') = Some (x\<lparr> ss_seen := seen \<rparr>)"
proof -
  obtain c where c: "s' = apply_change c s" "allowed_change c l s" using identity_step_change [OF assms(1)] by blast
  have same: "\<exists>seen. Some x = Some (x\<lparr> ss_seen := seen \<rparr>)" by (intro exI [of _ "ss_seen x"]) simp
  show ?thesis
  proof (cases c)
    case (Touch h' now)
    then show ?thesis using c(1) assms(2) same by (auto simp: fetchone_update_where)
  next
    case (Drop_Session h')
    then have "h' \<noteq> h" using c(2) assms(3) by auto
    then have "fetchone (\<lambda>x. ss_hash x = h) (delete_where (\<lambda>y. ss_hash y = h') rows) = fetchone (\<lambda>x. ss_hash x = h) rows" for rows :: "session_row list"
      by (induction rows) (auto simp: delete_where_def)
    then show ?thesis using c(1) Drop_Session assms(2) same by simp
  qed (use c(1) assms(2) same in \<open>auto simp: fetchone_append upsert_usage_def Let_def\<close>)
qed

lemma steps_keep:
  assumes "steps H derive s ls s'"
  shows "fetchone P (users s) = Some u \<Longrightarrow> fetchone P (users s') = Some u"
    and "owner_of rtype rid s = Some v \<Longrightarrow> owner_of rtype rid s' = Some v"
    and "fetchone (\<lambda>x. ss_hash x = h) (sessions s) = Some x \<Longrightarrow> Dropped h \<notin> set ls \<Longrightarrow>
      \<exists>seen. fetchone (\<lambda>x. ss_hash x = h) (sessions s') = Some (x\<lparr> ss_seen := seen \<rparr>)"
  using assms
proof (induction rule: steps.induct)
  case (none s)
  { case 1 then show ?case . next case 2 then show ?case .
    next case 3 then show ?case by (intro exI [of _ "ss_seen x"]) simp }
next
  case (more s ls s' l s'')
  { case 1 then show ?case using more step_keeps_users by blast
    next case 2 then show ?case using more step_keeps_owner by blast
    next case 3
    then obtain seen where seen: "fetchone (\<lambda>x. ss_hash x = h) (sessions s') = Some (x\<lparr> ss_seen := seen \<rparr>)" "l \<noteq> Dropped h"
      using more.IH(3) by auto
    show ?case using step_keeps_session [OF more.hyps(2) seen] by auto }
qed

lemma steps_history: "steps H derive s ls s' \<Longrightarrow> history H derive ks s \<Longrightarrow> history H derive (ks @ ls) s'"
  by (induction rule: steps.induct) (auto simp flip: append_assoc intro: history.intros)

text \<open>Finding a row by its key or among the rows that satisfy the foreign key is the same.\<close>

lemma resolve_token_found:
  assumes "identity_wf s" "fetchone (\<lambda>x. ss_hash x = H t) (sessions s) = Some x" "fetchone (\<lambda>u. us_id u = ss_user x) (users s) = Some u"
    and "t \<noteq> []"
  shows "fst (resolve_token H now (Some t) s) = (if ss_expires x \<le> now then None else
    Some \<lparr> au_user_id = ss_user x, au_username = us_name u, au_developer = (us_role u = ''developer''), au_session_id = ss_id x \<rparr>)"
proof -
  have x: "x \<in> set (sessions s)" "ss_hash x = H t" using fetchone_Some [OF assms(2)] by simp_all
  have "fetchone (\<lambda>x. ss_hash x = H t \<and> ss_user x \<in> us_id ` set (users s)) (sessions s) = Some x"
    using assms(1,2) by (auto simp: identity_wf_def fetchone_def find_Some_iff) (metis image_subset_iff nth_mem)
  then show ?thesis using assms(3,4) by (simp add: resolve_token_def)
qed

lemma resolve_token_logged_out:
  "t \<noteq> [] \<Longrightarrow> fst (resolve_token H now (Some t) (logout H (Some t) s)) = None"
proof -
  assume "t \<noteq> []"
  have "fetchone (\<lambda>x. ss_hash x = H t \<and> Q x) (delete_where (\<lambda>y. ss_hash y = H t) rows) = None" for Q and rows :: "session_row list"
    by (auto simp: fetchone_None tables)
  then show ?thesis using \<open>t \<noteq> []\<close> by (simp add: resolve_token_def logout_def)
qed

lemma history_register_user:
  "history H derive ks s \<Longrightarrow> register_user derive now user_id salt name password s = (r, s') \<Longrightarrow> history H derive (ks @ [Silent]) s'"
  by (rule history.go_on [OF _ identity_step.registered])

lemma history_new_session:
  "history H derive ks s \<Longrightarrow> new_session H now token session_id user_id name developer s = (r, s') \<Longrightarrow>
     history H derive (ks @ [Silent]) s'"
  by (rule history.go_on [OF _ identity_step.opened])

lemma new_session_Inr:
  assumes "new_session H now token session_id user_id name developer s = (Inr (a, t), s')"
  shows "t = token" "users s' = users s" "user_id \<in> us_id ` set (users s)" "au_user_id a = user_id"
    "fetchone (\<lambda>x. ss_hash x = H token) (sessions s') = Some \<lparr> ss_hash = H token, ss_id = session_id, ss_user = user_id,
       ss_created = now, ss_expires = now + SESSION_SECONDS * 1000000, ss_seen = now \<rparr>"
proof -
  have n: "H token \<notin> ss_hash ` set (sessions s)" using assms by (auto simp: new_session_def split: if_splits)
  have "fetchone (\<lambda>x. ss_hash x = H token) (sessions s) = None" using n by (auto simp: fetchone_None rev_image_eqI)
  then show "fetchone (\<lambda>x. ss_hash x = H token) (sessions s') = Some \<lparr> ss_hash = H token, ss_id = session_id, ss_user = user_id,
       ss_created = now, ss_expires = now + SESSION_SECONDS * 1000000, ss_seen = now \<rparr>"
    using assms by (auto simp: new_session_def fetchone_append split: if_splits)
qed (use assms in \<open>auto simp: new_session_def split: if_splits\<close>)

section \<open>Properties\<close>

text \<open>C36: The tables stay consistent: in every reachable state user identifiers, names (up to case), token digests, session
  identifiers, owned resources and usage windows are unique, every session, owner and usage row belongs to a
  user that exists, and the first account is a developer.\<close>

theorem identity_tables_consistent:
  assumes "history H derive ls s"
  shows "distinct (map us_id (users s)) \<and> distinct (map (\<lambda>u. nocase (us_name u)) (users s)) \<and>
    (users s = [] \<or> us_role (hd (users s)) = ''developer'') \<and> distinct (map ss_hash (sessions s)) \<and>
    distinct (map ss_id (sessions s)) \<and> ss_user ` set (sessions s) \<subseteq> us_id ` set (users s) \<and>
    distinct (map (\<lambda>x. (ow_type x, ow_resource x)) (owners s)) \<and> ow_user ` set (owners s) \<subseteq> us_id ` set (users s) \<and>
    distinct (map (\<lambda>r. (fu_user r, fu_feature r, fu_window r)) (usages s)) \<and> fu_user ` set (usages s) \<subseteq> us_id ` set (users s)"
  using history_wf [OF assms] unfolding identity_wf_def owner_key_def [abs_def] usage_key_def [abs_def] by blast

text \<open>An allowance is never overdrawn: whatever transactions run, in whatever order, a user is granted a feature
  within one window at most as often as the limit says, when all callers use limits up to it.\<close>

theorem allowance_never_overdrawn:
  assumes "history H derive ls s" and "list_all (\<lambda>k. k \<le> limit) (grants u f w ls)"
  shows "int (length (grants u f w ls)) \<le> max 0 limit \<and> usage_of u f w s = int (length (grants u f w ls))"
proof -
  note usage = history_usage [OF assms(1), of u f w]
  have "grants u f w ls = [] \<or> int (length (grants u f w ls)) \<le> limit"
    using conjunct2 [OF usage] assms(2) by (simp add: list_all_iff)
  then show ?thesis using conjunct1 [OF usage] by auto
qed

text \<open>C37: Ownership is permanent: once a resource has an owner, no sequence of transactions gives it another one, and
  binding it to another user is refused.\<close>

theorem ownership_is_permanent:
  assumes "steps H derive s ls s'" "owner_of rtype rid s = Some u"
  shows "owner_of rtype rid s' = Some u \<and>
    (v = u \<or> fst (bind_resource now rtype rid v s') \<noteq> Inr () \<and> snd (bind_resource now rtype rid v s') = s')"
proof -
  have o: "owner_of rtype rid s' = Some u" by (rule steps_keep(2) [OF assms])
  then obtain x where "fetchone (\<lambda>o'. ow_type o' = rtype \<and> ow_resource o' = rid) (owners s') = Some x" "ow_user x = u"
    by (auto simp: owner_of_def)
  then show ?thesis using o by (auto simp: bind_resource_def split: sum.splits)
qed

text \<open>A session lives exactly as long as it should: the token of a new session resolves to its user, whatever
  other transactions run, as long as the token is not withdrawn and a week has not passed, and to nothing
  afterwards; after a logout it resolves to nothing.\<close>

theorem session_lifetime:
  assumes "history H derive ks s" "new_session H now token session_id user_id name developer s = (Inr (a, t), s1)"
    and "steps H derive s1 ls s2" "Dropped (H token) \<notin> set ls" "token \<noteq> []"
  shows "t = token \<and>
    map_option (\<lambda>x. (au_user_id x, au_session_id x)) (fst (resolve_token H later (Some t) s2)) =
      (if later < now + 604800 * 1000000 then Some (user_id, session_id) else None) \<and>
    fst (resolve_token H later (Some t) (logout H (Some t) s2)) = None"
proof -
  note new = new_session_Inr [OF assms(2)]
  obtain seen where x: "fetchone (\<lambda>x. ss_hash x = H token) (sessions s2) =
      Some \<lparr> ss_hash = H token, ss_id = session_id, ss_user = user_id, ss_created = now,
        ss_expires = now + SESSION_SECONDS * 1000000, ss_seen = seen \<rparr>"
    using steps_keep(3) [OF assms(3) new(5) assms(4)] by auto
  have "\<exists>u. fetchone (\<lambda>u. us_id u = user_id) (users s1) = Some u"
    using new(2,3) by (auto intro: fetchone_ex)
  then obtain u where u: "fetchone (\<lambda>u. us_id u = user_id) (users s2) = Some u" using steps_keep(1) [OF assms(3)] by blast
  have wf: "identity_wf s2"
    by (rule history_wf [OF steps_history [OF assms(3) history_new_session [OF assms(1,2)]]])
  show ?thesis
    using resolve_token_found [where H = H and t = token and u = u and now = later, OF wf x _ assms(5)] u new(1) resolve_token_logged_out [OF assms(5)]
    by (simp add: SESSION_SECONDS_def)
qed

text \<open>Registering and logging in fit together: after an account is registered and whatever transactions follow, a
  login under the same name, in any case, with a fresh token succeeds exactly for passwords whose derivation agrees
  with that of the registered one, and gives a session of that account.\<close>

theorem login_after_register:
  assumes "history H derive ks s"
    and "register_account H derive now user_id salt token session_id name password s = (Inr (a, t), s1)"
    and "steps H derive s1 ls s2"
    and "username name = Inr n" "username name' = Inr n'" "nocase n' = nocase n"
    and "H token' \<notin> ss_hash ` set (sessions s2)" "session_id' \<notin> ss_id ` set (sessions s2)"
  shows "case login H derive later token' session_id' name' password' s2 of
      (Inl e, s3) \<Rightarrow> derive password' salt PBKDF2_ITERATIONS \<noteq> derive password salt PBKDF2_ITERATIONS \<and> s3 = s2
    | (Inr (b, t'), s3) \<Rightarrow> derive password' salt PBKDF2_ITERATIONS = derive password salt PBKDF2_ITERATIONS \<and>
        au_user_id b = user_id \<and> au_username b = n \<and> t' = token'"
proof -
  let ?u = "\<lparr> us_id = user_id, us_name = n, us_salt = salt, us_hash = derive password salt PBKDF2_ITERATIONS,
     us_iterations = PBKDF2_ITERATIONS, us_role = (if users s = [] then ''developer'' else ''member''), us_created = now \<rparr>"
  obtain b s0 where reg: "register_user derive now user_id salt n password s = (Inr b, s0)"
    "new_session H now token session_id user_id n b s0 = (Inr (a, t), s1)"
    using assms(2,4) by (auto simp: register_account_def ebind_Inr_iff split: sum.splits prod.splits)
  then have u0: "users s0 = users s @ [?u]" "nocase n \<notin> (\<lambda>x. nocase (us_name x)) ` set (users s)"
    by (auto simp: register_user_def insert_user_def Let_def split: if_splits)
  then have "fetchone (\<lambda>u. nocase (us_name u) = nocase n) (users s1) = Some ?u"
    using new_session_Inr(2) [OF reg(2)]
    by (auto simp: fetchone_append fetchone_None rev_image_eqI split: option.splits dest!: fetchone_Some)
  then have u: "fetchone (\<lambda>u. nocase (us_name u) = nocase n) (users s2) = Some ?u" by (rule steps_keep(1) [OF assms(3)])
  then have "?u \<in> set (users s2)" using fetchone_Some by fastforce
  then have "user_id \<in> us_id ` set (users s2)" by (force intro: image_eqI)
  then show ?thesis using u assms(5,6,7,8) by (simp add: login_def new_session_def)
qed

text \<open>Nobody can log in as the local user, as long as no derivation is empty.\<close>

lemma local_user_has_no_password:
  assumes "ensure_local_user now user_id s = (Inr True, s1)" "steps H derive s1 ls s2" "username name = Inr n"
    and "nocase n = nocase ''local-user''" "\<And>p x i. derive p x i \<noteq> []"
  shows "login H derive later token session_id name password s2 = (Inl (ValueError ''Invalid username or password''), s2)"
proof -
  let ?u = "\<lparr> us_id = user_id, us_name = ''local-user'', us_salt = [], us_hash = [],
     us_iterations = PBKDF2_ITERATIONS, us_role = ''developer'', us_created = now \<rparr>"
  have "fetchone (\<lambda>u. nocase (us_name u) = nocase ''local-user'') (users s1) = Some ?u"
    using assms(1) by (auto simp: ensure_local_user_def insert_user_def fetchone_append split: option.splits if_splits)
  then have "fetchone (\<lambda>u. nocase (us_name u) = nocase n) (users s2) = Some ?u"
    using steps_keep(1) [OF assms(2)] assms(4) by simp
  then show ?thesis using assms(3,5) by (simp add: login_def)
qed

section \<open>Samples\<close>

definition toy_hash :: "string \<Rightarrow> string" where
  "toy_hash t = CHR ''h'' # t"

definition toy_derive :: "string \<Rightarrow> string \<Rightarrow> int \<Rightarrow> string" where
  "toy_derive p salt n = CHR ''d'' # p @ salt"

definition alice :: "(AuthSession \<times> string) result \<times> ident" where
  "alice = register_account toy_hash toy_derive 0 ''u1'' ''salt'' ''tok1'' ''s1'' ''Alice'' ''password'' empty_ident"

definition alice_store :: ident where
  "alice_store = \<lparr> users = [\<lparr> us_id = ''u1'', us_name = ''Alice'', us_salt = ''salt'', us_hash = ''dpasswordsalt'',
       us_iterations = PBKDF2_ITERATIONS, us_role = ''developer'', us_created = 0 \<rparr>],
     sessions = [\<lparr> ss_hash = ''htok1'', ss_id = ''s1'', ss_user = ''u1'', ss_created = 0, ss_expires = 604800000000, ss_seen = 0 \<rparr>],
     owners = [], usages = [] \<rparr>"

lemma alice_value:
  "alice = (Inr (\<lparr> au_user_id = ''u1'', au_username = ''Alice'', au_developer = True, au_session_id = ''s1'' \<rparr>, ''tok1''), alice_store)"
  by code_simp

lemma alice_registered:
  "register_user toy_derive 0 ''u1'' ''salt'' ''Alice'' ''password'' empty_ident =
     (Inr True, alice_store\<lparr> sessions := [] \<rparr>)"
  by code_simp

lemma alice_session:
  "new_session toy_hash 0 ''tok1'' ''s1'' ''u1'' ''Alice'' True (alice_store\<lparr> sessions := [] \<rparr>) =
     (Inr (\<lparr> au_user_id = ''u1'', au_username = ''Alice'', au_developer = True, au_session_id = ''s1'' \<rparr>, ''tok1''), alice_store)"
  by code_simp

lemma alice_history: "history toy_hash toy_derive [Silent, Silent] alice_store"
  using history_new_session [OF history_register_user [OF history.start alice_registered] alice_session] by simp

theorem identity_tables_consistent_witness: "distinct (map us_id (users alice_store))"
  using identity_tables_consistent [OF alice_history] by (elim conjE)

text \<open>One grant with a limit of 1, then a refusal.\<close>

definition spent_store :: ident where
  "spent_store = alice_store\<lparr> usages := [\<lparr> fu_user = ''u1'', fu_feature = ''ask'', fu_window = 0, fu_count = 1, fu_updated = 5 \<rparr>] \<rparr>"

lemma spent_values:
  "consume_allowance 5 ''u1'' ''ask'' 1 60 alice_store = (Inr (True, 0), spent_store)"
  "consume_allowance 6 ''u1'' ''ask'' 1 60 spent_store = (Inr (False, 0), spent_store)"
  by code_simp+

theorem allowance_never_overdrawn_witness:
  "int (length (grants ''u1'' ''ask'' 0 [Silent, Silent, Granted ''u1'' ''ask'' 0 1, Silent])) \<le> max 0 1"
proof -
  have "history toy_hash toy_derive ((([Silent, Silent] @ [Granted ''u1'' ''ask'' (window_of 5 60) 1])) @ [Silent]) spent_store"
    by (rule history.go_on [OF history.go_on [OF alice_history identity_step.granted [OF spent_values(1)]]
        identity_step.refused [OF spent_values(2)]])
  then have h: "history toy_hash toy_derive [Silent, Silent, Granted ''u1'' ''ask'' 0 1, Silent] spent_store"
    by (simp add: window_of_def)
  have k: "list_all (\<lambda>k. k \<le> 1) (grants ''u1'' ''ask'' 0 [Silent, Silent, Granted ''u1'' ''ask'' 0 1, Silent])" by code_simp
  show ?thesis using allowance_never_overdrawn [OF h k] by (elim conjE)
qed

definition owned_store :: ident where
  "owned_store = alice_store\<lparr> owners := [\<lparr> ow_type = ''run'', ow_resource = ''r1'', ow_user = ''u1'', ow_created = 0 \<rparr>] \<rparr>"

theorem ownership_is_permanent_witness:
  "owner_of ''run'' ''r1'' owned_store = Some ''u1'' \<and> fst (bind_resource 1 ''run'' ''r1'' ''u2'' owned_store) \<noteq> Inr ()"
proof -
  have o: "owner_of ''run'' ''r1'' owned_store = Some ''u1''" by code_simp
  have "owner_of ''run'' ''r1'' owned_store = Some ''u1'' \<and>
    (''u2'' = ''u1'' \<or> fst (bind_resource 1 ''run'' ''r1'' ''u2'' owned_store) \<noteq> Inr () \<and>
      snd (bind_resource 1 ''run'' ''r1'' ''u2'' owned_store) = owned_store)"
    by (rule ownership_is_permanent [OF steps.none [of toy_hash toy_derive] o])
  then show ?thesis by simp
qed

theorem session_lifetime_witness:
  "map_option (\<lambda>x. (au_user_id x, au_session_id x)) (fst (resolve_token toy_hash 604799999999 (Some ''tok1'') alice_store)) = Some (''u1'', ''s1'') \<and>
   fst (resolve_token toy_hash 604800000000 (Some ''tok1'') alice_store) = None"
proof -
  have h: "history toy_hash toy_derive ([] @ [Silent]) (alice_store\<lparr> sessions := [] \<rparr>)"
    by (rule history_register_user [OF history.start alice_registered])
  note life = session_lifetime [OF h alice_session steps.none, simplified]
  show ?thesis using life [of 604799999999] life [of 604800000000] by simp
qed

theorem login_after_register_witness:
  "case login toy_hash toy_derive 9 ''tok2'' ''s2'' ''ALICE'' ''wrong one'' alice_store of (Inl _, _) \<Rightarrow> True | (Inr _, _) \<Rightarrow> False"
proof -
  have r: "register_account toy_hash toy_derive 0 ''u1'' ''salt'' ''tok1'' ''s1'' ''Alice'' ''password'' empty_ident =
    (Inr (\<lparr> au_user_id = ''u1'', au_username = ''Alice'', au_developer = True, au_session_id = ''s1'' \<rparr>, ''tok1''), alice_store)"
    using alice_value by (simp only: alice_def)
  have n: "username ''Alice'' = Inr ''Alice''" "username ''ALICE'' = Inr ''ALICE''" "nocase ''ALICE'' = nocase ''Alice''"
    "toy_hash ''tok2'' \<notin> ss_hash ` set (sessions alice_store)" "''s2'' \<notin> ss_id ` set (sessions alice_store)"
    by code_simp+
  have "toy_derive ''wrong one'' ''salt'' PBKDF2_ITERATIONS \<noteq> toy_derive ''password'' ''salt'' PBKDF2_ITERATIONS"
    by (simp add: toy_derive_def)
  then show ?thesis
    using login_after_register [OF history.start r steps.none n, where later = 9 and password' = "''wrong one''"] by (auto split: sum.splits prod.splits)
qed

section \<open>A name that blocks the local mode\<close>

text \<open>A defect: the store looks for the shared local user without regard to case and the gateway with it. After
  somebody registers \<open>Local-User\<close>, \<open>ensure_local_user\<close> creates nothing and the gateway finds no user of the
  exact name, so that starting it in anonymous mode raises.\<close>

theorem registered_name_blocks_local_mode:
  "case register_account toy_hash toy_derive 0 ''u1'' ''salt'' ''tok1'' ''s1'' ''Local-User'' ''password'' empty_ident of
     (r, s) \<Rightarrow> ok r \<and> (case ensure_local_user 1 ''u2'' s of (created, s') \<Rightarrow> created = Inr False \<and> anonymous_user s' = None)"
  by code_simp

end
