(* ===== verification/Provenance.thy ===== *)
theory Provenance
  imports Custody Capacity
begin

text \<open>
  What applications may read of the runtime's state: \<open>describe_run\<close> of the store, the evidence index of
  \<open>core/provenance/src/openroad_platform_provenance/index.py\<close>, and the read models \<open>ArtifactInventory\<close>, \<open>LogQuery\<close>
  and \<open>ResourceQuery\<close> of the runtime. Nothing here writes. A run without stages cannot be submitted, so the lists
  below follow the tables as the store returns them.
\<close>

section \<open>The view of a run\<close>

record attempt_view =
  av_attempt :: attempt_row
  av_usage :: "(pyval \<times> pyval \<times> pyval) option"
  av_inputs :: "pyval list"
  av_artifacts :: "artifact_row list"
  av_metrics :: "pyval list"

record stage_view =
  sv_stage :: stage_row
  sv_attempts :: "attempt_view list"

record run_view =
  rv_run :: run_row
  rv_stages :: "stage_view list"

definition attempt_usage :: "attempt_row \<Rightarrow> (pyval \<times> pyval \<times> pyval) option" where
  "attempt_usage a =
     (if at_cpu_seconds a = PNone \<and> at_peak_memory a = PNone \<and> at_peak_processes a = PNone then None
      else Some (at_cpu_seconds a, at_peak_memory a, at_peak_processes a))"

definition view_attempt :: "store \<Rightarrow> attempt_row \<Rightarrow> attempt_view result" where
  "view_attempt s a =
     ebind (emap StagedInput_to_dict (list_inputs (at_id a) s)) (\<lambda>ins.
     ebind (emap Metric_to_dict (list_metrics (at_id a) s)) (\<lambda>ms.
     Inr \<lparr> av_attempt = a, av_usage = attempt_usage a, av_inputs = ins, av_artifacts = list_artifacts (at_id a) s, av_metrics = ms \<rparr>))"

definition view_stage :: "store \<Rightarrow> stage_row \<Rightarrow> stage_view result" where
  "view_stage s g =
     ebind (emap (view_attempt s) (list_attempts (sg_id g) s)) (\<lambda>as. Inr \<lparr> sv_stage = g, sv_attempts = as \<rparr>)"

definition describe_run :: "string \<Rightarrow> store \<Rightarrow> run_view result" where
  "describe_run run_id s =
     ebind (get_run run_id s) (\<lambda>r.
     ebind (emap (view_stage s) (list_stages run_id s)) (\<lambda>gs. Inr \<lparr> rv_run = r, rv_stages = gs \<rparr>))"

definition view_attempts :: "run_view \<Rightarrow> attempt_view list" where
  "view_attempts v = concat (map sv_attempts (rv_stages v))"

section \<open>Lists of runs\<close>

definition DEFAULT_RUN_LIMIT :: int where
  "DEFAULT_RUN_LIMIT = 50"

definition MAX_RUN_LIMIT :: int where
  "MAX_RUN_LIMIT = 500"

text \<open>The filters of a query; an absent or empty one lets everything through.\<close>

record run_filter =
  rf_project :: "string option"
  rf_design :: "string option"
  rf_plugin :: "string option"
  rf_status :: "string option"
  rf_owned :: "string set option"

definition wants :: "string option \<Rightarrow> pyval \<Rightarrow> bool" where
  "wants f v = (case f of None \<Rightarrow> True | Some x \<Rightarrow> x = [] \<or> PStr x = v)"

definition wanted_status :: "run_filter \<Rightarrow> RuntimeStatus option result" where
  "wanted_status f =
     (case rf_status f of
        None \<Rightarrow> Inr None
      | Some x \<Rightarrow> if x = [] then Inr None
                  else ebind (RuntimeStatus_of (PStr x)) (\<lambda>st. Inr (Some st)))"

definition run_matches :: "run_filter \<Rightarrow> RuntimeStatus option \<Rightarrow> run_row \<Rightarrow> bool" where
  "run_matches f wanted r =
     ((case rf_owned f of None \<Rightarrow> True | Some ids \<Rightarrow> rn_id r \<in> ids) \<and> wants (rf_project f) (project_id (rn_task r)) \<and>
      wants (rf_design f) (design_id (rn_task r)) \<and> wants (rf_plugin f) (plugin_id (rn_task r)) \<and>
      (case wanted of None \<Rightarrow> True | Some st \<Rightarrow> rn_status r = st))"

record run_summary =
  rsu_run :: run_row
  rsu_attempts :: nat
  rsu_artifacts :: nat
  rsu_metrics :: nat

definition attempts_of_run :: "run_row \<Rightarrow> store \<Rightarrow> attempt_row list" where
  "attempts_of_run r s = concat (map (\<lambda>g. list_attempts (sg_id g) s) (list_stages (rn_id r) s))"

definition summary_of :: "store \<Rightarrow> run_row \<Rightarrow> run_summary" where
  "summary_of s r =
     (let as = attempts_of_run r s in
      \<lparr> rsu_run = r, rsu_attempts = length as, rsu_artifacts = sum_list (map (\<lambda>a. length (list_artifacts (at_id a) s)) as),
        rsu_metrics = sum_list (map (\<lambda>a. length (list_metrics (at_id a) s)) as) \<rparr>)"

text \<open>The loop over the rows, newest first: skip those before the offset, stop at the limit.\<close>

fun page_loop :: "(run_row \<Rightarrow> bool) \<Rightarrow> (run_row \<Rightarrow> 'b) \<Rightarrow> int \<Rightarrow> int \<Rightarrow> int \<Rightarrow> 'b list \<Rightarrow> run_row list \<Rightarrow> 'b list" where
  "page_loop P f offset limit matched acc [] = acc"
| "page_loop P f offset limit matched acc (r # rs) =
     (if \<not> P r then page_loop P f offset limit matched acc rs
      else if matched < offset then page_loop P f offset limit (matched + 1) acc rs
      else if int (length (acc @ [f r])) \<ge> limit then acc @ [f r]
      else page_loop P f offset limit matched (acc @ [f r]) rs)"

definition newest_first :: "store \<Rightarrow> run_row list" where
  "newest_first s = sort_key (\<lambda>r. - rn_created r) (runs s)"

definition index_runs :: "run_filter \<Rightarrow> int \<Rightarrow> int \<Rightarrow> store \<Rightarrow> run_summary list result" where
  "index_runs f limit offset s =
     (if \<not> (1 \<le> limit \<and> limit \<le> MAX_RUN_LIMIT) then Inl (ValueError ''limit must be between 1 and 500'')
      else if offset < 0 then Inl (ValueError ''offset must not be negative'')
      else ebind (wanted_status f) (\<lambda>wanted.
        Inr (page_loop (run_matches f wanted) (summary_of s) offset limit 0 [] (newest_first s))))"

section \<open>Metrics with their lineage\<close>

record metric_provenance =
  mp_metric :: Metric
  mp_run :: string
  mp_attempt :: string
  mp_artifact :: "artifact_row option"

definition index_attempt :: "string \<Rightarrow> store \<Rightarrow> attempt_view \<Rightarrow> metric_provenance list" where
  "index_attempt run_id s a =
     map (\<lambda>m. \<lparr> mp_metric = m, mp_run = run_id, mp_attempt = at_id (av_attempt a),
        mp_artifact = fetchone (\<lambda>x. PStr (ar_id x) = (if truthy (m_source_artifact_id m) then m_source_artifact_id m else PStr []))
          (rev (av_artifacts a)) \<rparr>) (list_metrics (at_id (av_attempt a)) s)"

text \<open>\<open>complete_only\<close> drops a metric whose artifact's identifier is missing or empty.\<close>

definition traced :: "metric_provenance \<Rightarrow> bool" where
  "traced p = (case mp_artifact p of None \<Rightarrow> False | Some a \<Rightarrow> ar_id a \<noteq> [])"

definition index_metrics :: "string \<Rightarrow> bool \<Rightarrow> store \<Rightarrow> metric_provenance list result" where
  "index_metrics run_id complete_only s =
     ebind (describe_run run_id s) (\<lambda>v.
     Inr (filter (\<lambda>p. \<not> complete_only \<or> traced p) (concat (map (index_attempt run_id s) (view_attempts v)))))"

definition unsourced_metrics :: "string \<Rightarrow> store \<Rightarrow> metric_provenance list result" where
  "unsourced_metrics run_id s = ebind (index_metrics run_id False s) (\<lambda>ps. Inr (filter (\<lambda>p. \<not> traced p) ps))"

section \<open>Artifacts, events and logs\<close>

record artifact_entry =
  ae_artifact :: artifact_row
  ae_run :: string
  ae_stage :: string
  ae_attempt :: string

definition entries :: "string \<Rightarrow> run_view \<Rightarrow> artifact_entry list" where
  "entries run_id v =
     concat (map (\<lambda>g. concat (map (\<lambda>a. map (\<lambda>x. \<lparr> ae_artifact = x, ae_run = run_id, ae_stage = sg_key (sv_stage g),
       ae_attempt = at_id (av_attempt a) \<rparr>) (av_artifacts a)) (sv_attempts g))) (rv_stages v))"

definition index_artifacts :: "string \<Rightarrow> store \<Rightarrow> artifact_entry list result" where
  "index_artifacts run_id s = ebind (describe_run run_id s) (\<lambda>v. Inr (entries run_id v))"

definition find_artifact :: "string \<Rightarrow> string \<Rightarrow> store \<Rightarrow> artifact_entry option result" where
  "find_artifact run_id aid s = ebind (index_artifacts run_id s) (\<lambda>es. Inr (fetchone (\<lambda>e. ar_id (ae_artifact e) = aid) es))"

definition metadata_is :: "string option \<Rightarrow> string \<Rightarrow> artifact_entry \<Rightarrow> bool" where
  "metadata_is f key e =
     (case f of None \<Rightarrow> True | Some x \<Rightarrow>
        py_eq (dgetN (if truthy (ar_metadata (ae_artifact e)) then items (ar_metadata (ae_artifact e)) else []) key) (PStr x))"

definition inventory_for_run ::
  "string \<Rightarrow> string option \<Rightarrow> string option \<Rightarrow> string option \<Rightarrow> store \<Rightarrow> artifact_entry list result" where
  "inventory_for_run run_id category fmt stage s =
     ebind (describe_run run_id s) (\<lambda>v.
     Inr (filter (\<lambda>e. metadata_is category ''category'' e \<and> metadata_is fmt ''format'' e \<and> metadata_is stage ''stage'' e) (entries run_id v)))"

record timeline_entry =
  te_type :: string
  te_occurred :: timestamp
  te_producer :: string
  te_payload :: pydict
  te_stage :: "string option"
  te_attempt :: "string option"

definition timeline :: "string \<Rightarrow> store \<Rightarrow> timeline_entry list" where
  "timeline run_id s = map (\<lambda>e. \<lparr> te_type = er_type e, te_occurred = er_occurred e, te_producer = er_producer e,
     te_payload = er_payload e, te_stage = er_stage e, te_attempt = er_attempt e \<rparr>) (list_events run_id s)"

definition MAX_LOG_BYTES :: int where
  "MAX_LOG_BYTES = 2 ^ 20"

text \<open>\<open>LogQuery.run\<close>; \<open>logs\<close> tells the log file of a workspace, the decoding of its bytes is left out.\<close>

definition log_query :: "(string \<rightharpoonup> bytes) \<Rightarrow> string \<Rightarrow> int \<Rightarrow> int option \<Rightarrow> store \<Rightarrow> (int \<times> bytes) result" where
  "log_query logs run_id offset max_bytes s =
     (if offset < 0 then Inl (ValueError ''offset must be non-negative'')
      else
        let limit = (case max_bytes of None \<Rightarrow> MAX_LOG_BYTES | Some n \<Rightarrow> n) in
        if \<not> (0 < limit \<and> limit \<le> MAX_LOG_BYTES) then Inl (ValueError ''max_bytes must be between 1 and 1048576'')
        else ebind (describe_run run_id s) (\<lambda>v.
          Inr (limit, concat (map (\<lambda>a. case logs (at_workspace (av_attempt a)) of None \<Rightarrow> []
            | Some b \<Rightarrow> take (nat limit) (drop (nat offset) b)) (view_attempts v)))))"

section \<open>Resources\<close>

record resource_view =
  rr_capacity :: "int option \<times> int option"
  rr_budget :: "int \<times> int"
  rr_reserved :: "int \<times> int"
  rr_requested :: "pyval option"
  rr_would_reserve :: pyval
  rr_waiting_for :: "explanation option"
  rr_attempts :: "(string \<times> string \<times> (pyval \<times> pyval \<times> pyval) option) list"

definition resource_query :: "RuntimeConfig \<Rightarrow> string \<Rightarrow> store \<Rightarrow> resource_view result" where
  "resource_query c run_id s =
     ebind (describe_run run_id s) (\<lambda>v.
     ebind (case resources (rn_task (rv_run v)) of None \<Rightarrow> Inr None
            | Some r \<Rightarrow> ebind (ResourceRequest_to_dict r) (\<lambda>d. Inr (Some d))) (\<lambda>requested.
     ebind (ResourceRequest_to_dict (reservation_for c (rn_task (rv_run v)))) (\<lambda>reserved.
     ebind (waiting_for c run_id s) (\<lambda>waiting.
     Inr \<lparr> rr_capacity = (capacity_cpu_cores c, capacity_memory_bytes c),
       rr_budget = (py_trunc (fl_double (of_int (the (capacity_cpu_cores c)) * platform_fraction c)),
                    py_trunc (fl_double (of_int (the (capacity_memory_bytes c)) * platform_fraction c))),
       rr_reserved = resource_totals s, rr_requested = requested, rr_would_reserve = reserved, rr_waiting_for = waiting,
       rr_attempts = map (\<lambda>a. (at_id (av_attempt a), AttemptStatus_value (at_status (av_attempt a)), av_usage a)) (view_attempts v) \<rparr>))))"

section \<open>The graph\<close>

record node =
  nd_id :: string
  nd_kind :: string
  nd_fields :: pydict

record edge =
  eg_from :: string
  eg_to :: string
  eg_kind :: string

record graph =
  nodes :: "node list"
  edges :: "edge list"

definition metric_node :: "string \<Rightarrow> pyval \<Rightarrow> string" where
  "metric_node attempt_id m = ''metric:'' @ attempt_id @ '':'' @ text_of (dgetN (items m) ''name'')"

definition run_node :: "string \<Rightarrow> string" where
  "run_node run_id = ''run:'' @ run_id"

definition stage_node :: "string \<Rightarrow> string" where
  "stage_node stage_id = ''stage:'' @ stage_id"

definition attempt_node :: "string \<Rightarrow> string" where
  "attempt_node attempt_id = ''attempt:'' @ attempt_id"

definition artifact_node :: "artifact_row \<Rightarrow> string" where
  "artifact_node x = ''artifact:'' @ ar_id x"

definition source_edges :: "string \<Rightarrow> artifact_row \<Rightarrow> pyval list \<Rightarrow> edge list" where
  "source_edges attempt_id x ms =
     map (\<lambda>m. \<lparr> eg_from = artifact_node x, eg_to = metric_node attempt_id m, eg_kind = ''sources'' \<rparr>)
       (filter (\<lambda>m. py_eq (dgetN (items m) ''source_artifact_id'') (PStr (ar_id x))) ms)"

definition artifact_part :: "string \<Rightarrow> pyval list \<Rightarrow> artifact_row \<Rightarrow> graph" where
  "artifact_part attempt_id ms x =
     \<lparr> nodes = [\<lparr> nd_id = artifact_node x, nd_kind = ''artifact'', nd_fields = [(PStr ''label'', PStr (ar_store_key x)),
         (PStr ''artifact_kind'', PStr (ar_kind x)), (PStr ''sha256'', PStr (ar_sha256 x)), (PStr ''size_bytes'', PInt (ar_size x))] \<rparr>],
       edges = \<lparr> eg_from = attempt_node attempt_id, eg_to = artifact_node x, eg_kind = ''produced'' \<rparr> # source_edges attempt_id x ms \<rparr>"

definition metric_part :: "string \<Rightarrow> pyval \<Rightarrow> graph" where
  "metric_part attempt_id m =
     \<lparr> nodes = [\<lparr> nd_id = metric_node attempt_id m, nd_kind = ''metric'', nd_fields = [(PStr ''label'', dgetN (items m) ''name''),
         (PStr ''value'', dgetN (items m) ''value''), (PStr ''unit'', dgetN (items m) ''unit''),
         (PStr ''sourced'', PBool (dgetN (items m) ''source_artifact_id'' \<noteq> PNone))] \<rparr>],
       edges = [\<lparr> eg_from = attempt_node attempt_id, eg_to = metric_node attempt_id m, eg_kind = ''measured'' \<rparr>] \<rparr>"

definition join_graphs :: "graph list \<Rightarrow> graph" where
  "join_graphs gs = \<lparr> nodes = concat (map nodes gs), edges = concat (map edges gs) \<rparr>"

definition attempt_part :: "string \<Rightarrow> attempt_view \<Rightarrow> graph" where
  "attempt_part stage_id a =
     (let aid = at_id (av_attempt a) in
      join_graphs (\<lparr> nodes = [\<lparr> nd_id = attempt_node aid, nd_kind = ''attempt'',
                nd_fields = [(PStr ''label'', PStr (''attempt '' @ int_str (int (at_number (av_attempt a))))),
                  (PStr ''status'', PStr (AttemptStatus_value (at_status (av_attempt a)))),
                  (PStr ''worker_id'', PStr (at_worker (av_attempt a)))] \<rparr>],
              edges = [\<lparr> eg_from = stage_node stage_id, eg_to = attempt_node aid, eg_kind = ''has_attempt'' \<rparr>] \<rparr> #
        map (artifact_part aid (av_metrics a)) (av_artifacts a) @ map (metric_part aid) (av_metrics a)))"

definition stage_part :: "string \<Rightarrow> stage_view \<Rightarrow> graph" where
  "stage_part run_id g =
     (let gid = sg_id (sv_stage g) in
      join_graphs (\<lparr> nodes = [\<lparr> nd_id = stage_node gid, nd_kind = ''stage'',
                nd_fields = [(PStr ''label'', PStr (sg_key (sv_stage g))), (PStr ''status'', PStr (RuntimeStatus_value (sg_status (sv_stage g)))),
                  (PStr ''plugin_id'', sg_plugin_id (sv_stage g)), (PStr ''plugin_version'', sg_plugin_version (sv_stage g))] \<rparr>],
              edges = [\<lparr> eg_from = run_node run_id, eg_to = stage_node gid, eg_kind = ''has_stage'' \<rparr>] \<rparr> #
        map (attempt_part gid) (sv_attempts g)))"

definition run_part :: "string \<Rightarrow> run_view \<Rightarrow> graph" where
  "run_part run_id v =
     join_graphs (\<lparr> nodes = [\<lparr> nd_id = run_node run_id, nd_kind = ''run'', nd_fields = [(PStr ''label'', rn_task_id (rv_run v)),
              (PStr ''status'', PStr (RuntimeStatus_value (rn_status (rv_run v))))] \<rparr>], edges = [] \<rparr> # map (stage_part run_id) (rv_stages v))"

definition artifact_graph :: "string list \<Rightarrow> store \<Rightarrow> graph result" where
  "artifact_graph run_ids s = ebind (emap (\<lambda>r. ebind (describe_run r s) (\<lambda>v. Inr (run_part r v))) run_ids) (\<lambda>ps. Inr (join_graphs ps))"

text \<open>\<open>ArtifactGraph.counts\<close>: how many nodes of each kind, in the order the kinds first occur.\<close>

definition graph_counts :: "graph \<Rightarrow> (string \<times> nat) list" where
  "graph_counts g = foldl (\<lambda>acc n. case map_of acc (nd_kind n) of
       None \<Rightarrow> acc @ [(nd_kind n, 1)]
     | Some _ \<Rightarrow> map (\<lambda>(k, c). if k = nd_kind n then (k, c + 1) else (k, c)) acc) [] (nodes g)"

section \<open>Pages\<close>

lemma page_loop_eq:
  assumes "int (length acc) < limit" "matched \<le> offset" "acc \<noteq> [] \<longrightarrow> matched = offset"
  shows "page_loop P f offset limit matched acc rs =
    acc @ take (nat limit - length acc) (drop (nat (offset - matched)) (map f (filter P rs)))"
  using assms
proof (induction rs arbitrary: matched acc)
  case (Cons r rs)
  show ?case
  proof (cases "P r \<and> \<not> matched < offset")
    case False
    moreover have "matched < offset \<Longrightarrow> nat (offset - (matched + 1)) = nat (offset - matched) - Suc 0" by simp
    ultimately show ?thesis using Cons by (auto simp: drop_Cons')
  next
    case True
    then have here: "nat (offset - matched) = 0" using Cons.prems(2) by simp
    show ?thesis
    proof (cases "int (length (acc @ [f r])) \<ge> limit")
      case last: True
      then have "nat limit - length acc = 1" using Cons.prems(1) by simp
      then show ?thesis using True last here by simp
    next
      case more: False
      then have "page_loop P f offset limit matched (acc @ [f r]) rs =
          (acc @ [f r]) @ take (nat limit - length (acc @ [f r])) (drop (nat (offset - matched)) (map f (filter P rs)))"
        using True Cons.prems(2) by (intro Cons.IH) auto
      moreover have "nat limit - length acc = Suc (nat limit - length (acc @ [f r]))" using more by simp
      ultimately show ?thesis using True more here by simp
    qed
  qed
qed simp

text \<open>The runs a query is about.\<close>

definition matching :: "run_filter \<Rightarrow> RuntimeStatus option \<Rightarrow> store \<Rightarrow> run_row list" where
  "matching f wanted s = filter (run_matches f wanted) (newest_first s)"

lemma matching_length: "length (matching f wanted s) \<le> length (runs s)"
  by (metis matching_def newest_first_def length_filter_le length_sort)

lemma index_runs_ok:
  assumes "wanted_status f = Inr wanted" "1 \<le> limit" "limit \<le> MAX_RUN_LIMIT" "0 \<le> offset"
  shows "index_runs f limit offset s = Inr (take (nat limit) (drop (nat offset) (map (summary_of s) (matching f wanted s))))"
  using assms page_loop_eq [of "[]" limit 0 offset] by (simp add: index_runs_def matching_def)

lemma index_runs_Inr:
  assumes "index_runs f limit offset s = Inr xs"
  obtains wanted where "wanted_status f = Inr wanted" "xs = take (nat limit) (drop (nat offset) (map (summary_of s) (matching f wanted s)))"
proof -
  have b: "1 \<le> limit" "limit \<le> MAX_RUN_LIMIT" "0 \<le> offset" using assms by (auto simp: index_runs_def split: if_splits)
  obtain wanted where "wanted_status f = Inr wanted" using assms by (auto simp: index_runs_def ebind_Inr_iff split: if_splits)
  then show thesis using index_runs_ok [OF _ b] assms that by simp
qed

section \<open>Counting runs\<close>

text \<open>\<open>count_runs\<close> walks through pages of the largest size until one is not full.\<close>

function count_loop :: "run_filter \<Rightarrow> store \<Rightarrow> nat \<Rightarrow> nat \<Rightarrow> nat result" where
  "count_loop f s offset seen =
     (case index_runs f MAX_RUN_LIMIT (int offset) s of
        Inl e \<Rightarrow> Inl e
      | Inr page \<Rightarrow>
          if int (length page) < MAX_RUN_LIMIT then Inr (seen + length page)
          else count_loop f s (offset + length page) (seen + length page))"
  by auto

termination
proof (relation "measure (\<lambda>(f, s, offset, seen). length (runs s) - offset)")
  fix f s offset seen page
  assume page: "index_runs f MAX_RUN_LIMIT (int offset) s = Inr page" and full: "\<not> int (length page) < MAX_RUN_LIMIT"
  from page obtain wanted where "page = take (nat MAX_RUN_LIMIT) (drop (nat (int offset)) (map (summary_of s) (matching f wanted s)))"
    by (rule index_runs_Inr)
  then have "length page \<le> length (matching f wanted s) - offset" by simp
  moreover have "0 < length page" using full by (auto simp: MAX_RUN_LIMIT_def)
  ultimately have "length (runs s) - (offset + length page) < length (runs s) - offset"
    using matching_length [of f wanted s] by linarith
  then show "((f, s, offset + length page, seen + length page), f, s, offset, seen)
      \<in> measure (\<lambda>(f, s, offset, seen). length (runs s) - offset)"
    by simp
qed simp

declare count_loop.simps [simp del]

definition count_runs :: "run_filter \<Rightarrow> store \<Rightarrow> nat result" where
  "count_runs f s = count_loop f s 0 0"

lemma count_loop_eq:
  assumes "wanted_status f = Inr wanted" "offset \<le> length (matching f wanted s)"
  shows "count_loop f s offset seen = Inr (seen + (length (matching f wanted s) - offset))"
  using assms
proof (induction f s offset seen rule: count_loop.induct)
  case (1 f s offset seen)
  let ?page = "take (nat MAX_RUN_LIMIT) (drop offset (map (summary_of s) (matching f wanted s)))"
  have page: "index_runs f MAX_RUN_LIMIT (int offset) s = Inr ?page"
    using index_runs_ok [OF 1(2), of MAX_RUN_LIMIT "int offset" s] by (simp add: MAX_RUN_LIMIT_def)
  show ?case
  proof (cases "int (length ?page) < MAX_RUN_LIMIT")
    case True
    then have "length ?page = length (matching f wanted s) - offset" by (auto simp: MAX_RUN_LIMIT_def)
    then show ?thesis using True by (subst count_loop.simps) (simp add: page)
  next
    case False
    then have "count_loop f s offset seen = count_loop f s (offset + length ?page) (seen + length ?page)"
      by (subst count_loop.simps) (simp add: page)
    also have "\<dots> = Inr (seen + length ?page + (length (matching f wanted s) - (offset + length ?page)))"
      using 1(1) [OF page False 1(2)] 1(3) by simp
    finally show ?thesis using 1(3) by simp
  qed
qed

section \<open>The graph's edges\<close>

definition node_ids :: "graph \<Rightarrow> string set" where
  "node_ids g = nd_id ` set (nodes g)"

text \<open>A part whose edges stay within its nodes and those of its parent.\<close>

definition attached :: "string set \<Rightarrow> graph \<Rightarrow> bool" where
  "attached up g \<longleftrightarrow> (\<forall>e \<in> set (edges g). eg_from e \<in> up \<union> node_ids g \<and> eg_to e \<in> node_ids g)"

lemma node_ids_join [simp]: "node_ids (join_graphs gs) = (\<Union>g \<in> set gs. node_ids g)"
  by (auto simp: node_ids_def join_graphs_def)

lemma edges_join [simp]: "set (edges (join_graphs gs)) = (\<Union>g \<in> set gs. set (edges g))"
  by (simp add: join_graphs_def)

lemma attached_Cons:
  assumes "attached up g" "\<forall>h \<in> set hs. attached (node_ids g) h"
  shows "attached up (join_graphs (g # hs))"
  using assms unfolding attached_def by fastforce

lemma attached_empty:
  assumes "\<forall>h \<in> set hs. attached {} h"
  shows "attached {} (join_graphs hs)"
  using assms unfolding attached_def by fastforce

lemma attempt_attached: "attached {stage_node gid} (attempt_part gid a)"
proof -
  let ?aid = "at_id (av_attempt a)"
  have ids: "node_ids (attempt_part gid a) = {attempt_node ?aid} \<union> artifact_node ` set (av_artifacts a) \<union> metric_node ?aid ` set (av_metrics a)"
    unfolding attempt_part_def Let_def node_ids_join by (auto simp: node_ids_def artifact_part_def metric_part_def)
  show ?thesis unfolding attached_def ids
    unfolding attempt_part_def Let_def edges_join by (auto simp: artifact_part_def metric_part_def source_edges_def)
qed

lemma stage_attached: "attached {run_node r} (stage_part r g)"
  unfolding stage_part_def Let_def
  by (rule attached_Cons) (use attempt_attached in \<open>auto simp: attached_def node_ids_def\<close>)

lemma run_attached: "attached {} (run_part r v)"
  unfolding run_part_def
  by (rule attached_Cons) (use stage_attached in \<open>auto simp: attached_def node_ids_def\<close>)

lemma graph_attached:
  assumes "artifact_graph run_ids s = Inr g"
  shows "attached {} g"
proof -
  obtain ps where ps: "emap (\<lambda>r. ebind (describe_run r s) (\<lambda>v. Inr (run_part r v))) run_ids = Inr ps" and g: "g = join_graphs ps"
    using assms by (auto simp: artifact_graph_def ebind_Inr_iff)
  have "\<forall>h \<in> set ps. \<exists>r v. h = run_part r v"
    using ps unfolding emap_Inr_list_all2 by (induction rule: list_all2_induct) (auto simp: ebind_Inr_iff)
  then show ?thesis unfolding g using run_attached by (intro attached_empty) auto
qed

section \<open>The attempts of a view\<close>

lemma list_all2_right: "list_all2 P xs ys \<Longrightarrow> y \<in> set ys \<Longrightarrow> \<exists>x \<in> set xs. P x y"
  by (induction rule: list_all2_induct) auto

lemma view_attempt_Inr:
  assumes "view_attempt s a = Inr w"
  shows "av_attempt w = a \<and> av_artifacts w = list_artifacts (at_id a) s"
  using assms by (auto simp: view_attempt_def ebind_Inr_iff)

lemma describe_run_attempts:
  assumes "describe_run run_id s = Inr v" "w \<in> set (view_attempts v)"
  obtains g where "g \<in> set (stages s)" "sg_run g = run_id" "av_attempt w \<in> set (attempts s)" "at_stage (av_attempt w) = sg_id g"
    "av_artifacts w = list_artifacts (at_id (av_attempt w)) s"
proof -
  obtain gv where gv: "gv \<in> set (rv_stages v)" "w \<in> set (sv_attempts gv)" using assms(2) by (auto simp: view_attempts_def)
  have "list_all2 (\<lambda>g gv. view_stage s g = Inr gv) (list_stages run_id s) (rv_stages v)"
    using assms(1) by (auto simp: describe_run_def ebind_Inr_iff simp flip: emap_Inr_list_all2)
  from list_all2_right [OF this gv(1)] obtain g where g: "g \<in> set (list_stages run_id s)" "view_stage s g = Inr gv" ..
  from g(2) have "list_all2 (\<lambda>a w. view_attempt s a = Inr w) (list_attempts (sg_id g) s) (sv_attempts gv)"
    by (auto simp: view_stage_def ebind_Inr_iff simp flip: emap_Inr_list_all2)
  from list_all2_right [OF this gv(2)] obtain a where a: "a \<in> set (list_attempts (sg_id g) s)" "view_attempt s a = Inr w" ..
  show thesis
    using that [of g] g(1) a(1) view_attempt_Inr [OF a(2)] by (simp add: list_stages_def list_attempts_def)
qed

lemma log_parts:
  assumes "log_query logs run_id offset max_bytes s = Inr (limit, content)"
  obtains v where "describe_run run_id s = Inr v" "0 < limit" "limit \<le> MAX_LOG_BYTES"
    "content = concat (map (\<lambda>a. case logs (at_workspace (av_attempt a)) of None \<Rightarrow> [] | Some b \<Rightarrow> take (nat limit) (drop (nat offset) b)) (view_attempts v))"
  using assms that by (auto simp: log_query_def Let_def ebind_Inr_iff split: if_splits)

section \<open>Properties\<close>

text \<open>A run of two attempts, the first with an artifact and a metric read from it.\<close>

definition view_row :: "string \<Rightarrow> nat \<Rightarrow> attempt_row" where
  "view_row aid n = \<lparr> at_id = aid, at_stage = ''g'', at_number = n, at_status = A_FAILED, at_workspace = aid, at_worker = ''w'',
     at_lease = None, at_heartbeat = None, at_pid = None, at_pgid = None, at_ticks = None, at_started = 0, at_ended = None, at_exit = None,
     at_failure = None, at_cpu_seconds = PNone, at_peak_memory = PNone, at_peak_processes = PNone \<rparr>"

definition view_store :: store where
  "view_store = empty_store\<lparr> runs := [sample_run], stages := [sample_stage], attempts := [view_row ''a1'' 1, view_row ''a2'' 2],
     artifacts := [\<lparr> ar_id = ''x1'', ar_attempt = ''a1'', ar_kind = ''log'', ar_store_key = ''o'', ar_size = 1, ar_sha256 = ''h'',
       ar_metadata = PDict [], ar_created = 0, ar_storage = ''object'' \<rparr>],
     metrics := [\<lparr> mr_id = ''m1'', mr_attempt = ''a1'', mr_name = PStr ''area'', mr_value = PInt 3, mr_unit = PNone, mr_source = PStr ''x1'',
       mr_parser_id = PNone, mr_parser_version = PNone, mr_context = PDict [], mr_created = 0 \<rparr>] \<rparr>"

definition every_run :: run_filter where
  "every_run = \<lparr> rf_project = None, rf_design = None, rf_plugin = None, rf_status = None, rf_owned = None \<rparr>"

text \<open>
  A page of the run list is exactly the requested window of the runs that match, newest first: nothing is skipped
  or repeated between pages, and a query restricted to a user's runs shows no other.
\<close>

theorem run_pages:
  assumes "wanted_status f = Inr wanted" "1 \<le> limit" "limit \<le> MAX_RUN_LIMIT" "0 \<le> offset"
  shows "index_runs f limit offset s = Inr (take (nat limit) (drop (nat offset) (map (summary_of s) (filter (run_matches f wanted) (newest_first s)))))"
  using index_runs_ok [OF assms] by (simp add: matching_def)

theorem run_pages_witness:
  "index_runs every_run 1 0 view_store = Inr (take (nat 1) (drop (nat 0) (map (summary_of view_store) (filter (run_matches every_run None) (newest_first view_store)))))"
  by (rule run_pages) (simp_all add: every_run_def wanted_status_def MAX_RUN_LIMIT_def)

text \<open>
  Counting the matching runs by walking through the pages ends, and gives their number.
\<close>

theorem count_runs_exact:
  assumes "wanted_status f = Inr wanted"
  shows "count_runs f s = Inr (length (filter (run_matches f wanted) (newest_first s)))"
  using count_loop_eq [OF assms, of 0 s 0] by (simp add: count_runs_def matching_def)

theorem count_runs_exact_witness: "count_runs every_run view_store = Inr (length (filter (run_matches every_run None) (newest_first view_store)))"
  by (rule count_runs_exact) (simp add: every_run_def wanted_status_def)

text \<open>
  A metric reported as complete has its lineage: it was registered for an attempt of that run, and the artifact named
  as its source was registered for the same attempt under the identifier the metric cites.
\<close>

theorem complete_metric_lineage:
  assumes "index_metrics run_id True s = Inr ps" "p \<in> set ps"
  shows "\<exists>x g a. mp_artifact p = Some x \<and> x \<in> set (artifacts s) \<and> ar_attempt x = mp_attempt p \<and>
    m_source_artifact_id (mp_metric p) = PStr (ar_id x) \<and> mp_metric p \<in> set (list_metrics (mp_attempt p) s) \<and>
    a \<in> set (attempts s) \<and> at_id a = mp_attempt p \<and> g \<in> set (stages s) \<and> at_stage a = sg_id g \<and> sg_run g = run_id \<and> mp_run p = run_id"
proof -
  obtain v w where v: "describe_run run_id s = Inr v" and w: "w \<in> set (view_attempts v)" "p \<in> set (index_attempt run_id s w)" and t: "traced p"
    using assms by (auto simp: index_metrics_def ebind_Inr_iff)
  obtain g where g: "g \<in> set (stages s)" "sg_run g = run_id" "av_attempt w \<in> set (attempts s)" "at_stage (av_attempt w) = sg_id g"
    "av_artifacts w = list_artifacts (at_id (av_attempt w)) s" by (rule describe_run_attempts [OF v w(1)])
  obtain m where m: "m \<in> set (list_metrics (at_id (av_attempt w)) s)" and p: "p = \<lparr> mp_metric = m, mp_run = run_id, mp_attempt = at_id (av_attempt w),
      mp_artifact = fetchone (\<lambda>x. PStr (ar_id x) = (if truthy (m_source_artifact_id m) then m_source_artifact_id m else PStr [])) (rev (av_artifacts w)) \<rparr>"
    using w(2) by (auto simp: index_attempt_def)
  obtain x where x: "mp_artifact p = Some x" "ar_id x \<noteq> []" using t by (auto simp: traced_def split: option.splits)
  have "x \<in> set (av_artifacts w) \<and> PStr (ar_id x) = (if truthy (m_source_artifact_id m) then m_source_artifact_id m else PStr [])"
    using fetchone_Some [of "\<lambda>x. PStr (ar_id x) = (if truthy (m_source_artifact_id m) then m_source_artifact_id m else PStr [])"
        "rev (av_artifacts w)" x] x(1) p by simp
  then have "x \<in> set (artifacts s)" "ar_attempt x = at_id (av_attempt w)" "m_source_artifact_id m = PStr (ar_id x)"
    using x(2) g(5) by (auto simp: list_artifacts_def split: if_splits)
  then show ?thesis using x(1) p m g(1-4) by (intro exI [of _ x] exI [of _ g] exI [of _ "av_attempt w"]) simp
qed

theorem complete_metric_lineage_witness:
  "\<exists>p x. index_metrics ''r'' True view_store = Inr [p] \<and> mp_artifact p = Some x \<and> ar_attempt x = mp_attempt p"
proof -
  have "(case index_metrics ''r'' True view_store of Inl _ \<Rightarrow> False | Inr ps \<Rightarrow> length ps = 1)" by code_simp
  then obtain ps where ps: "index_metrics ''r'' True view_store = Inr ps" "length ps = 1" by (auto split: sum.splits)
  then obtain p where "ps = [p]" by (auto simp: length_Suc_conv)
  then show ?thesis using complete_metric_lineage [OF ps(1), of p] ps(1) by auto
qed

text \<open>
  The graph of any runs has no dangling edges: both ends of every edge are nodes of the graph.
\<close>

theorem graph_edges_have_nodes:
  assumes "artifact_graph run_ids s = Inr g" "e \<in> set (edges g)"
  shows "eg_from e \<in> nd_id ` set (nodes g) \<and> eg_to e \<in> nd_id ` set (nodes g)"
  using graph_attached [OF assms(1)] assms(2) by (auto simp: attached_def node_ids_def)

theorem graph_edges_have_nodes_witness:
  "\<exists>g e. artifact_graph [''r''] view_store = Inr g \<and> e \<in> set (edges g) \<and> eg_from e \<in> nd_id ` set (nodes g)"
proof -
  have "(case artifact_graph [''r''] view_store of Inl _ \<Rightarrow> False | Inr g \<Rightarrow> edges g \<noteq> [])" by code_simp
  then obtain g where g: "artifact_graph [''r''] view_store = Inr g" "edges g \<noteq> []" by (auto split: sum.splits)
  then show ?thesis using graph_edges_have_nodes [OF g(1), of "hd (edges g)"] by (intro exI [of _ g] exI [of _ "hd (edges g)"]) simp
qed

text \<open>
  What a log query returns is bounded by its limit for each attempt of the run.
\<close>

theorem log_bounded_per_attempt:
  assumes "log_query logs run_id offset max_bytes s = Inr (limit, content)" "describe_run run_id s = Inr v"
  shows "int (length content) \<le> limit * int (length (view_attempts v))"
proof -
  obtain w where w: "describe_run run_id s = Inr w" "0 < limit"
    "content = concat (map (\<lambda>a. case logs (at_workspace (av_attempt a)) of None \<Rightarrow> [] | Some b \<Rightarrow> take (nat limit) (drop (nat offset) b)) (view_attempts w))"
    by (rule log_parts [OF assms(1)])
  then have c: "content = concat (map (\<lambda>a. case logs (at_workspace (av_attempt a)) of None \<Rightarrow> []
      | Some b \<Rightarrow> take (nat limit) (drop (nat offset) b)) (view_attempts v))" and l: "0 < limit"
    using assms(2) by simp_all
  have "length (concat (map f xs)) \<le> n * length xs" if "\<forall>x. length (f x) \<le> n" for f :: "attempt_view \<Rightarrow> bytes" and n xs
    using that by (induction xs) (auto intro: add_mono)
  from this [of "\<lambda>a. case logs (at_workspace (av_attempt a)) of None \<Rightarrow> [] | Some b \<Rightarrow> take (nat limit) (drop (nat offset) b)" "nat limit" "view_attempts v"]
  have "length content \<le> nat limit * length (view_attempts v)" using c by (simp split: option.splits)
  then have "int (length content) \<le> int (nat limit) * int (length (view_attempts v))" by (metis of_nat_le_iff of_nat_mult)
  then show ?thesis using l by simp
qed

text \<open>
  The limit is not a bound of the answer: the window is taken from the log of every attempt, so a run of two attempts
  answers a query for one byte with two, and each page mixes the logs of both attempts.
\<close>

theorem log_exceeds_limit:
  "log_query (\<lambda>_. Some ''ab'') ''r'' 0 (Some 1) view_store = Inr (1, ''aa'') \<and>
   log_query (\<lambda>_. Some ''ab'') ''r'' 1 (Some 1) view_store = Inr (1, ''bb'')"
  by code_simp

end
