(* ===== verification/Bundle.thy ===== *)
theory Bundle
  imports Provenance
begin

text \<open>
  \<open>core/runtime/src/openroad_platform_runtime/bundle.py\<close>: the export of a run's evidence as one ZIP file, itself
  registered as an artifact of the latest attempt. The ZIP encoder and the JSON texts of the views are parameters, as
  are the files outside the object store, which do not change during the export.
\<close>

section \<open>What goes in\<close>

record bundle_env =
  be_digest :: "bytes \<Rightarrow> string"
  be_now :: timestamp
  be_new_id :: string
  be_zip :: "(string \<times> bytes) list \<Rightarrow> bytes"
  be_run_json :: "run_view \<Rightarrow> bytes"
  be_events_json :: "event_row list \<Rightarrow> bytes"
  be_evidence :: "string \<Rightarrow> string \<Rightarrow> bytes option"
  be_workspace :: "string \<Rightarrow> string \<Rightarrow> bytes option"
  be_resolve :: "string \<Rightarrow> string list"
  be_resolve_in :: "string \<Rightarrow> string \<Rightarrow> string list"
  be_disk :: "string list \<rightharpoonup> bytes"

datatype bundle_entry = RuntimeFile string string int | InputEntry string pyval | ArtifactEntry string artifact_row

text \<open>A member of the archive with its line in the index.\<close>

type_synonym member = "bundle_entry \<times> string \<times> bytes"

definition RUNTIME_FILES :: "string list" where
  "RUNTIME_FILES = [''adapter_request.json'', ''adapter_result.json'', ''adapter.log'', ''runtime_input_manifest.json'', ''runtime_protocol_receipt.json'']"

definition member_name :: "string \<Rightarrow> stage_row \<Rightarrow> attempt_row \<Rightarrow> string \<Rightarrow> string" where
  "member_name folder g a name = folder @ ''/'' @ sg_key g @ ''/attempt-'' @ nat_str (at_number a) @ ''/'' @ name"

definition runtime_member :: "bundle_env \<Rightarrow> stage_row \<Rightarrow> attempt_row \<Rightarrow> string \<Rightarrow> member list" where
  "runtime_member e g a filename =
     (case (case be_evidence e (at_id a) filename of Some b \<Rightarrow> Some b | None \<Rightarrow> be_workspace e (at_workspace a) filename) of
        None \<Rightarrow> []
      | Some b \<Rightarrow> let name = member_name ''runtime'' g a filename in
          [(RuntimeFile name (be_digest e b) (int (length b)), name, b)])"

text \<open>An input that was uploaded is read from the object store, any other from the workspace, which it must not leave.\<close>

definition input_bytes :: "bundle_env \<Rightarrow> store \<Rightarrow> attempt_row \<Rightarrow> pydict \<Rightarrow> bytes option result" where
  "input_bytes e s a d =
     (if truthy (dgetN d ''source_input_id'')
      then ebind (get_uploaded_input (py_str (dgetN d ''source_input_id'')) s) (\<lambda>u. Inr (objects s (up_sha256 u)))
      else let path = be_resolve_in e (at_workspace a) (py_str (dgetN d ''destination'')) in
        if \<not> prefix (be_resolve e (at_workspace a)) path then Inl (RuntimeStoreError ''staged input escapes its workspace'')
        else Inr (be_disk e path))"

definition input_member :: "bundle_env \<Rightarrow> store \<Rightarrow> stage_row \<Rightarrow> attempt_row \<Rightarrow> pyval \<Rightarrow> member list result" where
  "input_member e s g a staged =
     (let d = items staged in
      if \<not> truthy (dgetN d ''present'') then Inr []
      else ebind (input_bytes e s a d) (\<lambda>x.
        case x of
          None \<Rightarrow> Inl (RuntimeStoreError ''staged input failed hash verification'')
        | Some b \<Rightarrow>
            if truthy (dgetN d ''sha256'') \<and> PStr (be_digest e b) \<noteq> dgetN d ''sha256''
            then Inl (RuntimeStoreError ''staged input failed hash verification'')
            else let name = member_name ''inputs'' g a (py_str (dgetN d ''destination'')) in Inr [(InputEntry name staged, name, b)]))"

definition BUNDLE_KIND :: string where
  "BUNDLE_KIND = ''runtime_bundle''"

definition BUNDLE_KEY :: string where
  "BUNDLE_KEY = ''runtime_bundle.zip''"

definition artifact_member :: "bundle_env \<Rightarrow> store \<Rightarrow> stage_row \<Rightarrow> attempt_row \<Rightarrow> artifact_row \<Rightarrow> member list result" where
  "artifact_member e s g a x =
     (if ar_kind x = BUNDLE_KIND then Inr []
      else ebind (artifact_path (be_resolve e) (be_resolve_in e) (ar_id x) s) (\<lambda>loc.
        case read_location (be_disk e) loc s of
          None \<Rightarrow> Inl (RuntimeStoreError ''artifact failed hash verification'')
        | Some b \<Rightarrow>
            if be_digest e b \<noteq> ar_sha256 x then Inl (RuntimeStoreError ''artifact failed hash verification'')
            else let name = member_name ''artifacts'' g a (ar_store_key x) in Inr [(ArtifactEntry name x, name, b)]))"

definition attempt_members :: "bundle_env \<Rightarrow> store \<Rightarrow> stage_row \<Rightarrow> attempt_view \<Rightarrow> member list result" where
  "attempt_members e s g v =
     (let a = av_attempt v in
      ebind (emap (input_member e s g a) (av_inputs v)) (\<lambda>ins.
      ebind (emap (artifact_member e s g a) (av_artifacts v)) (\<lambda>arts.
      Inr (concat (map (runtime_member e g a) RUNTIME_FILES) @ concat ins @ concat arts))))"

definition stage_members :: "bundle_env \<Rightarrow> store \<Rightarrow> stage_view \<Rightarrow> member list result" where
  "stage_members e s v = ebind (emap (attempt_members e s (sv_stage v)) (sv_attempts v)) (\<lambda>ms. Inr (concat ms))"

definition bundle_members :: "bundle_env \<Rightarrow> store \<Rightarrow> run_view \<Rightarrow> member list result" where
  "bundle_members e s v = ebind (emap (stage_members e s) (rv_stages v)) (\<lambda>ms. Inr (concat ms))"

text \<open>The archive: the run, its events, the members in order, and the index of the members.\<close>

definition bundle_archive :: "bundle_env \<Rightarrow> (bundle_entry list \<Rightarrow> bytes) \<Rightarrow> store \<Rightarrow> run_view \<Rightarrow> member list \<Rightarrow> bytes" where
  "bundle_archive e index_json s v ms =
     be_zip e ([(''run.json'', be_run_json e v), (''events.json'', be_events_json e (list_events (rn_id (rv_run v)) s))]
       @ map snd ms @ [(''artifacts/index.json'', index_json (map fst ms))])"

section \<open>Registration\<close>

definition bundle_metadata :: pydict where
  "bundle_metadata = [(PStr ''producer'', PStr ''runtime''), (PStr ''format'', PStr ''zip''), (PStr ''complete'', PBool True)]"

text \<open>\<open>_register_file\<close>: an artifact that already has the store key is returned as it is.\<close>

definition register_file ::
  "(bytes \<Rightarrow> string) \<Rightarrow> timestamp \<Rightarrow> string \<Rightarrow> string \<Rightarrow> string \<Rightarrow> string \<Rightarrow> bytes \<Rightarrow> pydict \<Rightarrow> store \<Rightarrow> artifact_row result \<times> store" where
  "register_file H now aid attempt_id key kind content meta s =
     (case Artifact_validate (artifact_for H aid (PStr kind) key content PNone meta) of
        Inl e \<Rightarrow> (Inl e, s)
      | Inr _ \<Rightarrow>
          (case fetchone (\<lambda>a. ar_attempt a = attempt_id \<and> ar_store_key a = key) (artifacts s) of
             Some x \<Rightarrow> (get_artifact (ar_id x) s, s)
           | None \<Rightarrow>
               (case store_object H content (H content) (int (length content)) s of
                  (Inl e, s1) \<Rightarrow> (Inl e, s1)
                | (Inr _, s1) \<Rightarrow>
                    let row = \<lparr> ar_id = aid, ar_attempt = attempt_id, ar_kind = kind, ar_store_key = key,
                        ar_size = int (length content), ar_sha256 = H content, ar_metadata = PDict meta,
                        ar_created = now, ar_storage = STORAGE_OBJECT \<rparr>
                    in (case insert_artifact row s1 of (Inl e, s2) \<Rightarrow> (Inl e, s2) | (Inr _, s2) \<Rightarrow> (Inr row, s2)))))"

definition export_run_bundle :: "bundle_env \<Rightarrow> (bundle_entry list \<Rightarrow> bytes) \<Rightarrow> string \<Rightarrow> store \<Rightarrow> artifact_row result \<times> store" where
  "export_run_bundle e index_json run_id s =
     (case describe_run run_id s of
        Inl x \<Rightarrow> (Inl x, s)
      | Inr v \<Rightarrow>
          if view_attempts v = [] then (Inl (RuntimeStoreError ''a run without an attempt has nothing to export''), s)
          else let latest = last (view_attempts v) in
            (case fetchone (\<lambda>x. ar_kind x = BUNDLE_KIND) (av_artifacts latest) of
               Some x \<Rightarrow> (Inr x, s)
             | None \<Rightarrow>
                 (case bundle_members e s v of
                    Inl x \<Rightarrow> (Inl x, s)
                  | Inr ms \<Rightarrow> register_file (be_digest e) (be_now e) (be_new_id e) (at_id (av_attempt latest)) BUNDLE_KEY BUNDLE_KIND
                      (bundle_archive e index_json s v ms) bundle_metadata s)))"

section \<open>What was verified\<close>

lemma emap_in:
  assumes "emap f xs = Inr ys" "x \<in> set xs"
  shows "\<exists>y \<in> set ys. f x = Inr y"
  using assms by (auto simp: emap_Inr_list_all2 list_all2_conv_all_nth in_set_conv_nth)

lemma emap_out:
  assumes "emap f xs = Inr ys" "y \<in> set ys"
  shows "\<exists>x \<in> set xs. f x = Inr y"
proof -
  have "list_all2 (\<lambda>x y. f x = Inr y) xs ys" using assms(1) by (simp add: emap_Inr_list_all2)
  from list_all2_right [OF this assms(2)] obtain x where "x \<in> set xs" "f x = Inr y" ..
  then show ?thesis ..
qed

lemma emap_concat:
  assumes "emap f xs = Inr ys"
  shows "m \<in> set (concat ys) \<longleftrightarrow> (\<exists>x \<in> set xs. \<exists>l. f x = Inr l \<and> m \<in> set l)"
proof
  assume "m \<in> set (concat ys)"
  then obtain l where "l \<in> set ys" "m \<in> set l" by auto
  then show "\<exists>x \<in> set xs. \<exists>l. f x = Inr l \<and> m \<in> set l" using emap_out [OF assms] by blast
next
  assume "\<exists>x \<in> set xs. \<exists>l. f x = Inr l \<and> m \<in> set l"
  then obtain x l where x: "x \<in> set xs" "f x = Inr l" "m \<in> set l" by blast
  from emap_in [OF assms x(1)] obtain y where "y \<in> set ys" "f x = Inr y" ..
  then show "m \<in> set (concat ys)" using x by auto
qed

text \<open>The member of an artifact has the registered digest, and one in custody has the registered bytes.\<close>

definition verified :: "bundle_env \<Rightarrow> member \<Rightarrow> bool" where
  "verified e m = (case fst m of
     RuntimeFile name d n \<Rightarrow> d = be_digest e (snd (snd m)) \<and> n = int (length (snd (snd m)))
   | InputEntry name staged \<Rightarrow> truthy (dgetN (items staged) ''sha256'') \<longrightarrow> dgetN (items staged) ''sha256'' = PStr (be_digest e (snd (snd m)))
   | ArtifactEntry name x \<Rightarrow> be_digest e (snd (snd m)) = ar_sha256 x)"

lemma attempt_members_verified:
  assumes "attempt_members e s g v = Inr ms"
  shows "(\<forall>m \<in> set ms. verified e m) \<and>
    (\<forall>x \<in> set (av_artifacts v). ar_kind x \<noteq> BUNDLE_KIND \<longrightarrow>
      (\<exists>b. (ArtifactEntry (member_name ''artifacts'' g (av_attempt v) (ar_store_key x)) x, member_name ''artifacts'' g (av_attempt v) (ar_store_key x), b) \<in> set ms))"
proof -
  let ?a = "av_attempt v"
  obtain ins arts where i: "emap (input_member e s g ?a) (av_inputs v) = Inr ins" and r: "emap (artifact_member e s g ?a) (av_artifacts v) = Inr arts"
    and ms: "ms = concat (map (runtime_member e g ?a) RUNTIME_FILES) @ concat ins @ concat arts"
    using assms by (auto simp: attempt_members_def Let_def ebind_Inr_iff)
  have run: "verified e m" if "m \<in> set (runtime_member e g ?a f)" for m f
    using that by (auto simp: runtime_member_def verified_def Let_def split: option.splits)
  have inp: "verified e m" if "input_member e s g ?a x = Inr l" "m \<in> set l" for m x l
    using that by (auto simp: input_member_def verified_def Let_def ebind_Inr_iff split: if_splits option.splits)
  have art: "verified e m" if "artifact_member e s g ?a x = Inr l" "m \<in> set l" for m x l
    using that by (auto simp: artifact_member_def verified_def Let_def ebind_Inr_iff split: if_splits option.splits)
  have "verified e m" if m: "m \<in> set ms" for m
  proof -
    consider "m \<in> set (concat (map (runtime_member e g ?a) RUNTIME_FILES))" | "m \<in> set (concat ins)" | "m \<in> set (concat arts)"
      using m unfolding ms set_append by blast
    then show ?thesis
    proof cases
      case 1
      then obtain f where "m \<in> set (runtime_member e g ?a f)" by auto
      then show ?thesis by (rule run)
    next
      case 2
      then show ?thesis using inp unfolding emap_concat [OF i] by blast
    next
      case 3
      then show ?thesis using art unfolding emap_concat [OF r] by blast
    qed
  qed
  moreover have "\<exists>b. (ArtifactEntry (member_name ''artifacts'' g ?a (ar_store_key x)) x, member_name ''artifacts'' g ?a (ar_store_key x), b) \<in> set ms"
    if x: "x \<in> set (av_artifacts v)" "ar_kind x \<noteq> BUNDLE_KIND" for x
  proof -
    from emap_in [OF r x(1)] obtain l where l: "l \<in> set arts" "artifact_member e s g ?a x = Inr l" ..
    then obtain b where b: "l = [(ArtifactEntry (member_name ''artifacts'' g ?a (ar_store_key x)) x, member_name ''artifacts'' g ?a (ar_store_key x), b)]"
      using x(2) by (auto simp: artifact_member_def Let_def ebind_Inr_iff split: if_splits option.splits)
    have "set l \<subseteq> set ms" using l(1) unfolding ms by auto
    then show ?thesis unfolding b by auto
  qed
  ultimately show ?thesis by blast
qed

lemma bundle_members_verified:
  assumes "bundle_members e s v = Inr ms"
  shows "(\<forall>m \<in> set ms. verified e m) \<and>
    (\<forall>w \<in> set (view_attempts v). \<forall>x \<in> set (av_artifacts w). ar_kind x \<noteq> BUNDLE_KIND \<longrightarrow> (\<exists>name b. (ArtifactEntry name x, name, b) \<in> set ms))"
proof -
  obtain gs where gs: "emap (stage_members e s) (rv_stages v) = Inr gs" "ms = concat gs"
    using assms by (auto simp: bundle_members_def ebind_Inr_iff)
  have parts: "m \<in> set ms \<longleftrightarrow> (\<exists>g \<in> set (rv_stages v). \<exists>w \<in> set (sv_attempts g). \<exists>k. attempt_members e s (sv_stage g) w = Inr k \<and> m \<in> set k)" for m
  proof -
    have "(\<exists>l. stage_members e s g = Inr l \<and> m \<in> set l) \<longleftrightarrow> (\<exists>w \<in> set (sv_attempts g). \<exists>k. attempt_members e s (sv_stage g) w = Inr k \<and> m \<in> set k)"
      if "g \<in> set (rv_stages v)" for g
    proof -
      from emap_in [OF gs(1) that] obtain l where "stage_members e s g = Inr l" by blast
      then obtain ks where ks: "emap (attempt_members e s (sv_stage g)) (sv_attempts g) = Inr ks" "stage_members e s g = Inr (concat ks)"
        by (auto simp: stage_members_def ebind_Inr_iff)
      then show ?thesis using emap_concat [OF ks(1), of m] by simp
    qed
    then show ?thesis unfolding gs(2) emap_concat [OF gs(1)] by blast
  qed
  have "verified e m" if "m \<in> set ms" for m
    using that attempt_members_verified unfolding parts by blast
  moreover have "\<exists>name b. (ArtifactEntry name x, name, b) \<in> set ms"
    if w: "w \<in> set (view_attempts v)" and x: "x \<in> set (av_artifacts w)" "ar_kind x \<noteq> BUNDLE_KIND" for w x
  proof -
    from w obtain g where g: "g \<in> set (rv_stages v)" "w \<in> set (sv_attempts g)" by (auto simp: view_attempts_def)
    from emap_in [OF gs(1) g(1)] obtain l where "stage_members e s g = Inr l" by blast
    then obtain ks where ks: "emap (attempt_members e s (sv_stage g)) (sv_attempts g) = Inr ks" by (auto simp: stage_members_def ebind_Inr_iff)
    from emap_in [OF ks g(2)] obtain k where k: "attempt_members e s (sv_stage g) w = Inr k" by blast
    from attempt_members_verified [OF k] x obtain name b where "(ArtifactEntry name x, name, b) \<in> set k" by blast
    then show ?thesis unfolding parts using g k by blast
  qed
  ultimately show ?thesis by blast
qed

lemma register_file_new:
  assumes "register_file H now aid attempt_id key kind content meta s = (Inr row, s1)"
    and "\<forall>x \<in> set (artifacts s). \<not> (ar_attempt x = attempt_id \<and> ar_store_key x = key)"
  shows "artifacts s1 = artifacts s @ [row] \<and> ar_kind row = kind \<and> ar_attempt row = attempt_id \<and> ar_sha256 row = H content \<and> in_custody H s1 row \<and>
    runs s1 = runs s \<and> stages s1 = stages s \<and> attempts s1 = attempts s \<and> metrics s1 = metrics s \<and> inputs s1 = inputs s"
proof -
  have none: "fetchone (\<lambda>a. ar_attempt a = attempt_id \<and> ar_store_key a = key) (artifacts s) = None"
    using assms(2) by (auto simp: fetchone_None)
  let ?row = "\<lparr> ar_id = aid, ar_attempt = attempt_id, ar_kind = kind, ar_store_key = key, ar_size = int (length content), ar_sha256 = H content,
      ar_metadata = PDict meta, ar_created = now, ar_storage = STORAGE_OBJECT \<rparr>"
  obtain s0 where s0: "store_object H content (H content) (int (length content)) s = (Inr (), s0)" "insert_artifact ?row s0 = (Inr (), s1)" "row = ?row"
    using assms(1) none by (auto simp: register_file_def Let_def split: sum.splits prod.splits)
  obtain c where c: "objects s0 (H content) = Some c" "H c = H content" "int (length c) = int (length content)"
    using obj.publish_there [OF s0(1)] by blast
  have s0s: "s0 = s\<lparr> objects := objects s0 \<rparr>" by (rule obj.publish_only [OF s0(1)])
  have s1: "s1 = s0\<lparr> artifacts := artifacts s0 @ [?row] \<rparr>" using s0(2) by (auto simp: insert_artifact_def split: if_splits)
  have "metrics s0 = metrics s" "inputs s0 = inputs s" by (subst s0s, simp)+
  then show ?thesis using c s0(3) obj.publish_tables [OF s0(1)] unfolding s1 by (simp add: in_custody_def)
qed

section \<open>Properties\<close>


section \<open>Scenarios\<close>

definition bundle_world :: bundle_env where
  "bundle_world = \<lparr> be_digest = toy_digest, be_now = 9, be_new_id = ''b1'', be_zip = (\<lambda>ms. concat (map (\<lambda>(n, b). n @ b) ms)),
     be_run_json = (\<lambda>_. ''run''), be_events_json = (\<lambda>_. ''events''), be_evidence = (\<lambda>_ _. None), be_workspace = (\<lambda>_ _. None),
     be_resolve = (\<lambda>_. []), be_resolve_in = (\<lambda>_ _. []), be_disk = Map.empty \<rparr>"

definition first_bundle :: "artifact_row result \<times> store" where
  "first_bundle = export_run_bundle bundle_world (\<lambda>_. ''index'') ''r'' sample_evidence"


text \<open>The run of \<open>sample_evidence\<close> is still running; its attempt registers one more artifact, and the run is exported again.\<close>

definition second_bundle :: "artifact_row result \<times> store" where
  "second_bundle = export_run_bundle bundle_world (\<lambda>_. ''index'') ''r''
     (snd (register_artifacts toy_digest 9 [''ws''] sample_look ''a1'' [(''x2'', sample_decl ''late.log'')] (snd first_bundle)))"

text \<open>
  A defect: a bundle made while the attempt is running is marked complete and kept for good. What the attempt
  registers afterwards is in no bundle, since every later export returns the first one.
\<close>

theorem bundle_frozen_early:
  "map at_status (attempts sample_evidence) = [A_RUNNING] \<and> map_sum id ar_id (fst first_bundle) = Inr ''b1'' \<and>
   map_sum id ar_id (fst second_bundle) = Inr ''b1'' \<and> map ar_id (artifacts (snd second_bundle)) = [''x1'', ''b1'', ''x2'']"
  by code_simp

text \<open>
  A defect: a plugin's own file of the name \<open>runtime_bundle.zip\<close> is returned as the bundle.
\<close>

theorem bundle_shadowed_by_plugin:
  "map_sum id (\<lambda>a. (ar_id a, ar_kind a)) (fst (export_run_bundle bundle_world (\<lambda>_. ''index'') ''r''
     (snd (register_artifacts toy_digest 5 [''ws''] sample_look ''a1'' [(''x1'', sample_decl ''runtime_bundle.zip'')]
       (sample_store\<lparr> runs := [sample_run], stages := [sample_stage] \<rparr>))))) = Inr (''x1'', ''log'')"
  by code_simp

end
