(* ===== verification/Presence.thy ===== *)
theory Presence
  imports Ledger
begin

text \<open>
  \<open>core/runtime/src/openroad_platform_runtime/worker_presence.py\<close>: the row each worker keeps of itself, and what the
  health page says of the workers and of the queue. The clock, the process id and the worker's name are arguments.
\<close>

section \<open>Workers\<close>

definition active_attempts :: "string \<Rightarrow> store \<Rightarrow> string list" where
  "active_attempts wid s =
     map at_id (sort_key at_started (filter (\<lambda>a. at_worker a = wid \<and> at_status a = A_RUNNING) (attempts s)))"

text \<open>\<open>INSERT ... ON CONFLICT(worker_id) DO UPDATE\<close>.\<close>

definition upsert_worker :: "worker_row \<Rightarrow> store \<Rightarrow> store" where
  "upsert_worker w s =
     s\<lparr> workers := (if wk_id w \<in> wk_id ` set (workers s) then update_where (\<lambda>x. wk_id x = wk_id w) (\<lambda>_. w) (workers s)
                   else workers s @ [w]) \<rparr>"

definition touch :: "timestamp \<Rightarrow> int \<Rightarrow> string \<Rightarrow> string option \<Rightarrow> store \<Rightarrow> store" where
  "touch now pid wid attempt_id s =
     (let found = active_attempts wid s;
          ids = (case attempt_id of None \<Rightarrow> found | Some a \<Rightarrow> if a \<in> set found then found else a # found)
      in upsert_worker \<lparr> wk_id = wid, wk_pid = pid, wk_last_seen = now,
           wk_current = (case ids of [] \<Rightarrow> None | a # _ \<Rightarrow> Some a), wk_state = (if ids = [] then ''idle'' else ''running'') \<rparr> s)"

text \<open>Thirty seconds; timestamps count microseconds.\<close>

definition STALE_AFTER :: timestamp where
  "STALE_AFTER = 30 * 1000000"

record worker_view =
  wv_worker :: worker_row
  wv_active :: "string list"
  wv_state :: string

definition snapshot :: "timestamp \<Rightarrow> timestamp \<Rightarrow> store \<Rightarrow> worker_view list" where
  "snapshot now stale_after s =
     map (\<lambda>w. \<lparr> wv_worker = w, wv_active = active_attempts (wk_id w) s,
                wv_state = (if wk_last_seen w \<ge> now - stale_after then wk_state w else ''stale'') \<rparr>)
       (sort_key wk_id (workers s))"

section \<open>The queue\<close>

record queue_view =
  qv_waiting :: nat
  qv_queued :: nat
  qv_retry_wait :: nat
  qv_oldest :: "timestamp option"
  qv_age :: timestamp

text \<open>The join of runs with their waiting stages.\<close>

definition waiting_rows :: "store \<Rightarrow> (run_row \<times> stage_row) list" where
  "waiting_rows s =
     filter (\<lambda>(r, g). sg_run g = rn_id r \<and> sg_status g \<in> {QUEUED, RETRY_WAIT}) (List.product (runs s) (stages s))"

definition queue_health :: "timestamp \<Rightarrow> store \<Rightarrow> queue_view" where
  "queue_health now s =
     (let rows = waiting_rows s; created = map (\<lambda>(r, g). rn_created r) rows;
          oldest = (case created of [] \<Rightarrow> None | t # ts \<Rightarrow> Some (fold min ts t))
      in \<lparr> qv_waiting = length rows, qv_queued = length (filter (\<lambda>(r, g). sg_status g = QUEUED) rows),
           qv_retry_wait = length (filter (\<lambda>(r, g). sg_status g = RETRY_WAIT) rows), qv_oldest = oldest,
           qv_age = (case oldest of None \<Rightarrow> 0 | Some t \<Rightarrow> max 0 (now - t)) \<rparr>)"

section \<open>What the reports say\<close>

lemma touch_tables [simp]:
  "runs (touch now pid w a s) = runs s" "stages (touch now pid w a s) = stages s" "attempts (touch now pid w a s) = attempts s"
  "reservations (touch now pid w a s) = reservations s" "artifacts (touch now pid w a s) = artifacts s"
  "objects (touch now pid w a s) = objects s" "uploaded (touch now pid w a s) = uploaded s" "events (touch now pid w a s) = events s"
  by (simp_all add: touch_def upsert_worker_def Let_def)

lemma active_attempts_touch [simp]: "active_attempts v (touch now pid w a s) = active_attempts v s"
  by (simp add: active_attempts_def)

lemma active_attempts_empty: "active_attempts w s = [] \<longleftrightarrow> (\<forall>a \<in> set (attempts s). at_worker a = w \<longrightarrow> at_status a \<noteq> A_RUNNING)"
proof -
  have "active_attempts w s = [] \<longleftrightarrow> set (active_attempts w s) = {}" by (simp only: set_empty)
  then show ?thesis by (auto simp: active_attempts_def)
qed

lemma upsert_worker_keys:
  assumes "distinct (map wk_id (workers s))"
  shows "distinct (map wk_id (workers (upsert_worker w s)))"
proof (cases "wk_id w \<in> wk_id ` set (workers s)")
  case True
  have "map wk_id (update_where (\<lambda>x. wk_id x = wk_id w) (\<lambda>_. w) (workers s)) = map wk_id (workers s)"
    by (simp add: update_where_def)
  then show ?thesis using True assms by (simp add: upsert_worker_def)
next
  case False
  then show ?thesis using assms by (simp add: upsert_worker_def)
qed

lemma upsert_worker_row:
  assumes "distinct (map wk_id (workers s))" "x \<in> set (workers (upsert_worker w s))"
  shows "x = w \<or> (x \<in> set (workers s) \<and> wk_id x \<noteq> wk_id w)"
  using assms by (auto simp: upsert_worker_def update_where_def split: if_splits intro: rev_image_eqI)

lemma upsert_worker_in: "w \<in> set (workers (upsert_worker w s))"
  by (auto simp: upsert_worker_def update_where_def)

lemma upsert_worker_kept:
  assumes "x \<in> set (workers s)" "wk_id x \<noteq> wk_id w"
  shows "x \<in> set (workers (upsert_worker w s))"
  using assms by (auto simp: upsert_worker_def update_where_def)

text \<open>
  A worker that has just reported itself is shown as running exactly when it holds a running attempt, with its
  current attempt among those it holds, and its report leaves the rows of the other workers as they were.
\<close>

theorem touch_reports_worker:
  assumes "distinct (map wk_id (workers s))" "0 \<le> stale_after" "v \<in> set (snapshot now stale_after (touch now pid w None s))"
    and "wk_id (wv_worker v) = w"
  shows "(wv_state v = ''running'' \<longleftrightarrow> (\<exists>a \<in> set (attempts s). at_worker a = w \<and> at_status a = A_RUNNING)) \<and>
    wv_state v \<in> {''running'', ''idle''} \<and>
    wk_current (wv_worker v) = (if wv_active v = [] then None else Some (hd (wv_active v)))"
proof -
  let ?ids = "active_attempts w s"
  let ?row = "\<lparr> wk_id = w, wk_pid = pid, wk_last_seen = now, wk_current = (case ?ids of [] \<Rightarrow> None | a # _ \<Rightarrow> Some a),
      wk_state = (if ?ids = [] then ''idle'' else ''running'') \<rparr>"
  have "wv_worker v \<in> set (workers (upsert_worker ?row s))"
    using assms(3) by (auto simp: snapshot_def touch_def Let_def)
  then have row: "wv_worker v = ?row" using upsert_worker_row [OF assms(1), of "wv_worker v" ?row] assms(4) by auto
  have v: "wv_active v = active_attempts (wk_id (wv_worker v)) s"
    "wv_state v = (if wk_last_seen (wv_worker v) \<ge> now - stale_after then wk_state (wv_worker v) else ''stale'')"
    using assms(3) by (auto simp: snapshot_def)
  show ?thesis using v row assms(2) active_attempts_empty [of w s] by (auto split: list.splits)
qed

lemma filter_product:
  "filter (\<lambda>(x, y). P x y) (List.product xs ys) = concat (map (\<lambda>x. map (Pair x) (filter (P x) ys)) xs)"
  by (induction xs) (simp_all add: filter_map o_def)

lemma filter_distinct_key:
  assumes "distinct (map f ys)" "y \<in> set ys"
  shows "filter (\<lambda>z. f z = f y) ys = [y]"
  using assms
proof (induction ys)
  case (Cons z zs)
  then show ?case by (cases "y = z") (auto simp: filter_empty_conv intro: rev_image_eqI)
qed simp

lemma concat_if: "concat (map (\<lambda>x. if P x then [f x] else []) xs) = map f (filter P xs)"
  by (induction xs) auto

lemma waiting_stage:
  assumes "well_formed s" "r \<in> set (runs s)"
  shows "\<exists>g. rn_status r = sg_status g \<and> filter (\<lambda>x. sg_run x = rn_id r) (stages s) = [g]"
proof -
  have "list_all2 paired (runs s) (stages s)" using assms(1) by (simp add: well_formed_def)
  then obtain g where g: "g \<in> set (stages s)" "paired r g" using assms(2) by (metis in_set_conv_nth list_all2_conv_all_nth)
  have "distinct (map sg_run (stages s))"
    using well_formed_stage_runs [OF assms(1)] well_formed_distinct [OF assms(1)] by simp
  from filter_distinct_key [OF this g(1)] show ?thesis using g(2) by (auto simp: paired_def)
qed

lemma waiting_runs:
  assumes "well_formed s"
  shows "map (\<lambda>(r, g). (r, sg_status g)) (waiting_rows s) =
    map (\<lambda>r. (r, rn_status r)) (filter (\<lambda>r. rn_status r \<in> {QUEUED, RETRY_WAIT}) (runs s))"
proof -
  have one: "map (\<lambda>g. (r, sg_status g)) (filter (\<lambda>g. sg_run g = rn_id r \<and> sg_status g \<in> {QUEUED, RETRY_WAIT}) (stages s)) =
      (if rn_status r \<in> {QUEUED, RETRY_WAIT} then [(r, rn_status r)] else [])" if "r \<in> set (runs s)" for r
  proof -
    obtain g where g: "rn_status r = sg_status g" "filter (\<lambda>x. sg_run x = rn_id r) (stages s) = [g]"
      using waiting_stage [OF assms \<open>r \<in> set (runs s)\<close>] by blast
    have "filter (\<lambda>g. sg_run g = rn_id r \<and> sg_status g \<in> {QUEUED, RETRY_WAIT}) (stages s) =
        filter (\<lambda>g. sg_status g \<in> {QUEUED, RETRY_WAIT}) (filter (\<lambda>x. sg_run x = rn_id r) (stages s))"
      by (simp add: conj_commute)
    then show ?thesis using g by simp
  qed
  have "map (\<lambda>(r, g). (r, sg_status g)) (waiting_rows s) =
      concat (map (\<lambda>r. map (\<lambda>g. (r, sg_status g)) (filter (\<lambda>g. sg_run g = rn_id r \<and> sg_status g \<in> {QUEUED, RETRY_WAIT}) (stages s))) (runs s))"
    by (simp add: waiting_rows_def filter_product map_concat o_def)
  also have "\<dots> = concat (map (\<lambda>r. if rn_status r \<in> {QUEUED, RETRY_WAIT} then [(r, rn_status r)] else []) (runs s))"
    using one by (intro arg_cong [of _ _ concat] map_cong) auto
  also have "\<dots> = map (\<lambda>r. (r, rn_status r)) (filter (\<lambda>r. rn_status r \<in> {QUEUED, RETRY_WAIT}) (runs s))"
    by (rule concat_if)
  finally show ?thesis .
qed

text \<open>
  The health page counts runs: in well-formed tables the queue it reports has one row for every run that waits, the
  two counts split them by status, and the oldest is the least of their submission times.
\<close>

theorem queue_health_exact:
  assumes "well_formed s"
  shows "qv_waiting (queue_health now s) = length (filter (\<lambda>r. rn_status r \<in> {QUEUED, RETRY_WAIT}) (runs s)) \<and>
    qv_queued (queue_health now s) = length (filter (\<lambda>r. rn_status r = QUEUED) (runs s)) \<and>
    qv_retry_wait (queue_health now s) = length (filter (\<lambda>r. rn_status r = RETRY_WAIT) (runs s)) \<and>
    qv_oldest (queue_health now s) =
      (if \<exists>r \<in> set (runs s). rn_status r \<in> {QUEUED, RETRY_WAIT}
       then Some (Min (rn_created ` {r \<in> set (runs s). rn_status r \<in> {QUEUED, RETRY_WAIT}})) else None)"
proof -
  let ?w = "\<lambda>r. rn_status r \<in> {QUEUED, RETRY_WAIT}"
  let ?xs = "map (\<lambda>(r, g). (r, sg_status g)) (waiting_rows s)"
  have xs: "?xs = map (\<lambda>r. (r, rn_status r)) (filter ?w (runs s))" by (rule waiting_runs [OF assms])
  have count: "length (filter (\<lambda>(r, g). sg_status g = x) (waiting_rows s)) = length (filter (\<lambda>r. rn_status r = x) (filter ?w (runs s)))" for x
  proof -
    have "length (filter (\<lambda>(r, g). sg_status g = x) (waiting_rows s)) = length (filter (\<lambda>p. snd p = x) ?xs)"
      by (simp add: filter_map o_def case_prod_unfold)
    then show ?thesis unfolding xs by (simp add: filter_map o_def)
  qed
  have created: "map (\<lambda>(r, g). rn_created r) (waiting_rows s) = map rn_created (filter ?w (runs s))"
  proof -
    have "map (\<lambda>(r, g). rn_created r) (waiting_rows s) = map (rn_created \<circ> fst) ?xs" by (simp add: case_prod_unfold)
    then show ?thesis unfolding xs by simp
  qed
  have least: "fold min ts t = Min (set (t # ts))" for t :: int and ts by (metis Min.set_eq_fold)
  have "qv_oldest (queue_health now s) = (case map rn_created (filter ?w (runs s)) of [] \<Rightarrow> None | t # ts \<Rightarrow> Some (Min (set (t # ts))))"
    by (simp add: queue_health_def Let_def created least split: list.split del: set_simps)
  moreover have "set (map rn_created (filter ?w (runs s))) = rn_created ` {r \<in> set (runs s). ?w r}" by auto
  moreover have "(\<exists>r \<in> set (runs s). ?w r) \<longleftrightarrow> map rn_created (filter ?w (runs s)) \<noteq> []" by (auto simp: filter_empty_conv)
  ultimately have oldest: "qv_oldest (queue_health now s) =
      (if \<exists>r \<in> set (runs s). ?w r then Some (Min (rn_created ` {r \<in> set (runs s). ?w r})) else None)"
    by (cases "map rn_created (filter ?w (runs s))") (simp_all del: set_simps set_map, metis list.simps(3) list.simps(8))
  have "qv_waiting (queue_health now s) = length ?xs" by (simp add: queue_health_def Let_def)
  then have "qv_waiting (queue_health now s) = length (filter ?w (runs s))" unfolding xs by simp
  moreover have "filter (\<lambda>r. rn_status r = QUEUED) (filter ?w (runs s)) = filter (\<lambda>r. rn_status r = QUEUED) (runs s)"
    "filter (\<lambda>r. rn_status r = RETRY_WAIT) (filter ?w (runs s)) = filter (\<lambda>r. rn_status r = RETRY_WAIT) (runs s)"
    by (auto intro: filter_cong)
  ultimately show ?thesis using count oldest by (simp add: queue_health_def Let_def)
qed

end
