(* ===== verification/PyText.thy ===== *)
theory PyText
  imports Json
begin

text \<open>
  What several components do with text: \<open>int(text)\<close>, \<open>str.split()\<close> without an argument and \<open>str.rfind\<close>, with the lemmas
  that read back what was printed.
\<close>

section \<open>Numbers\<close>

text \<open>\<open>int(text)\<close> on ASCII text: surrounding space, a sign, digits with single underscores between them.\<close>

definition unsigned_int :: "string \<Rightarrow> int option" where
  "unsigned_int s =
     (if list_all (\<lambda>p. p \<noteq> [] \<and> list_all is_digit p) (split_on (CHR ''_'') s) then Some (int (digits_value (concat (split_on (CHR ''_'') s)))) else None)"

definition parse_int :: "string \<Rightarrow> int option" where
  "parse_int s =
     (case strip s of
        [] \<Rightarrow> None
      | c # cs \<Rightarrow> if c = CHR ''-'' then map_option uminus (unsigned_int cs)
                  else if c = CHR ''+'' then unsigned_int cs else unsigned_int (c # cs))"

lemma strip_digits:
  assumes "list_all is_digit s"
  shows "strip s = s"
proof -
  have d: "dropWhile is_space xs = xs" if "list_all is_digit xs" for xs
    using that by (cases xs) (auto simp: is_digit_def is_space_def Let_def)
  have "list_all is_digit (rev s)" using assms by (auto simp: list_all_iff)
  then show ?thesis using d assms by (simp add: strip_def)
qed

lemma split_on_digits: "list_all is_digit s \<Longrightarrow> split_on (CHR ''_'') s = [s]"
  by (induction s) (auto simp: is_digit_def)

lemma parse_int_nat_str: "parse_int (nat_str n) = Some (int n)"
proof -
  have d: "list_all is_digit (nat_str n)" using nat_str_digits by (auto simp: list_all_iff)
  obtain c cs where c: "nat_str n = c # cs" using nat_str_nonempty by (meson neq_Nil_conv)
  then have "is_digit c" using d by simp
  then have "c \<noteq> CHR ''-'' \<and> c \<noteq> CHR ''+'' \<and> c \<noteq> CHR ''_''" by (auto simp: is_digit_def)
  then show ?thesis
    using d c digits_value_nat_str [of n] by (simp add: parse_int_def strip_digits unsigned_int_def split_on_digits)
qed

section \<open>Words\<close>

text \<open>\<open>str.split()\<close>: the maximal pieces without white space.\<close>

fun words_from :: "string \<Rightarrow> string \<Rightarrow> string list" where
  "words_from acc [] = (if acc = [] then [] else [rev acc])"
| "words_from acc (c # cs) =
     (if is_space c then (if acc = [] then words_from [] cs else rev acc # words_from [] cs) else words_from (c # acc) cs)"

definition words :: "string \<Rightarrow> string list" where
  "words s = words_from [] s"

definition plain :: "string \<Rightarrow> bool" where
  "plain w = (w \<noteq> [] \<and> list_all (\<lambda>c. \<not> is_space c) w)"

lemma words_from_plain:
  assumes "list_all (\<lambda>c. \<not> is_space c) w"
  shows "words_from acc (w @ rest) = words_from (rev w @ acc) rest"
  using assms by (induction w arbitrary: acc) simp_all

lemma words_Cons:
  assumes "plain w"
  shows "words (w @ CHR '' '' # rest) = w # words rest"
  using assms words_from_plain [of w "[]" "CHR '' '' # rest"]
  by (simp add: plain_def words_def is_space_def Let_def)

lemma words_single: "plain w \<Longrightarrow> words w = [w]"
  using words_from_plain [of w "[]" "[]"] by (simp add: plain_def words_def)

definition spaced :: "string list \<Rightarrow> string" where
  "spaced ws = concat (map (\<lambda>w. w @ '' '') ws)"

lemma words_spaced:
  assumes "list_all plain ws"
  shows "words (spaced ws) = ws"
  using assms by (induction ws) (simp_all add: spaced_def words_Cons, simp add: words_def)

lemma plain_nat_str: "plain (nat_str n)"
  using nat_str_digits by (fastforce simp: plain_def list_all_iff is_digit_def is_space_def Let_def)

section \<open>The last occurrence\<close>

definition rfind :: "char \<Rightarrow> string \<Rightarrow> int" where
  "rfind c s = (if c \<in> set s then int (length s) - 1 - int (length (takeWhile (\<lambda>x. x \<noteq> c) (rev s))) else - 1)"

lemma rfind_last:
  assumes "c \<notin> set ys"
  shows "rfind c (xs @ c # ys) = int (length xs)"
proof -
  have "takeWhile (\<lambda>x. x \<noteq> c) (rev ys @ c # rev xs) = rev ys"
    using assms by (subst takeWhile_append2) auto
  then show ?thesis by (simp add: rfind_def)
qed

end
