(* ===== verification/Gateway.thy ===== *)
theory Gateway
  imports Staging Identity Registry Bundle Presence PyText
begin

text \<open>
  The gateway's kernel surface: the router of \<open>gateway/src/openroad_platform_gateway/router.py\<close> and the handlers of
  \<open>kernel_api.py\<close> over the runtime's store, the identity store and the files of uploads in progress. A handler returns
  a response or the exception it raises, and the state it leaves. The clock and the identifiers drawn during a request
  are part of its environment, and so are the host's files and the registry's answer. Left out are the health and plugin
  pages, which only format, the ZIP bundle, and the bytes of the socket.
\<close>

section \<open>Requests\<close>

datatype body = NoBody | Bytes bytes | Json pyval

record request =
  rq_method :: string
  rq_path :: string
  rq_params :: "(string \<times> string) list"
  rq_query :: "(string \<times> string list) list"
  rq_headers :: "(string \<times> string) list"
  rq_body :: body

definition header :: "request \<Rightarrow> string \<Rightarrow> string option" where
  "header r name = map_option snd (fetchone (\<lambda>(k, _). lower k = lower name) (rq_headers r))"

definition q :: "request \<Rightarrow> string \<Rightarrow> string option" where
  "q r name = (case map_of (rq_query r) name of Some (v # _) \<Rightarrow> Some v | _ \<Rightarrow> None)"

definition q_all :: "request \<Rightarrow> string \<Rightarrow> string list" where
  "q_all r name = (case map_of (rq_query r) name of None \<Rightarrow> [] | Some vs \<Rightarrow> vs)"

definition q_int :: "request \<Rightarrow> string \<Rightarrow> int option \<Rightarrow> int option result" where
  "q_int r name dflt =
     (case q r name of
        None \<Rightarrow> Inr dflt
      | Some raw \<Rightarrow> (case parse_int raw of None \<Rightarrow> Inl (HttpError 400) | Some n \<Rightarrow> Inr (Some n)))"

text \<open>\<open>request.q_int(name, dflt) or other\<close>.\<close>

definition q_int_or :: "request \<Rightarrow> string \<Rightarrow> int \<Rightarrow> int result" where
  "q_int_or r name other =
     ebind (q_int r name (Some other)) (\<lambda>v. Inr (case v of None \<Rightarrow> other | Some n \<Rightarrow> if n = 0 then other else n))"

definition q_bool :: "request \<Rightarrow> string \<Rightarrow> bool" where
  "q_bool r name = (lower (case q r name of None \<Rightarrow> [] | Some v \<Rightarrow> v) \<in> {''1'', ''true'', ''yes'', ''on''})"

definition MAX_BODY_BYTES :: int where
  "MAX_BODY_BYTES = 1024 * 1024"

definition MAX_RESPONSE_BYTES :: int where
  "MAX_RESPONSE_BYTES = 4 * 1024 * 1024"

text \<open>\<open>_read_body\<close>: the two headers, the bytes on the wire, and what the JSON parser makes of them.\<close>

definition read_body :: "string option \<Rightarrow> string \<Rightarrow> bytes \<Rightarrow> pyval option \<Rightarrow> body result" where
  "read_body length_header content_type raw parsed =
     (case length_header of
        None \<Rightarrow> Inr NoBody
      | Some [] \<Rightarrow> Inr NoBody
      | Some l \<Rightarrow>
          (case parse_int l of
             None \<Rightarrow> Inl (HttpError 400)
           | Some n \<Rightarrow>
               let octets = (lower (strip (hd (split_on (CHR '';'') content_type))) = ''application/octet-stream'') in
               if n < 0 \<or> MAX_BODY_BYTES < n then Inl (HttpError 413)
               else if n = 0 then Inr (if octets then Bytes [] else NoBody)
               else if octets then Inr (Bytes (take (nat n) raw))
               else (case parsed of None \<Rightarrow> Inl (HttpError 400) | Some v \<Rightarrow> Inr (Json v))))"

section \<open>The router\<close>

text \<open>\<open>urllib.parse.unquote\<close> on escapes of ASCII characters.\<close>

definition hex_value :: "char \<Rightarrow> nat option" where
  "hex_value c =
     (let n = of_char c in
      if 48 \<le> n \<and> n \<le> 57 then Some (n - 48) else if 65 \<le> n \<and> n \<le> 70 then Some (n - 55)
      else if 97 \<le> n \<and> n \<le> 102 then Some (n - 87) else None)"

fun unquote :: "string \<Rightarrow> string" where
  "unquote (c # a # b # rest) =
     (case (hex_value a, hex_value b) of
        (Some x, Some y) \<Rightarrow> if c = CHR ''%'' \<and> 16 * x + y < 128 then char_of (16 * x + y) # unquote rest else c # unquote (a # b # rest)
      | _ \<Rightarrow> c # unquote (a # b # rest))"
| "unquote s = s"

datatype seg = Lit string | Par string | Tail string

definition seg_of :: "string \<Rightarrow> seg" where
  "seg_of p =
     (if p \<noteq> [] \<and> hd p = CHR ''{'' \<and> last p = CHR ''}''
      then let name = butlast (tl p) in
           if length name \<ge> 3 \<and> drop (length name - 3) name = ''...'' then Tail (take (length name - 3) name) else Par name
      else Lit p)"

definition template :: "string \<Rightarrow> seg list" where
  "template t = map seg_of (split_on (CHR ''/'') t)"

fun seg_width :: "seg \<Rightarrow> nat" where
  "seg_width (Lit l) = length l"
| "seg_width (Par n) = 11 + length n"
| "seg_width (Tail n) = 8 + length n"

definition pattern_width :: "seg list \<Rightarrow> nat" where
  "pattern_width ts = sum_list (map (\<lambda>t. seg_width t + 1) ts) + 1"

fun join_path :: "string list \<Rightarrow> string" where
  "join_path [] = []"
| "join_path [x] = x"
| "join_path (x # xs) = x @ CHR ''/'' # join_path xs"

fun match_segs :: "seg list \<Rightarrow> string list \<Rightarrow> (string \<times> string) list option" where
  "match_segs [] [] = Some []"
| "match_segs [Tail n] (x # xs) = Some [(n, unquote (join_path (x # xs)))]"
| "match_segs (Lit l # ts) (x # xs) = (if x = l then match_segs ts xs else None)"
| "match_segs (Par n # ts) (x # xs) = (if x = [] then None else map_option ((#) (n, unquote x)) (match_segs ts xs))"
| "match_segs _ _ = None"

record 'h route =
  rt_method :: string
  rt_segs :: "seg list"
  rt_handler :: 'h

definition match_path :: "'h route \<Rightarrow> string \<Rightarrow> (string \<times> string) list option" where
  "match_path r path = match_segs (rt_segs r) (split_on (CHR ''/'') path)"

definition match_route :: "'h route list \<Rightarrow> string \<Rightarrow> string \<Rightarrow> ('h route \<times> (string \<times> string) list) option" where
  "match_route routes meth path =
     map_option (\<lambda>r. (r, the (match_path r path)))
       (fetchone (\<lambda>r. rt_method r = meth \<and> match_path r path \<noteq> None) (sort_key (\<lambda>r. - int (pattern_width (rt_segs r))) routes))"

definition allowed_methods :: "'h route list \<Rightarrow> string \<Rightarrow> string list" where
  "allowed_methods routes path = remdups (map rt_method (filter (\<lambda>r. match_path r path \<noteq> None) routes))"

section \<open>The kernel behind the surface\<close>

record kstate =
  ks_store :: store
  ks_ident :: ident
  ks_uploads :: "string \<rightharpoonup> bytes \<times> timestamp"

text \<open>
  The environment of one request. \<open>kv_is_file\<close> is \<open>Path(source).is_file()\<close> on the text as given; \<open>kv_world\<close> holds what the
  runtime sees, which expands a user's home first.
\<close>

record kenv =
  kv_now :: timestamp
  kv_digest :: "bytes \<Rightarrow> string"
  kv_token_hash :: "string \<Rightarrow> string"
  kv_derive :: "string \<Rightarrow> string \<Rightarrow> int \<Rightarrow> string"
  kv_world :: world
  kv_is_file :: "string \<Rightarrow> bool"
  kv_logs :: "string \<rightharpoonup> bytes"
  kv_supports_limits :: bool
  kv_roots :: "string list"
  kv_config :: RuntimeConfig
  kv_resolver :: "pyval \<Rightarrow> pyval \<Rightarrow> pyval \<Rightarrow> PluginManifest result"
  kv_run_id :: string
  kv_stage_id :: string
  kv_input_id :: "nat \<Rightarrow> string"
  kv_event_id :: string
  kv_user_id :: string
  kv_salt :: string
  kv_token :: string
  kv_session_id :: string
  allow_anonymous :: bool
  local_user_id :: "string option"
  kv_registry :: registry
  evaluator_error :: "string option"
  kv_bundle :: bundle_env
  kv_index_json :: "bundle_entry list \<Rightarrow> bytes"

datatype payload =
    PRun run_view "explanation option"
  | PRetried run_view
  | PRuns "run_summary list"
  | PTree "(pyval \<times> (run_view \<times> explanation option) list) list" nat int int bool "int option"
  | PToken string AuthSession
  | PSession "AuthSession option"
  | POk
  | PInput uploaded_row
  | POffset string int
  | PMetrics "metric_provenance list"
  | PArtifacts "artifact_entry list"
  | PTimeline "timeline_entry list"
  | PResources resource_view
  | PLogs int bytes
  | PExcerpt excerpt
  | PContent bytes string
  | PGraph graph
  | PHealth nat nat "string option" "worker_view list" queue_view
  | PPlugins "pyval list"
  | PBundle artifact_row

type_synonym response = "nat \<times> payload"

subsection \<open>Who is calling\<close>

definition PUBLIC_PATHS :: "(string \<times> string) list" where
  "PUBLIC_PATHS = [(''GET'', ''/kernel/health''), (''POST'', ''/kernel/auth/register''), (''POST'', ''/kernel/auth/login'')]"

definition is_public :: "request \<Rightarrow> bool" where
  "is_public r = ((rq_method r, rq_path r) \<in> set PUBLIC_PATHS)"

definition bearer :: "request \<Rightarrow> string option" where
  "bearer r =
     (let h = (case header r ''Authorization'' of None \<Rightarrow> [] | Some h \<Rightarrow> h) in
      if take 7 (lower h) = ''bearer '' then Some (strip (drop 7 h)) else None)"

definition anonymous_session :: "kenv \<Rightarrow> AuthSession option" where
  "anonymous_session e =
     (case local_user_id e of
        None \<Rightarrow> None
      | Some u \<Rightarrow> if allow_anonymous e \<and> u \<noteq> []
                  then Some \<lparr> au_user_id = u, au_username = ''local-user'', au_developer = True, au_session_id = ''session-local'' \<rparr> else None)"

definition authenticate :: "kenv \<Rightarrow> request \<Rightarrow> kstate \<Rightarrow> AuthSession option \<times> kstate" where
  "authenticate e r st =
     (case bearer r of
        None \<Rightarrow> (anonymous_session e, st)
      | Some t \<Rightarrow>
          (case resolve_token (kv_token_hash e) (kv_now e) (Some t) (ks_ident st) of
             (Some a, i) \<Rightarrow> (Some a, st\<lparr> ks_ident := i \<rparr>)
           | (None, i) \<Rightarrow> (anonymous_session e, st\<lparr> ks_ident := i \<rparr>)))"

definition caller_id :: "kenv \<Rightarrow> AuthSession option \<Rightarrow> string option" where
  "caller_id e session = (case session of Some a \<Rightarrow> Some (au_user_id a) | None \<Rightarrow> local_user_id e)"

definition require_ownership :: "kenv \<Rightarrow> string \<Rightarrow> string \<Rightarrow> AuthSession option \<Rightarrow> kstate \<Rightarrow> unit result" where
  "require_ownership e rtype rid session st =
     (case caller_id e session of
        None \<Rightarrow> Inr ()
      | Some owner \<Rightarrow>
          if owner_of rtype rid (ks_ident st) = None \<and> \<not> (case session of None \<Rightarrow> False | Some a \<Rightarrow> au_developer a) then Inl (HttpError 404)
          else if \<not> owns_resource rtype rid owner True (ks_ident st) then Inl (HttpError 404)
          else Inr ())"

text \<open>\<open>bind_resource\<close> for the caller, if there is one.\<close>

definition bind_for :: "kenv \<Rightarrow> string \<Rightarrow> string \<Rightarrow> AuthSession option \<Rightarrow> kstate \<Rightarrow> unit result \<times> kstate" where
  "bind_for e rtype rid session st =
     (case caller_id e session of
        None \<Rightarrow> (Inr (), st)
      | Some owner \<Rightarrow>
          if owner = [] then (Inr (), st)
          else (case bind_resource (kv_now e) rtype rid owner (ks_ident st) of (x, i) \<Rightarrow> (x, st\<lparr> ks_ident := i \<rparr>)))"

text \<open>An \<open>except\<close> clause: the exceptions it names become an HTTP error.\<close>

definition rescue :: "(pyexn \<Rightarrow> nat option) \<Rightarrow> 'a result \<Rightarrow> 'a result" where
  "rescue f r = (case r of Inr x \<Rightarrow> Inr x | Inl x \<Rightarrow> (case f x of None \<Rightarrow> Inl x | Some c \<Rightarrow> Inl (HttpError c)))"

definition store_error :: "nat \<Rightarrow> pyexn \<Rightarrow> nat option" where
  "store_error c x = (if is_RuntimeStoreError x then Some c else None)"

definition value_error :: "nat \<Rightarrow> pyexn \<Rightarrow> nat option" where
  "value_error c x = (if is_ValueError x then Some c else None)"

definition store_or_value :: "nat \<Rightarrow> nat \<Rightarrow> pyexn \<Rightarrow> nat option" where
  "store_or_value c d x = (if is_RuntimeStoreError x then Some c else if is_ValueError x then Some d else None)"

definition body_object :: "request \<Rightarrow> pydict result" where
  "body_object r = (case rq_body r of Json (PDict d) \<Rightarrow> Inr d | _ \<Rightarrow> Inl (HttpError 400))"

definition body_text :: "pydict \<Rightarrow> string \<Rightarrow> string" where
  "body_text d k = (if truthy (dgetN d k) then text_of (dgetN d k) else [])"

definition param :: "request \<Rightarrow> string \<Rightarrow> string" where
  "param r k = (case map_of (rq_params r) k of None \<Rightarrow> [] | Some v \<Rightarrow> v)"

subsection \<open>Accounts\<close>

definition auth_register :: "kenv \<Rightarrow> request \<Rightarrow> kstate \<Rightarrow> response result \<times> kstate" where
  "auth_register e r st =
     (case body_object r of
        Inl x \<Rightarrow> (Inl x, st)
      | Inr d \<Rightarrow>
          (case register_account (kv_token_hash e) (kv_derive e) (kv_now e) (kv_user_id e) (kv_salt e) (kv_token e) (kv_session_id e)
                  (body_text d ''username'') (body_text d ''password'') (ks_ident st) of
             (x, i) \<Rightarrow> (ebind (rescue (value_error 400) x) (\<lambda>(a, t). Inr (200, PToken t a)), st\<lparr> ks_ident := i \<rparr>)))"

definition auth_login :: "kenv \<Rightarrow> request \<Rightarrow> kstate \<Rightarrow> response result \<times> kstate" where
  "auth_login e r st =
     (case body_object r of
        Inl x \<Rightarrow> (Inl x, st)
      | Inr d \<Rightarrow>
          (case login (kv_token_hash e) (kv_derive e) (kv_now e) (kv_token e) (kv_session_id e)
                  (body_text d ''username'') (body_text d ''password'') (ks_ident st) of
             (x, i) \<Rightarrow> (ebind (rescue (value_error 401) x) (\<lambda>(a, t). Inr (200, PToken t a)), st\<lparr> ks_ident := i \<rparr>)))"

definition auth_session :: "AuthSession option \<Rightarrow> response result" where
  "auth_session session = Inr (200, PSession session)"

definition auth_logout :: "kenv \<Rightarrow> request \<Rightarrow> kstate \<Rightarrow> response result \<times> kstate" where
  "auth_logout e r st =
     (case bearer r of
        None \<Rightarrow> (Inr (200, POk), st)
      | Some t \<Rightarrow> (Inr (200, POk), st\<lparr> ks_ident := logout (kv_token_hash e) (Some t) (ks_ident st) \<rparr>))"

subsection \<open>Inputs\<close>

definition MAX_INPUT_UPLOAD_BYTES :: int where
  "MAX_INPUT_UPLOAD_BYTES = 64 * 1024 ^ 3"

definition INPUT_UPLOAD_TTL_SECONDS :: int where
  "INPUT_UPLOAD_TTL_SECONDS = 24 * 60 * 60"

definition bound_input :: "kenv \<Rightarrow> AuthSession option \<Rightarrow> uploaded_row result \<times> store \<Rightarrow> kstate \<Rightarrow> response result \<times> kstate" where
  "bound_input e session up st =
     (case up of
        (Inl x, s) \<Rightarrow> (Inl x, st\<lparr> ks_store := s \<rparr>)
      | (Inr u, s) \<Rightarrow>
          (case bind_for e ''input'' (up_id u) session (st\<lparr> ks_store := s \<rparr>) of
             (Inl x, st2) \<Rightarrow> (Inl x, st2) | (Inr _, st2) \<Rightarrow> (Inr (201, PInput u), st2)))"

definition ingest_upload :: "kenv \<Rightarrow> request \<Rightarrow> AuthSession option \<Rightarrow> kstate \<Rightarrow> response result \<times> kstate" where
  "ingest_upload e r session st =
     (case rq_body r of
        Bytes b \<Rightarrow> bound_input e session (ingest_input (kv_digest e) (kv_now e) (kv_input_id e 0) b (ks_store st)) st
      | _ \<Rightarrow> (Inl (HttpError 400), st))"

definition UPLOAD_ID :: "string \<Rightarrow> bool" where
  "UPLOAD_ID s = (16 \<le> length s \<and> length s \<le> 128 \<and> list_all (\<lambda>c. letter_or_digit c \<or> c \<in> set ''_-'') s)"

definition drop_stale :: "timestamp \<Rightarrow> (string \<rightharpoonup> bytes \<times> timestamp) \<Rightarrow> (string \<rightharpoonup> bytes \<times> timestamp)" where
  "drop_stale cutoff m = (\<lambda>k. case m k of None \<Rightarrow> None | Some (b, t) \<Rightarrow> if t < cutoff then None else Some (b, t))"

definition ingest_input_chunk :: "kenv \<Rightarrow> request \<Rightarrow> AuthSession option \<Rightarrow> kstate \<Rightarrow> response result \<times> kstate" where
  "ingest_input_chunk e r session st =
     (let upload_id = (case q r ''upload_id'' of None \<Rightarrow> [] | Some v \<Rightarrow> v) in
      case rq_body r of
        Bytes b \<Rightarrow>
          if \<not> UPLOAD_ID upload_id then (Inl (HttpError 400), st)
          else (case q_int_or r ''offset'' 0 of
            Inl x \<Rightarrow> (Inl x, st)
          | Inr offset \<Rightarrow>
              if offset < 0 then (Inl (HttpError 400), st)
              else
                let ups = drop_stale (kv_now e - INPUT_UPLOAD_TTL_SECONDS * 1000000) (ks_uploads st);
                    held = (case ups upload_id of None \<Rightarrow> [] | Some (c, _) \<Rightarrow> c);
                    current = int (length held); st1 = st\<lparr> ks_uploads := ups \<rparr> in
                if current \<noteq> offset then (Inl (HttpError 409), st1)
                else if current + int (length b) > MAX_INPUT_UPLOAD_BYTES then (Inl (HttpError 413), st1)
                else if \<not> q_bool r ''final''
                then (Inr (200, POffset upload_id (current + int (length b))), st1\<lparr> ks_uploads := ups(upload_id \<mapsto> (held @ b, kv_now e)) \<rparr>)
                else bound_input e session
                  (ingest_input_file (kv_digest e) (kv_now e) (kv_input_id e 0) (Some (held @ b)) (held @ b) (ks_store st))
                  (st1\<lparr> ks_uploads := ups(upload_id := None) \<rparr>))
      | _ \<Rightarrow> (Inl (HttpError 400), st))"

subsection \<open>Runs\<close>

text \<open>The checks \<open>submit_run\<close> makes on one declared input, in their order.\<close>

definition shared_check :: "kenv \<Rightarrow> AuthSession option \<Rightarrow> InputFile \<Rightarrow> unit result" where
  "shared_check e session d =
     echeck (in_source d \<noteq> PNone \<and> (case session of None \<Rightarrow> False | Some a \<Rightarrow> au_username a \<noteq> ''local-user'') \<and>
        kv_is_file e (py_str (in_source d)) \<and> kv_roots e = []) (HttpError 400)"

definition input_check :: "kenv \<Rightarrow> AuthSession option \<Rightarrow> kstate \<Rightarrow> InputFile \<Rightarrow> unit result" where
  "input_check e session st d = eall
     [ shared_check e session d,
       (if in_input_id d = PNone then Inr () else require_ownership e ''input'' (py_str (in_input_id d)) session st),
       (if in_artifact_id d = PNone then Inr ()
        else ebind (rescue (store_error 400) (artifact_run_id (py_str (in_artifact_id d)) (ks_store st)))
          (\<lambda>owner_run. require_ownership e ''run'' owner_run session st)) ]"

definition submit_refusal :: "string option \<Rightarrow> pyexn \<Rightarrow> nat option" where
  "submit_refusal key x =
     (case x of RegistryError _ \<Rightarrow> Some 400 | InputStagingError _ \<Rightarrow> Some 400 | ResourceLimitsUnsupported \<Rightarrow> Some 400
      | _ \<Rightarrow> if is_ValueError x then Some 400 else if is_RuntimeStoreError x then Some (if key = None then 500 else 409) else None)"

definition submit_idempotent :: "kenv \<Rightarrow> TaskSpec \<Rightarrow> bool \<Rightarrow> string option \<Rightarrow> store \<Rightarrow> run_row result \<times> store" where
  "submit_idempotent e task idem key s =
     submit (kv_digest e) (kv_now e) (kv_input_id e) (kv_run_id e) (kv_stage_id e) (kv_world e) (kv_supports_limits e) (kv_roots e)
       (kv_resolver e) (kv_config e) task PNone PNone idem key s"

fun bind_inputs :: "kenv \<Rightarrow> AuthSession option \<Rightarrow> InputFile list \<Rightarrow> kstate \<Rightarrow> unit result \<times> kstate" where
  "bind_inputs e session [] st = (Inr (), st)"
| "bind_inputs e session (d # ds) st =
     (if in_input_id d = PNone then bind_inputs e session ds st
      else (case bind_for e ''input'' (py_str (in_input_id d)) session st of
        (Inl x, st1) \<Rightarrow> (Inl x, st1) | (Inr _, st1) \<Rightarrow> bind_inputs e session ds st1))"

definition bind_run :: "kenv \<Rightarrow> AuthSession option \<Rightarrow> run_row \<Rightarrow> kstate \<Rightarrow> unit result \<times> kstate" where
  "bind_run e session run st =
     (case bind_for e ''run'' (rn_id run) session st of
        (Inl x, st1) \<Rightarrow> (Inl x, st1)
      | (Inr _, st1) \<Rightarrow>
          if caller_id e session \<in> {None, Some []} then (Inr (), st1) else bind_inputs e session (staged_inputs (rn_task run)) st1)"

definition detail_of_run :: "kenv \<Rightarrow> string \<Rightarrow> store \<Rightarrow> (run_view \<times> explanation option) result" where
  "detail_of_run e run_id s = ebind (describe_run run_id s) (\<lambda>v. ebind (waiting_for (kv_config e) run_id s) (\<lambda>w. Inr (v, w)))"

definition run_response :: "kenv \<Rightarrow> nat \<Rightarrow> string \<Rightarrow> store \<Rightarrow> response result" where
  "run_response e code run_id s = ebind (detail_of_run e run_id s) (\<lambda>(v, w). Inr (code, PRun v w))"

definition submitted_task :: "request \<Rightarrow> TaskSpec result" where
  "submitted_task r =
     ebind (body_object r) (\<lambda>d.
     if \<not> is_dict (dgetN d ''task'') then Inl (HttpError 400)
     else rescue (\<lambda>x. if is_ContractError x then Some 400 else None) (TaskSpec_from_dict (dgetN d ''task'')))"

definition post_run :: "kenv \<Rightarrow> request \<Rightarrow> AuthSession option \<Rightarrow> kstate \<Rightarrow> response result \<times> kstate" where
  "post_run e r session st =
     (case ebind (submitted_task r) (\<lambda>task. ebind (eall (map (input_check e session st) (staged_inputs task))) (\<lambda>_. Inr task)) of
        Inl x \<Rightarrow> (Inl x, st)
      | Inr task \<Rightarrow>
          let key = q r ''idempotency_key'' in
          (case submit_idempotent e task (q r ''idempotent'' \<noteq> None \<or> key \<noteq> None) key (ks_store st) of
             (Inl x, s) \<Rightarrow> (rescue (submit_refusal key) (Inl x), st\<lparr> ks_store := s \<rparr>)
           | (Inr run, s) \<Rightarrow>
               (case bind_run e session run (st\<lparr> ks_store := s \<rparr>) of
                  (Inl x, st2) \<Rightarrow> (Inl x, st2)
                | (Inr _, st2) \<Rightarrow> (run_response e 201 (rn_id run) (ks_store st2), st2))))"

definition owned_runs :: "AuthSession option \<Rightarrow> kstate \<Rightarrow> string set option" where
  "owned_runs session st =
     (case session of None \<Rightarrow> None
      | Some a \<Rightarrow> if au_developer a then None else Some (set (resources_owned ''run'' (au_user_id a) (ks_ident st))))"

definition get_runs :: "kenv \<Rightarrow> request \<Rightarrow> AuthSession option \<Rightarrow> kstate \<Rightarrow> response result" where
  "get_runs e r session st =
     ebind (q_int r ''limit'' None) (\<lambda>limit.
     ebind (q_int_or r ''offset'' 0) (\<lambda>offset.
     ebind (rescue (value_error 400) (index_runs \<lparr> rf_project = q r ''project_id'', rf_design = q r ''design_id'',
        rf_plugin = q r ''plugin_id'', rf_status = q r ''status'', rf_owned = owned_runs session st \<rparr>
        (case limit of None \<Rightarrow> DEFAULT_RUN_LIMIT | Some n \<Rightarrow> n) offset (ks_store st))) (\<lambda>xs.
     Inr (200, PRuns xs))))"

definition group_by_revision :: "(pyval \<times> 'a) list \<Rightarrow> (pyval \<times> 'a list) list" where
  "group_by_revision xs =
     (let key = (\<lambda>v. if truthy v then v else PStr ''unversioned'') in
      map (\<lambda>k. (fst (the (fetchone (\<lambda>(v, _). key v = k) xs)), map snd (filter (\<lambda>(v, _). key v = k) xs)))
        (rev (remdups (rev (map (\<lambda>(v, _). key v) xs)))))"

definition design_tree :: "kenv \<Rightarrow> request \<Rightarrow> AuthSession option \<Rightarrow> kstate \<Rightarrow> response result" where
  "design_tree e r session st =
     ebind (q_int_or r ''offset'' 0) (\<lambda>offset.
     ebind (q_int_or r ''limit'' 500) (\<lambda>limit.
     if \<not> (1 \<le> limit \<and> limit \<le> 500) then Inl (HttpError 400)
     else
       let f = \<lparr> rf_project = None, rf_design = Some (param r ''design_id''), rf_plugin = None, rf_status = None,
                 rf_owned = owned_runs session st \<rparr> in
       ebind (index_runs f (min (limit + 1) 500) offset (ks_store st)) (\<lambda>page.
       let has_more = (int (length page) > limit \<or> (limit = 500 \<and> length page = 500)); shown = take (nat limit) page in
       ebind (count_runs f (ks_store st)) (\<lambda>n.
       ebind (emap (\<lambda>x. ebind (detail_of_run e (rn_id (rsu_run x)) (ks_store st)) (\<lambda>node. Inr (design_revision_id (rn_task (rsu_run x)), node))) shown) (\<lambda>ns.
       Inr (200, PTree (group_by_revision ns) n offset limit has_more (if has_more then Some (offset + limit) else None)))))))"

definition get_run_page :: "kenv \<Rightarrow> request \<Rightarrow> AuthSession option \<Rightarrow> kstate \<Rightarrow> response result" where
  "get_run_page e r session st =
     ebind (require_ownership e ''run'' (param r ''run_id'') session st) (\<lambda>_.
     rescue (store_error 404) (run_response e 200 (param r ''run_id'') (ks_store st)))"

definition cancel_run :: "kenv \<Rightarrow> request \<Rightarrow> AuthSession option \<Rightarrow> kstate \<Rightarrow> response result \<times> kstate" where
  "cancel_run e r session st =
     (case require_ownership e ''run'' (param r ''run_id'') session st of
        Inl x \<Rightarrow> (Inl x, st)
      | Inr _ \<Rightarrow>
          (case request_cancel (kv_now e) (param r ''run_id'') (ks_store st) of
             (Inl x, s) \<Rightarrow> (rescue (store_error 404) (Inl x), st\<lparr> ks_store := s \<rparr>)
           | (Inr _, s) \<Rightarrow> (run_response e 200 (param r ''run_id'') s, st\<lparr> ks_store := s \<rparr>)))"

definition retry_run :: "kenv \<Rightarrow> request \<Rightarrow> AuthSession option \<Rightarrow> kstate \<Rightarrow> response result \<times> kstate" where
  "retry_run e r session st =
     (case ebind (require_ownership e ''run'' (param r ''run_id'') session st) (\<lambda>_. body_object r) of
        Inl x \<Rightarrow> (Inl x, st)
      | Inr d \<Rightarrow>
          let requester = (case caller_id e session of None \<Rightarrow> ''anonymous'' | Some u \<Rightarrow> if u = [] then ''anonymous'' else u) in
          (case request_retry (kv_now e) (kv_event_id e) (param r ''run_id'') requester (body_text d ''reason'') (ks_store st) of
             (Inl x, s) \<Rightarrow> (rescue (store_or_value 400 400) (Inl x), st\<lparr> ks_store := s \<rparr>)
           | (Inr _, s) \<Rightarrow>
               (ebind (rescue (store_or_value 400 400) (describe_run (param r ''run_id'') s)) (\<lambda>v. Inr (202, PRetried v)), st\<lparr> ks_store := s \<rparr>)))"

subsection \<open>Evidence\<close>

definition get_bundle :: "kenv \<Rightarrow> request \<Rightarrow> AuthSession option \<Rightarrow> kstate \<Rightarrow> response result \<times> kstate" where
  "get_bundle e r session st =
     (case require_ownership e ''run'' (param r ''run_id'') session st of
        Inl x \<Rightarrow> (Inl x, st)
      | Inr _ \<Rightarrow>
          (case export_run_bundle (kv_bundle e) (kv_index_json e) (param r ''run_id'') (ks_store st) of
             (x, s) \<Rightarrow> (ebind (rescue (store_error 409) x) (\<lambda>a. Inr (201, PBundle a)), st\<lparr> ks_store := s \<rparr>)))"

definition get_metrics :: "kenv \<Rightarrow> request \<Rightarrow> AuthSession option \<Rightarrow> kstate \<Rightarrow> response result" where
  "get_metrics e r session st =
     ebind (require_ownership e ''run'' (param r ''run_id'') session st) (\<lambda>_.
     ebind (index_metrics (param r ''run_id'') (q_bool r ''complete_only'') (ks_store st)) (\<lambda>ps. Inr (200, PMetrics ps)))"

definition get_artifacts :: "kenv \<Rightarrow> request \<Rightarrow> AuthSession option \<Rightarrow> kstate \<Rightarrow> response result" where
  "get_artifacts e r session st =
     ebind (require_ownership e ''run'' (param r ''run_id'') session st) (\<lambda>_.
     ebind (inventory_for_run (param r ''run_id'') (q r ''category'') (q r ''format'') (q r ''stage'') (ks_store st)) (\<lambda>es.
     Inr (200, PArtifacts es)))"

definition get_timeline :: "kenv \<Rightarrow> request \<Rightarrow> AuthSession option \<Rightarrow> kstate \<Rightarrow> response result" where
  "get_timeline e r session st =
     ebind (require_ownership e ''run'' (param r ''run_id'') session st) (\<lambda>_.
     Inr (200, PTimeline (timeline (param r ''run_id'') (ks_store st))))"

definition get_resources :: "kenv \<Rightarrow> request \<Rightarrow> AuthSession option \<Rightarrow> kstate \<Rightarrow> response result" where
  "get_resources e r session st =
     ebind (require_ownership e ''run'' (param r ''run_id'') session st) (\<lambda>_.
     ebind (rescue (store_error 404) (resource_query (kv_config e) (param r ''run_id'') (ks_store st))) (\<lambda>v. Inr (200, PResources v)))"

definition get_logs :: "kenv \<Rightarrow> request \<Rightarrow> AuthSession option \<Rightarrow> kstate \<Rightarrow> response result" where
  "get_logs e r session st =
     ebind (require_ownership e ''run'' (param r ''run_id'') session st) (\<lambda>_.
     ebind (q_int_or r ''offset'' 0) (\<lambda>offset.
     ebind (q_int r ''max_bytes'' None) (\<lambda>max_bytes.
     ebind (rescue (store_or_value 404 400) (log_query (kv_logs e) (param r ''run_id'') offset max_bytes (ks_store st))) (\<lambda>(l, b).
     Inr (200, PLogs l b)))))"

definition excerpt_page :: "bool \<Rightarrow> int \<Rightarrow> kenv \<Rightarrow> request \<Rightarrow> AuthSession option \<Rightarrow> kstate \<Rightarrow> response result" where
  "excerpt_page verify width e r session st =
     ebind (require_ownership e ''run'' (param r ''run_id'') session st) (\<lambda>_.
     ebind (q_int_or r ''offset'' 0) (\<lambda>offset.
     ebind (q_int_or r ''max_bytes'' width) (\<lambda>n.
     ebind (rescue (store_or_value 404 400) (read_artifact_excerpt (kv_digest e) (resolve (kv_world e)) (resolve_in (kv_world e))
        (disk (kv_world e)) (param r ''run_id'') (param r ''artifact_id'') (PInt offset) (PInt n) verify (ks_store st))) (\<lambda>x.
     Inr (200, PExcerpt x)))))"

definition artifact_excerpt :: "kenv \<Rightarrow> request \<Rightarrow> AuthSession option \<Rightarrow> kstate \<Rightarrow> response result" where
  "artifact_excerpt = excerpt_page True 8192"

definition artifact_chunk :: "kenv \<Rightarrow> request \<Rightarrow> AuthSession option \<Rightarrow> kstate \<Rightarrow> response result" where
  "artifact_chunk = excerpt_page False (64 * 1024)"

definition artifact_download :: "kenv \<Rightarrow> request \<Rightarrow> AuthSession option \<Rightarrow> kstate \<Rightarrow> response result" where
  "artifact_download e r session st =
     ebind (require_ownership e ''run'' (param r ''run_id'') session st) (\<lambda>_.
     ebind (describe_run (param r ''run_id'') (ks_store st)) (\<lambda>v.
     case filter (\<lambda>a. ar_id a = param r ''artifact_id'') (concat (map av_artifacts (view_attempts v))) of
       [a] \<Rightarrow>
         if ar_size a > MAX_RESPONSE_BYTES then Inl (HttpError 413)
         else ebind (rescue (store_error 404) (artifact_path (resolve (kv_world e)) (resolve_in (kv_world e)) (param r ''artifact_id'') (ks_store st)))
           (\<lambda>loc. case read_location (disk (kv_world e)) loc (ks_store st) of
              None \<Rightarrow> Inl (HttpError 404)
            | Some b \<Rightarrow> if int (length b) \<noteq> ar_size a \<or> kv_digest e b \<noteq> ar_sha256 a then Inl (HttpError 409)
                        else Inr (200, PContent b (ar_sha256 a)))
     | _ \<Rightarrow> Inl (HttpError 404)))"

definition get_graph :: "kenv \<Rightarrow> request \<Rightarrow> AuthSession option \<Rightarrow> kstate \<Rightarrow> response result" where
  "get_graph e r session st =
     (let run_ids = q_all r ''run_id'' in
      if run_ids = [] then Inl (HttpError 400)
      else ebind (eall (map (\<lambda>x. require_ownership e ''run'' x session st) run_ids)) (\<lambda>_.
        ebind (artifact_graph run_ids (ks_store st)) (\<lambda>g. Inr (200, PGraph g))))"

subsection \<open>Health and catalogue\<close>

definition health :: "kenv \<Rightarrow> kstate \<Rightarrow> response result" where
  "health e st = Inr (200, PHealth (length (list_plugins (kv_registry e))) (length (filter executable (list_plugins (kv_registry e))))
     (evaluator_error e) (snapshot (kv_now e) STALE_AFTER (ks_store st)) (queue_health (kv_now e) (ks_store st)))"

definition get_plugins :: "kenv \<Rightarrow> response result" where
  "get_plugins e = Inr (200, PPlugins (catalogue (kv_registry e)))"

section \<open>The surface\<close>

datatype endpoint =
    ERegister | ELogin | ESession | ELogout | EIngest | EIngestChunk | ESubmit | EListRuns | EGetRun | EDesignTree
  | ECancel | ERetry | EMetrics | EArtifacts | ETimeline | EResources | ELogs | EExcerpt | EDownload | EChunk | EGraph
  | EHealth | EPlugins | EBundle

definition kernel_routes :: "endpoint route list" where
  "kernel_routes = map (\<lambda>(m, t, h). \<lparr> rt_method = m, rt_segs = template t, rt_handler = h \<rparr>)
     [ (''GET'', ''/kernel/health'', EHealth), (''GET'', ''/kernel/plugins'', EPlugins),
       (''POST'', ''/kernel/auth/register'', ERegister), (''POST'', ''/kernel/auth/login'', ELogin),
       (''GET'', ''/kernel/auth/session'', ESession), (''POST'', ''/kernel/auth/logout'', ELogout),
       (''POST'', ''/kernel/inputs'', EIngest), (''POST'', ''/kernel/inputs/chunk'', EIngestChunk),
       (''POST'', ''/kernel/runs'', ESubmit), (''GET'', ''/kernel/runs'', EListRuns),
       (''GET'', ''/kernel/runs/{run_id}'', EGetRun), (''GET'', ''/kernel/designs/{design_id}/tree'', EDesignTree),
       (''POST'', ''/kernel/runs/{run_id}/cancel'', ECancel), (''POST'', ''/kernel/runs/{run_id}/retry'', ERetry),
       (''POST'', ''/kernel/runs/{run_id}/bundle'', EBundle),
       (''GET'', ''/kernel/runs/{run_id}/metrics'', EMetrics), (''GET'', ''/kernel/runs/{run_id}/artifacts'', EArtifacts),
       (''GET'', ''/kernel/runs/{run_id}/timeline'', ETimeline), (''GET'', ''/kernel/runs/{run_id}/resources'', EResources),
       (''GET'', ''/kernel/runs/{run_id}/logs'', ELogs),
       (''GET'', ''/kernel/runs/{run_id}/artifacts/{artifact_id}/excerpt'', EExcerpt),
       (''GET'', ''/kernel/runs/{run_id}/artifacts/{artifact_id}/download'', EDownload),
       (''GET'', ''/kernel/runs/{run_id}/artifacts/{artifact_id}/chunk'', EChunk),
       (''GET'', ''/kernel/graph'', EGraph) ]"

fun handle :: "endpoint \<Rightarrow> kenv \<Rightarrow> request \<Rightarrow> AuthSession option \<Rightarrow> kstate \<Rightarrow> response result \<times> kstate" where
  "handle ERegister e r session st = auth_register e r st"
| "handle ELogin e r session st = auth_login e r st"
| "handle ESession e r session st = (auth_session session, st)"
| "handle ELogout e r session st = auth_logout e r st"
| "handle EIngest e r session st = ingest_upload e r session st"
| "handle EIngestChunk e r session st = ingest_input_chunk e r session st"
| "handle ESubmit e r session st = post_run e r session st"
| "handle EListRuns e r session st = (get_runs e r session st, st)"
| "handle EGetRun e r session st = (get_run_page e r session st, st)"
| "handle EDesignTree e r session st = (design_tree e r session st, st)"
| "handle ECancel e r session st = cancel_run e r session st"
| "handle ERetry e r session st = retry_run e r session st"
| "handle EMetrics e r session st = (get_metrics e r session st, st)"
| "handle EArtifacts e r session st = (get_artifacts e r session st, st)"
| "handle ETimeline e r session st = (get_timeline e r session st, st)"
| "handle EResources e r session st = (get_resources e r session st, st)"
| "handle ELogs e r session st = (get_logs e r session st, st)"
| "handle EExcerpt e r session st = (artifact_excerpt e r session st, st)"
| "handle EDownload e r session st = (artifact_download e r session st, st)"
| "handle EChunk e r session st = (artifact_chunk e r session st, st)"
| "handle EGraph e r session st = (get_graph e r session st, st)"
| "handle EHealth e r session st = (health e st, st)"
| "handle EPlugins e r session st = (get_plugins e, st)"
| "handle EBundle e r session st = get_bundle e r session st"

definition guarded :: "endpoint \<Rightarrow> kenv \<Rightarrow> request \<Rightarrow> kstate \<Rightarrow> response result \<times> kstate" where
  "guarded h e r st =
     (case authenticate e r st of (session, st1) \<Rightarrow>
        if session = None \<and> \<not> is_public r then (Inl (HttpError 401), st1) else handle h e r session st1)"

text \<open>\<open>_handle\<close>: the status of the answer, and the payload of a success.\<close>

definition answer :: "response result \<Rightarrow> nat \<times> payload option" where
  "answer x = (case x of Inr (c, p) \<Rightarrow> (c, Some p) | Inl (HttpError c) \<Rightarrow> (c, None) | Inl _ \<Rightarrow> (500, None))"

definition serve_request ::
  "kenv \<Rightarrow> string \<Rightarrow> string \<Rightarrow> (string \<times> string list) list \<Rightarrow> (string \<times> string) list \<Rightarrow> body result \<Rightarrow> kstate \<Rightarrow> (nat \<times> payload option) \<times> kstate" where
  "serve_request e meth path query headers body st =
     (case body of
        Inl x \<Rightarrow> (answer (Inl x), st)
      | Inr b \<Rightarrow>
          (case match_route kernel_routes meth path of
             None \<Rightarrow> ((if allowed_methods kernel_routes path \<noteq> [] then 405 else 404, None), st)
           | Some (rt, ps) \<Rightarrow>
               (case guarded (rt_handler rt) e \<lparr> rq_method = meth, rq_path = path, rq_params = ps, rq_query = query,
                        rq_headers = headers, rq_body = b \<rparr> st of
                  (x, st1) \<Rightarrow> (answer x, st1))))"

section \<open>The client's chunked upload\<close>

text \<open>
  \<open>upload_input_chunks\<close> of \<open>core/client/src/openroad_platform_client/client.py\<close>: one request per chunk, in an environment
  of its own, until the last, which asks for the input. A refused request raises \<open>KernelError\<close>.
\<close>

definition chunk_request :: "string \<Rightarrow> nat \<Rightarrow> bytes \<Rightarrow> bool \<Rightarrow> request" where
  "chunk_request upload_id offset chunk final =
     \<lparr> rq_method = ''POST'', rq_path = ''/kernel/inputs/chunk'', rq_params = [],
       rq_query = [(''upload_id'', [upload_id]), (''offset'', [nat_str offset])] @ (if final then [(''final'', [''1''])] else []),
       rq_headers = [], rq_body = Bytes chunk \<rparr>"

fun upload_chunks :: "(nat \<Rightarrow> kenv) \<Rightarrow> AuthSession option \<Rightarrow> string \<Rightarrow> nat \<Rightarrow> nat \<Rightarrow> bytes list \<Rightarrow> kstate \<Rightarrow> uploaded_row result \<times> kstate" where
  "upload_chunks es session upload_id i offset [] st = (Inl (ValueError ''at least one input chunk is required''), st)"
| "upload_chunks es session upload_id i offset (c # cs) st =
     (case ingest_input_chunk (es i) (chunk_request upload_id offset c (cs = [])) session st of
        (Inl x, st1) \<Rightarrow> (Inl KernelError, st1)
      | (Inr (_, p), st1) \<Rightarrow>
          if cs = [] then (case p of PInput u \<Rightarrow> (Inr u, st1) | _ \<Rightarrow> (Inl (ValueError ''at least one input chunk is required''), st1))
          else upload_chunks es session upload_id (Suc i) (case p of POffset _ n \<Rightarrow> nat n | _ \<Rightarrow> offset + length c) cs st1)"

end
