(* ===== verification/GatewayProps.thy ===== *)
theory GatewayProps
  imports Gateway
begin

text \<open>
  What the kernel's HTTP surface promises: who may see and change what, that routes do not compete, and that a chunked
  upload stores what was sent.
\<close>

section \<open>Routes\<close>

fun compatible :: "seg \<Rightarrow> seg \<Rightarrow> bool" where
  "compatible (Lit a) (Lit b) = (a = b)"
| "compatible _ _ = True"

fun no_tail :: "seg list \<Rightarrow> bool" where
  "no_tail [] = True"
| "no_tail (Tail n # ts) = False"
| "no_tail (t # ts) = no_tail ts"

lemma both_match:
  assumes "no_tail ts" "no_tail us" "match_segs ts xs \<noteq> None" "match_segs us xs \<noteq> None"
  shows "list_all2 compatible ts us"
  using assms
proof (induction ts arbitrary: us xs)
  case Nil
  then have "xs = []" by (cases xs) auto
  then have "us = []" using Nil by (cases us rule: no_tail.cases) auto
  then show ?case by simp
next
  case (Cons t ts)
  then obtain x xs' where xs: "xs = x # xs'" by (cases xs; cases t) auto
  then obtain u us' where us: "us = u # us'" using Cons.prems(4) by (cases us) auto
  have "match_segs ts xs' \<noteq> None \<and> no_tail ts" using Cons.prems(1,3) xs by (cases t) (auto split: if_splits)
  moreover have "match_segs us' xs' \<noteq> None \<and> no_tail us'" using Cons.prems(2,4) xs us by (cases u) (auto split: if_splits)
  moreover have "compatible t u" using Cons.prems xs us by (cases t; cases u) (auto split: if_splits)
  ultimately show ?case using Cons.IH [of us' xs'] us by simp
qed

lemma routes_checked:
  "list_all (\<lambda>r. no_tail (rt_segs r)) kernel_routes \<and> distinct (map rt_handler kernel_routes) \<and>
   list_all (\<lambda>r. list_all (\<lambda>r'. rt_handler r = rt_handler r' \<or> rt_method r \<noteq> rt_method r' \<or>
     \<not> list_all2 compatible (rt_segs r) (rt_segs r')) kernel_routes) kernel_routes"
  by code_simp

lemma route_unique:
  assumes "r \<in> set kernel_routes" "r' \<in> set kernel_routes" "rt_method r = rt_method r'" "match_path r p \<noteq> None" "match_path r' p \<noteq> None"
  shows "r = r'"
proof -
  have "list_all2 compatible (rt_segs r) (rt_segs r')"
    using both_match [of "rt_segs r" "rt_segs r'"] assms routes_checked by (auto simp: match_path_def list_all_iff)
  then have "rt_handler r = rt_handler r'" using assms(1-3) routes_checked unfolding list_all_iff by blast
  then show ?thesis using assms(1,2) routes_checked by (auto simp: distinct_map dest: inj_onD)
qed

lemma match_route_iff:
  "match_route kernel_routes meth path = Some (r, ps) \<longleftrightarrow>
    r \<in> set kernel_routes \<and> rt_method r = meth \<and> match_path r path = Some ps"
proof
  assume "match_route kernel_routes meth path = Some (r, ps)"
  then show "r \<in> set kernel_routes \<and> rt_method r = meth \<and> match_path r path = Some ps"
    by (auto simp: match_route_def dest: fetchone_Some)
next
  assume r: "r \<in> set kernel_routes \<and> rt_method r = meth \<and> match_path r path = Some ps"
  let ?P = "\<lambda>r. rt_method r = meth \<and> match_path r path \<noteq> None"
  let ?rs = "sort_key (\<lambda>r. - int (pattern_width (rt_segs r))) kernel_routes"
  have "fetchone ?P ?rs \<noteq> None" using r by (auto simp: fetchone_None)
  then obtain r' where r': "fetchone ?P ?rs = Some r'" by auto
  then have "r' = r" using fetchone_Some [OF r'] r route_unique [of r' r path] by auto
  then show "match_route kernel_routes meth path = Some (r, ps)" using r' r by (simp add: match_route_def)
qed

section \<open>Who is calling\<close>

definition developer :: "string \<Rightarrow> ident \<Rightarrow> bool" where
  "developer u i = (case fetchone (\<lambda>x. us_id x = u) (users i) of None \<Rightarrow> False | Some x \<Rightarrow> us_role x = ''developer'')"

lemma resolve_token_role:
  assumes "resolve_token H now (Some t) i = (Some a, i')"
  shows "au_developer a = developer (au_user_id a) i'"
proof -
  have "users i' = users i" using assms by (auto simp: resolve_token_def split: if_splits option.splits)
  then show ?thesis using assms by (auto simp: resolve_token_def developer_def split: if_splits option.splits)
qed

lemma authenticate_keeps:
  "authenticate e r st = (session, st1) \<Longrightarrow> ks_store st1 = ks_store st \<and> ks_uploads st1 = ks_uploads st"
  by (auto simp: authenticate_def split: option.splits prod.splits)

lemma authenticate_role:
  assumes "authenticate e r st = (Some a, st1)" "\<not> au_developer a"
  shows "\<not> developer (au_user_id a) (ks_ident st1)"
proof -
  have anon: "anonymous_session e \<noteq> Some a" using assms(2) by (auto simp: anonymous_session_def split: option.splits if_splits)
  then obtain t i where "resolve_token (kv_token_hash e) (kv_now e) (Some t) (ks_ident st) = (Some a, i)" "st1 = st\<lparr> ks_ident := i \<rparr>"
    using assms(1) by (auto simp: authenticate_def split: option.splits prod.splits)
  then show ?thesis using resolve_token_role assms(2) by simp
qed

lemma ownership_refused:
  assumes "\<not> au_developer a" "\<not> developer (au_user_id a) (ks_ident st)" "owner_of t rid (ks_ident st) \<noteq> Some (au_user_id a)"
  shows "require_ownership e t rid (Some a) st = Inl (HttpError 404)"
  using assms by (auto simp: require_ownership_def caller_id_def owns_resource_def developer_def split: option.splits)

lemma ownership_granted:
  assumes "require_ownership e t rid (Some a) st = Inr ()" "\<not> au_developer a" "\<not> developer (au_user_id a) (ks_ident st)"
  shows "owner_of t rid (ks_ident st) = Some (au_user_id a)"
  using ownership_refused [OF assms(2,3)] assms(1) by fastforce

text \<open>The endpoints that serve one run.\<close>

definition run_endpoints :: "endpoint list" where
  "run_endpoints = [EGetRun, ECancel, ERetry, EMetrics, EArtifacts, ETimeline, EResources, ELogs, EExcerpt, EDownload, EChunk, EBundle]"

lemma run_endpoint_refused:
  assumes "h \<in> set run_endpoints" "require_ownership e ''run'' (param r ''run_id'') session st = Inl x"
  shows "handle h e r session st = (Inl x, st)"
  using assms by (auto simp: run_endpoints_def get_run_page_def cancel_run_def retry_run_def get_bundle_def get_metrics_def get_artifacts_def
      get_timeline_def get_resources_def get_logs_def artifact_excerpt_def artifact_chunk_def excerpt_page_def artifact_download_def)

section \<open>Ownership\<close>

lemma bind_resource_owner:
  assumes "bind_resource now t rid u i = (x, i')"
  shows "owner_of t' rid' i' = (if x = Inr () \<and> t' = t \<and> rid' = rid then Some u else owner_of t' rid' i)"
  using assms
  by (auto simp: bind_resource_def owner_of_def fetchone_append split: sum.splits option.splits if_splits)

lemma bind_for_owner:
  assumes "bind_for e t rid (Some a) st = (x, st')" "au_user_id a \<noteq> []"
  shows "owner_of t' rid' (ks_ident st') = (if x = Inr () \<and> t' = t \<and> rid' = rid then Some (au_user_id a) else owner_of t' rid' (ks_ident st)) \<and>
    ks_store st' = ks_store st"
  using assms bind_resource_owner by (auto simp: bind_for_def caller_id_def split: prod.splits)

lemma bind_inputs_owner:
  assumes "bind_inputs e (Some a) ds st = (x, st')" "au_user_id a \<noteq> []"
  shows "owner_of ''run'' rid (ks_ident st') = owner_of ''run'' rid (ks_ident st) \<and> ks_store st' = ks_store st"
  using assms(1)
proof (induction ds arbitrary: st)
  case (Cons d ds)
  obtain y st1 where one: "bind_for e ''input'' (py_str (in_input_id d)) (Some a) st = (y, st1)" by fastforce
  have keep: "owner_of ''run'' rid (ks_ident st1) = owner_of ''run'' rid (ks_ident st) \<and> ks_store st1 = ks_store st"
    using bind_for_owner [OF one assms(2), of "''run''" rid] by simp
  show ?case
  proof (cases "in_input_id d = PNone")
    case True
    then show ?thesis using Cons by simp
  next
    case False
    then show ?thesis using Cons.prems Cons.IH [of st1] one keep by (auto split: sum.splits)
  qed
qed simp

lemma describe_run_id:
  assumes "describe_run rid s = Inr v"
  shows "rn_id (rv_run v) = rid"
  using assms by (auto simp: describe_run_def ebind_Inr_iff get_run_def dest: fetchone_Some split: option.splits)

lemma bind_run_owner:
  assumes "bind_run e (Some a) run st = (Inr (), st')" "au_user_id a \<noteq> []"
  shows "owner_of ''run'' (rn_id run) (ks_ident st') = Some (au_user_id a) \<and> ks_store st' = ks_store st"
proof -
  obtain y st1 where one: "bind_for e ''run'' (rn_id run) (Some a) st = (y, st1)" by fastforce
  then have y: "y = Inr ()" and rest: "bind_inputs e (Some a) (staged_inputs (rn_task run)) st1 = (Inr (), st')"
    using assms by (auto simp: bind_run_def caller_id_def split: sum.splits)
  show ?thesis
    using bind_for_owner [OF one assms(2), of "''run''" "rn_id run"] y bind_inputs_owner [OF rest assms(2), of "rn_id run"] by simp
qed

text \<open>What a successful submission went through.\<close>

lemma post_run_success:
  assumes "post_run e r session st = (Inr resp, st')"
  obtains task run s where "submitted_task r = Inr task" "\<forall>d \<in> set (staged_inputs task). input_check e session st d = Inr ()"
    "submit_idempotent e task (q r ''idempotent'' \<noteq> None \<or> q r ''idempotency_key'' \<noteq> None) (q r ''idempotency_key'') (ks_store st) = (Inr run, s)"
    "bind_run e session run (st\<lparr> ks_store := s \<rparr>) = (Inr (), st')" "run_response e 201 (rn_id run) (ks_store st') = Inr resp"
proof -
  obtain task where task: "submitted_task r = Inr task" "eall (map (input_check e session st) (staged_inputs task)) = Inr ()"
    using assms by (auto simp: post_run_def ebind_def split: sum.splits)
  obtain x s where sub: "submit_idempotent e task (q r ''idempotent'' \<noteq> None \<or> q r ''idempotency_key'' \<noteq> None) (q r ''idempotency_key'') (ks_store st) = (x, s)"
    by fastforce
  then obtain run where x: "x = Inr run"
    using assms task by (cases x) (auto simp: post_run_def Let_def rescue_def split: option.splits)
  obtain y st2 where b: "bind_run e session run (st\<lparr> ks_store := s \<rparr>) = (y, st2)" by fastforce
  then have "y = Inr () \<and> st' = st2 \<and> run_response e 201 (rn_id run) (ks_store st2) = Inr resp"
    using assms task sub x by (auto simp: post_run_def Let_def split: sum.splits)
  then show thesis using that task sub x b by (auto simp: eall_Inr_iff)
qed

lemma guarded_submit:
  assumes "guarded ESubmit e r st = (Inr resp, st')" "authenticate e r st = (Some a, st1)"
  shows "post_run e r (Some a) st1 = (Inr resp, st')"
  using assms by (simp add: guarded_def)

section \<open>Chunked uploads\<close>

lemma chunk_query [simp]:
  "q (chunk_request uid n c final) ''upload_id'' = Some uid"
  "q_int_or (chunk_request uid n c final) ''offset'' 0 = Inr (int n)"
  "q_bool (chunk_request uid n c final) ''final'' = final"
  "rq_body (chunk_request uid n c final) = Bytes c"
  by (simp_all add: q_def chunk_request_def q_int_or_def q_int_def q_bool_def parse_int_nat_str lower_def lower_char_def Let_def)

text \<open>The bytes of an upload in progress.\<close>

definition held :: "string \<Rightarrow> kstate \<Rightarrow> bytes" where
  "held uid st = (case ks_uploads st uid of None \<Rightarrow> [] | Some (b, _) \<Rightarrow> b)"

definition fresh_enough :: "(nat \<Rightarrow> kenv) \<Rightarrow> string \<Rightarrow> kstate \<Rightarrow> bool" where
  "fresh_enough es uid st \<longleftrightarrow> (\<forall>i b t. ks_uploads st uid = Some (b, t) \<longrightarrow> kv_now (es i) - INPUT_UPLOAD_TTL_SECONDS * 1000000 \<le> t)"

lemma held_kept:
  assumes "fresh_enough es uid st"
  shows "drop_stale (kv_now (es i) - INPUT_UPLOAD_TTL_SECONDS * 1000000) (ks_uploads st) uid = ks_uploads st uid"
proof (cases "ks_uploads st uid")
  case (Some x)
  then show ?thesis using assms unfolding fresh_enough_def by (cases x) (simp add: drop_stale_def linorder_not_less)
qed (simp add: drop_stale_def)

lemma chunk_step:
  assumes "UPLOAD_ID uid" "fresh_enough es uid st" "int (length (held uid st @ c)) \<le> MAX_INPUT_UPLOAD_BYTES"
  shows "\<exists>st1. ingest_input_chunk (es i) (chunk_request uid (length (held uid st)) c False) session st =
      (Inr (200, POffset uid (int (length (held uid st @ c)))), st1) \<and> ks_store st1 = ks_store st \<and> ks_ident st1 = ks_ident st \<and>
      ks_uploads st1 uid = Some (held uid st @ c, kv_now (es i))"
    and "\<exists>st1. ingest_input_chunk (es i) (chunk_request uid (length (held uid st)) c True) session st =
      bound_input (es i) session (ingest_input_file (kv_digest (es i)) (kv_now (es i)) (kv_input_id (es i) 0)
        (Some (held uid st @ c)) (held uid st @ c) (ks_store st)) st1 \<and> ks_store st1 = ks_store st \<and> ks_ident st1 = ks_ident st"
  using assms held_kept [OF assms(2), of i]
  by (auto simp: ingest_input_chunk_def Let_def held_def)

lemma upload_chunks_eq:
  assumes "UPLOAD_ID uid" "\<forall>i j. kv_now (es i) - INPUT_UPLOAD_TTL_SECONDS * 1000000 \<le> kv_now (es j)" "chunks \<noteq> []"
    and "fresh_enough es uid st" "int (length (held uid st @ concat chunks)) \<le> MAX_INPUT_UPLOAD_BYTES"
  defines "e \<equiv> \<lambda>i. es (i + length chunks - 1)"
  shows "\<exists>st1. upload_chunks es session uid i (length (held uid st)) chunks st =
      (case bound_input (e i) session (ingest_input_file (kv_digest (e i)) (kv_now (e i)) (kv_input_id (e i) 0)
          (Some (held uid st @ concat chunks)) (held uid st @ concat chunks) (ks_store st)) st1 of
        (Inl x, st2) \<Rightarrow> (Inl KernelError, st2)
      | (Inr (_, p), st2) \<Rightarrow> (case p of PInput u \<Rightarrow> (Inr u, st2) | _ \<Rightarrow> (Inl (ValueError ''at least one input chunk is required''), st2))) \<and>
      ks_store st1 = ks_store st \<and> ks_ident st1 = ks_ident st"
  using assms(3-5) unfolding e_def
proof (induction chunks arbitrary: i st)
  case (Cons c cs)
  show ?case
  proof (cases "cs = []")
    case True
    have "int (length (held uid st @ c)) \<le> MAX_INPUT_UPLOAD_BYTES" using Cons.prems(3) True by simp
    from chunk_step(2) [OF assms(1) Cons.prems(2) this, of i session]
    obtain st1 where "ingest_input_chunk (es i) (chunk_request uid (length (held uid st)) c True) session st =
        bound_input (es i) session (ingest_input_file (kv_digest (es i)) (kv_now (es i)) (kv_input_id (es i) 0)
          (Some (held uid st @ c)) (held uid st @ c) (ks_store st)) st1" "ks_store st1 = ks_store st" "ks_ident st1 = ks_ident st" by blast
    then show ?thesis using True by (intro exI [of _ st1]) (simp split: prod.split sum.split)
  next
    case False
    have "int (length (held uid st @ c)) \<le> MAX_INPUT_UPLOAD_BYTES" using Cons.prems(3) by simp
    from chunk_step(1) [OF assms(1) Cons.prems(2) this, of i session]
    obtain st1 where one: "ingest_input_chunk (es i) (chunk_request uid (length (held uid st)) c False) session st =
        (Inr (200, POffset uid (int (length (held uid st @ c)))), st1)" "ks_store st1 = ks_store st" "ks_ident st1 = ks_ident st"
      "ks_uploads st1 uid = Some (held uid st @ c, kv_now (es i))" by blast
    have h: "held uid st1 = held uid st @ c" using one(4) by (simp add: held_def)
    have f: "fresh_enough es uid st1" using one(4) assms(2) by (simp add: fresh_enough_def)
    have l: "int (length (held uid st1 @ concat cs)) \<le> MAX_INPUT_UPLOAD_BYTES" using Cons.prems(3) h by simp
    have step: "upload_chunks es session uid i (length (held uid st)) (c # cs) st = upload_chunks es session uid (Suc i) (length (held uid st1)) cs st1"
      using one(1) h False by (simp add: nat_int_add)
    have idx: "Suc i + length cs - 1 = i + length (c # cs) - 1" by simp
    show ?thesis
      using Cons.IH [OF False f l, of "Suc i"] unfolding step idx h one(2,3) by simp
  qed
qed simp

section \<open>What a caller without a session changes\<close>

lemma public_route:
  assumes "match_route kernel_routes meth path = Some (rt, ps)" "(meth, path) \<in> set PUBLIC_PATHS"
  shows "rt_handler rt \<in> {EHealth, ERegister, ELogin}"
proof -
  have "list_all (\<lambda>(m, p). case match_route kernel_routes m p of None \<Rightarrow> True
      | Some (rt, _) \<Rightarrow> rt_handler rt \<in> {EHealth, ERegister, ELogin}) PUBLIC_PATHS" by code_simp
  then show ?thesis using assms by (fastforce simp: list_all_iff)
qed

lemma account_endpoints_keep:
  assumes "h \<in> {EHealth, ERegister, ELogin}" "handle h e r session st = (x, st')"
  shows "ks_store st' = ks_store st \<and> ks_uploads st' = ks_uploads st"
  using assms by (auto simp: auth_register_def auth_login_def split: sum.splits prod.splits)

section \<open>Properties\<close>

text \<open>A kernel with a member, an owner of one run, and a request with the member's token.\<close>

definition member :: user_row where
  "member = \<lparr> us_id = ''m'', us_name = ''mem'', us_salt = [], us_hash = [], us_iterations = 1, us_role = ''member'', us_created = 0 \<rparr>"

definition sample_ident :: ident where
  "sample_ident = empty_ident\<lparr> users := [member],
     sessions := [\<lparr> ss_hash = ''tok'', ss_id = ''s'', ss_user = ''m'', ss_created = 0, ss_expires = 9, ss_seen = 0 \<rparr>],
     owners := [\<lparr> ow_type = ''run'', ow_resource = ''r'', ow_user = ''other'', ow_created = 0 \<rparr>] \<rparr>"

definition sample_state :: kstate where
  "sample_state = \<lparr> ks_store = view_store, ks_ident = sample_ident, ks_uploads = Map.empty \<rparr>"

definition sample_env :: kenv where
  "sample_env = \<lparr> kv_now = 1, kv_digest = toy_digest, kv_token_hash = id, kv_derive = (\<lambda>p s i. p), kv_world = sample_world ''key'',
     kv_is_file = (\<lambda>_. False), kv_logs = Map.empty, kv_supports_limits = True, kv_roots = [], kv_config = roomy,
     kv_resolver = (\<lambda>_ _ _. Inr sample_manifest), kv_run_id = ''n'', kv_stage_id = ''gn'', kv_input_id = sample_new_id, kv_event_id = ''e'',
     kv_user_id = ''u'', kv_salt = [], kv_token = ''t'', kv_session_id = ''sn'', allow_anonymous = False, local_user_id = None,
     kv_registry = [], evaluator_error = None, kv_bundle = bundle_world, kv_index_json = (\<lambda>_. []) \<rparr>"

definition member_request :: "string \<Rightarrow> body \<Rightarrow> request" where
  "member_request rid b = \<lparr> rq_method = ''POST'', rq_path = ''/kernel/runs'', rq_params = [(''run_id'', rid)], rq_query = [],
     rq_headers = [(''authorization'', ''Bearer tok'')], rq_body = b \<rparr>"

text \<open>
  Routes do not compete: the route taken for a request is the only one that matches it, so trying the longest pattern
  first decides nothing.
\<close>

theorem route_matching_is_unambiguous:
  "match_route kernel_routes meth path = Some (r, ps) \<longleftrightarrow>
    r \<in> set kernel_routes \<and> rt_method r = meth \<and> match_path r path = Some ps"
  by (rule match_route_iff)

text \<open>C28: 
  A run of somebody else cannot be told from one that does not exist: to a caller who is neither its owner nor a
  developer, every endpoint that serves a run answers 404, and nothing is changed but the session's last use.
\<close>

theorem foreign_run_not_found:
  assumes "h \<in> set run_endpoints" "authenticate e r st = (Some a, st1)" "\<not> au_developer a"
    and "owner_of ''run'' (param r ''run_id'') (ks_ident st1) \<noteq> Some (au_user_id a)"
  shows "guarded h e r st = (Inl (HttpError 404), st1) \<and> ks_store st1 = ks_store st \<and> ks_uploads st1 = ks_uploads st"
proof -
  have "require_ownership e ''run'' (param r ''run_id'') (Some a) st1 = Inl (HttpError 404)"
    by (rule ownership_refused [OF assms(3) authenticate_role [OF assms(2,3)] assms(4)])
  then show ?thesis
    using run_endpoint_refused [OF assms(1)] authenticate_keeps [OF assms(2)] assms(2) by (simp add: guarded_def)
qed

theorem foreign_run_not_found_witness:
  "fst (guarded ECancel sample_env (member_request ''r'' NoBody) sample_state) = Inl (HttpError 404)"
proof -
  let ?a = "authenticate sample_env (member_request ''r'' NoBody) sample_state"
  have "(case fst ?a of None \<Rightarrow> False | Some a \<Rightarrow> \<not> au_developer a \<and> owner_of ''run'' ''r'' (ks_ident (snd ?a)) \<noteq> Some (au_user_id a))"
    by code_simp
  then obtain a where "?a = (Some a, snd ?a)" "\<not> au_developer a" "owner_of ''run'' ''r'' (ks_ident (snd ?a)) \<noteq> Some (au_user_id a)"
    by (cases "fst ?a") (auto simp: prod_eq_iff)
  moreover have "param (member_request ''r'' NoBody) ''run_id'' = ''r''" by (simp add: member_request_def param_def)
  ultimately show ?thesis using foreign_run_not_found [of ECancel] by (simp add: run_endpoints_def)
qed

text \<open>
  A submitted run belongs to its caller: when the answer shows a run, the run is owned by the user of the session that
  submitted it.
\<close>

theorem submitted_run_belongs_to_caller:
  assumes "authenticate e r st = (Some a, st1)" "au_user_id a \<noteq> []" "guarded ESubmit e r st = (Inr (c, PRun v w), st')"
  shows "c = 201 \<and> owner_of ''run'' (rn_id (rv_run v)) (ks_ident st') = Some (au_user_id a)"
proof -
  obtain task run s where p: "bind_run e (Some a) run (st1\<lparr> ks_store := s \<rparr>) = (Inr (), st')"
    "run_response e 201 (rn_id run) (ks_store st') = Inr (c, PRun v w)"
    using guarded_submit [OF assms(3,1)] by (rule post_run_success)
  have d: "c = 201" "describe_run (rn_id run) (ks_store st') = Inr v" using p(2) by (auto simp: run_response_def detail_of_run_def ebind_Inr_iff)
  have "rn_id (rv_run v) = rn_id run" by (rule describe_run_id [OF d(2)])
  then show ?thesis using bind_run_owner [OF p(1) assms(2)] d(1) by simp
qed

text \<open>C29: 
  A member submits a run only with inputs of their own: every uploaded input the task names is theirs, and so is the run
  of every artifact it names.
\<close>

theorem submission_uses_own_inputs:
  assumes "authenticate e r st = (Some a, st1)" "\<not> au_developer a" "guarded ESubmit e r st = (Inr resp, st')"
    and "submitted_task r = Inr task" "d \<in> set (staged_inputs task)"
  shows "(in_input_id d = PNone \<or> owner_of ''input'' (py_str (in_input_id d)) (ks_ident st1) = Some (au_user_id a)) \<and>
    (in_artifact_id d = PNone \<or> (\<exists>rid. artifact_run_id (py_str (in_artifact_id d)) (ks_store st) = Inr rid \<and>
      owner_of ''run'' rid (ks_ident st1) = Some (au_user_id a)))"
proof -
  obtain task' where "submitted_task r = Inr task'" "\<forall>d \<in> set (staged_inputs task'). input_check e (Some a) st1 d = Inr ()"
    using guarded_submit [OF assms(3,1)] by (rule post_run_success)
  then have "input_check e (Some a) st1 d = Inr ()" using assms(4,5) by simp
  then have i: "in_input_id d \<noteq> PNone \<longrightarrow> require_ownership e ''input'' (py_str (in_input_id d)) (Some a) st1 = Inr ()"
    and "in_artifact_id d \<noteq> PNone \<longrightarrow> ebind (rescue (store_error 400) (artifact_run_id (py_str (in_artifact_id d)) (ks_store st1)))
      (\<lambda>x. require_ownership e ''run'' x (Some a) st1) = Inr ()"
    by (auto simp: input_check_def eall_Inr_iff split: if_splits)
  then have f: "in_artifact_id d \<noteq> PNone \<longrightarrow> (\<exists>x. artifact_run_id (py_str (in_artifact_id d)) (ks_store st1) = Inr x \<and>
      require_ownership e ''run'' x (Some a) st1 = Inr ())"
    by (auto simp: ebind_Inr_iff rescue_def split: sum.splits option.splits)
  note own = ownership_granted [OF _ assms(2) authenticate_role [OF assms(1,2)]]
  show ?thesis using i f own authenticate_keeps [OF assms(1)] by metis
qed


text \<open>C30: 
  Without a session nothing of the runtime changes: a request whose token resolves to no session, in a kernel that does
  not serve anonymous callers, leaves the runtime's tables, its objects and the uploads in progress as they were.
\<close>

theorem changes_need_session:
  assumes "serve_request e meth path query headers body st = (x, st')"
    and "ks_store st' \<noteq> ks_store st \<or> ks_uploads st' \<noteq> ks_uploads st"
  shows "\<exists>r a st1. rq_headers r = headers \<and> authenticate e r st = (Some a, st1)"
proof -
  obtain b rt ps where b: "body = Inr b" and m: "match_route kernel_routes meth path = Some (rt, ps)"
    using assms by (auto simp: serve_request_def split: sum.splits option.splits)
  let ?r = "\<lparr> rq_method = meth, rq_path = path, rq_params = ps, rq_query = query, rq_headers = headers, rq_body = b \<rparr>"
  obtain session st1 where a: "authenticate e ?r st = (session, st1)" by fastforce
  obtain y where g: "guarded (rt_handler rt) e ?r st = (y, st')"
    using assms(1) b m by (auto simp: serve_request_def split: prod.splits)
  have "session \<noteq> None"
  proof
    assume none: "session = None"
    show False
    proof (cases "is_public ?r")
      case True
      then have "rt_handler rt \<in> {EHealth, ERegister, ELogin}" using public_route [OF m] by (simp add: is_public_def)
      moreover have "handle (rt_handler rt) e ?r session st1 = (y, st')" using g a True by (simp add: guarded_def)
      ultimately show False using account_endpoints_keep authenticate_keeps [OF a] assms(2) by metis
    next
      case False
      then show False using g a none authenticate_keeps [OF a] assms(2) by (auto simp: guarded_def)
    qed
  qed
  then show ?thesis using a by (intro exI [of _ ?r]) auto
qed

section \<open>Scenarios\<close>

definition task_body :: "pyval list \<Rightarrow> body" where
  "task_body ins = Json (PDict [(PStr ''task'', PDict [(PStr ''schema_version'', PInt SCHEMA_VERSION), (PStr ''task_id'', PStr ''t1''),
     (PStr ''project_id'', PStr ''p''), (PStr ''design_id'', PStr ''d''), (PStr ''plugin_id'', PStr ''plug''), (PStr ''staged_inputs'', PList ins)])])"

definition own_input :: pyval where
  "own_input = PDict [(PStr ''destination'', PStr ''in''), (PStr ''input_id'', PStr ''i1'')]"

definition host_source :: "string \<Rightarrow> pyval" where
  "host_source p = PDict [(PStr ''destination'', PStr ''in''), (PStr ''source'', PStr p)]"

text \<open>The member owns an uploaded input.\<close>

definition input_state :: kstate where
  "input_state = sample_state\<lparr>
     ks_store := empty_store\<lparr> uploaded := [\<lparr> up_id = ''i1'', up_store_key = toy_digest ''b'', up_size = 1, up_sha256 = toy_digest ''b'', up_created = 0 \<rparr>],
       objects := [toy_digest ''b'' \<mapsto> ''b''] \<rparr>,
     ks_ident := sample_ident\<lparr> owners := [\<lparr> ow_type = ''input'', ow_resource = ''i1'', ow_user = ''m'', ow_created = 0 \<rparr>] \<rparr> \<rparr>"

text \<open>A host with a file of its operator.\<close>

definition home_env :: kenv where
  "home_env = sample_env\<lparr> kv_is_file := (\<lambda>_. True) \<rparr>"

definition named :: "string \<Rightarrow> kstate" where
  "named n = sample_state\<lparr> ks_store := empty_store, ks_ident := sample_ident\<lparr> users := [member\<lparr> us_name := n \<rparr>] \<rparr> \<rparr>"

definition home_outcome :: "string \<Rightarrow> nat \<times> bytes option" where
  "home_outcome name =
     (case guarded ESubmit home_env (member_request [] (task_body [host_source ''/root/key''])) (named name) of
        (x, st) \<Rightarrow> (fst (answer x), objects (ks_store st) (toy_digest ''key'')))"

text \<open>
  A defect: a shared session must upload its inputs where no input root is configured, but the rule tells the local user
  by name. A member is refused a file of the host; a member who registered the name \<open>local-user\<close>, which is open to
  anyone, gets it.
\<close>

theorem name_opens_host_files:
  "home_outcome ''mem'' = (400, None) \<and> home_outcome ''local-user'' = (201, Some ''key'') \<and> username ''local-user'' = Inr ''local-user''"
  by code_simp

definition key_outcome :: "nat list" where
  "key_outcome =
     (let r = (\<lambda>tok. (member_request [] (task_body []))\<lparr> rq_query := [(''idempotency_key'', [''k''])], rq_headers := [(''authorization'', ''Bearer '' @ tok)] \<rparr>);
          st = sample_state\<lparr> ks_store := empty_store, ks_ident := sample_ident\<lparr> users := [member, member\<lparr> us_id := ''o'', us_name := ''oth'' \<rparr>],
            sessions := sessions sample_ident @ [\<lparr> ss_hash = ''tok2'', ss_id = ''s2'', ss_user = ''o'', ss_created = 0, ss_expires = 9, ss_seen = 0 \<rparr>] \<rparr> \<rparr>;
          one = guarded ESubmit sample_env (r ''tok'') st; two = guarded ESubmit sample_env (r ''tok2'') (snd one)
      in map (\<lambda>x. fst (answer x)) [fst one, fst two])"

text \<open>
  A defect: idempotency keys are shared by all users. A key another user has used for the same task leads to that user's
  run, whose ownership then cannot be recorded: the request ends as a server error.
\<close>

theorem idempotency_key_crosses_users:
  "key_outcome = [201, 500]"
  by code_simp

text \<open>
  A captured path segment may contain a separator after all, since it is decoded after the match.
\<close>

theorem captured_segment_with_separator:
  "map_option snd (match_route kernel_routes ''GET'' ''/kernel/runs/..%2Fx'') = Some [(''run_id'', ''../x'')]"
  by code_simp

section \<open>The properties at work\<close>

definition own_request :: request where
  "own_request = member_request [] (task_body [own_input])"

definition own_session :: AuthSession where
  "own_session = \<lparr> au_user_id = ''m'', au_username = ''mem'', au_developer = False, au_session_id = ''s'' \<rparr>"

definition own_submission :: "response result \<times> kstate" where
  "own_submission = guarded ESubmit sample_env own_request input_state"

definition own_task :: "TaskSpec result" where
  "own_task = submitted_task own_request"

lemma own_authenticated: "\<exists>st1. authenticate sample_env own_request input_state = (Some own_session, st1)"
proof -
  have "fst (authenticate sample_env own_request input_state) = Some own_session" by code_simp
  then show ?thesis by (metis prod.collapse)
qed

lemma own_submitted: "\<exists>v w st'. guarded ESubmit sample_env own_request input_state = (Inr (201, PRun v w), st')"
proof -
  obtain st1 where a: "authenticate sample_env own_request input_state = (Some own_session, st1)" using own_authenticated by blast
  have "\<not> isl (fst own_submission)" by code_simp
  then obtain resp st' where g: "guarded ESubmit sample_env own_request input_state = (Inr resp, st')"
    unfolding own_submission_def by (metis prod.collapse sum.collapse(2))
  from guarded_submit [OF g a] obtain rid where "run_response sample_env 201 rid (ks_store st') = Inr resp" by (rule post_run_success) (erule that)
  then obtain v w where "resp = (201, PRun v w)" by (auto simp: run_response_def ebind_Inr_iff)
  then show ?thesis using g by blast
qed

theorem submitted_run_belongs_to_caller_witness:
  "\<exists>v w st'. guarded ESubmit sample_env own_request input_state = (Inr (201, PRun v w), st') \<and>
    owner_of ''run'' (rn_id (rv_run v)) (ks_ident st') = Some ''m''"
proof -
  obtain st1 where a: "authenticate sample_env own_request input_state = (Some own_session, st1)" using own_authenticated by blast
  obtain v w st' where g: "guarded ESubmit sample_env own_request input_state = (Inr (201, PRun v w), st')" using own_submitted by blast
  show ?thesis using submitted_run_belongs_to_caller [OF a _ g] g by (auto simp: own_session_def)
qed

theorem submission_uses_own_inputs_witness:
  "\<exists>st1 task d. authenticate sample_env own_request input_state = (Some own_session, st1) \<and> submitted_task own_request = Inr task \<and>
    d \<in> set (staged_inputs task) \<and> in_input_id d = PStr ''i1'' \<and> owner_of ''input'' ''i1'' (ks_ident st1) = Some ''m''"
proof -
  obtain st1 where a: "authenticate sample_env own_request input_state = (Some own_session, st1)" using own_authenticated by blast
  obtain v w st' where g: "guarded ESubmit sample_env own_request input_state = (Inr (201, PRun v w), st')" using own_submitted by blast
  have "(case own_task of Inl _ \<Rightarrow> False | Inr t \<Rightarrow> map in_input_id (staged_inputs t) = [PStr ''i1''])" by code_simp
  then obtain task d where t: "submitted_task own_request = Inr task" "staged_inputs task = [d]" "in_input_id d = PStr ''i1''"
    unfolding own_task_def by (auto split: sum.splits)
  have "d \<in> set (staged_inputs task)" using t(2) by simp
  from submission_uses_own_inputs [OF a _ g t(1) this] show ?thesis using a t by (auto simp: own_session_def)
qed


theorem changes_need_session_witness:
  "\<exists>r a st1. rq_headers r = rq_headers own_request \<and> authenticate sample_env r input_state = (Some a, st1)"
proof -
  let ?x = "serve_request sample_env ''POST'' ''/kernel/runs'' [] (rq_headers own_request) (Inr (task_body [own_input])) input_state"
  have "map rn_id (runs (ks_store (snd ?x))) = [''n''] \<and> runs (ks_store input_state) = []" by code_simp
  then have "ks_store (snd ?x) \<noteq> ks_store input_state" by auto
  then show ?thesis using changes_need_session [of sample_env "''POST''" "''/kernel/runs''" "[]" "rq_headers own_request" "Inr (task_body [own_input])" input_state "fst ?x" "snd ?x"]
    by simp
qed

end
