(* ===== verification/Client.thy ===== *)
theory Client
  imports GatewayProps
begin

text \<open>
  \<open>core/client/src/openroad_platform_client/client.py\<close>: the requests the client builds for the kernel, what it makes of an
  answer, the token it remembers, and the download of an artifact in chunks. The loop of the chunked upload is in
  \<open>Gateway\<close>. The transport is outside the model: a request is answered by the handler the router chooses for its path.
\<close>

section \<open>Paths and queries\<close>

definition unreserved :: "char \<Rightarrow> bool" where
  "unreserved c = (let n = (of_char c :: nat) in (48 \<le> n \<and> n \<le> 57) \<or> (65 \<le> n \<and> n \<le> 90) \<or> (97 \<le> n \<and> n \<le> 122) \<or> c \<in> set ''_.-~'')"

definition hex_upper :: "nat \<Rightarrow> char" where
  "hex_upper n = char_of (if n < 10 then 48 + n else 55 + n)"

definition quote_char :: "char \<Rightarrow> string" where
  "quote_char c = (if unreserved c then [c] else [CHR ''%'', hex_upper (of_char c div 16), hex_upper (of_char c mod 16)])"

text \<open>\<open>_seg\<close>: \<open>urllib.parse.quote\<close> with nothing safe, on ASCII text.\<close>

definition seg_quote :: "string \<Rightarrow> string" where
  "seg_quote s = concat (map quote_char s)"

definition run_path :: "string \<Rightarrow> string \<Rightarrow> string" where
  "run_path run_id rest = ''/kernel/runs/'' @ seg_quote run_id @ rest"

definition artifact_path_of :: "string \<Rightarrow> string \<Rightarrow> string \<Rightarrow> string" where
  "artifact_path_of run_id aid rest = run_path run_id (''/artifacts/'' @ seg_quote aid @ rest)"

text \<open>The method and path of each call; \<open>x\<close> is the run, or the design of \<open>design_tree\<close>, and \<open>y\<close> the artifact.\<close>

fun client_target :: "endpoint \<Rightarrow> string \<Rightarrow> string \<Rightarrow> string \<times> string" where
  "client_target ERegister x y = (''POST'', ''/kernel/auth/register'')"
| "client_target ELogin x y = (''POST'', ''/kernel/auth/login'')"
| "client_target ESession x y = (''GET'', ''/kernel/auth/session'')"
| "client_target ELogout x y = (''POST'', ''/kernel/auth/logout'')"
| "client_target EHealth x y = (''GET'', ''/kernel/health'')"
| "client_target EPlugins x y = (''GET'', ''/kernel/plugins'')"
| "client_target EIngest x y = (''POST'', ''/kernel/inputs'')"
| "client_target EIngestChunk x y = (''POST'', ''/kernel/inputs/chunk'')"
| "client_target ESubmit x y = (''POST'', ''/kernel/runs'')"
| "client_target EListRuns x y = (''GET'', ''/kernel/runs'')"
| "client_target EGetRun x y = (''GET'', run_path x [])"
| "client_target EDesignTree x y = (''GET'', ''/kernel/designs/'' @ seg_quote x @ ''/tree'')"
| "client_target ECancel x y = (''POST'', run_path x ''/cancel'')"
| "client_target ERetry x y = (''POST'', run_path x ''/retry'')"
| "client_target EBundle x y = (''POST'', run_path x ''/bundle'')"
| "client_target EMetrics x y = (''GET'', run_path x ''/metrics'')"
| "client_target EArtifacts x y = (''GET'', run_path x ''/artifacts'')"
| "client_target ETimeline x y = (''GET'', run_path x ''/timeline'')"
| "client_target EResources x y = (''GET'', run_path x ''/resources'')"
| "client_target ELogs x y = (''GET'', run_path x ''/logs'')"
| "client_target EExcerpt x y = (''GET'', artifact_path_of x y ''/excerpt'')"
| "client_target EDownload x y = (''GET'', artifact_path_of x y ''/download'')"
| "client_target EChunk x y = (''GET'', artifact_path_of x y ''/chunk'')"
| "client_target EGraph x y = (''GET'', ''/kernel/graph'')"

text \<open>\<open>_call\<close>: a query value that is absent or empty is left out, a list is spread.\<close>

datatype query_value = QNone | QText string | QInt int | QTexts "string list"

fun query_pairs :: "string \<times> query_value \<Rightarrow> (string \<times> string) list" where
  "query_pairs (k, QNone) = []"
| "query_pairs (k, QText t) = (if t = [] then [] else [(k, t)])"
| "query_pairs (k, QInt n) = [(k, int_str n)]"
| "query_pairs (k, QTexts ts) = map (Pair k) ts"

definition client_query :: "(string \<times> query_value) list \<Rightarrow> (string \<times> string) list" where
  "client_query qs = concat (map query_pairs qs)"

text \<open>\<open>urllib.parse.parse_qs\<close> of the encoded query, in the router: the values of each key in order, empty ones left out.\<close>

definition parse_qs :: "(string \<times> string) list \<Rightarrow> (string \<times> string list) list" where
  "parse_qs ps =
     (let xs = filter (\<lambda>x. snd x \<noteq> []) ps in map (\<lambda>k. (k, map snd (filter (\<lambda>x. fst x = k) xs))) (rev (remdups (rev (map fst xs)))))"

section \<open>The calls\<close>

datatype client_op =
    KRegister string string | KLogin string string | KSession | KLogout | KHealth | KPlugins
  | KUploadInput bytes | KUploadChunk string nat bytes bool
  | KSubmit pydict bool "string option" "string option"
  | KRuns "string option" "string option" "string option" "string option" "int option" int
  | KRun string | KDesignTree string "int option" int | KCancel string | KRetry string string | KBundle string
  | KMetrics string bool | KArtifacts string "string option" "string option" "string option"
  | KTimeline string | KResources string | KLogs string int "int option"
  | KExcerpt string string int int | KBytes string string | KChunk string string int int | KGraph "string list"

fun op_endpoint :: "client_op \<Rightarrow> endpoint" where
  "op_endpoint (KRegister u p) = ERegister"
| "op_endpoint (KLogin u p) = ELogin"
| "op_endpoint KSession = ESession"
| "op_endpoint KLogout = ELogout"
| "op_endpoint KHealth = EHealth"
| "op_endpoint KPlugins = EPlugins"
| "op_endpoint (KUploadInput b) = EIngest"
| "op_endpoint (KUploadChunk i offset b final) = EIngestChunk"
| "op_endpoint (KSubmit task idem key version) = ESubmit"
| "op_endpoint (KRuns p d g s l offset) = EListRuns"
| "op_endpoint (KRun x) = EGetRun"
| "op_endpoint (KDesignTree x l offset) = EDesignTree"
| "op_endpoint (KCancel x) = ECancel"
| "op_endpoint (KRetry x reason) = ERetry"
| "op_endpoint (KBundle x) = EBundle"
| "op_endpoint (KMetrics x only) = EMetrics"
| "op_endpoint (KArtifacts x c f s) = EArtifacts"
| "op_endpoint (KTimeline x) = ETimeline"
| "op_endpoint (KResources x) = EResources"
| "op_endpoint (KLogs x offset n) = ELogs"
| "op_endpoint (KExcerpt x y offset n) = EExcerpt"
| "op_endpoint (KBytes x y) = EDownload"
| "op_endpoint (KChunk x y offset n) = EChunk"
| "op_endpoint (KGraph xs) = EGraph"

text \<open>The identifiers that become segments of the path.\<close>

fun op_ids :: "client_op \<Rightarrow> string list" where
  "op_ids (KRun x) = [x]"
| "op_ids (KDesignTree x l offset) = [x]"
| "op_ids (KCancel x) = [x]"
| "op_ids (KRetry x reason) = [x]"
| "op_ids (KBundle x) = [x]"
| "op_ids (KMetrics x only) = [x]"
| "op_ids (KArtifacts x c f s) = [x]"
| "op_ids (KTimeline x) = [x]"
| "op_ids (KResources x) = [x]"
| "op_ids (KLogs x offset n) = [x]"
| "op_ids (KExcerpt x y offset n) = [x, y]"
| "op_ids (KBytes x y) = [x, y]"
| "op_ids (KChunk x y offset n) = [x, y]"
| "op_ids op = []"

definition q_text :: "string option \<Rightarrow> query_value" where
  "q_text x = (case x of None \<Rightarrow> QNone | Some t \<Rightarrow> QText t)"

definition q_number :: "int option \<Rightarrow> query_value" where
  "q_number x = (case x of None \<Rightarrow> QNone | Some n \<Rightarrow> QInt n)"

definition q_flag :: "bool \<Rightarrow> query_value" where
  "q_flag b = (if b then QText ''1'' else QNone)"

fun op_query :: "client_op \<Rightarrow> (string \<times> query_value) list" where
  "op_query (KUploadChunk i offset b final) = [(''upload_id'', QText i), (''offset'', QInt (int offset)), (''final'', q_flag final)]"
| "op_query (KSubmit task idem key version) = [(''idempotent'', q_flag idem), (''idempotency_key'', q_text key)]"
| "op_query (KRuns p d g s l offset) = [(''project_id'', q_text p), (''design_id'', q_text d), (''plugin_id'', q_text g), (''status'', q_text s),
     (''limit'', q_number l), (''offset'', QInt offset)]"
| "op_query (KDesignTree x l offset) = [(''limit'', q_number l), (''offset'', QInt offset)]"
| "op_query (KMetrics x only) = [(''complete_only'', q_flag only)]"
| "op_query (KArtifacts x c f s) = [(''category'', q_text c), (''format'', q_text f), (''stage'', q_text s)]"
| "op_query (KLogs x offset n) = [(''offset'', QInt offset), (''max_bytes'', q_number n)]"
| "op_query (KExcerpt x y offset n) = [(''offset'', QInt offset), (''max_bytes'', QInt n)]"
| "op_query (KChunk x y offset n) = [(''offset'', QInt offset), (''max_bytes'', QInt n)]"
| "op_query (KGraph xs) = [(''run_id'', QTexts xs)]"
| "op_query op = []"

text \<open>The task of \<open>submit\<close>: a version given twice must be given twice the same.\<close>

definition submitted_version :: "pydict \<Rightarrow> string option \<Rightarrow> pydict result" where
  "submitted_version task version =
     (case version of
        None \<Rightarrow> Inr task
      | Some v \<Rightarrow>
          if dgetN task ''plugin_version'' \<noteq> PNone \<and> dgetN task ''plugin_version'' \<noteq> PStr v
          then Inl (ValueError ''plugin_version argument conflicts with the task payload'')
          else Inr (dset task (PStr ''plugin_version'') (PStr v)))"

definition MAX_EXCERPT_BYTES :: int where
  "MAX_EXCERPT_BYTES = 64 * 1024"

definition check_width :: "int \<Rightarrow> body result" where
  "check_width n = (if 0 < n \<and> n \<le> MAX_EXCERPT_BYTES then Inr NoBody else Inl (ValueError ''max_bytes must be between 1 and 65536''))"

text \<open>The body of a call, or what it raises before it is sent.\<close>

fun op_body :: "client_op \<Rightarrow> body result" where
  "op_body (KRegister u p) = Inr (Json (PDict [(PStr ''username'', PStr u), (PStr ''password'', PStr p)]))"
| "op_body (KLogin u p) = Inr (Json (PDict [(PStr ''username'', PStr u), (PStr ''password'', PStr p)]))"
| "op_body (KUploadInput b) = Inr (Bytes b)"
| "op_body (KUploadChunk i offset b final) = Inr (Bytes b)"
| "op_body (KSubmit task idem key version) = ebind (submitted_version task version) (\<lambda>t. Inr (Json (PDict [(PStr ''task'', PDict t)])))"
| "op_body (KRetry x reason) = Inr (Json (PDict [(PStr ''reason'', PStr reason)]))"
| "op_body (KExcerpt x y offset n) = check_width n"
| "op_body (KChunk x y offset n) = check_width n"
| "op_body op = Inr NoBody"

definition client_headers :: "(string \<times> string) list \<Rightarrow> string option \<Rightarrow> body \<Rightarrow> (string \<times> string) list" where
  "client_headers extra token b =
     [(''Accept'', ''application/json'')] @ extra
     @ (case token of None \<Rightarrow> [] | Some t \<Rightarrow> if t = [] then [] else [(''Authorization'', ''Bearer '' @ t)])
     @ (case b of NoBody \<Rightarrow> [] | Bytes _ \<Rightarrow> [(''Content-Type'', ''application/octet-stream'')] | Json _ \<Rightarrow> [(''Content-Type'', ''application/json'')])"

text \<open>The request as it leaves the client; the router fills in the parameters.\<close>

definition client_call :: "(string \<times> string) list \<Rightarrow> string option \<Rightarrow> client_op \<Rightarrow> request result" where
  "client_call extra token op =
     ebind (op_body op) (\<lambda>b.
       let x = (case op_ids op of [] \<Rightarrow> [] | x # _ \<Rightarrow> x); y = (case op_ids op of _ # y # _ \<Rightarrow> y | _ \<Rightarrow> []);
           t = client_target (op_endpoint op) x y
       in Inr \<lparr> rq_method = fst t, rq_path = snd t, rq_params = [], rq_query = parse_qs (client_query (op_query op)),
                rq_headers = client_headers extra token b, rq_body = b \<rparr>)"

text \<open>The token after a call: \<open>register\<close> and \<open>login\<close> take the one of the answer, \<open>logout\<close> forgets it.\<close>

definition next_token :: "client_op \<Rightarrow> string \<Rightarrow> string option \<Rightarrow> string option" where
  "next_token op answered token =
     (case op of KRegister _ _ \<Rightarrow> Some answered | KLogin _ _ \<Rightarrow> Some answered | KLogout \<Rightarrow> None | _ \<Rightarrow> token)"

section \<open>Answers\<close>

datatype reply = NoReply | RawReply bytes | JsonReply pyval

definition client_reply :: "(bytes \<Rightarrow> pyval option) \<Rightarrow> bool \<Rightarrow> bytes \<Rightarrow> reply result" where
  "client_reply loads want_bytes raw =
     (if raw = [] then Inr NoReply else if want_bytes then Inr (RawReply raw)
      else case loads raw of None \<Rightarrow> Inl KernelError | Some v \<Rightarrow> Inr (JsonReply v))"

section \<open>Downloads\<close>

definition get_page :: "kenv \<Rightarrow> AuthSession option \<Rightarrow> kstate \<Rightarrow> string \<Rightarrow> string \<Rightarrow> int \<Rightarrow> nat \<Rightarrow> excerpt result" where
  "get_page e session st run_id aid width offset =
     ebind (client_call [] None (KChunk run_id aid (int offset) width)) (\<lambda>r.
       case artifact_chunk e (r\<lparr> rq_params := [(''run_id'', run_id), (''artifact_id'', aid)] \<rparr>) session st of
         Inr (_, PExcerpt x) \<Rightarrow> Inr x | _ \<Rightarrow> Inl KernelError)"

text \<open>The loop of \<open>download_artifact_to\<close>: the bytes written so far, until an answer is not truncated.\<close>

partial_function (option) download_loop :: "(nat \<Rightarrow> excerpt result) \<Rightarrow> nat \<Rightarrow> bytes \<Rightarrow> (bytes \<times> string) result option" where
  "download_loop page offset written =
     (case page offset of
        Inl x \<Rightarrow> Some (Inl x)
      | Inr x \<Rightarrow>
          if \<not> ex_truncated x then Some (Inr (written @ ex_chunk x, ex_sha256 x))
          else download_loop page (offset + length (ex_chunk x)) (written @ ex_chunk x))"

declare download_loop.simps [code]

definition download_artifact_to :: "kenv \<Rightarrow> AuthSession option \<Rightarrow> kstate \<Rightarrow> string \<Rightarrow> string \<Rightarrow> int \<Rightarrow> bytes result option" where
  "download_artifact_to e session st run_id aid width =
     map_option (\<lambda>x. ebind x (\<lambda>(content, digest). if kv_digest e content \<noteq> digest then Inl KernelError else Inr content))
       (download_loop (get_page e session st run_id aid width) 0 [])"

section \<open>Quoting is undone by the router\<close>

definition ascii :: "string \<Rightarrow> bool" where
  "ascii s = list_all (\<lambda>c. (of_char c :: nat) < 128) s"

lemma unquote_plain: "c \<noteq> CHR ''%'' \<Longrightarrow> unquote (c # t) = c # unquote t"
  by (cases t rule: unquote.cases) (auto split: option.splits)

lemma unquote_no_escape: "CHR ''%'' \<notin> set s \<Longrightarrow> unquote s = s"
  by (induction s) (auto simp: unquote_plain)

lemma hex_upper_value: "n < 16 \<Longrightarrow> hex_value (hex_upper n) = Some n"
  by (auto simp: hex_value_def hex_upper_def Let_def)

lemma unquote_quote_char:
  assumes "(of_char c :: nat) < 128"
  shows "unquote (quote_char c @ t) = c # unquote t"
proof (cases "unreserved c")
  case True
  then have "c \<noteq> CHR ''%''" by (auto simp: unreserved_def)
  then show ?thesis using True by (simp add: quote_char_def unquote_plain)
next
  case False
  let ?n = "of_char c :: nat"
  have "hex_value (hex_upper (?n div 16)) = Some (?n div 16)" "hex_value (hex_upper (?n mod 16)) = Some (?n mod 16)"
    using assms by (simp_all add: hex_upper_value)
  then show ?thesis using False assms by (simp add: quote_char_def)
qed

lemma unquote_seg_quote: "ascii s \<Longrightarrow> unquote (seg_quote s) = s"
  by (induction s) (simp_all add: ascii_def seg_quote_def unquote_quote_char)

lemma hex_upper_not_slash: "n < 16 \<Longrightarrow> CHR ''/'' \<noteq> hex_upper n"
proof
  assume "n < 16" "CHR ''/'' = hex_upper n"
  then have "hex_value (CHR ''/'') = Some n" using hex_upper_value by simp
  then show False by (simp add: hex_value_def)
qed

lemma quote_char_segment: "(of_char c :: nat) < 128 \<Longrightarrow> CHR ''/'' \<notin> set (quote_char c)"
  by (auto simp: quote_char_def unreserved_def hex_upper_not_slash)

lemma seg_quote_segment: "ascii s \<Longrightarrow> CHR ''/'' \<notin> set (seg_quote s)"
  by (auto simp: ascii_def seg_quote_def list_all_iff quote_char_segment)

lemma seg_quote_nonempty: "s \<noteq> [] \<Longrightarrow> seg_quote s \<noteq> []"
  by (cases s) (auto simp: seg_quote_def quote_char_def)

lemma split_on_segment: "c \<notin> set x \<Longrightarrow> split_on c (x @ c # y) = x # split_on c y"
  by (induction x) auto

lemma split_on_last: "c \<notin> set x \<Longrightarrow> split_on c x = [x]"
  by (induction x) auto

lemma kernel_routes_segs:
  "kernel_routes = map (\<lambda>(m, ts, h). \<lparr> rt_method = m, rt_segs = Lit [] # Lit ''kernel'' # ts, rt_handler = h \<rparr>)
     [ (''GET'', [Lit ''health''], EHealth), (''GET'', [Lit ''plugins''], EPlugins),
       (''POST'', [Lit ''auth'', Lit ''register''], ERegister), (''POST'', [Lit ''auth'', Lit ''login''], ELogin),
       (''GET'', [Lit ''auth'', Lit ''session''], ESession), (''POST'', [Lit ''auth'', Lit ''logout''], ELogout),
       (''POST'', [Lit ''inputs''], EIngest), (''POST'', [Lit ''inputs'', Lit ''chunk''], EIngestChunk),
       (''POST'', [Lit ''runs''], ESubmit), (''GET'', [Lit ''runs''], EListRuns),
       (''GET'', [Lit ''runs'', Par ''run_id''], EGetRun), (''GET'', [Lit ''designs'', Par ''design_id'', Lit ''tree''], EDesignTree),
       (''POST'', [Lit ''runs'', Par ''run_id'', Lit ''cancel''], ECancel), (''POST'', [Lit ''runs'', Par ''run_id'', Lit ''retry''], ERetry),
       (''POST'', [Lit ''runs'', Par ''run_id'', Lit ''bundle''], EBundle),
       (''GET'', [Lit ''runs'', Par ''run_id'', Lit ''metrics''], EMetrics), (''GET'', [Lit ''runs'', Par ''run_id'', Lit ''artifacts''], EArtifacts),
       (''GET'', [Lit ''runs'', Par ''run_id'', Lit ''timeline''], ETimeline), (''GET'', [Lit ''runs'', Par ''run_id'', Lit ''resources''], EResources),
       (''GET'', [Lit ''runs'', Par ''run_id'', Lit ''logs''], ELogs),
       (''GET'', [Lit ''runs'', Par ''run_id'', Lit ''artifacts'', Par ''artifact_id'', Lit ''excerpt''], EExcerpt),
       (''GET'', [Lit ''runs'', Par ''run_id'', Lit ''artifacts'', Par ''artifact_id'', Lit ''download''], EDownload),
       (''GET'', [Lit ''runs'', Par ''run_id'', Lit ''artifacts'', Par ''artifact_id'', Lit ''chunk''], EChunk),
       (''GET'', [Lit ''graph''], EGraph) ]"
  by code_simp

text \<open>The route of an endpoint, and the parameters its handler is to see.\<close>

definition client_params :: "endpoint \<Rightarrow> string \<Rightarrow> string \<Rightarrow> (string \<times> string) list" where
  "client_params h x y =
     (if h = EDesignTree then [(''design_id'', x)]
      else if h \<in> {EExcerpt, EDownload, EChunk} then [(''run_id'', x), (''artifact_id'', y)]
      else if h \<in> {EGetRun, ECancel, ERetry, EBundle, EMetrics, EArtifacts, ETimeline, EResources, ELogs} then [(''run_id'', x)]
      else [])"

lemma split_on_quoted:
  assumes "ascii x"
  shows "split_on (CHR ''/'') (seg_quote x @ CHR ''/'' # t) = seg_quote x # split_on (CHR ''/'') t"
    and "split_on (CHR ''/'') (seg_quote x) = [seg_quote x]"
  using split_on_segment [OF seg_quote_segment [OF assms]] split_on_last [OF seg_quote_segment [OF assms]] by simp_all

lemma target_reaches_handler:
  assumes "ascii x" "x \<noteq> []" "ascii y" "y \<noteq> []"
  shows "\<exists>rt. match_route kernel_routes (fst (client_target h x y)) (snd (client_target h x y)) = Some (rt, client_params h x y) \<and> rt_handler rt = h"
proof -
  note q = split_on_quoted [OF assms(1)] split_on_quoted [OF assms(3)] unquote_seg_quote [OF assms(1)] unquote_seg_quote [OF assms(3)]
    seg_quote_nonempty [OF assms(2)] seg_quote_nonempty [OF assms(4)]
  have "\<exists>rt \<in> set kernel_routes. rt_method rt = fst (client_target h x y) \<and>
    match_segs (rt_segs rt) (split_on (CHR ''/'') (snd (client_target h x y))) = Some (client_params h x y) \<and> rt_handler rt = h"
    unfolding kernel_routes_segs by (cases h) (simp_all add: q run_path_def artifact_path_of_def client_params_def)
  then show ?thesis by (auto simp: match_route_iff match_path_def)
qed

section \<open>Queries are read as they were written\<close>

fun read_back :: "query_value \<Rightarrow> string list" where
  "read_back QNone = []"
| "read_back (QText t) = (if t = [] then [] else [t])"
| "read_back (QInt n) = [int_str n]"
| "read_back (QTexts ts) = filter (\<lambda>t. t \<noteq> []) ts"

lemma int_str_nonempty [simp]: "int_str n \<noteq> []"
  by (simp add: int_str_def nat_str_nonempty)

lemma parse_int_int_str: "parse_int (int_str n) = Some n"
proof (cases "n < 0")
  case True
  let ?m = "nat (- n)"
  have d: "list_all is_digit (nat_str ?m)" using nat_str_digits by (auto simp: list_all_iff)
  have "strip (CHR ''-'' # nat_str ?m) = CHR ''-'' # nat_str ?m"
  proof -
    obtain ys y where y: "nat_str ?m = ys @ [y]" using nat_str_nonempty by (metis rev_exhaust)
    then have "is_digit y" using d by simp
    then have "\<not> is_space y" by (auto simp: is_digit_def is_space_def Let_def)
    then show ?thesis by (simp add: strip_def y is_space_def)
  qed
  then show ?thesis using True d digits_value_nat_str [of ?m] nat_str_nonempty [of ?m]
    by (simp add: parse_int_def int_str_def unsigned_int_def split_on_digits)
qed (simp add: int_str_def parse_int_nat_str)

lemma read_back_pairs: "map snd (filter (\<lambda>x. snd x \<noteq> []) (query_pairs (k, v))) = read_back v" "fst ` set (query_pairs (k, v)) \<subseteq> {k}"
  by (cases v; auto simp: filter_map o_def)+

lemma client_query_keys: "fst ` set (client_query qs) \<subseteq> fst ` set qs"
proof (induction qs)
  case (Cons p qs)
  then show ?case using read_back_pairs(2) [of "fst p" "snd p"] by (auto simp: client_query_def)
qed (simp add: client_query_def)

lemma client_query_key:
  assumes "distinct (map fst qs)" "(k, v) \<in> set qs"
  shows "map snd (filter (\<lambda>x. fst x = k) (filter (\<lambda>x. snd x \<noteq> []) (client_query qs))) = read_back v"
  using assms
proof (induction qs)
  case (Cons p qs)
  obtain l w where p: "p = (l, w)" by (cases p)
  have other: "filter (\<lambda>x. fst x = k) (filter (\<lambda>x. snd x \<noteq> []) (query_pairs (m, u))) = []" if "m \<noteq> k" for m u
    using read_back_pairs(2) [of m u] that by (auto simp: filter_empty_conv)
  have same: "filter (\<lambda>x. fst x = k) (filter (\<lambda>x. snd x \<noteq> []) (query_pairs (k, u))) = filter (\<lambda>x. snd x \<noteq> []) (query_pairs (k, u))" for u
    using read_back_pairs(2) [of k u] by (auto intro!: filter_cong)
  show ?case
  proof (cases "l = k")
    case True
    have none: "filter (\<lambda>x. fst x = k) (filter (\<lambda>x. snd x \<noteq> []) (client_query qs)) = []"
      using Cons.prems(1) p True client_query_keys [of qs] by (auto simp: filter_empty_conv)
    have "w = v" using Cons.prems p True by (auto simp: image_iff)
    then show ?thesis using none same read_back_pairs(1) by (simp add: client_query_def p True)
  next
    case False
    then have "(k, v) \<in> set qs" using Cons.prems(2) p by simp
    then show ?thesis using Cons False other by (simp add: client_query_def p)
  qed
qed simp

lemma parse_qs_key: "(case map_of (parse_qs ps) k of None \<Rightarrow> [] | Some vs \<Rightarrow> vs) = map snd (filter (\<lambda>x. fst x = k) (filter (\<lambda>x. snd x \<noteq> []) ps))"
proof -
  let ?xs = "filter (\<lambda>x. snd x \<noteq> []) ps"
  have m: "map_of (map (\<lambda>k. (k, f k)) ks) k = (if k \<in> set ks then Some (f k) else None)" for f :: "string \<Rightarrow> string list" and ks
    by (induction ks) auto
  have "k \<notin> fst ` set ?xs \<Longrightarrow> filter (\<lambda>x. fst x = k) ?xs = []" by (auto simp: filter_empty_conv image_iff)
  then show ?thesis by (auto simp: parse_qs_def Let_def m)
qed

lemma op_query_distinct: "distinct (map fst (op_query op))"
  by (cases op) simp_all

section \<open>The client reaches the kernel\<close>

text \<open>C31: 
  The client and the kernel agree on the surface: every call of the client, with the run, artifact or design
  percent-encoded, is routed by the kernel to the handler the call is meant for, which sees the very identifiers that
  were passed and reads every query value as it was given, an absent or empty one as absent.
\<close>

theorem client_reaches_handlers:
  assumes "client_call extra token op = Inr r" "list_all (\<lambda>x. ascii x \<and> x \<noteq> []) (op_ids op)"
  shows "(\<exists>rt ps. match_route kernel_routes (rq_method r) (rq_path r) = Some (rt, ps) \<and> rt_handler rt = op_endpoint op \<and> map snd ps = op_ids op) \<and>
    (\<forall>k v. (k, v) \<in> set (op_query op) \<longrightarrow> q_all r k = read_back v)"
proof
  define x where "x = (case op_ids op of [] \<Rightarrow> ''x'' | x # _ \<Rightarrow> x)"
  define y where "y = (case op_ids op of _ # y # _ \<Rightarrow> y | _ \<Rightarrow> ''y'')"
  have ok: "ascii x" "x \<noteq> []" "ascii y" "y \<noteq> []"
    using assms(2) by (auto simp: x_def y_def ascii_def split: list.split)
  have t: "rq_method r = fst (client_target (op_endpoint op) x y)" "rq_path r = snd (client_target (op_endpoint op) x y)"
    using assms(1) by (cases op; auto simp: client_call_def x_def y_def ebind_Inr_iff)+
  have "map snd (client_params (op_endpoint op) x y) = op_ids op" by (cases op) (simp_all add: client_params_def x_def y_def)
  then show "\<exists>rt ps. match_route kernel_routes (rq_method r) (rq_path r) = Some (rt, ps) \<and> rt_handler rt = op_endpoint op \<and> map snd ps = op_ids op"
    using target_reaches_handler [OF ok, of "op_endpoint op"] t by metis
next
  have "rq_query r = parse_qs (client_query (op_query op))" using assms(1) by (auto simp: client_call_def ebind_Inr_iff Let_def)
  then show "\<forall>k v. (k, v) \<in> set (op_query op) \<longrightarrow> q_all r k = read_back v"
    using client_query_key [OF op_query_distinct] by (simp add: q_all_def parse_qs_key)
qed

text \<open>
  The kernel authenticates the client by the token it remembers: what \<open>register\<close> or \<open>login\<close> answered is the token of
  every later call until \<open>logout\<close>.
\<close>

theorem client_authenticates_by_token:
  assumes "client_call [] (Some t) op = Inr r" "t \<noteq> []" "strip t = t"
  shows "bearer r = Some t"
proof -
  have h: "rq_headers r = client_headers [] (Some t) (rq_body r)" using assms(1) by (auto simp: client_call_def ebind_Inr_iff Let_def)
  have "header r ''Authorization'' = Some (''Bearer '' @ t)"
    using assms(2) unfolding header_def h client_headers_def by (simp add: lower_def lower_char_def)
  moreover have "take 7 (lower (''Bearer '' @ t)) = take 7 (lower ''Bearer '')" by (simp add: lower_def)
  moreover have "take 7 (lower ''Bearer '') = ''bearer ''" by code_simp
  ultimately show ?thesis using assms(3) by (simp add: bearer_def)
qed

section \<open>Downloads\<close>

text \<open>The caller may read the run, the artifact is one of the run, and its bytes are found.\<close>

definition servable :: "kenv \<Rightarrow> AuthSession option \<Rightarrow> kstate \<Rightarrow> string \<Rightarrow> string \<Rightarrow> artifact_row \<Rightarrow> bytes \<Rightarrow> bool" where
  "servable e session st run_id aid a b =
     (require_ownership e ''run'' run_id session st = Inr () \<and> \<not> isl (get_run run_id (ks_store st)) \<and>
      filter (\<lambda>x. ar_id x = aid) (run_artifacts run_id (ks_store st)) = [a] \<and>
      (case artifact_path (resolve (kv_world e)) (resolve_in (kv_world e)) aid (ks_store st) of
         Inl _ \<Rightarrow> False | Inr loc \<Rightarrow> read_location (disk (kv_world e)) loc (ks_store st) = Some b))"

lemma get_page_servable:
  assumes "servable e session st run_id aid a b" "0 < width" "width \<le> MAX_EXCERPT_BYTES"
  shows "get_page e session st run_id aid width offset =
    Inr \<lparr> ex_artifact = aid, ex_sha256 = ar_sha256 a, ex_offset = int offset, ex_chunk = take (nat width) (drop offset b), ex_size = ar_size a,
          ex_truncated = (int offset + int (length (take (nat width) (drop offset b))) < ar_size a) \<rparr>"
proof -
  obtain v where v: "get_run run_id (ks_store st) = Inr v" using assms(1) by (metis servable_def sum.collapse(2))
  obtain r where r: "client_call [] None (KChunk run_id aid (int offset) width) = Inr r"
    using assms(2,3) by (auto simp: client_call_def check_width_def Let_def)
  let ?r = "r\<lparr> rq_params := [(''run_id'', run_id), (''artifact_id'', aid)] \<rparr>"
  have p: "param ?r ''run_id'' = run_id" "param ?r ''artifact_id'' = aid" by (simp_all add: param_def)
  have "rq_query ?r = parse_qs (client_query [(''offset'', QInt (int offset)), (''max_bytes'', QInt width)])"
    using r by (auto simp: client_call_def ebind_Inr_iff Let_def)
  then have "q ?r ''offset'' = Some (int_str (int offset))" "q ?r ''max_bytes'' = Some (int_str width)"
    by (simp_all add: q_def parse_qs_def client_query_def)
  then have n: "q_int_or ?r ''offset'' 0 = Inr (int offset)" "q_int_or ?r ''max_bytes'' d = Inr width" for d
    using assms(2) by (simp_all add: q_int_or_def q_int_def parse_int_int_str)
  show ?thesis
    using assms v
    by (auto simp: servable_def get_page_def r p n artifact_chunk_def excerpt_page_def read_artifact_excerpt_def MAX_EXCERPT_def
        MAX_EXCERPT_BYTES_def rescue_def Let_def is_int_def is_bool_def split: sum.split_asm)
qed

lemma download_loop_whole:
  assumes "\<And>i. page i = Inr (x i)" "\<And>i. ex_chunk (x i) = take w (drop i b)" "\<And>i. ex_sha256 (x i) = d"
    "\<And>i. ex_truncated (x i) \<longleftrightarrow> i + length (take w (drop i b)) < length b" "0 < w" "i \<le> length b"
  shows "download_loop page i (take i b) = Some (Inr (b, d))"
  using assms(6)
proof (induction "length b - i" arbitrary: i rule: less_induct)
  case less
  show ?case
  proof (cases "i + w < length b")
    case True
    then have "download_loop page (i + w) (take (i + w) b) = Some (Inr (b, d))" using less assms(5) by simp
    then show ?thesis using True assms(1-4) by (subst download_loop.simps) (simp add: take_add)
  next
    case False
    then have "take i b @ take w (drop i b) = b" by (metis append_take_drop_id drop_eq_Nil not_less take_add take_all)
    then show ?thesis using False less.prems assms(1-4) by (subst download_loop.simps) (auto simp: min_def)
  qed
qed

lemma download_loop_diverges:
  assumes "\<And>i. i \<le> n \<Longrightarrow> \<exists>x. page i = Inr x \<and> ex_truncated x \<and> i + length (ex_chunk x) \<le> n" "i \<le> n"
  shows "download_loop page i written = None"
proof -
  have "download_loop p i written = Some y \<Longrightarrow>
    \<not> (i \<le> n \<and> (\<forall>i \<le> n. \<exists>x. p i = Inr x \<and> ex_truncated x \<and> i + length (ex_chunk x) \<le> n))" for p i written y
  proof (erule download_loop.raw_induct [rotated], rule notI, elim conjE)
    fix f p i written y
    assume f: "\<And>p i written y. f p i written = Some y \<Longrightarrow>
        \<not> (i \<le> n \<and> (\<forall>i \<le> n. \<exists>x. p i = Inr x \<and> ex_truncated x \<and> i + length (ex_chunk x) \<le> n))"
      and y: "(case p i of Inl x \<Rightarrow> Some (Inl x)
        | Inr x \<Rightarrow> if \<not> ex_truncated x then Some (Inr (written @ ex_chunk x, ex_sha256 x)) else f p (i + length (ex_chunk x)) (written @ ex_chunk x)) = Some y"
      and i: "i \<le> n" and all: "\<forall>i \<le> n. \<exists>x. p i = Inr x \<and> ex_truncated x \<and> i + length (ex_chunk x) \<le> n"
    from i all obtain x where "p i = Inr x" "ex_truncated x" "i + length (ex_chunk x) \<le> n" by blast
    then show False using f [of p "i + length (ex_chunk x)"] y all by simp
  qed
  from this [of page i written] show ?thesis using assms by (cases "download_loop page i written") blast+
qed


text \<open>C40: 
  A defect: an artifact whose file has become shorter than its registered size makes the download run for ever. The
  kernel answers every page beyond the end with no bytes and \<open>truncated\<close>, and the client asks again for the same offset.
\<close>

theorem shortened_artifact_hangs_download:
  assumes "servable e session st run_id aid a b" "int (length b) < ar_size a" "0 < width" "width \<le> MAX_EXCERPT_BYTES"
  shows "download_artifact_to e session st run_id aid width = None"
proof -
  have "download_loop (get_page e session st run_id aid width) 0 [] = None"
    by (rule download_loop_diverges [of "length b"]) (use assms(2) in \<open>auto simp: get_page_servable [OF assms(1,3,4)]\<close>)
  then show ?thesis by (simp add: download_artifact_to_def)
qed

section \<open>Scenarios\<close>

definition download_state :: "bytes \<Rightarrow> kstate" where
  "download_state b = sample_state\<lparr> ks_store := sample_evidence\<lparr> objects := [toy_digest ''hello'' \<mapsto> b] \<rparr>,
     ks_ident := sample_ident\<lparr> owners := [\<lparr> ow_type = ''run'', ow_resource = ''r'', ow_user = ''m'', ow_created = 0 \<rparr>] \<rparr> \<rparr>"

definition download_row :: artifact_row where
  "download_row = hd (artifacts sample_evidence)"

lemma download_served: "servable sample_env (Some own_session) (download_state ''hello'') ''r'' ''x1'' download_row ''hello''"
  "servable sample_env (Some own_session) (download_state ''hel'') ''r'' ''x1'' download_row ''hel''"
  by code_simp+

lemma download_facts: "ar_size download_row = 5" "kv_digest sample_env ''hello'' = ar_sha256 download_row"
  by code_simp+


theorem shortened_artifact_hangs_download_witness:
  "download_artifact_to sample_env (Some own_session) (download_state ''hel'') ''r'' ''x1'' 2 = None"
  using shortened_artifact_hangs_download [OF download_served(2), of 2] by (simp add: download_facts MAX_EXCERPT_BYTES_def)

definition a_call :: "request result" where
  "a_call = client_call [] (Some ''tok'') (KDesignTree ''../x'' (Some (- 2)) 3)"

theorem client_reaches_handlers_witness:
  "\<exists>r rt ps. a_call = Inr r \<and> match_route kernel_routes (rq_method r) (rq_path r) = Some (rt, ps) \<and> rt_handler rt = EDesignTree \<and>
    map snd ps = [''../x''] \<and> q_all r ''limit'' = [''-2'']"
proof -
  have "\<not> isl a_call" "list_all (\<lambda>x. ascii x \<and> x \<noteq> []) (op_ids (KDesignTree ''../x'' (Some (- 2)) 3))" "read_back (QInt (- 2)) = [''-2'']" by code_simp+
  then obtain r where r: "a_call = Inr r" by (metis sum.collapse(2))
  note c = client_reaches_handlers [OF r [unfolded a_call_def] \<open>list_all _ _\<close>]
  from c obtain rt ps where "match_route kernel_routes (rq_method r) (rq_path r) = Some (rt, ps)" "rt_handler rt = EDesignTree" "map snd ps = [''../x'']"
    by auto
  moreover have "q_all r ''limit'' = [''-2'']"
    using conjunct2 [OF c, rule_format, of "''limit''" "QInt (- 2)"] \<open>read_back _ = _\<close> by (simp add: q_number_def)
  ultimately show ?thesis using r by (intro exI [of _ r] exI [of _ rt] exI [of _ ps] conjI)
qed

theorem client_authenticates_by_token_witness: "\<exists>r. a_call = Inr r \<and> bearer r = Some ''tok''"
proof -
  have "\<not> isl a_call" "strip ''tok'' = ''tok''" by code_simp+
  then obtain r where r: "a_call = Inr r" by (metis sum.collapse(2))
  have "bearer r = Some ''tok''" by (rule client_authenticates_by_token [OF r [unfolded a_call_def]]) (simp_all add: \<open>strip _ = _\<close>)
  then show ?thesis using r by (intro exI [of _ r] conjI)
qed

text \<open>A defect: an empty artifact downloads as \<open>None\<close> and not as no bytes.\<close>

theorem empty_artifact_is_none: "client_reply loads True [] = Inr NoReply \<and> client_reply loads True [b] = Inr (RawReply [b])"
  by (simp add: client_reply_def)

end
