(* ===== verification/Queries.thy ===== *)
theory Queries
  imports Client Plans
begin

text \<open>
  \<open>apps/query_agent/src/openroad_app_query_agent\<close>: questions and structured queries about runs, the reports that answer
  them, and analyses that need a confirmation. What the kernel answers to the client is a parameter, a fresh client per
  request. \<open>QueryError(status, message)\<close> is \<open>HttpError status\<close>; the texts of messages and the fixed policy notes of a report are
  left out. The pattern of a question is matched on characters below 256, without the Chinese keyword.
\<close>

section \<open>The catalogue\<close>

record query_client =
  qc_plugins :: "pydict list result"
  qc_runs :: "pydict \<Rightarrow> pydict list result"
  qc_run :: "string \<Rightarrow> pydict result"
  qc_metrics :: "string \<Rightarrow> pydict list result"
  qc_artifacts :: "string \<Rightarrow> string option \<Rightarrow> string option \<Rightarrow> string option \<Rightarrow> pydict list result"
  qc_excerpt :: "string \<Rightarrow> pyval \<Rightarrow> int \<Rightarrow> int \<Rightarrow> pyval result"
  qc_submit :: "pydict \<Rightarrow> pyval result"
  qc_bundle :: "string \<Rightarrow> pyval result"
  qc_health :: "pyval result"
  qc_tree :: "string \<Rightarrow> pyval result"
  qc_bytes :: "string \<Rightarrow> string \<Rightarrow> bytes option result"

definition MAX_RUNS :: int where
  "MAX_RUNS = 100"

definition query_integer :: "string option \<Rightarrow> int \<Rightarrow> int result" where
  "query_integer value dflt =
     (case value of None \<Rightarrow> Inr dflt
      | Some t \<Rightarrow> if t = [] then Inr dflt else (case parse_int t of None \<Rightarrow> Inl (HttpError 400) | Some n \<Rightarrow> Inr n))"

definition query_limit :: "string option \<Rightarrow> int \<Rightarrow> int result" where
  "query_limit value dflt =
     ebind (query_integer value dflt) (\<lambda>n. if 1 \<le> n \<and> n \<le> MAX_RUNS then Inr n else Inl (HttpError 400))"

definition FILTER_NAMES :: "string list" where
  "FILTER_NAMES = [''project_id'', ''design_id'', ''plugin_id'', ''status'']"

definition query_offset :: "string option \<Rightarrow> int result" where
  "query_offset value = ebind (query_integer value 0) (\<lambda>n. if n < 0 then Inl (HttpError 400) else Inr n)"

definition first_value :: "(string \<times> string list) list \<Rightarrow> string \<Rightarrow> string option" where
  "first_value query name = (case map_of query name of Some (v # _) \<Rightarrow> Some v | _ \<Rightarrow> None)"

definition run_filters :: "(string \<times> string list) list \<Rightarrow> pydict result" where
  "run_filters query =
     (let given = List.map_filter (\<lambda>n. case first_value query n of None \<Rightarrow> None | Some v \<Rightarrow> if v = [] then None else Some (PStr n, PStr v)) FILTER_NAMES in
      ebind (query_limit (first_value query ''limit'') 20) (\<lambda>l.
      ebind (query_offset (first_value query ''offset'')) (\<lambda>offset.
      Inr (given @ [(PStr ''limit'', PInt l), (PStr ''offset'', PInt offset)]))))"

record design_entry =
  de_key :: "string \<times> string \<times> pyval"
  de_runs :: "pydict list"
  de_count :: nat
  de_latest :: pydict

definition design_key :: "pydict \<Rightarrow> string \<times> string \<times> pyval" where
  "design_key run = (text_of (dget_or run ''project_id'' (PStr [])), text_of (dget_or run ''design_id'' (PStr [])), dgetN run ''design_revision_id'')"

text \<open>One entry per key, in the order in which the keys first appear, the runs of each in their order.\<close>

definition designs :: "pydict list \<Rightarrow> design_entry list" where
  "designs rs = map (\<lambda>k. let own = filter (\<lambda>r. design_key r = k) rs in
       \<lparr> de_key = k, de_runs = own, de_count = length own, de_latest = hd own \<rparr>) (rev (remdups (rev (map design_key rs))))"

definition keeps :: "pyval \<Rightarrow> pydict \<Rightarrow> string \<Rightarrow> bool" where
  "keeps wanted a key = (wanted = PNone \<or> py_eq (dgetN a key) wanted)"

definition artifact_selection :: "pydict list \<Rightarrow> pyval \<Rightarrow> pyval \<Rightarrow> pyval \<Rightarrow> pyval \<Rightarrow> pydict list" where
  "artifact_selection arts path sha kind aid =
     filter (\<lambda>a. keeps path a ''store_key'' \<and> keeps sha a ''sha256'' \<and> keeps kind a ''kind'' \<and> keeps aid a ''artifact_id'') arts"

definition artifact_view :: "string \<Rightarrow> pydict \<Rightarrow> pydict" where
  "artifact_view run_id a =
     (let meta = items (or_else (dgetN a ''metadata'') (PDict [])); aid = dgetN a ''artifact_id'' in
      dict_update a
        [ (PStr ''logical_path'', or_else (dgetN meta ''logical_path'') (dgetN a ''store_key'')),
          (PStr ''category'', dgetN meta ''category''),
          (PStr ''stage'', or_else (dgetN a ''stage_key'') (dgetN meta ''stage'')),
          (PStr ''format'', or_else (dgetN meta ''format'') (dgetN a ''media_type'')),
          (PStr ''source'', PDict [(PStr ''run_id'', PStr run_id), (PStr ''attempt_id'', dgetN a ''attempt_id''), (PStr ''artifact_id'', aid)]),
          (PStr ''integrity'', PDict [(PStr ''sha256'', dgetN a ''sha256''), (PStr ''size_bytes'', dgetN a ''size_bytes''), (PStr ''registered'', PBool True)]),
          (PStr ''access'', PDict [(PStr ''excerpt'', PStr (''/artifacts/'' @ run_id @ ''/'' @ text_of aid @ ''/excerpt'')),
            (PStr ''download'', PStr (''/artifacts/'' @ run_id @ ''/'' @ text_of aid @ ''/download''))]) ])"

section \<open>Reports\<close>

definition MAX_REPORT_RUNS :: nat where
  "MAX_REPORT_RUNS = 20"

definition source_of :: "pydict \<Rightarrow> pydict" where
  "source_of m = [(PStr ''run_id'', dgetN m ''run_id''), (PStr ''attempt_id'', dgetN m ''attempt_id''), (PStr ''artifact'', dgetN m ''artifact''),
     (PStr ''parser'', dgetN m ''parser''), (PStr ''complete'', PBool (truthy (dgetN m ''complete'')))]"

definition fact_of :: "pydict \<Rightarrow> pydict" where
  "fact_of m =
     (let complete = truthy (dgetN m ''complete'') in
      [(PStr ''name'', dgetN m ''name''), (PStr ''value'', dgetN m ''value''), (PStr ''unit'', dgetN m ''unit''), (PStr ''source'', PDict (source_of m)),
       (PStr ''evidence_level'', PStr (if complete then ''extracted_fact'' else ''unknown'')),
       (PStr ''confidence'', PStr (if complete then ''source_verified'' else ''unsourced''))])"

text \<open>An entry of a report; \<open>rp_detail\<close> is \<open>None\<close> for a run that could not be read.\<close>

record report_entry =
  rp_run :: string
  rp_detail :: "pydict option"
  rp_facts :: "pydict list"
  rp_artifacts :: "pydict list"
  rp_raw :: "(pyval \<times> pyval) list"

definition is_KernelError :: "pyexn \<Rightarrow> bool" where
  "is_KernelError e = (e = KernelError \<or> e = KernelUnavailable)"

text \<open>\<open>int(v)\<close>; an infinity raises what no caller here catches, as a value that is no number does.\<close>

definition int_of :: "pyval \<Rightarrow> int result" where
  "int_of v =
     (case v of
        PInt n \<Rightarrow> Inr n | PBool b \<Rightarrow> Inr (if b then 1 else 0)
      | PFloat (FFin x) \<Rightarrow> Inr (if x < 0 then - \<lfloor>- x\<rfloor> else \<lfloor>x\<rfloor>) | PFloat FNaN \<Rightarrow> Inl (ValueError ''cannot convert float NaN to integer'')
      | PStr t \<Rightarrow> (case parse_int t of None \<Rightarrow> Inl (ValueError ''invalid literal for int()'') | Some n \<Rightarrow> Inr n)
      | _ \<Rightarrow> Inl TypeError)"

text \<open>The arguments of \<open>artifact_excerpt\<close>, checked by the client before it calls.\<close>

definition report_excerpt :: "query_client \<Rightarrow> string \<Rightarrow> pydict \<Rightarrow> pyval result" where
  "report_excerpt c run_id filters =
     ebind (int_of (dget_or filters ''offset'' (PInt 0))) (\<lambda>offset.
     ebind (int_of (dget_or filters ''max_bytes'' (PInt 8192))) (\<lambda>n.
     ebind (check_width n) (\<lambda>_. qc_excerpt c run_id (dgetN filters ''artifact_id'') offset n)))"

text \<open>One run of a report: its entry, and whether something of it is missing.\<close>

definition report_run :: "query_client \<Rightarrow> pydict \<Rightarrow> string \<Rightarrow> (report_entry \<times> string list) result" where
  "report_run c filters run_id =
     (case ebind (qc_run c run_id) (\<lambda>d. ebind (qc_metrics c run_id) (\<lambda>ms. ebind (qc_artifacts c run_id None None None) (\<lambda>arts. Inr (d, ms, arts)))) of
        Inl e \<Rightarrow> if is_KernelError e then Inr (\<lparr> rp_run = run_id, rp_detail = None, rp_facts = [], rp_artifacts = [], rp_raw = [] \<rparr>, [run_id]) else Inl e
      | Inr (d, ms, arts) \<Rightarrow>
          let chosen = map (artifact_view run_id)
                (artifact_selection arts (dgetN filters ''path'') (dgetN filters ''sha256'') (dgetN filters ''kind'') (dgetN filters ''artifact_id''));
              entry = (\<lambda>raw. \<lparr> rp_run = run_id, rp_detail = Some d, rp_facts = map fact_of ms, rp_artifacts = chosen, rp_raw = raw \<rparr>)
          in if \<not> truthy (dgetN filters ''artifact_id'') then Inr (entry [], [])
             else case report_excerpt c run_id filters of
               Inr x \<Rightarrow> Inr (entry [(dgetN filters ''artifact_id'', x)], [])
             | Inl e \<Rightarrow> if is_KernelError e \<or> is_ValueError e then Inr (entry [], [run_id]) else Inl e)"

record report =
  ro_entries :: "report_entry list"
  ro_missing :: "string list"

definition run_report :: "query_client \<Rightarrow> string list \<Rightarrow> pydict \<Rightarrow> report result" where
  "run_report c run_ids filters =
     (if run_ids = [] then Inl (HttpError 400)
      else if MAX_REPORT_RUNS < length run_ids then Inl (HttpError 400)
      else ebind (emap (report_run c filters) run_ids) (\<lambda>xs. Inr \<lparr> ro_entries = map fst xs, ro_missing = concat (map snd xs) \<rparr>))"

section \<open>Questions\<close>

definition is_word :: "char \<Rightarrow> bool" where
  "is_word c = (is_alnum c \<or> c = CHR ''_'')"

definition is_hex :: "char \<Rightarrow> bool" where
  "is_hex c = (let n = (of_char (lower_char c) :: nat) in (48 \<le> n \<and> n \<le> 57) \<or> (97 \<le> n \<and> n \<le> 102))"

text \<open>\<open>\b(run-[a-f0-9]+)\b\<close> at the start of \<open>s\<close>: a shorter run of digits would be followed by another digit.\<close>

definition run_at :: "string \<Rightarrow> string option" where
  "run_at s =
     (if lower (take 4 s) \<noteq> ''run-'' then None
      else let digits = takeWhile is_hex (drop 4 s); rest = drop (4 + length digits) s in
        if digits = [] \<or> (rest \<noteq> [] \<and> is_word (hd rest)) then None else Some (take 4 s @ digits))"

fun find_run :: "bool \<Rightarrow> string \<Rightarrow> string option" where
  "find_run after_word [] = None"
| "find_run after_word (c # cs) =
     (case (if after_word then None else run_at (c # cs)) of Some r \<Rightarrow> Some r | None \<Rightarrow> find_run (is_word c) cs)"

definition is_name_char :: "char \<Rightarrow> bool" where
  "is_name_char c = (is_alnum c \<or> c \<in> set ''_.-'')"

definition design_at :: "string \<Rightarrow> string option" where
  "design_at s =
     (if lower (take 6 s) \<noteq> ''design'' then None
      else let a = dropWhile is_space (drop 6 s);
               b = (case a of c # cs \<Rightarrow> if c \<in> set '':='' then cs else a | [] \<Rightarrow> []);
               name = takeWhile is_name_char (dropWhile is_space b)
           in if name = [] then None else Some name)"

fun find_design :: "string \<Rightarrow> string option" where
  "find_design [] = None"
| "find_design (c # cs) = (case design_at (c # cs) of Some d \<Rightarrow> Some d | None \<Rightarrow> find_design cs)"

datatype asked = AskRun string | AskDesign pydict | AskRecent pydict | AskRuns "string list" | AskFiltered pydict

definition run_ids_of :: "pydict list \<Rightarrow> string list" where
  "run_ids_of rs = map (\<lambda>r. text_of (dgetN r ''run_id'')) rs"

definition plan_question :: "query_client \<Rightarrow> string \<Rightarrow> (asked \<times> report) result" where
  "plan_question c question =
     (let t = strip question in
      if t = [] then Inl (HttpError 400)
      else case find_run False t of
        Some r \<Rightarrow> ebind (run_report c [r] []) (\<lambda>p. Inr (AskRun r, p))
      | None \<Rightarrow>
          let d = find_design t;
              filters = [(PStr ''limit'', PInt MAX_RUNS)] @ (case d of None \<Rightarrow> [] | Some x \<Rightarrow> [(PStr ''design_id'', PStr x)])
          in ebind (qc_runs c filters) (\<lambda>rs.
             ebind (run_report c (run_ids_of rs) filters) (\<lambda>p.
             Inr (if d = None then AskRecent filters else AskDesign filters, p))))"

text \<open>\<open>str(v)\<close> as the argument of \<open>int\<close>: the text of a float, a list or a dict is never the text of an integer.\<close>

definition str_arg :: "pyval \<Rightarrow> string" where
  "str_arg v = (if is_float v \<or> is_list v \<or> is_dict v then ''?'' else text_of v)"

definition structured_query :: "query_client \<Rightarrow> pydict \<Rightarrow> (asked \<times> report) result" where
  "structured_query c payload =
     (if payload = [] then Inl (HttpError 400)
      else if dgetN payload ''run_ids'' \<noteq> PNone
      then let ids = dgetN payload ''run_ids'' in
        if \<not> is_list ids \<or> \<not> list_all (\<lambda>x. is_str x \<and> truthy x) (elems ids) then Inl (HttpError 400)
        else ebind (run_report c (map py_str (elems ids)) payload) (\<lambda>p. Inr (AskRuns (map py_str (elems ids)), p))
      else
        ebind (query_limit (Some (str_arg (dget_or payload ''limit'' (PInt MAX_RUNS)))) MAX_RUNS) (\<lambda>l.
        ebind (query_offset (Some (str_arg (dget_or payload ''offset'' (PInt 0))))) (\<lambda>offset.
        let filters = List.map_filter (\<lambda>n. if truthy (dgetN payload n) then Some (PStr n, dgetN payload n) else None) FILTER_NAMES
              @ [(PStr ''limit'', PInt l), (PStr ''offset'', PInt offset)]
        in ebind (qc_runs c filters) (\<lambda>rs.
           ebind (run_report c (run_ids_of rs) payload) (\<lambda>p. Inr (AskFiltered filters, p))))))"

section \<open>Analyses\<close>

definition object_of :: "pyval \<Rightarrow> pydict result" where
  "object_of v = (case v of PDict d \<Rightarrow> Inr d | _ \<Rightarrow> Inl (HttpError 400))"

definition capability :: "query_client \<Rightarrow> string \<Rightarrow> pydict result" where
  "capability c pid =
     ebind (qc_plugins c) (\<lambda>ps.
       case filter (\<lambda>p. dgetN p ''plugin_id'' = PStr pid) ps of
         [p] \<Rightarrow> if truthy (dgetN p ''executable'') then Inr p else Inl (HttpError 409)
       | _ \<Rightarrow> Inl (HttpError 400))"

record preview =
  pw_tool :: pydict
  pw_command :: pyval
  pw_inputs :: pyval
  pw_timeout :: pyval
  pw_resources :: pyval
  pw_outputs :: pyval
  pw_target :: pydict
  pw_task :: pydict

definition named_field :: "pydict \<Rightarrow> string \<Rightarrow> bool" where
  "named_field d k = (is_str (dgetN d k) \<and> truthy (dgetN d k))"

definition preview_analysis :: "query_client \<Rightarrow> pydict \<Rightarrow> preview result" where
  "preview_analysis c payload =
     ebind (object_of (dgetN payload ''task'')) (\<lambda>task.
     if \<not> named_field task ''plugin_id'' then Inl (HttpError 400)
     else if \<not> named_field task ''project_id'' \<or> \<not> named_field task ''design_id'' then Inl (HttpError 400)
     else ebind (capability c (py_str (dgetN task ''plugin_id''))) (\<lambda>tool.
       let source = dgetN payload ''input_run_id'' in
       if source \<noteq> PNone \<and> \<not> is_str source then Inl (HttpError 400)
       else ebind (object_of (or_else (dgetN task ''parameters'') (PDict []))) (\<lambda>args.
         ebind (object_of (or_else (dgetN task ''labels'') (PDict []))) (\<lambda>given.
         let view = dset task (PStr ''labels'') (PDict (if truthy source then dset given (PStr ''analysis_of_run_id'') source else given)) in
         Inr \<lparr> pw_tool = [(PStr ''plugin_id'', dgetN tool ''plugin_id''), (PStr ''plugin_version'', dgetN tool ''plugin_version''),
                 (PStr ''capabilities'', dget_or tool ''capabilities'' (PList [])), (PStr ''declared'', dget_or tool ''declared'' (PDict []))],
               pw_command = dgetN args ''command'', pw_inputs = dget_or view ''staged_inputs'' (PList []),
               pw_timeout = dgetN view ''timeout_seconds'', pw_resources = dgetN view ''resources'',
               pw_outputs = dget_or view ''expected_artifacts'' (PList []),
               pw_target = [(PStr ''project_id'', dgetN view ''project_id''), (PStr ''design_id'', dgetN view ''design_id''),
                 (PStr ''design_revision_id'', dgetN view ''design_revision_id''), (PStr ''run_type'', PStr ''analysis''), (PStr ''input_run_id'', source)],
               pw_task = view \<rparr>))))"

definition version_text :: "pyval \<Rightarrow> string option" where
  "version_text v = (case v of PStr t \<Rightarrow> Some t | _ \<Rightarrow> None)"

text \<open>The preview that was approved and the kernel's answer; \<open>fresh\<close> names a task that has no name.\<close>

definition submit_analysis :: "query_client \<Rightarrow> string \<Rightarrow> pydict \<Rightarrow> (preview \<times> pyval) result" where
  "submit_analysis c fresh payload =
     (if dgetN payload ''confirm'' \<noteq> PBool True then Inl (HttpError 409)
      else ebind (preview_analysis c payload) (\<lambda>p.
        let task = (if truthy (dgetN (pw_task p) ''task_id'') then pw_task p else dset (pw_task p) (PStr ''task_id'') (PStr (''analysis-'' @ fresh))) in
        ebind (submitted_version task (version_text (dgetN (pw_tool p) ''plugin_version''))) (\<lambda>t.
        ebind (qc_submit c t) (\<lambda>r. Inr (p, r)))))"

section \<open>The service\<close>

text \<open>\<open>path[len(pre):-len(suf)]\<close> and \<open>strip("/")\<close>.\<close>

definition between :: "string \<Rightarrow> string \<Rightarrow> string \<Rightarrow> string" where
  "between pre suf path = take (length path - length suf - length pre) (drop (length pre) path)"

definition strip_slashes :: "string \<Rightarrow> string" where
  "strip_slashes s = rev (dropWhile (\<lambda>c. c = CHR ''/'') (rev (dropWhile (\<lambda>c. c = CHR ''/'') s)))"

definition artifact_parts :: "string \<Rightarrow> string \<Rightarrow> (string \<times> string) result" where
  "artifact_parts path suf =
     (let raw = between ''/artifacts/'' suf path; a = takeWhile (\<lambda>c. c \<noteq> CHR ''/'') raw; b = drop (length a + 1) raw in
      if a = [] \<or> b = [] then Inl (HttpError 400) else Inr (unquote a, unquote b))"

datatype query_page =
    QHealth pyval | QCapabilities "pydict list" | QDesigns "design_entry list" nat | QTree pyval | QDesignRuns string "pydict list"
  | QArtifacts string "pydict list" | QMetrics string "pydict list" | QRunReport report | QExcerpt pyval | QContent "bytes option"
  | QBundle pyval | QAnswer asked report | QPreview preview | QSubmitted preview pyval

definition path_filter :: "(string \<times> string list) list \<Rightarrow> string \<Rightarrow> string \<Rightarrow> pydict list \<Rightarrow> pydict list" where
  "path_filter query name key arts =
     (case first_value query name of None \<Rightarrow> arts | Some v \<Rightarrow> if v = [] then arts else filter (\<lambda>a. dgetN a key = PStr v) arts)"

definition query_get :: "query_client \<Rightarrow> string \<Rightarrow> (string \<times> string list) list \<Rightarrow> query_page result" where
  "query_get c path query =
     (if suffix ''/download'' path
      then ebind (artifact_parts path ''/download'') (\<lambda>(r, a). ebind (qc_bytes c r a) (\<lambda>b. Inr (QContent b)))
      else if path = ''/health'' then ebind (qc_health c) (\<lambda>v. Inr (QHealth v))
      else if path = ''/analysis/capabilities'' then ebind (qc_plugins c) (\<lambda>ps. Inr (QCapabilities ps))
      else if path = ''/designs'' then ebind (run_filters query) (\<lambda>f. ebind (qc_runs c f) (\<lambda>rs. Inr (QDesigns (designs rs) (length rs))))
      else if prefix ''/designs/'' path \<and> suffix ''/tree'' path
      then let d = strip_slashes (unquote (between ''/designs/'' ''/tree'' path)) in
        if d = [] then Inl (HttpError 400) else ebind (qc_tree c d) (\<lambda>v. Inr (QTree v))
      else if prefix ''/designs/'' path
      then let d = unquote (drop 9 path) in
        if d = [] then Inl (HttpError 400)
        else ebind (qc_runs c [(PStr ''design_id'', PStr d), (PStr ''limit'', PInt 100)]) (\<lambda>rs. Inr (QDesignRuns d rs))
      else if prefix ''/runs/'' path \<and> suffix ''/artifacts'' path
      then let r = unquote (between ''/runs/'' ''/artifacts'' path) in
        ebind (qc_artifacts c r (first_value query ''category'') (first_value query ''format'') (first_value query ''stage'')) (\<lambda>arts.
        Inr (QArtifacts r (map (artifact_view r)
          (path_filter query ''kind'' ''kind'' (path_filter query ''sha256'' ''sha256'' (path_filter query ''path'' ''store_key'' arts))))))
      else if prefix ''/runs/'' path \<and> suffix ''/metrics'' path
      then let r = unquote (between ''/runs/'' ''/metrics'' path) in ebind (qc_metrics c r) (\<lambda>ms. Inr (QMetrics r ms))
      else if prefix ''/runs/'' path
      then let r = unquote (drop 6 path) in
        if r = [] then Inl (HttpError 400) else ebind (run_report c [r] []) (\<lambda>p. Inr (QRunReport p))
      else if sublist ''/artifacts/'' path \<and> suffix ''/excerpt'' path
      then ebind (artifact_parts path ''/excerpt'') (\<lambda>(r, a).
        ebind (query_integer (first_value query ''offset'') 0) (\<lambda>offset.
        ebind (query_integer (first_value query ''max_bytes'') 8192) (\<lambda>n.
        ebind (check_width n) (\<lambda>_. ebind (qc_excerpt c r (PStr a) offset n) (\<lambda>x. Inr (QExcerpt x))))))
      else Inl (HttpError 404))"

definition query_post :: "query_client \<Rightarrow> string \<Rightarrow> string \<Rightarrow> pydict \<Rightarrow> query_page result" where
  "query_post c fresh path payload =
     (if prefix ''/runs/'' path \<and> suffix ''/bundle'' path
      then let r = strip_slashes (unquote (between ''/runs/'' ''/bundle'' path)) in
        if r = [] then Inl (HttpError 400) else ebind (qc_bundle c r) (\<lambda>b. Inr (QBundle b))
      else if path = ''/query''
      then if has_key payload ''question'' \<and> \<not> is_str (dgetN payload ''question'') then Inl (HttpError 400)
        else if is_str (dgetN payload ''question'')
        then ebind (plan_question c (py_str (dgetN payload ''question''))) (\<lambda>(a, p). Inr (QAnswer a p))
        else ebind (structured_query c payload) (\<lambda>(a, p). Inr (QAnswer a p))
      else if path = ''/analysis/preview'' then ebind (preview_analysis c payload) (\<lambda>p. Inr (QPreview p))
      else if path = ''/analysis/submit'' then ebind (submit_analysis c fresh payload) (\<lambda>(p, x). Inr (QSubmitted p x))
      else Inl (HttpError 404))"

text \<open>The client of a request is made for it, from the token of the request alone.\<close>

definition query_borrow :: "(string option \<Rightarrow> query_client) \<Rightarrow> string \<Rightarrow> query_client" where
  "query_borrow clients h = clients (if prefix ''bearer '' (lower h) then Some (strip (drop 7 h)) else None)"

section \<open>Properties\<close>

lemma report_run_sound:
  assumes "report_run c filters run_id = Inr (e, missing)"
  shows "rp_run e = run_id \<and> set missing \<subseteq> {run_id} \<and> (rp_detail e = None \<longrightarrow> missing = [run_id] \<and> rp_facts e = [] \<and> rp_artifacts e = []) \<and>
    (\<forall>d. rp_detail e = Some d \<longrightarrow> qc_run c run_id = Inr d \<and> (\<exists>ms. qc_metrics c run_id = Inr ms \<and> rp_facts e = map fact_of ms))"
proof (cases "ebind (qc_run c run_id) (\<lambda>d. ebind (qc_metrics c run_id) (\<lambda>ms. ebind (qc_artifacts c run_id None None None) (\<lambda>arts. Inr (d, ms, arts))))")
  case (Inl x)
  then show ?thesis using assms by (auto simp: report_run_def split: if_splits)
next
  case (Inr t)
  then obtain d ms arts where t: "t = (d, ms, arts)" "qc_run c run_id = Inr d" "qc_metrics c run_id = Inr ms" by (auto simp: ebind_Inr_iff)
  then show ?thesis using assms Inr by (auto simp: report_run_def Let_def split: if_splits sum.splits)
qed

text \<open>
  A report covers what was asked: one entry per run, in order and at most twenty, a run that could not be read being
  reported as missing without any fact, and the facts of every other run being exactly the kernel's metrics, each
  marked by whether its source is complete.
\<close>

theorem report_covers_runs:
  assumes "run_report c run_ids filters = Inr p"
  shows "map rp_run (ro_entries p) = run_ids \<and> length run_ids \<le> MAX_REPORT_RUNS \<and> set (ro_missing p) \<subseteq> set run_ids \<and>
    (\<forall>e \<in> set (ro_entries p). case rp_detail e of
        None \<Rightarrow> rp_run e \<in> set (ro_missing p) \<and> rp_facts e = []
      | Some d \<Rightarrow> qc_run c (rp_run e) = Inr d \<and> (\<exists>ms. qc_metrics c (rp_run e) = Inr ms \<and> rp_facts e = map fact_of ms))"
proof -
  from assms obtain xs where xs: "emap (report_run c filters) run_ids = Inr xs" and p: "ro_entries p = map fst xs" "ro_missing p = concat (map snd xs)"
    and n: "length run_ids \<le> MAX_REPORT_RUNS"
    by (auto simp: run_report_def ebind_Inr_iff split: if_splits)
  have all: "list_all2 (\<lambda>r x. report_run c filters r = Inr x) run_ids xs" using xs by (simp add: emap_Inr_list_all2)
  have runs: "map rp_run (map fst xs) = run_ids"
    using all by (induction rule: list_all2_induct) (auto dest: report_run_sound)
  have found: "\<exists>r \<in> set run_ids. report_run c filters r = Inr x" if "x \<in> set xs" for x
  proof -
    from that obtain i where i: "i < length xs" "x = xs ! i" by (auto simp: in_set_conv_nth)
    have "run_ids ! i \<in> set run_ids" using i(1) list_all2_lengthD [OF all] by simp
    moreover have "report_run c filters (run_ids ! i) = Inr x" using list_all2_nthD2 [OF all i(1)] i(2) by simp
    ultimately show ?thesis ..
  qed
  have miss: "set (concat (map snd xs)) \<subseteq> set run_ids"
  proof
    fix m
    assume "m \<in> set (concat (map snd xs))"
    then obtain x where x: "x \<in> set xs" "m \<in> set (snd x)" by auto
    from found [OF x(1)] obtain r where "r \<in> set run_ids" "report_run c filters r = Inr (fst x, snd x)" by auto
    with report_run_sound [OF this(2)] x(2) show "m \<in> set run_ids" by auto
  qed
  have entry: "case rp_detail e of
        None \<Rightarrow> rp_run e \<in> set (concat (map snd xs)) \<and> rp_facts e = []
      | Some d \<Rightarrow> qc_run c (rp_run e) = Inr d \<and> (\<exists>ms. qc_metrics c (rp_run e) = Inr ms \<and> rp_facts e = map fact_of ms)"
    if "e \<in> set (map fst xs)" for e
  proof -
    from that obtain x where x: "x \<in> set xs" "e = fst x" by auto
    from found [OF x(1)] obtain r where "report_run c filters r = Inr (e, snd x)" using x(2) by auto
    from report_run_sound [OF this] x(1) show ?thesis by (cases "rp_detail e") force+
  qed
  show ?thesis unfolding p using runs n miss entry by blast
qed

lemma fact_marks_source:
  "dget (fact_of m) ''evidence_level'' = Some (PStr (if truthy (dgetN m ''complete'') then ''extracted_fact'' else ''unknown'')) \<and>
   dget (fact_of m) ''value'' = Some (dgetN m ''value'')"
  by (simp add: fact_of_def Let_def)

lemma preview_analysis_sound:
  assumes "preview_analysis c payload = Inr p"
  obtains task tool where "dgetN payload ''task'' = PDict task" "capability c (py_str (dgetN task ''plugin_id'')) = Inr tool"
    "dgetN (pw_tool p) ''plugin_version'' = dgetN tool ''plugin_version''" "\<And>k. k \<noteq> ''labels'' \<Longrightarrow> dget (pw_task p) k = dget task k"
proof -
  from assms obtain task where task: "dgetN payload ''task'' = PDict task"
    by (auto simp: preview_analysis_def object_of_def ebind_Inr_iff split: pyval.splits)
  from assms task obtain tool where tool: "capability c (py_str (dgetN task ''plugin_id'')) = Inr tool"
    by (auto simp: preview_analysis_def object_of_def ebind_Inr_iff split: if_splits)
  have "dgetN (pw_tool p) ''plugin_version'' = dgetN tool ''plugin_version'' \<and> (\<forall>k. k \<noteq> ''labels'' \<longrightarrow> dget (pw_task p) k = dget task k)"
    using assms by (auto simp: preview_analysis_def task object_of_def tool ebind_Inr_iff Let_def split: if_splits)
  then show thesis using that [OF task tool] by blast
qed

lemma submitted_version_sound:
  assumes "submitted_version task version = Inr t"
  shows "(\<forall>k. k \<noteq> ''plugin_version'' \<longrightarrow> dget t k = dget task k) \<and> (\<forall>v. version = Some v \<longrightarrow> dgetN t ''plugin_version'' = PStr v)"
  using assms by (cases version) (auto simp: submitted_version_def split: if_splits)


text \<open>
  The view by design loses no run: one entry per project, design and revision, each with exactly its runs.
\<close>

theorem designs_partition_runs:
  "distinct (map de_key (designs rs)) \<and> sum_list (map de_count (designs rs)) = length rs \<and>
   (\<forall>e \<in> set (designs rs). de_runs e = filter (\<lambda>r. design_key r = de_key e) rs \<and> de_runs e \<noteq> [] \<and> de_latest e = hd (de_runs e))"
proof -
  let ?ks = "rev (remdups (rev (map design_key rs)))"
  have keys: "map de_key (designs rs) = ?ks" by (simp add: designs_def Let_def o_def)
  have count: "sum_list (map (\<lambda>k. length (filter (\<lambda>r. design_key r = k) rs)) ks) = length (filter (\<lambda>r. design_key r \<in> set ks) rs)" if "distinct ks" for ks
    using that
  proof (induction ks)
    case (Cons k ks)
    have "length (filter (\<lambda>r. design_key r = k) rs) + length (filter (\<lambda>r. design_key r \<in> set ks) rs) = length (filter (\<lambda>r. design_key r \<in> set (k # ks)) rs)"
      using Cons.prems by (induction rs) auto
    then show ?case using Cons by simp
  qed simp
  have "sum_list (map de_count (designs rs)) = length rs"
    using count [of ?ks] by (simp add: designs_def Let_def o_def)
  moreover have "\<forall>e \<in> set (designs rs). de_runs e = filter (\<lambda>r. design_key r = de_key e) rs \<and> de_runs e \<noteq> [] \<and> de_latest e = hd (de_runs e)"
    by (auto simp: designs_def Let_def filter_empty_conv)
  moreover have "distinct (map de_key (designs rs))" by (simp add: keys)
  ultimately show ?thesis by blast
qed

text \<open>
  A defect: a question that names no run is answered over up to a hundred runs, and a report takes twenty; with more
  than twenty runs in the kernel every such question is refused.
\<close>

theorem many_runs_question_refused:
  assumes "strip t \<noteq> []" "find_run False (strip t) = None" "find_design (strip t) = None"
    "qc_runs c [(PStr ''limit'', PInt MAX_RUNS)] = Inr rs" "MAX_REPORT_RUNS < length rs"
  shows "plan_question c t = Inl (HttpError 400)"
  using assms by (simp add: plan_question_def Let_def run_report_def run_ids_of_def ebind_def)

text \<open>A defect: the word \<open>designs\<close> in a question is read as the design \<open>s\<close>.\<close>

theorem designs_read_as_design_s: "find_run False ''compare all designs'' = None \<and> find_design ''compare all designs'' = Some ''s''"
  by code_simp

text \<open>
  The links of a catalogue entry lead back to it: the path under \<open>access\<close> is read as the run and the artifact it was
  made for, as long as the identifiers hold no separator and no percent sign.
\<close>

theorem access_paths_resolve:
  assumes "r \<noteq> []" "aid \<noteq> []" "CHR ''/'' \<notin> set r" "CHR ''%'' \<notin> set r" "CHR ''%'' \<notin> set aid" "suf \<in> {''/excerpt'', ''/download''}"
  shows "\<exists>d. dget (artifact_view r [(PStr ''artifact_id'', PStr aid)]) ''access'' = Some (PDict d) \<and>
    artifact_parts (py_str (dgetN d (tl suf))) suf = Inr (r, aid)"
proof -
  let ?path = "''/artifacts/'' @ r @ ''/'' @ aid @ suf"
  have raw: "between ''/artifacts/'' suf ?path = r @ ''/'' @ aid" by (simp add: between_def)
  have a: "takeWhile (\<lambda>c. c \<noteq> CHR ''/'') (r @ ''/'' @ aid) = r" using assms(3) by (induction r) auto
  have parts: "artifact_parts ?path suf = Inr (r, aid)"
    unfolding artifact_parts_def Let_def raw a using assms(1,2,4,5) by (simp add: unquote_no_escape)
  have "\<exists>d. dget (artifact_view r [(PStr ''artifact_id'', PStr aid)]) ''access'' = Some (PDict d) \<and> dgetN d (tl suf) = PStr ?path"
    using assms(6) by (auto simp: artifact_view_def Let_def dict_update_def text_of_def key_primitive_def py_str_def)
  then show ?thesis using parts by (auto simp: py_str_def)
qed

section \<open>Scenarios\<close>

definition a_task :: pydict where
  "a_task = [(PStr ''plugin_id'', PStr ''p''), (PStr ''project_id'', PStr ''j''), (PStr ''design_id'', PStr ''d'')]"

definition a_client :: query_client where
  "a_client = \<lparr> qc_plugins = Inr [[(PStr ''plugin_id'', PStr ''p''), (PStr ''plugin_version'', PStr ''1''), (PStr ''executable'', PBool True)]],
     qc_runs = (\<lambda>_. Inr (map (\<lambda>i. [(PStr ''run_id'', PStr (''run-'' @ nat_str i))]) [0..<21])),
     qc_run = (\<lambda>r. if r = ''run-1'' then Inr [] else Inl KernelError),
     qc_metrics = (\<lambda>_. Inr [[(PStr ''name'', PStr ''area'')]]), qc_artifacts = (\<lambda>_ _ _ _. Inr []),
     qc_excerpt = (\<lambda>_ _ _ _. Inl KernelError), qc_submit = (\<lambda>t. Inr (dgetN t ''plugin_version'')), qc_bundle = (\<lambda>_. Inl KernelError),
     qc_health = Inr PNone, qc_tree = (\<lambda>_. Inl KernelError), qc_bytes = (\<lambda>_ _. Inl KernelError) \<rparr>"

theorem report_covers_runs_witness:
  "\<exists>p. run_report a_client [''run-1'', ''run-2''] [] = Inr p \<and> map rp_run (ro_entries p) = [''run-1'', ''run-2''] \<and> ro_missing p = [''run-2'']"
proof -
  let ?x = "run_report a_client [''run-1'', ''run-2''] []"
  have x: "\<not> isl ?x" "ro_missing (projr ?x) = [''run-2'']" by code_simp+
  then have "?x = Inr (projr ?x)" by (metis sum.collapse(2))
  with report_covers_runs [OF this] x(2) show ?thesis by (intro exI [of _ "projr ?x"]) simp
qed

definition an_analysis :: "(preview \<times> pyval) result" where
  "an_analysis = submit_analysis a_client ''x'' [(PStr ''task'', PDict a_task), (PStr ''confirm'', PBool True)]"


theorem many_runs_question_refused_witness: "plan_question a_client ''what ran last'' = Inl (HttpError 400)"
proof -
  have "strip ''what ran last'' \<noteq> []" "find_run False (strip ''what ran last'') = None" "find_design (strip ''what ran last'') = None" by code_simp+
  moreover have "qc_runs a_client [(PStr ''limit'', PInt MAX_RUNS)] = Inr (map (\<lambda>i. [(PStr ''run_id'', PStr (''run-'' @ nat_str i))]) [0..<21])"
    by (simp add: a_client_def)
  ultimately show ?thesis by (rule many_runs_question_refused) (simp add: MAX_REPORT_RUNS_def)
qed

theorem access_paths_resolve_witness:
  "\<exists>d. dget (artifact_view ''run-1'' [(PStr ''artifact_id'', PStr ''art-1'')]) ''access'' = Some (PDict d) \<and>
    artifact_parts (py_str (dgetN d ''excerpt'')) ''/excerpt'' = Inr (''run-1'', ''art-1'')"
  using access_paths_resolve [of "''run-1''" "''art-1''" "''/excerpt''"] by simp

end
