(* ===== verification/Lab.thy ===== *)
theory Lab
  imports Plans PyText
begin

text \<open>
  \<open>apps/dse_lab/src/openroad_app_dse_lab/__main__.py\<close>: parameter sweeps. The lab keeps the sweeps and their points, submits
  one task per point, and compares the runs. The kernel behind its client is a parameter: the answer to each submission
  and to each look at a run, an error of the client being its text. \<open>LabError(status, message)\<close> is \<open>HttpError status\<close>.
  JSON columns hold the values themselves, so the order of keys is that of the request.
\<close>

section \<open>The sweep store\<close>

record sweep_row =
  sw_id :: string
  sw_name :: string
  sw_plugin :: string
  sw_inputs :: pydict
  sw_created :: int

record point_row =
  pt_id :: string
  pt_sweep :: string
  pt_ordinal :: nat
  pt_parameters :: pydict
  pt_task :: "string option"
  pt_run :: "string option"

record sweep_store =
  sweeps :: "sweep_row list"
  points :: "point_row list"

definition MAX_POINTS_PER_SWEEP :: nat where
  "MAX_POINTS_PER_SWEEP = 64"

definition MAX_COMPARISON_RUNS :: nat where
  "MAX_COMPARISON_RUNS = 64"

text \<open>The identifiers drawn for the sweep and its points are arguments; one transaction.\<close>

definition new_points :: "string \<Rightarrow> (nat \<Rightarrow> string) \<Rightarrow> pydict list \<Rightarrow> point_row list" where
  "new_points sid pid ps =
     map (\<lambda>(i, p). \<lparr> pt_id = pid i, pt_sweep = sid, pt_ordinal = i, pt_parameters = p, pt_task = None, pt_run = None \<rparr>) (enumerate 0 ps)"

definition create_sweep ::
  "int \<Rightarrow> string \<Rightarrow> (nat \<Rightarrow> string) \<Rightarrow> string \<Rightarrow> string \<Rightarrow> pydict \<Rightarrow> pydict list \<Rightarrow> sweep_store \<Rightarrow> string result \<times> sweep_store" where
  "create_sweep now sid pid name plugin ins ps s =
     (if strip name = [] then (Inl (HttpError 400), s)
      else if strip plugin = [] then (Inl (HttpError 400), s)
      else if ps = [] then (Inl (HttpError 400), s)
      else if MAX_POINTS_PER_SWEEP < length ps then (Inl (HttpError 400), s)
      else let rows = new_points sid pid ps in
        if sid \<in> sw_id ` set (sweeps s) \<or> \<not> distinct (map pt_id (points s @ rows)) \<or>
           \<not> distinct (map (\<lambda>x. (pt_sweep x, pt_ordinal x)) (points s @ rows))
        then (Inl IntegrityError, s)
        else (Inr sid, s\<lparr> sweeps := sweeps s @ [\<lparr> sw_id = sid, sw_name = strip name, sw_plugin = strip plugin, sw_inputs = ins, sw_created = now \<rparr>],
                          points := points s @ rows \<rparr>))"

definition list_sweeps :: "sweep_store \<Rightarrow> sweep_row list" where
  "list_sweeps s = sort_key (\<lambda>w. - sw_created w) (sweeps s)"

definition points_of :: "string \<Rightarrow> sweep_store \<Rightarrow> point_row list" where
  "points_of sid s = sort_key pt_ordinal (filter (\<lambda>p. pt_sweep p = sid) (points s))"

definition get_sweep :: "string \<Rightarrow> sweep_store \<Rightarrow> (sweep_row \<times> point_row list) result" where
  "get_sweep sid s =
     (case fetchone (\<lambda>w. sw_id w = sid) (sweeps s) of None \<Rightarrow> Inl (HttpError 404) | Some w \<Rightarrow> Inr (w, points_of sid s))"

definition record_submission :: "string \<Rightarrow> string \<Rightarrow> string \<Rightarrow> sweep_store \<Rightarrow> sweep_store" where
  "record_submission pid task run s =
     s\<lparr> points := update_where (\<lambda>p. pt_id p = pid) (\<lambda>p. p\<lparr> pt_task := Some task, pt_run := Some run \<rparr>) (points s) \<rparr>"

section \<open>Submitting a sweep\<close>

definition task_id_of :: "string \<Rightarrow> nat \<Rightarrow> string" where
  "task_id_of sid ordinal = sid @ ''-p'' @ nat_str ordinal"

definition point_task :: "string \<Rightarrow> sweep_row \<Rightarrow> string \<Rightarrow> pydict \<Rightarrow> point_row \<Rightarrow> pyval" where
  "point_task sid w plugin ins p = PDict
     [(PStr ''schema_version'', PInt 3), (PStr ''task_id'', PStr (task_id_of sid (pt_ordinal p))), (PStr ''project_id'', PStr (sw_plugin w)),
      (PStr ''design_id'', PStr (if truthy (dgetN ins ''design'') then text_of (dgetN ins ''design'') else ''unknown'')),
      (PStr ''plugin_id'', PStr plugin), (PStr ''inputs'', PDict ins), (PStr ''parameters'', PDict (pt_parameters p))]"

definition REFUSED :: string where
  "REFUSED = ''refused: ''"

definition submit_point :: "(pyval \<Rightarrow> string + string) \<Rightarrow> string \<Rightarrow> sweep_row \<Rightarrow> string \<Rightarrow> pydict \<Rightarrow> point_row \<Rightarrow> sweep_store \<Rightarrow> sweep_store" where
  "submit_point krn sid w plugin ins p s =
     record_submission (pt_id p) (task_id_of sid (pt_ordinal p))
       (case krn (point_task sid w plugin ins p) of Inl message \<Rightarrow> REFUSED @ message | Inr run_id \<Rightarrow> run_id) s"

definition submit_sweep ::
  "(pyval \<Rightarrow> string + string) \<Rightarrow> int \<Rightarrow> string \<Rightarrow> (nat \<Rightarrow> string) \<Rightarrow> string \<Rightarrow> string \<Rightarrow> pydict \<Rightarrow> pydict list \<Rightarrow> sweep_store \<Rightarrow>
   (sweep_row \<times> point_row list) result \<times> sweep_store" where
  "submit_sweep krn now sid pid name plugin ins ps s =
     (case create_sweep now sid pid name plugin ins ps s of
        (Inl e, s1) \<Rightarrow> (Inl e, s1)
      | (Inr _, s1) \<Rightarrow>
          (case get_sweep sid s1 of
             Inl e \<Rightarrow> (Inl e, s1)
           | Inr (w, pts) \<Rightarrow> let s2 = fold (submit_point krn sid w plugin ins) pts s1 in (get_sweep sid s2, s2)))"

section \<open>Comparing\<close>

record comparison_row =
  cr_point :: point_row
  cr_status :: string
  cr_reason :: string
  cr_terminal :: pyval
  cr_metrics :: "(pyval \<times> bool) list"
  cr_unsourced :: nat

text \<open>
  The loop over the points; \<open>seen_runs\<close> counts the runs that were looked at. \<open>look\<close> answers \<open>client.run\<close> and
  \<open>client.metrics\<close>: the status, the terminal reason and the metrics, each with its \<open>complete\<close> flag. A key that an entry
  lacks is the empty text, \<open>None\<close> or zero.
\<close>

type_synonym run_look = "string \<Rightarrow> string + string \<times> pyval \<times> (pyval \<times> bool) list"

definition without_metrics :: "point_row \<Rightarrow> string \<Rightarrow> string \<Rightarrow> comparison_row" where
  "without_metrics p status reason =
     \<lparr> cr_point = p, cr_status = status, cr_reason = reason, cr_terminal = PNone, cr_metrics = [], cr_unsourced = 0 \<rparr>"

definition refusal_reason :: "string \<Rightarrow> string" where
  "refusal_reason run_id =
     (let rest = (if prefix REFUSED run_id then drop (length REFUSED) run_id else run_id) in if rest = [] then ''not submitted'' else rest)"

fun compare_points :: "run_look \<Rightarrow> nat \<Rightarrow> point_row list \<Rightarrow> comparison_row list" where
  "compare_points look seen_runs [] = []"
| "compare_points look seen_runs (p # ps) =
     (let run_id = (case pt_run p of None \<Rightarrow> [] | Some r \<Rightarrow> r) in
      if prefix ''refused:'' run_id \<or> run_id = []
      then without_metrics p ''refused'' (refusal_reason run_id) # compare_points look seen_runs ps
      else if MAX_COMPARISON_RUNS \<le> seen_runs
      then without_metrics p ''not_compared'' ''comparison is limited to 64 runs'' # compare_points look seen_runs ps
      else (case look run_id of
          Inl message \<Rightarrow> without_metrics p ''unavailable'' message
        | Inr (status, terminal, ms) \<Rightarrow> \<lparr> cr_point = p, cr_status = status, cr_reason = [], cr_terminal = terminal, cr_metrics = ms, cr_unsourced = length (filter (\<lambda>m. \<not> snd m) ms) \<rparr>)
        # compare_points look (Suc seen_runs) ps)"

record comparison =
  co_sweep :: sweep_row
  co_rows :: "comparison_row list"
  co_points :: nat
  co_succeeded :: nat
  co_failed :: nat
  co_refused :: nat
  co_unsourced :: nat

definition compare_sweep :: "run_look \<Rightarrow> string \<Rightarrow> sweep_store \<Rightarrow> comparison result" where
  "compare_sweep look sid s =
     ebind (get_sweep sid s) (\<lambda>(w, pts).
       let rows = compare_points look 0 pts; count = (\<lambda>x. length (filter (\<lambda>r. cr_status r = x) rows)) in
       Inr \<lparr> co_sweep = w, co_rows = rows, co_points = length rows, co_succeeded = count ''succeeded'', co_failed = count ''failed'',
             co_refused = count ''refused'', co_unsourced = sum_list (map cr_unsourced rows) \<rparr>)"

section \<open>The service\<close>

definition lab_post :: "(pyval \<Rightarrow> string + string) \<Rightarrow> int \<Rightarrow> string \<Rightarrow> (nat \<Rightarrow> string) \<Rightarrow> string \<Rightarrow> pydict \<Rightarrow> sweep_store \<Rightarrow>
   (sweep_row \<times> point_row list) result \<times> sweep_store" where
  "lab_post krn now sid pid path body s =
     (if path \<noteq> ''/sweeps'' then (Inl (HttpError 404), s)
      else if \<not> is_list (dgetN body ''points'') \<or> \<not> list_all is_dict (elems (dgetN body ''points'')) then (Inl (HttpError 400), s)
      else if \<not> is_dict (dgetN body ''inputs'') then (Inl (HttpError 400), s)
      else let txt = (\<lambda>k. if truthy (dgetN body k) then text_of (dgetN body k) else []) in
        submit_sweep krn now sid pid (txt ''name'') (txt ''plugin_id'') (items (dgetN body ''inputs'')) (map items (elems (dgetN body ''points''))) s)"

datatype lab_page = LHealth pyval | LSweeps "sweep_row list" | LSweep "sweep_row \<times> point_row list" | LComparison comparison

text \<open>\<open>_get\<close>; the answer of the kernel to \<open>health\<close> is an argument, and \<open>unquote\<close> is applied to the captured part of the path.\<close>

definition lab_get :: "(string \<Rightarrow> string) \<Rightarrow> pyval result \<Rightarrow> run_look \<Rightarrow> string \<Rightarrow> sweep_store \<Rightarrow> lab_page result" where
  "lab_get unq hea look path s =
     (if path = ''/health'' then ebind hea (\<lambda>v. Inr (LHealth v))
      else if path \<in> {''/'', ''/sweeps''} then Inr (LSweeps (list_sweeps s))
      else if prefix ''/sweeps/'' path \<and> suffix ''/comparison'' path
      then ebind (compare_sweep look (unq (take (length path - 11 - 8) (drop 8 path))) s) (\<lambda>c. Inr (LComparison c))
      else if prefix ''/sweeps/'' path then ebind (get_sweep (unq (drop 8 path)) s) (\<lambda>x. Inr (LSweep x))
      else Inl (HttpError 404))"

subsection \<open>The borrowed token\<close>

text \<open>
  One client serves all requests: \<open>_borrow\<close> writes the caller's token into it, and every later call to the kernel reads
  it. Requests run in threads of their own, so their steps come in any order; \<open>lab_calls\<close> is the sequence of calls, each with
  the request that made it and the token it carried.
\<close>

record lab_client =
  lab_token :: "string option"
  lab_calls :: "(nat \<times> string option) list"

datatype lab_action = Borrow nat string | Call nat

definition bearer_token :: "string \<Rightarrow> string option" where
  "bearer_token h = (if prefix ''bearer '' (lower h) then Some (strip (drop 7 h)) else None)"

fun lab_step :: "lab_action \<Rightarrow> lab_client \<Rightarrow> lab_client" where
  "lab_step (Borrow t h) c = c\<lparr> lab_token := bearer_token h \<rparr>"
| "lab_step (Call t) c = c\<lparr> lab_calls := lab_calls c @ [(t, lab_token c)] \<rparr>"

text \<open>Requests one after the other: number, header and number of kernel calls of each.\<close>

definition one_by_one :: "(nat \<times> string \<times> nat) list \<Rightarrow> lab_action list" where
  "one_by_one rs = concat (map (\<lambda>(t, h, n). Borrow t h # replicate n (Call t)) rs)"

section \<open>Reachable stores\<close>

definition empty_lab :: sweep_store where
  "empty_lab = \<lparr> sweeps = [], points = [] \<rparr>"

inductive lab_reachable :: "sweep_store \<Rightarrow> bool" where
  start: "lab_reachable empty_lab"
| post: "lab_reachable s \<Longrightarrow> lab_post krn now sid pid path body s = (x, s') \<Longrightarrow> lab_reachable s'"

definition lab_ok :: "sweep_store \<Rightarrow> bool" where
  "lab_ok s = (distinct (map pt_id (points s)) \<and> (\<forall>p \<in> set (points s). pt_sweep p \<in> sw_id ` set (sweeps s)))"

lemma create_sweep_cases:
  assumes "create_sweep now sid pid name plugin ins ps s = (x, s1)"
  obtains (refused) e where "x = Inl e" "s1 = s"
  | (created) w where "x = Inr sid" "sw_id w = sid" "sw_plugin w = strip plugin" "sweeps s1 = sweeps s @ [w]" "points s1 = points s @ new_points sid pid ps"
      "sid \<notin> sw_id ` set (sweeps s)" "ps \<noteq> []" "length ps \<le> MAX_POINTS_PER_SWEEP" "distinct (map pt_id (points s1))"
proof (cases "x = Inr sid")
  case True
  let ?w = "\<lparr> sw_id = sid, sw_name = strip name, sw_plugin = strip plugin, sw_inputs = ins, sw_created = now \<rparr>"
  show ?thesis by (rule created [of ?w]) (use assms True in \<open>auto simp: create_sweep_def Let_def split: if_splits\<close>)
next
  case False
  then have "isl x \<and> s1 = s" using assms by (auto simp: create_sweep_def Let_def split: if_splits)
  then show ?thesis using refused by (cases x) auto
qed

lemma fetchone_absent: "f w \<notin> f ` set ws \<Longrightarrow> fetchone (\<lambda>x. f x = f w) ws = None"
  by (induction ws) auto

lemma fetchone_snoc: "f w \<notin> f ` set ws \<Longrightarrow> fetchone (\<lambda>x. f x = f w) (ws @ [w]) = Some w"
  by (simp add: fetchone_append fetchone_absent)

lemma submit_points:
  assumes "distinct (map pt_id ps)"
  shows "points (fold (submit_point krn sid w plugin ins) ps s) =
    map (\<lambda>p. case fetchone (\<lambda>x. pt_id x = pt_id p) ps of None \<Rightarrow> p
      | Some x \<Rightarrow> p\<lparr> pt_task := Some (task_id_of sid (pt_ordinal x)),
          pt_run := Some (case krn (point_task sid w plugin ins x) of Inl message \<Rightarrow> REFUSED @ message | Inr run_id \<Rightarrow> run_id) \<rparr>) (points s)"
  using assms
proof (induction ps arbitrary: s)
  case (Cons p ps)
  have "pt_id p \<notin> pt_id ` set ps" using Cons.prems by simp
  then have none: "fetchone (\<lambda>x. pt_id x = pt_id p) ps = None" by (rule fetchone_absent)
  show ?case
    using Cons none by (auto simp: submit_point_def record_submission_def update_where_def fetchone_def split: option.split)
qed (simp add: fetchone_def)

lemma submit_points_sweeps [simp]: "sweeps (fold (submit_point krn sid w plugin ins) ps s) = sweeps s"
  by (induction ps arbitrary: s) (simp_all add: submit_point_def record_submission_def)

lemma points_of_map:
  assumes "points s2 = map f (points s1)" "\<And>p. pt_sweep (f p) = pt_sweep p \<and> pt_ordinal (f p) = pt_ordinal p"
  shows "points_of sid s2 = map f (points_of sid s1)"
  using assms by (simp add: points_of_def filter_map o_def sort_key_map)

lemma fetchone_self:
  assumes "distinct (map f xs)" "x \<in> set xs"
  shows "fetchone (\<lambda>y. f y = f x) xs = Some x"
  using assms by (rule fetchone_key)

text \<open>What \<open>submit_sweep\<close> leaves: refused, or all points with what the kernel said.\<close>

lemma submit_sweep_cases:
  assumes "submit_sweep krn now sid pid name plugin ins ps s = (x, s2)" "lab_ok s"
  obtains (refused) e where "x = Inl e" "s2 = s"
  | (complete) w where "x = Inr (w, points_of sid s2)" "sweeps s2 = sweeps s @ [w]" "sw_id w = sid" "sw_plugin w = strip plugin" "lab_ok s2"
      "points_of sid s2 = map (\<lambda>p. p\<lparr> pt_task := Some (task_id_of sid (pt_ordinal p)),
          pt_run := Some (case krn (point_task sid w plugin ins p) of Inl message \<Rightarrow> REFUSED @ message | Inr run_id \<Rightarrow> run_id) \<rparr>) (new_points sid pid ps)"
      "ps \<noteq> []" "length ps \<le> MAX_POINTS_PER_SWEEP"
proof -
  obtain y s1 where c: "create_sweep now sid pid name plugin ins ps s = (y, s1)" by fastforce
  from c show thesis
  proof (cases rule: create_sweep_cases)
    case (refused e)
    then have "x = Inl e" "s2 = s" using assms(1) c by (simp_all add: submit_sweep_def)
    then show thesis by (rule that(1))
  next
    case (created w)
    define f :: "point_row \<Rightarrow> point_row" where "f = (\<lambda>p. case fetchone (\<lambda>x. pt_id x = pt_id p) (points_of sid s1) of None \<Rightarrow> p
      | Some x \<Rightarrow> p\<lparr> pt_task := Some (task_id_of sid (pt_ordinal x)),
          pt_run := Some (case krn (point_task sid w plugin ins x) of Inl message \<Rightarrow> REFUSED @ message | Inr run_id \<Rightarrow> run_id) \<rparr>)"
    have w: "fetchone (\<lambda>x. sw_id x = sid) (sweeps s1) = Some w"
      using fetchone_snoc [of sw_id w "sweeps s"] created(2,4,6) by simp
    then have g: "get_sweep sid s1 = Inr (w, points_of sid s1)" by (simp add: get_sweep_def)
    have old: "filter (\<lambda>p. pt_sweep p = sid) (points s) = []" using assms(2) created(6) by (auto simp: lab_ok_def filter_empty_conv)
    have new: "filter (\<lambda>p. pt_sweep p = sid) (new_points sid pid ps) = new_points sid pid ps" by (auto simp: new_points_def filter_id_conv)
    have "sorted (map pt_ordinal (new_points sid pid ps))" by (simp add: new_points_def enumerate_eq_zip o_def case_prod_unfold)
    then have pts: "points_of sid s1 = new_points sid pid ps"
      using old new created(5) by (simp add: points_of_def sorted_sort_id sort_key_id_if_sorted)
    have d: "distinct (map pt_id (points_of sid s1))" using created(5,9) pts by simp
    let ?s2 = "fold (submit_point krn sid w plugin ins) (points_of sid s1) s1"
    have s2: "points ?s2 = map f (points s1)" unfolding f_def by (rule submit_points [OF d])
    have keep: "pt_sweep (f p) = pt_sweep p \<and> pt_ordinal (f p) = pt_ordinal p \<and> pt_id (f p) = pt_id p" for p by (simp add: f_def split: option.split)
    have "points_of sid ?s2 = map f (points_of sid s1)" using points_of_map [OF s2] keep by blast
    also have "\<dots> = map (\<lambda>p. p\<lparr> pt_task := Some (task_id_of sid (pt_ordinal p)),
          pt_run := Some (case krn (point_task sid w plugin ins p) of Inl message \<Rightarrow> REFUSED @ message | Inr run_id \<Rightarrow> run_id) \<rparr>) (points_of sid s1)"
      by (rule map_cong [OF refl]) (simp add: f_def fetchone_self [OF d])
    finally have p2: "points_of sid ?s2 = map (\<lambda>p. p\<lparr> pt_task := Some (task_id_of sid (pt_ordinal p)),
          pt_run := Some (case krn (point_task sid w plugin ins p) of Inl message \<Rightarrow> REFUSED @ message | Inr run_id \<Rightarrow> run_id) \<rparr>) (new_points sid pid ps)"
      unfolding pts .
    have "map pt_id (points ?s2) = map pt_id (points s1)" unfolding s2 using keep by simp
    moreover have "\<forall>p \<in> set (points ?s2). pt_sweep p \<in> sw_id ` set (sweeps ?s2)"
      unfolding s2 using keep created(2,4,5) assms(2) by (auto simp: lab_ok_def new_points_def)
    ultimately have ok: "lab_ok ?s2" using created(9) by (simp add: lab_ok_def)
    have "x = Inr (w, points_of sid ?s2)" "s2 = ?s2"
      using assms(1) c created(1) g w by (auto simp: submit_sweep_def Let_def get_sweep_def)
    then show thesis using that(2) [of w] created ok p2 by simp
  qed
qed

lemma lab_reachable_ok: "lab_reachable s \<Longrightarrow> lab_ok s"
proof (induction rule: lab_reachable.induct)
  case start
  then show ?case by (simp add: lab_ok_def empty_lab_def)
next
  case (post s krn now sid pid path body x s')
  show ?case
  proof (cases "s' = s")
    case False
    then obtain name plugin ins ps where "submit_sweep krn now sid pid name plugin ins ps s = (x, s')"
      using post.hyps(2) by (auto simp: lab_post_def Let_def split: if_splits)
    then show ?thesis using post.IH False by (cases rule: submit_sweep_cases) auto
  qed (use post.IH in simp)
qed

section \<open>Properties\<close>

text \<open>C39: 
  A sweep leaves nothing out: in every reachable store, a sweep that is answered has one point per parameter set, in
  order, each submitted under a task identifier of its own and recorded with the run the kernel made of it or with the
  kernel's refusal.
\<close>

theorem sweep_fully_submitted:
  assumes "lab_reachable s" "submit_sweep krn now sid pid name plugin ins ps s = (Inr (w, pts), s')" "i < length ps"
  shows "length pts = length ps \<and> pt_ordinal (pts ! i) = i \<and> pt_parameters (pts ! i) = ps ! i \<and>
    pt_task (pts ! i) = Some (task_id_of sid i) \<and>
    pt_run (pts ! i) = Some (case krn (point_task sid w plugin ins (pts ! i)) of Inl message \<Rightarrow> REFUSED @ message | Inr run_id \<Rightarrow> run_id)"
  using assms(2) lab_reachable_ok [OF assms(1)]
proof (cases rule: submit_sweep_cases)
  case (complete v)
  then show ?thesis using assms(3) by (simp add: new_points_def enumerate_eq_zip point_task_def)
qed simp

lemma compare_points_all: "map cr_point (compare_points look n ps) = ps"
  by (induction look n ps rule: compare_points.induct) (auto simp: Let_def without_metrics_def split: sum.split)

text \<open>
  A comparison omits no point: its rows are the points of the sweep in order of submission, failures and refusals
  included, and its summary counts them.
\<close>

theorem comparison_omits_nothing:
  assumes "compare_sweep look sid s = Inr c"
  shows "map cr_point (co_rows c) = points_of sid s \<and> co_points c = length (points_of sid s) \<and>
    co_refused c = length (filter (\<lambda>r. cr_status r = ''refused'') (co_rows c)) \<and>
    (\<forall>p \<in> set (points_of sid s). pt_run p = None \<longrightarrow> (\<exists>r \<in> set (co_rows c). cr_point r = p \<and> cr_status r = ''refused''))"
proof -
  have rows: "co_rows c = compare_points look 0 (points_of sid s)" "co_points c = length (co_rows c)"
    "co_refused c = length (filter (\<lambda>r. cr_status r = ''refused'') (co_rows c))"
    using assms by (auto simp: compare_sweep_def get_sweep_def Let_def ebind_Inr_iff split: option.splits)
  have none: "p \<in> set ps \<Longrightarrow> pt_run p = None \<Longrightarrow> \<exists>r \<in> set (compare_points look n ps). cr_point r = p \<and> cr_status r = ''refused''" for p n ps
    by (induction look n ps rule: compare_points.induct) (auto simp: Let_def without_metrics_def)
  have m: "map cr_point (co_rows c) = points_of sid s" using rows(1) compare_points_all by simp
  from arg_cong [OF m, of length] have "co_points c = length (points_of sid s)" using rows(2) by simp
  then show ?thesis using m rows none by auto
qed

lemma calls_of_request:
  "fold lab_step (Borrow t h # replicate n (Call t)) c = c\<lparr> lab_token := bearer_token h, lab_calls := lab_calls c @ replicate n (t, bearer_token h) \<rparr>"
proof -
  have "fold lab_step (replicate n (Call t)) d = d\<lparr> lab_calls := lab_calls d @ replicate n (t, lab_token d) \<rparr>" for d
    by (induction n arbitrary: d) (auto simp: replicate_append_same)
  then show ?thesis by simp
qed

text \<open>
  Requests served one after the other act for their callers: every call to the kernel carries the token of the request
  that makes it.
\<close>

theorem serial_requests_use_own_token:
  assumes "(t, tok) \<in> set (lab_calls (fold lab_step (one_by_one rs) c))"
  shows "(t, tok) \<in> set (lab_calls c) \<or> (\<exists>h n. (t, h, n) \<in> set rs \<and> tok = bearer_token h)"
  using assms
proof (induction rs arbitrary: c)
  case (Cons r rs)
  obtain u h n where r: "r = (u, h, n)" by (cases r) auto
  have "fold lab_step (one_by_one (r # rs)) c = fold lab_step (one_by_one rs) (fold lab_step (Borrow u h # replicate n (Call u)) c)"
    by (simp add: r one_by_one_def)
  from this [unfolded calls_of_request] show ?case using Cons.IH Cons.prems r by fastforce
qed (simp add: one_by_one_def)

text \<open>
  A defect: the lab serves requests in threads that share one client. A request that comes in between the borrowing of
  another and its calls makes the other act with its token.
\<close>

theorem shared_client_crosses_callers:
  "lab_calls (fold lab_step [Borrow 1 ''Bearer alice'', Borrow 2 ''Bearer bob'', Call 1, Call 2] \<lparr> lab_token = None, lab_calls = [] \<rparr>) =
    [(1, Some ''bob''), (2, Some ''bob'')]"
  by code_simp

section \<open>Scenarios\<close>

definition a_kernel :: "pyval \<Rightarrow> string + string" where
  "a_kernel task = (if dgetN (items (dgetN (items task) ''parameters'')) ''x'' = PInt 0 then Inl ''bad point'' else Inr ''run-1'')"

definition two_points :: "pydict list" where
  "two_points = [[(PStr ''x'', PInt 0)], [(PStr ''x'', PInt 1)]]"

definition a_sweep :: "(sweep_row \<times> point_row list) result \<times> sweep_store" where
  "a_sweep = submit_sweep a_kernel 0 ''s'' (\<lambda>i. ''pt'' @ nat_str i) ''name'' ''plug'' [] two_points empty_lab"

lemma a_sweep_ok: "\<exists>w pts. a_sweep = (Inr (w, pts), snd a_sweep)"
proof -
  have "\<not> isl (fst a_sweep)" by code_simp
  then show ?thesis by (metis prod.collapse sum.collapse(2))
qed

theorem sweep_fully_submitted_witness:
  "\<exists>w pts. fst a_sweep = Inr (w, pts) \<and> pt_task (pts ! 1) = Some ''s-p1'' \<and> map pt_run pts = [Some ''refused: bad point'', Some ''run-1'']"
proof -
  obtain w pts where a: "a_sweep = (Inr (w, pts), snd a_sweep)" using a_sweep_ok by blast
  have "map pt_run (snd (projr (fst a_sweep))) = [Some ''refused: bad point'', Some ''run-1'']" "task_id_of ''s'' 1 = ''s-p1''" by code_simp+
  moreover have "fst a_sweep = Inr (w, pts)" using arg_cong [OF a, of fst] by simp
  moreover have "1 < length two_points" by (simp add: two_points_def)
  ultimately show ?thesis using sweep_fully_submitted [OF lab_reachable.start a [unfolded a_sweep_def], of 1] by simp
qed

definition a_look :: run_look where
  "a_look r = Inr (''succeeded'', PNone, [(PStr ''area'', True), (PStr ''power'', False)])"

theorem comparison_omits_nothing_witness:
  "\<exists>c. compare_sweep a_look ''s'' (snd a_sweep) = Inr c \<and> map cr_point (co_rows c) = points_of ''s'' (snd a_sweep) \<and>
    map cr_status (co_rows c) = [''refused'', ''succeeded''] \<and> co_unsourced c = 1"
proof -
  let ?x = "compare_sweep a_look ''s'' (snd a_sweep)"
  have x: "\<not> isl ?x \<and> map cr_status (co_rows (projr ?x)) = [''refused'', ''succeeded''] \<and> co_unsourced (projr ?x) = 1" by code_simp
  then have "?x = Inr (projr ?x)" by (metis sum.collapse(2))
  then show ?thesis using comparison_omits_nothing [of a_look "''s''" "snd a_sweep" "projr ?x"] x by (intro exI [of _ "projr ?x"]) simp
qed

theorem serial_requests_use_own_token_witness:
  "(2, Some ''bob'') \<in> set (lab_calls (fold lab_step (one_by_one [(1, ''Bearer alice'', 1), (2, ''Bearer bob'', 1)]) \<lparr> lab_token = None, lab_calls = [] \<rparr>)) \<and>
   Some ''bob'' = bearer_token ''Bearer bob''"
proof
  let ?rs = "[(1, ''Bearer alice'', 1), (2, ''Bearer bob'', 1)]" and ?c = "\<lparr> lab_token = None, lab_calls = [] \<rparr>"
  show m: "(2, Some ''bob'') \<in> set (lab_calls (fold lab_step (one_by_one ?rs) ?c))" by code_simp
  from serial_requests_use_own_token [OF this] show "Some ''bob'' = bearer_token ''Bearer bob''" by auto
qed

end
