(* ===== verification/Observer.thy ===== *)
theory Observer
  imports Custody Progress
begin

text \<open>
  \<open>core/runtime/src/openroad_platform_runtime/observer.py\<close>: the observer that turns the progress lines of an attempt
  into events. The JSON parser, the clock and the identifiers drawn for events are arguments. The guardian hands it one
  line at a time and goes on when it raises.
\<close>

section \<open>The observer\<close>

record observer =
  ob_run :: string
  ob_stage_run :: string
  ob_attempt :: string
  ob_marker :: string
  ob_producer :: string
  ob_started :: "string list"
  ob_finished :: "string list"
  ob_malformed :: nat

definition new_observer :: "string \<Rightarrow> string \<Rightarrow> string \<Rightarrow> string \<Rightarrow> string \<Rightarrow> observer" where
  "new_observer rid gid aid marker producer =
     \<lparr> ob_run = rid, ob_stage_run = gid, ob_attempt = aid, ob_marker = marker, ob_producer = producer,
       ob_started = [], ob_finished = [], ob_malformed = 0 \<rparr>"

definition emit :: "timestamp \<Rightarrow> string \<Rightarrow> observer \<Rightarrow> string \<Rightarrow> pydict \<Rightarrow> store \<Rightarrow> unit result \<times> store" where
  "emit now eid ob event_type payload s =
     (case record_event now eid (ob_run ob) event_type payload (ob_producer ob) (Some (ob_stage_run ob)) (Some (ob_attempt ob)) s of
        (Inl e, s1) \<Rightarrow> (Inl e, s1) | (Inr _, s1) \<Rightarrow> (Inr (), s1))"

definition finished_payload :: "ProgressReport \<Rightarrow> pydict" where
  "finished_payload r =
     [(PStr ''stage'', pr_stage r), (PStr ''status'', opt_value ProgressStatus_value (pr_status r))]
     @ (if pr_seconds r \<noteq> PNone then [(PStr ''seconds'', pr_seconds r)] else [])
     @ (if truthy (pr_detail r) then [(PStr ''detail'', pr_detail r)] else [])"

text \<open>\<open>__call__\<close>; the downstream callback may raise first.\<close>

definition observe ::
  "(string \<Rightarrow> pyval option) \<Rightarrow> (string \<Rightarrow> pyexn option) \<Rightarrow> timestamp \<Rightarrow> string \<Rightarrow> string \<Rightarrow> observer \<Rightarrow> store \<Rightarrow> unit result \<times> observer \<times> store" where
  "observe loads downstream now eid line ob s =
     (case downstream line of
        Some e \<Rightarrow> (Inl e, ob, s)
      | None \<Rightarrow>
          (case decode_progress_line loads line (ob_marker ob) of
             Inl e \<Rightarrow> if is_ContractError e then (Inr (), ob\<lparr> ob_malformed := ob_malformed ob + 1 \<rparr>, s) else (Inl e, ob, s)
           | Inr None \<Rightarrow> (Inr (), ob, s)
           | Inr (Some r) \<Rightarrow>
               let stage = py_str (pr_stage r) in
               if pr_phase r = Some STARTED then
                 if stage \<in> set (ob_started ob) then (Inr (), ob, s)
                 else let ob1 = ob\<lparr> ob_started := stage # ob_started ob \<rparr> in
                   (case emit now eid ob1 ''stage.started'' [(PStr ''stage'', pr_stage r)] s of (x, s1) \<Rightarrow> (x, ob1, s1))
               else if stage \<in> set (ob_finished ob) then (Inr (), ob, s)
               else let ob1 = ob\<lparr> ob_finished := stage # ob_finished ob \<rparr> in
                 (case emit now eid ob1 ''stage.finished'' (finished_payload r) s of (x, s1) \<Rightarrow> (x, ob1, s1))))"

definition record_summary :: "timestamp \<Rightarrow> string \<Rightarrow> observer \<Rightarrow> store \<Rightarrow> unit result \<times> store" where
  "record_summary now eid ob s =
     (if ob_malformed ob = 0 then (Inr (), s)
      else emit now eid ob ''progress.malformed''
        [(PStr ''count'', PInt (int (ob_malformed ob))), (PStr ''marker'', PStr (ob_marker ob))] s)"

text \<open>The lines of an attempt, each with the clock and the identifier of its moment; what the observer raises is logged.\<close>

fun observe_all ::
  "(string \<Rightarrow> pyval option) \<Rightarrow> (string \<Rightarrow> pyexn option) \<Rightarrow> (timestamp \<times> string \<times> string) list \<Rightarrow> observer \<Rightarrow> store \<Rightarrow> observer \<times> store" where
  "observe_all loads downstream [] ob s = (ob, s)"
| "observe_all loads downstream ((now, eid, line) # ls) ob s =
     (case observe loads downstream now eid line ob s of (_, ob1, s1) \<Rightarrow> observe_all loads downstream ls ob1 s1)"

section \<open>Each stage once\<close>

text \<open>The kind of an event and the stage it is about.\<close>

definition stage_key_of :: "event_row \<Rightarrow> string \<times> pyval option" where
  "stage_key_of e = (er_type e, dget (er_payload e) ''stage'')"

definition known_keys :: "observer \<Rightarrow> (string \<times> pyval option) set" where
  "known_keys ob = (\<lambda>x. (''stage.started'', Some (PStr x))) ` set (ob_started ob) \<union> (\<lambda>x. (''stage.finished'', Some (PStr x))) ` set (ob_finished ob)"

lemma emit_events:
  assumes "emit now eid ob t payload s = (x, s1)"
  shows "\<exists>new. events s1 = events s @ new \<and> (new = [] \<or> (\<exists>e. new = [e] \<and> stage_key_of e = (t, dget payload ''stage'') \<and>
    er_attempt e = Some (ob_attempt ob))) \<and> s1\<lparr> events := [] \<rparr> = s\<lparr> events := [] \<rparr>"
  using assms by (auto simp: emit_def record_event_def Let_def stage_key_of_def split: if_splits)

lemma observe_step:
  assumes "observe loads downstream now eid line ob s = (x, ob1, s1)"
  shows "\<exists>new. events s1 = events s @ new \<and> distinct (map stage_key_of new) \<and> stage_key_of ` set new \<inter> known_keys ob = {} \<and>
    stage_key_of ` set new \<subseteq> known_keys ob1 \<and> known_keys ob \<subseteq> known_keys ob1 \<and> ob_attempt ob1 = ob_attempt ob \<and>
    (\<forall>e \<in> set new. er_attempt e = Some (ob_attempt ob)) \<and> s1\<lparr> events := [] \<rparr> = s\<lparr> events := [] \<rparr>"
proof -
  have same: ?thesis if "ob1 = ob\<lparr> ob_malformed := n \<rparr>" "s1 = s" for n
    using that by (intro exI [of _ "[]"]) (simp add: known_keys_def)
  consider "\<exists>n. ob1 = ob\<lparr> ob_malformed := n \<rparr>" "s1 = s"
    | (start) r stage where "decode_progress_line loads line (ob_marker ob) = Inr (Some r)" "pr_stage r = PStr stage" "stage \<notin> set (ob_started ob)"
        "ob1 = ob\<lparr> ob_started := stage # ob_started ob \<rparr>" "emit now eid ob1 ''stage.started'' [(PStr ''stage'', pr_stage r)] s = (x, s1)"
    | (finish) r stage where "decode_progress_line loads line (ob_marker ob) = Inr (Some r)" "pr_stage r = PStr stage" "stage \<notin> set (ob_finished ob)"
        "ob1 = ob\<lparr> ob_finished := stage # ob_finished ob \<rparr>" "emit now eid ob1 ''stage.finished'' (finished_payload r) s = (x, s1)"
  proof (cases "decode_progress_line loads line (ob_marker ob)")
    case (Inl e)
    then have "(\<exists>n. ob1 = ob\<lparr> ob_malformed := n \<rparr>) \<and> s1 = s"
      using assms by (auto simp: observe_def split: option.splits if_splits intro: exI [of _ "ob_malformed ob"])
    then show ?thesis using that(1) by blast
  next
    case (Inr report)
    show ?thesis
    proof (cases "downstream line \<noteq> None \<or> report = None")
      case True
      then have "ob1 = ob\<lparr> ob_malformed := ob_malformed ob \<rparr> \<and> s1 = s" using assms Inr by (cases "downstream line") (auto simp: observe_def)
      then show ?thesis using that(1) by blast
    next
      case False
      then obtain r where r: "report = Some r" "downstream line = None" by auto
      then obtain stage where st: "pr_stage r = PStr stage"
        using Inr decode_Some_valid ProgressReport_validate_Inr by blast
      show ?thesis
      proof (cases "(if pr_phase r = Some STARTED then stage \<in> set (ob_started ob) else stage \<in> set (ob_finished ob))")
        case True
        then have "ob1 = ob\<lparr> ob_malformed := ob_malformed ob \<rparr> \<and> s1 = s"
          using assms Inr r st by (auto simp: observe_def Let_def split: if_splits)
        then show ?thesis using that(1) by blast
      next
        case False
        then show ?thesis using assms Inr r st that(2,3)
          by (auto simp: observe_def Let_def split: if_splits prod.splits)
      qed
    qed
  qed
  then show ?thesis
  proof cases
    case 1
    then show ?thesis using same by blast
  next
    case start
    from emit_events [OF start(5)] show ?thesis using start(2-4) by (auto simp: known_keys_def dget_def)
  next
    case finish
    have "dget (finished_payload r) ''stage'' = Some (PStr stage)" using finish(2) by (simp add: finished_payload_def dget_def)
    then show ?thesis using emit_events [OF finish(5)] finish(2-4) by (auto simp: known_keys_def)
  qed
qed


section \<open>Scenarios\<close>

text \<open>A parser for the three envelopes below, and the events of an attempt that printed them.\<close>

definition envelope :: "string \<Rightarrow> pyval option" where
  "envelope t =
     (if t = ''s'' then Some (PDict [(PStr ''stage'', PStr ''place''), (PStr ''phase'', PStr ''started'')])
      else if t = ''f'' then Some (PDict [(PStr ''stage'', PStr ''place''), (PStr ''phase'', PStr ''finished''), (PStr ''status'', PStr ''succeeded'')])
      else if t = ''n'' then Some (PDict [(PStr ''stage'', PStr ''place''), (PStr ''phase'', PNone)])
      else None)"

definition lines_of :: "string list \<Rightarrow> (timestamp \<times> string \<times> string) list" where
  "lines_of ls = map (\<lambda>(i, l). (int i, ''ev-'' @ nat_str i, l)) (enumerate 0 ls)"

definition observed :: "string list \<Rightarrow> (string \<times> pyval) list \<times> nat" where
  "observed ls =
     (case observe_all envelope (\<lambda>_. None) (lines_of ls) (new_observer ''r'' ''g'' ''a'' ''@'' ''p'') empty_store of
        (ob, s) \<Rightarrow> (map (\<lambda>e. (er_type e, dgetN (er_payload e) ''status'')) (events s), ob_malformed ob))"


text \<open>
  A defect: an envelope whose phase is null is neither refused nor ignored. It is recorded as the end of the stage,
  without a status, and the true end is then taken for a repetition.
\<close>

theorem null_phase_finishes_stage:
  "observed [''@s'', ''@n'', ''@f''] = ([(''stage.started'', PNone), (''stage.finished'', PNone)], 0)"
  by code_simp

end
