(* ===== verification/Consoles.thy ===== *)
theory Consoles
  imports Client Lab Observer
begin

text \<open>
  \<open>apps/run_console\<close> and \<open>apps/evidence_console\<close>: the progress a run reported, the views of a run, and the submission of a
  task. Both borrow the caller's token like the lab, by writing it into one shared client (\<open>lab_step\<close> of \<open>Lab\<close>). The
  kernel's answers are parameters; \<open>ConsoleError(status, message)\<close> is \<open>HttpError status\<close>, and the fixed notes of the pages
  are left out.
\<close>

section \<open>Progress\<close>

definition STAGE_STARTED :: string where
  "STAGE_STARTED = ''stage.started''"

definition STAGE_FINISHED :: string where
  "STAGE_FINISHED = ''stage.finished''"

definition PROGRESS_MALFORMED :: string where
  "PROGRESS_MALFORMED = ''progress.malformed''"

record stage_progress =
  sp_stage :: pyval
  sp_state :: pyval
  sp_started_at :: pyval
  sp_finished_at :: pyval
  sp_seconds :: pyval
  sp_detail :: pyval

definition new_stage :: "pyval \<Rightarrow> stage_progress" where
  "new_stage name = \<lparr> sp_stage = name, sp_state = PStr ''started'', sp_started_at = PNone, sp_finished_at = PNone, sp_seconds = PNone, sp_detail = PNone \<rparr>"

text \<open>What an event changes in the entry of its stage.\<close>

definition mark_stage :: "pydict \<Rightarrow> pydict \<Rightarrow> stage_progress \<Rightarrow> stage_progress" where
  "mark_stage event payload e =
     (if dgetN event ''event_type'' = PStr STAGE_STARTED then e\<lparr> sp_started_at := dgetN event ''occurred_at'', sp_state := PStr ''running'' \<rparr>
      else if dgetN event ''event_type'' = PStr STAGE_FINISHED
      then e\<lparr> sp_finished_at := dgetN event ''occurred_at'',
              sp_state := (if truthy (dgetN payload ''status'') then dgetN payload ''status'' else PStr ''finished''),
              sp_seconds := dgetN payload ''seconds'', sp_detail := dgetN payload ''detail'' \<rparr>
      else e)"

text \<open>\<open>stages.setdefault(name, new)\<close>, and the change to that entry; entries stay in the order of their first event.\<close>

fun touch_stage :: "pyval \<Rightarrow> (stage_progress \<Rightarrow> stage_progress) \<Rightarrow> stage_progress list \<Rightarrow> stage_progress list" where
  "touch_stage name f [] = [f (new_stage name)]"
| "touch_stage name f (e # es) = (if sp_stage e = name then f e # es else e # touch_stage name f es)"

definition payload_of :: "pydict \<Rightarrow> pydict" where
  "payload_of event = (if truthy (dgetN event ''payload'') then items (dgetN event ''payload'') else [])"

text \<open>The count of a malformed report is an integer, as the observer writes it.\<close>

definition progress_step :: "pydict \<Rightarrow> stage_progress list \<times> int \<Rightarrow> stage_progress list \<times> int" where
  "progress_step event = (\<lambda>(es, malformed).
     let payload = payload_of event; name = dgetN payload ''stage'' in
     if dgetN event ''event_type'' = PStr PROGRESS_MALFORMED then (es, malformed + py_int (dgetN payload ''count''))
     else if \<not> truthy name then (es, malformed)
     else (touch_stage name (mark_stage event payload) es, malformed))"

record progress_view =
  pg_stages :: "stage_progress list"
  pg_reported :: nat
  pg_nothing :: bool
  pg_malformed :: int

definition progress :: "pydict list \<Rightarrow> progress_view" where
  "progress evs =
     (case fold progress_step evs ([], 0) of
        (es, malformed) \<Rightarrow> \<lparr> pg_stages = es, pg_reported = length es, pg_nothing = (es = []), pg_malformed = malformed \<rparr>)"

section \<open>Pages\<close>

record console_client =
  cc_runs :: "int \<Rightarrow> pydict list result"
  cc_run :: "string \<Rightarrow> pydict result"
  cc_timeline :: "string \<Rightarrow> pydict list result"
  cc_artifacts :: "string \<Rightarrow> pydict list result"
  cc_metrics :: "string \<Rightarrow> pydict list result"
  cc_plugins :: "pydict list result"
  cc_health :: "pyval result"
  cc_submit :: "pydict \<Rightarrow> bool \<Rightarrow> pydict result"
  cc_cancel :: "string \<Rightarrow> pyval result"

definition overview :: "console_client \<Rightarrow> int \<Rightarrow> (pydict list \<times> nat) result" where
  "overview c n = ebind (cc_runs c n) (\<lambda>rs. Inr (rs, length rs))"

definition unsourced :: "pydict list \<Rightarrow> pydict list" where
  "unsourced ms = filter (\<lambda>m. \<not> truthy (dgetN m ''complete'')) ms"

record console_run =
  cv_run :: pydict
  cv_progress :: progress_view
  cv_artifacts :: "pydict list"
  cv_kinds :: "string list"
  cv_metrics :: nat
  cv_unsourced :: nat
  cv_timeline :: "pydict list"

definition console_run_view :: "console_client \<Rightarrow> string \<Rightarrow> console_run result" where
  "console_run_view c run_id =
     ebind (cc_run c run_id) (\<lambda>d.
     ebind (cc_timeline c run_id) (\<lambda>t.
     ebind (cc_artifacts c run_id) (\<lambda>arts.
     ebind (cc_metrics c run_id) (\<lambda>ms.
     Inr \<lparr> cv_run = d, cv_progress = progress t, cv_artifacts = arts,
           cv_kinds = sort (remdups (map (\<lambda>a. py_str (dgetN a ''kind'')) arts)), cv_metrics = length ms,
           cv_unsourced = length (unsourced ms), cv_timeline = t \<rparr>))))"

record evidence_run =
  ev_detail :: pydict
  ev_metrics :: "pydict list"
  ev_timeline :: "pydict list"
  ev_sourced :: int
  ev_unsourced :: nat
  ev_complete :: bool

definition evidence_run_view :: "console_client \<Rightarrow> string \<Rightarrow> evidence_run result" where
  "evidence_run_view c run_id =
     ebind (cc_run c run_id) (\<lambda>d.
     ebind (cc_metrics c run_id) (\<lambda>ms.
     ebind (cc_timeline c run_id) (\<lambda>t.
     Inr \<lparr> ev_detail = d, ev_metrics = ms, ev_timeline = t, ev_sourced = int (length ms) - int (length (unsourced ms)),
           ev_unsourced = length (unsourced ms), ev_complete = (unsourced ms = []) \<rparr>)))"

definition submission :: "console_client \<Rightarrow> pyval \<Rightarrow> pyval result" where
  "submission c payload =
     (case payload of
        PDict d \<Rightarrow>
          (case dgetN d ''task'' of
             PDict task \<Rightarrow> ebind (cc_submit c task (truthy (dgetN d ''idempotent''))) (\<lambda>created.
               case dget created ''run'' of None \<Rightarrow> Inl KeyError | Some r \<Rightarrow> Inr r)
           | _ \<Rightarrow> Inl (HttpError 400))
      | _ \<Rightarrow> Inl (HttpError 400))"

definition int_param :: "(string \<times> string list) list \<Rightarrow> string \<Rightarrow> int \<Rightarrow> int result" where
  "int_param query name dflt =
     (case map_of query name of
        None \<Rightarrow> Inr dflt
      | Some [] \<Rightarrow> Inr dflt
      | Some (v # _) \<Rightarrow> (case parse_int v of None \<Rightarrow> Inl (HttpError 400) | Some n \<Rightarrow> Inr n))"

datatype console_page =
    CHealth pyval | COverview "pydict list" nat | CPlugins "pydict list" | CRun console_run | CEvidence evidence_run | CSubmitted pyval | CCancelled pyval

definition console_get :: "console_client \<Rightarrow> string \<Rightarrow> (string \<times> string list) list \<Rightarrow> console_page result" where
  "console_get c path query =
     (if path = ''/health'' then ebind (cc_health c) (\<lambda>v. Inr (CHealth v))
      else if path \<in> {''/'', ''/runs''} then ebind (int_param query ''limit'' 20) (\<lambda>n. ebind (overview c n) (\<lambda>(rs, k). Inr (COverview rs k)))
      else if path = ''/plugins'' then ebind (cc_plugins c) (\<lambda>ps. Inr (CPlugins ps))
      else if prefix ''/runs/'' path
      then let r = unquote (drop 6 path) in if r = [] then Inl (HttpError 400) else ebind (console_run_view c r) (\<lambda>v. Inr (CRun v))
      else Inl (HttpError 404))"

definition evidence_get :: "console_client \<Rightarrow> string \<Rightarrow> (string \<times> string list) list \<Rightarrow> console_page result" where
  "evidence_get c path query =
     (if path = ''/health'' then ebind (cc_health c) (\<lambda>v. Inr (CHealth v))
      else if path \<in> {''/'', ''/runs''} then ebind (int_param query ''limit'' 20) (\<lambda>n. ebind (overview c n) (\<lambda>(rs, k). Inr (COverview rs k)))
      else if prefix ''/runs/'' path
      then let r = unquote (drop 6 path) in if r = [] then Inl (HttpError 400) else ebind (evidence_run_view c r) (\<lambda>v. Inr (CEvidence v))
      else Inl (HttpError 404))"

definition trim_slashes :: "string \<Rightarrow> string" where
  "trim_slashes s = rev (dropWhile (\<lambda>c. c = CHR ''/'') (rev (dropWhile (\<lambda>c. c = CHR ''/'') s)))"

definition console_post :: "console_client \<Rightarrow> string \<Rightarrow> pyval \<Rightarrow> console_page result" where
  "console_post c path payload =
     (if path = ''/runs'' then ebind (submission c payload) (\<lambda>r. Inr (CSubmitted r))
      else if prefix ''/runs/'' path \<and> suffix ''/cancel'' path
      then let r = trim_slashes (unquote (take (length path - 7 - 6) (drop 6 path))) in
        if r = [] then Inl (HttpError 400) else ebind (cc_cancel c r) (\<lambda>v. Inr (CCancelled v))
      else Inl (HttpError 404))"

section \<open>Properties\<close>

text \<open>The events that speak of a stage, and the stage they speak of.\<close>

definition speaks_of :: "pydict \<Rightarrow> pyval option" where
  "speaks_of event =
     (let name = dgetN (payload_of event) ''stage'' in
      if dgetN event ''event_type'' = PStr PROGRESS_MALFORMED \<or> \<not> truthy name then None else Some name)"

lemma mark_stage_name [simp]: "sp_stage (mark_stage event payload e) = sp_stage e"
  by (simp add: mark_stage_def)

lemma touch_stage_names:
  "(\<And>e. sp_stage (f e) = sp_stage e) \<Longrightarrow>
    map sp_stage (touch_stage name f es) = (if name \<in> sp_stage ` set es then map sp_stage es else map sp_stage es @ [name])"
  by (induction es) (auto simp: new_stage_def)

lemma progress_step_names:
  "map sp_stage (fst (progress_step event (es, n))) =
    (case speaks_of event of None \<Rightarrow> map sp_stage es | Some name \<Rightarrow> if name \<in> sp_stage ` set es then map sp_stage es else map sp_stage es @ [name])"
  by (simp add: progress_step_def speaks_of_def Let_def touch_stage_names)

lemma progress_names:
  "map sp_stage (fst (fold progress_step evs (es, n))) =
    map sp_stage es @ rev (remdups (rev (filter (\<lambda>x. x \<notin> sp_stage ` set es) (List.map_filter speaks_of evs))))"
proof (induction evs arbitrary: es n rule: rev_induct)
  case (snoc ev evs)
  obtain es' m where f: "fold progress_step evs (es, n) = (es', m)" by fastforce
  note names = snoc [of es n, unfolded f fst_conv]
  have seen: "sp_stage ` set es' = sp_stage ` set es \<union> set (List.map_filter speaks_of evs)"
    using arg_cong [OF names, of set] by auto
  show ?case
    using progress_step_names [of ev es' m] seen names by (auto simp: f List.map_filter_def split: option.split)
qed (simp add: List.map_filter_simps)

text \<open>
  The console invents no progress: the stages it lists are exactly those the run's events speak of, each once, in the
  order in which they were first reported, and it says that nothing was reported exactly when no event speaks of a stage.
\<close>

theorem progress_invents_nothing:
  "map sp_stage (pg_stages (progress evs)) = rev (remdups (rev (List.map_filter speaks_of evs))) \<and>
   pg_reported (progress evs) = length (pg_stages (progress evs)) \<and> pg_nothing (progress evs) = (List.map_filter speaks_of evs = [])"
proof -
  obtain es n where f: "fold progress_step evs ([], 0) = (es, n)" by fastforce
  then have "map sp_stage es = rev (remdups (rev (List.map_filter speaks_of evs)))" using progress_names [of evs "[]" 0] by simp
  moreover from arg_cong [OF this, of "\<lambda>x. x = []"] have "es = [] \<longleftrightarrow> List.map_filter speaks_of evs = []" by simp
  ultimately show ?thesis by (simp add: progress_def f)
qed

text \<open>
  The two consoles agree on what is unsourced, and a run is complete exactly when every metric is.
\<close>

theorem evidence_counts_agree:
  assumes "evidence_run_view c r = Inr v" "console_run_view c r = Inr w"
  shows "ev_unsourced v = cv_unsourced w \<and> ev_sourced v + int (ev_unsourced v) = int (cv_metrics w) \<and>
    ev_complete v = list_all (\<lambda>m. truthy (dgetN m ''complete'')) (ev_metrics v) \<and> ev_timeline v = cv_timeline w"
proof -
  from assms(1) obtain ms t where c: "cc_metrics c r = Inr ms" "cc_timeline c r = Inr t" and v: "ev_metrics v = ms" "ev_timeline v = t"
    "ev_sourced v = int (length ms) - int (length (unsourced ms))" "ev_unsourced v = length (unsourced ms)" "ev_complete v = (unsourced ms = [])"
    unfolding evidence_run_view_def ebind_Inr_iff by force
  from assms(2) have w: "cv_metrics w = length ms" "cv_unsourced w = length (unsourced ms)" "cv_timeline w = t"
    unfolding console_run_view_def ebind_Inr_iff c by auto
  have "unsourced ms = [] \<longleftrightarrow> list_all (\<lambda>m. truthy (dgetN m ''complete'')) ms" by (simp add: unsourced_def filter_empty_conv list_all_iff)
  then show ?thesis by (simp add: v w)
qed

section \<open>Scenarios\<close>

definition an_event :: "string \<Rightarrow> int \<Rightarrow> pydict" where
  "an_event kind t = [(PStr ''event_type'', PStr kind), (PStr ''occurred_at'', PInt t), (PStr ''payload'', PDict [(PStr ''stage'', PStr ''route'')])]"

text \<open>
  A defect: a stage that is started again, by a second attempt, is shown as running with the end of the first attempt.
\<close>

theorem retried_stage_keeps_old_end:
  "map (\<lambda>e. (sp_state e, sp_started_at e, sp_finished_at e)) (pg_stages (progress [an_event ''stage.started'' 1, an_event ''stage.finished'' 2, an_event ''stage.started'' 3])) =
    [(PStr ''running'', PInt 3, PInt 2)]"
  by code_simp

definition quiet_console :: console_client where
  "quiet_console = \<lparr> cc_runs = (\<lambda>_. Inr []), cc_run = (\<lambda>_. Inr []), cc_timeline = (\<lambda>_. Inr [an_event ''stage.started'' 1]), cc_artifacts = (\<lambda>_. Inr []),
     cc_metrics = (\<lambda>_. Inr [[(PStr ''complete'', PBool True)], []]), cc_plugins = Inr [], cc_health = Inr PNone,
     cc_submit = (\<lambda>_ _. Inl KernelError), cc_cancel = (\<lambda>_. Inl KernelError) \<rparr>"

theorem evidence_counts_agree_witness:
  "\<exists>v w. evidence_run_view quiet_console ''r'' = Inr v \<and> console_run_view quiet_console ''r'' = Inr w \<and> ev_unsourced v = cv_unsourced w \<and> ev_unsourced v = 1"
proof -
  let ?v = "evidence_run_view quiet_console ''r''" and ?w = "console_run_view quiet_console ''r''"
  have x: "\<not> isl ?v" "\<not> isl ?w" "ev_unsourced (projr ?v) = 1" by code_simp+
  then have "?v = Inr (projr ?v)" "?w = Inr (projr ?w)" by (metis sum.collapse(2))+
  from this evidence_counts_agree [OF this] x(3) show ?thesis by (intro exI [of _ "projr ?v"] exI [of _ "projr ?w"]) simp
qed

end
