(* ===== verification/Proxy.thy ===== *)
theory Proxy
  imports Client
begin

text \<open>
  \<open>gateway/src/openroad_platform_gateway/app.py\<close>: the entry point that serves the kernel's routes and forwards everything
  under \<open>/app\<close> to the application that owns it. What a downstream application answers is a parameter, and so is the parser
  of JSON, which may also fail to decode the bytes as text.
\<close>

section \<open>Configuration\<close>

definition APP_PREFIX :: string where
  "APP_PREFIX = ''/app''"

definition MAX_PROXY_BYTES :: nat where
  "MAX_PROXY_BYTES = 8 * 1024 * 1024"

record AppRegistration =
  ap_name :: string
  ap_base_url :: string
  ap_title :: pyval
  ap_description :: pyval

definition app_name_ok :: "string \<Rightarrow> bool" where
  "app_name_ok name = (let rest = filter (\<lambda>c. c \<notin> set ''_-'') name in rest \<noteq> [] \<and> list_all is_alnum rest)"

definition AppRegistration_validate :: "AppRegistration \<Rightarrow> unit result" where
  "AppRegistration_validate a =
     (if \<not> app_name_ok (ap_name a) then Inl (ValueError ''invalid app name'')
      else if \<not> prefix ''http://'' (ap_base_url a) \<and> \<not> prefix ''https://'' (ap_base_url a) then Inl (ValueError ''app has a non-http base_url'')
      else Inr ())"

definition rstrip_slash :: "string \<Rightarrow> string" where
  "rstrip_slash s = rev (dropWhile (\<lambda>c. c = CHR ''/'') (rev s))"

definition health_url :: "AppRegistration \<Rightarrow> string" where
  "health_url a = rstrip_slash (ap_base_url a) @ ''/health''"

text \<open>
  \<open>AppRegistration(**item)\<close>: only the four fields, the first two required. A name or address that is no text raises
  when it is checked: an empty value is refused as a name, any other has no \<open>replace\<close> or \<open>startswith\<close>.
\<close>

definition app_of :: "pyval \<Rightarrow> AppRegistration result" where
  "app_of item =
     (case item of
        PDict d \<Rightarrow>
          if unknown_keys [''name'', ''base_url'', ''title'', ''description''] (map fst d) \<noteq> [] \<or> \<not> has_key d ''name'' \<or> \<not> has_key d ''base_url''
          then Inl TypeError
          else (case dgetN d ''name'' of
              PStr n \<Rightarrow>
                if \<not> app_name_ok n then Inl (ValueError ''invalid app name'')
                else (case dgetN d ''base_url'' of
                    PStr u \<Rightarrow> Inr \<lparr> ap_name = n, ap_base_url = u, ap_title = dget_or d ''title'' (PStr []), ap_description = dget_or d ''description'' (PStr []) \<rparr>
                  | _ \<Rightarrow> Inl AttributeError)
            | v \<Rightarrow> if truthy v then Inl AttributeError else Inl (ValueError ''invalid app name''))
      | _ \<Rightarrow> Inl TypeError)"

fun load_apps :: "string list \<Rightarrow> pyval list \<Rightarrow> AppRegistration list result" where
  "load_apps seen [] = Inr []"
| "load_apps seen (x # xs) =
     ebind (app_of x) (\<lambda>a.
     ebind (AppRegistration_validate a) (\<lambda>_.
     if ap_name a \<in> set seen then Inl (ValueError ''duplicate app name'')
     else ebind (load_apps (ap_name a # seen) xs) (\<lambda>rest. Inr (a # rest))))"

definition config_from_mapping :: "pydict \<Rightarrow> AppRegistration list result" where
  "config_from_mapping payload =
     (if unknown_keys [''apps''] (map fst payload) \<noteq> [] then Inl (ValueError ''unknown gateway config keys'')
      else case dget_or payload ''apps'' (PList []) of
          PList xs \<Rightarrow> load_apps [] xs
        | v \<Rightarrow> if v = PStr [] \<or> v = PDict [] then Inr [] else Inl TypeError)"

text \<open>\<open>str.title()\<close> on ASCII letters.\<close>

definition is_letter :: "char \<Rightarrow> bool" where
  "is_letter c = (let n = (of_char c :: nat) in (65 \<le> n \<and> n \<le> 90) \<or> (97 \<le> n \<and> n \<le> 122))"

definition upper_char :: "char \<Rightarrow> char" where
  "upper_char c = (let n = (of_char c :: nat) in if 97 \<le> n \<and> n \<le> 122 then char_of (n - 32) else c)"

fun title_case :: "bool \<Rightarrow> string \<Rightarrow> string" where
  "title_case inside [] = []"
| "title_case inside (c # cs) = (if inside then lower_char c else upper_char c) # title_case (is_letter c) cs"

definition nav_path :: "AppRegistration \<Rightarrow> string" where
  "nav_path a = APP_PREFIX @ ''/'' @ ap_name a @ ''/''"

definition nav_entry :: "AppRegistration \<Rightarrow> pydict" where
  "nav_entry a =
     [(PStr ''name'', PStr (ap_name a)),
      (PStr ''title'', if truthy (ap_title a) then ap_title a else PStr (title_case False (map (\<lambda>c. if c = CHR ''_'' then CHR '' '' else c) (ap_name a)))),
      (PStr ''description'', ap_description a), (PStr ''path'', PStr (nav_path a))]"

definition nav :: "AppRegistration list \<Rightarrow> pydict list" where
  "nav apps = map nav_entry apps"

section \<open>Forwarding\<close>

datatype loaded = Parsed pyval | NotJson | NotText

datatype upstream = Answered nat bytes | Refused nat | Unreachable

record forwarded =
  fw_url :: string
  fw_method :: string
  fw_authorization :: "string option"
  fw_body :: "pyval option"

datatype app_page = AJson pyval | ARaw bytes | AHealth "(string \<times> bool) list" | ANav "pydict list"

text \<open>\<open>urllib.parse.urlencode\<close>: a space becomes a plus sign, everything else is quoted as in a path.\<close>

definition quote_plus :: "string \<Rightarrow> string" where
  "quote_plus s = concat (map (\<lambda>c. if c = CHR '' '' then ''+'' else quote_char c) s)"

fun urlencode :: "(string \<times> string) list \<Rightarrow> string" where
  "urlencode [] = []"
| "urlencode [(k, v)] = quote_plus k @ ''='' @ quote_plus v"
| "urlencode ((k, v) # ps) = quote_plus k @ ''='' @ quote_plus v @ ''&'' @ urlencode ps"

definition proxy_path :: "request \<Rightarrow> string" where
  "proxy_path r =
     (case map_of (rq_params r) ''rest'' of None \<Rightarrow> ''/'' | Some t \<Rightarrow> ''/'' @ t)
     @ (if rq_query r = [] then [] else ''?'' @ urlencode (concat (map (\<lambda>(k, vs). map (Pair k) vs) (rq_query r))))"

definition proxied_body :: "body \<Rightarrow> pyval option result" where
  "proxied_body b = (case b of NoBody \<Rightarrow> Inr None | Json v \<Rightarrow> Inr (if v = PNone then None else Some v) | Bytes _ \<Rightarrow> Inl TypeError)"

definition forward_request :: "AppRegistration \<Rightarrow> request \<Rightarrow> forwarded result" where
  "forward_request a r =
     ebind (proxied_body (rq_body r)) (\<lambda>b.
       Inr \<lparr> fw_url = rstrip_slash (ap_base_url a) @ proxy_path r, fw_method = rq_method r,
             fw_authorization = (case header r ''Authorization'' of None \<Rightarrow> None | Some h \<Rightarrow> if h = [] then None else Some h), fw_body = b \<rparr>)"

definition forward_answer :: "(bytes \<Rightarrow> loaded) \<Rightarrow> upstream \<Rightarrow> (nat \<times> app_page) result" where
  "forward_answer loads up =
     (case up of
        Refused c \<Rightarrow> Inl (HttpError c)
      | Unreachable \<Rightarrow> Inl (HttpError 502)
      | Answered status raw \<Rightarrow>
          if MAX_PROXY_BYTES < length raw then Inl (HttpError 502)
          else (case loads raw of Parsed v \<Rightarrow> Inr (status, AJson v) | NotJson \<Rightarrow> Inr (status, ARaw raw) | NotText \<Rightarrow> Inl (ValueError ''invalid start byte'')))"

definition app_proxy :: "(bytes \<Rightarrow> loaded) \<Rightarrow> (forwarded \<Rightarrow> upstream) \<Rightarrow> AppRegistration list \<Rightarrow> request \<Rightarrow> (nat \<times> app_page) result" where
  "app_proxy loads ask apps r =
     (case fetchone (\<lambda>a. ap_name a = param r ''name'') apps of
        None \<Rightarrow> Inl (HttpError 404)
      | Some a \<Rightarrow> ebind (forward_request a r) (\<lambda>f. forward_answer loads (ask f)))"

text \<open>\<open>probe\<close>: an application is reachable when its health page answers JSON.\<close>

definition probe :: "(bytes \<Rightarrow> loaded) \<Rightarrow> (string \<Rightarrow> upstream) \<Rightarrow> AppRegistration \<Rightarrow> string \<times> bool" where
  "probe loads get a =
     (ap_name a, case get (health_url a) of Answered _ raw \<Rightarrow> (case loads raw of Parsed _ \<Rightarrow> True | _ \<Rightarrow> False) | _ \<Rightarrow> False)"

section \<open>The routes of the entry point\<close>

datatype entry_point = EntryKernel endpoint | EntryHealth | EntryNav | EntryProxy

definition gateway_routes :: "entry_point route list" where
  "gateway_routes = map (\<lambda>(m, t, h). \<lparr> rt_method = m, rt_segs = template t, rt_handler = h \<rparr>)
     [ (''GET'', ''/health'', EntryHealth), (''GET'', ''/'', EntryNav), (''GET'', ''/apps'', EntryNav),
       (''GET'', ''/app/{name}'', EntryProxy), (''GET'', ''/app/{name}/{rest...}'', EntryProxy), (''POST'', ''/app/{name}/{rest...}'', EntryProxy) ]"

definition kernel_route :: "endpoint route \<Rightarrow> entry_point route" where
  "kernel_route r = \<lparr> rt_method = rt_method r, rt_segs = rt_segs r, rt_handler = EntryKernel (rt_handler r) \<rparr>"

text \<open>\<open>build_router\<close> with the kernel attached.\<close>

definition entry_routes :: "entry_point route list" where
  "entry_routes = map kernel_route kernel_routes @ gateway_routes"

definition entry_page ::
  "(bytes \<Rightarrow> loaded) \<Rightarrow> (forwarded \<Rightarrow> upstream) \<Rightarrow> (string \<Rightarrow> upstream) \<Rightarrow> AppRegistration list \<Rightarrow> entry_point \<Rightarrow> request \<Rightarrow> (nat \<times> app_page) result option" where
  "entry_page loads ask get apps h r =
     (case h of
        EntryKernel _ \<Rightarrow> None
      | EntryHealth \<Rightarrow> Some (Inr (200, AHealth (map (probe loads get) apps)))
      | EntryNav \<Rightarrow> Some (Inr (200, ANav (nav apps)))
      | EntryProxy \<Rightarrow> Some (app_proxy loads ask apps r))"

section \<open>Properties\<close>

lemma gateway_routes_segs:
  "gateway_routes = map (\<lambda>(m, ts, h). \<lparr> rt_method = m, rt_segs = Lit [] # ts, rt_handler = h \<rparr>)
     [ (''GET'', [Lit ''health''], EntryHealth), (''GET'', [Lit []], EntryNav), (''GET'', [Lit ''apps''], EntryNav),
       (''GET'', [Lit ''app'', Par ''name''], EntryProxy), (''GET'', [Lit ''app'', Par ''name'', Tail ''rest''], EntryProxy),
       (''POST'', [Lit ''app'', Par ''name'', Tail ''rest''], EntryProxy) ]"
  by code_simp

lemma fetchone_filter: "fetchone P xs = (case filter P xs of [] \<Rightarrow> None | x # _ \<Rightarrow> Some x)"
  by (induction xs) auto

lemma kernel_route_simps [simp]:
  "rt_method (kernel_route r) = rt_method r" "rt_segs (kernel_route r) = rt_segs r" "match_path (kernel_route r) p = match_path r p"
  "rt_handler (kernel_route r) = EntryKernel (rt_handler r)"
  by (simp_all add: kernel_route_def match_path_def)

lemma match_route_filter:
  "match_route rs meth path =
    (case sort_key (\<lambda>r. - int (pattern_width (rt_segs r))) (filter (\<lambda>r. rt_method r = meth \<and> match_path r path \<noteq> None) rs) of
       [] \<Rightarrow> None | r # _ \<Rightarrow> Some (r, the (match_path r path)))"
  unfolding match_route_def fetchone_filter filter_sort by (simp split: list.split)

text \<open>C27: 
  The applications cannot shadow the kernel: for every path under \<open>/kernel\<close> the entry point chooses the very route, with the
  same parameters, that the kernel alone would choose.
\<close>

theorem apps_do_not_shadow_kernel:
  assumes "prefix ''/kernel/'' path"
  shows "match_route entry_routes meth path = map_option (\<lambda>(r, ps). (kernel_route r, ps)) (match_route kernel_routes meth path)"
proof -
  obtain s where path: "path = ''/kernel/'' @ s" using assms by (auto simp: prefix_def)
  have "match_path r path = None" if "r \<in> set gateway_routes" for r
    using that unfolding gateway_routes_segs path by (auto simp: match_path_def)
  then have none: "filter (\<lambda>r. rt_method r = meth \<and> match_path r path \<noteq> None) gateway_routes = []" by (auto simp: filter_empty_conv)
  show ?thesis
    unfolding match_route_filter entry_routes_def filter_append none
    by (simp add: filter_map o_def sort_key_map split: list.split)
qed

lemma load_apps_sound:
  "load_apps seen xs = Inr apps \<Longrightarrow> distinct (map ap_name apps) \<and> set (map ap_name apps) \<inter> set seen = {} \<and> list_all (\<lambda>a. app_name_ok (ap_name a)) apps"
proof (induction seen xs arbitrary: apps rule: load_apps.induct)
  case (2 seen x xs)
  then obtain a rest where "AppRegistration_validate a = Inr ()" "ap_name a \<notin> set seen" "load_apps (ap_name a # seen) xs = Inr rest" "apps = a # rest"
    by (auto simp: ebind_Inr_iff split: if_splits)
  moreover have "app_name_ok (ap_name a)" using calculation(1) by (auto simp: AppRegistration_validate_def split: if_splits)
  moreover have "distinct (map ap_name rest) \<and> set (map ap_name rest) \<inter> set (ap_name a # seen) = {} \<and> list_all (\<lambda>a. app_name_ok (ap_name a)) rest"
    using 2 calculation by (auto simp: ebind_Inr_iff split: if_splits)
  ultimately show ?case by auto
qed simp

lemma app_name_chars: "app_name_ok n \<Longrightarrow> c \<in> set n \<Longrightarrow> is_alnum c \<or> c \<in> set ''_-''"
  by (auto simp: app_name_ok_def Let_def list_all_iff)

lemma app_name_plain:
  assumes "app_name_ok n"
  shows "CHR ''/'' \<notin> set n" "unquote n = n" "n \<noteq> []"
proof -
  have "CHR ''/'' \<notin> set n" "CHR ''%'' \<notin> set n"
    using app_name_chars [OF assms, of "CHR ''/''"] app_name_chars [OF assms, of "CHR ''%''"] by (auto simp: is_alnum_def)
  then show "CHR ''/'' \<notin> set n" "unquote n = n" by (auto intro: unquote_no_escape)
  show "n \<noteq> []" using assms by (auto simp: app_name_ok_def)
qed

text \<open>
  The navigation is routable: in every accepted configuration the names are unique, and the path offered for an application
  is forwarded to the root of that application and of no other.
\<close>

theorem nav_leads_to_app:
  assumes "config_from_mapping payload = Inr apps" "a \<in> set apps"
  shows "\<exists>rt. match_route entry_routes ''GET'' (nav_path a) = Some (rt, [(''name'', ap_name a), (''rest'', [])]) \<and> rt_handler rt = EntryProxy \<and>
    fetchone (\<lambda>x. ap_name x = ap_name a) apps = Some a"
proof -
  from assms(1) obtain xs where xs: "load_apps [] xs = Inr apps \<or> apps = []"
    by (auto simp: config_from_mapping_def ebind_Inr_iff split: if_splits pyval.splits)
  then have apps: "distinct (map ap_name apps)" "app_name_ok (ap_name a)" using assms(2) load_apps_sound by (auto simp: list_all_iff)
  note n = app_name_plain [OF apps(2)]
  have "split_on (CHR ''/'') (nav_path a) = [[], ''app'', ap_name a, []]"
    using split_on_segment [OF n(1), of "[]"] by (simp add: nav_path_def APP_PREFIX_def)
  then have "filter (\<lambda>r. rt_method r = ''GET'' \<and> match_path r (nav_path a) \<noteq> None) entry_routes =
      [\<lparr> rt_method = ''GET'', rt_segs = [Lit [], Lit ''app'', Par ''name'', Tail ''rest''], rt_handler = EntryProxy \<rparr>]"
    unfolding entry_routes_def kernel_routes_segs gateway_routes_segs by (simp add: match_path_def kernel_route_def n(3))
  moreover have "match_segs [Lit [], Lit ''app'', Par ''name'', Tail ''rest''] [[], ''app'', ap_name a, []] = Some [(''name'', ap_name a), (''rest'', [])]"
    using n by simp
  ultimately show ?thesis
    using \<open>split_on _ _ = _\<close> fetchone_key [OF apps(1) assms(2)] by (simp add: match_route_filter match_path_def)
qed

section \<open>Scenarios\<close>

definition lab_app :: AppRegistration where
  "lab_app = \<lparr> ap_name = ''dse_lab'', ap_base_url = ''http://h:1/'', ap_title = PNone, ap_description = PNone \<rparr>"

definition two_apps :: pydict where
  "two_apps = [(PStr ''apps'', PList [PDict [(PStr ''name'', PStr ''dse_lab''), (PStr ''base_url'', PStr ''http://h:1'')],
     PDict [(PStr ''name'', PStr ''q''), (PStr ''base_url'', PStr ''http://h:2'')]])]"

theorem nav_leads_to_app_witness:
  "\<exists>apps a rt. config_from_mapping two_apps = Inr apps \<and> a \<in> set apps \<and> ap_name a = ''dse_lab'' \<and> nav_path a = ''/app/dse_lab/'' \<and>
    match_route entry_routes ''GET'' ''/app/dse_lab/'' = Some (rt, [(''name'', ''dse_lab''), (''rest'', [])]) \<and> rt_handler rt = EntryProxy"
proof -
  let ?x = "config_from_mapping two_apps"
  have x: "\<not> isl ?x" "list_ex (\<lambda>a. ap_name a = ''dse_lab'') (projr ?x)" by code_simp+
  then have e: "?x = Inr (projr ?x)" by (metis sum.collapse(2))
  from x(2) obtain a where a: "a \<in> set (projr ?x)" "ap_name a = ''dse_lab''" by (auto simp: list_ex_iff)
  have p: "nav_path a = ''/app/dse_lab/''" by (simp add: nav_path_def APP_PREFIX_def a(2))
  from nav_leads_to_app [OF e a(1)] obtain rt where
    "match_route entry_routes ''GET'' ''/app/dse_lab/'' = Some (rt, [(''name'', ''dse_lab''), (''rest'', [])])" "rt_handler rt = EntryProxy"
    unfolding p a(2) by blast
  then show ?thesis using a p e by (intro exI [of _ "projr ?x"] exI [of _ a] exI [of _ rt] conjI)
qed

theorem apps_do_not_shadow_kernel_witness:
  "match_route entry_routes ''GET'' ''/kernel/health'' = map_option (\<lambda>(r, ps). (kernel_route r, ps)) (match_route kernel_routes ''GET'' ''/kernel/health'')"
  by (rule apps_do_not_shadow_kernel) simp

text \<open>
  A defect: the remainder of the path is decoded by the router and forwarded without being encoded again, so an escaped
  question mark or separator changes what the application is asked.
\<close>

theorem proxy_decodes_path:
  "map_option (\<lambda>(rt, ps). map_option snd (fetchone (\<lambda>p. fst p = ''rest'') ps)) (match_route entry_routes ''GET'' ''/app/x/runs/a%3Flimit=1'') =
    Some (Some ''runs/a?limit=1'')"
  by code_simp

text \<open>A defect: a body of octets, which the router accepts, cannot be forwarded.\<close>

theorem octets_not_forwarded:
  "rq_body r = Bytes b \<Longrightarrow> forward_request a r = Inl TypeError"
  by (simp add: forward_request_def proxied_body_def)

text \<open>
  A defect: a downloaded artifact that is no text makes the entry point fail, and one that is JSON arrives as a value to be
  written anew, not as its bytes.
\<close>

theorem proxied_download_not_verbatim:
  assumes "length b \<le> MAX_PROXY_BYTES"
  shows "forward_answer (\<lambda>_. NotText) (Answered 200 b) = Inl (ValueError ''invalid start byte'') \<and>
    forward_answer (\<lambda>_. Parsed v) (Answered 200 b) = Inr (200, AJson v)"
  using assms by (simp add: forward_answer_def)

end
