(* ===== verification/Processes.thy ===== *)
theory Processes
  imports PyText Resources "HOL-Library.AList"
begin

text \<open>
  How the platform finds, measures and stops the processes of an attempt: the process-tree half of
  \<open>core/runtime/src/openroad_platform_runtime/guardian.py\<close> and \<open>process_fence.py\<close>.

  The operating system is a table of processes read through \<open>/proc\<close> in the format proc(5) documents: the \<open>stat\<close> line,
  the \<open>statm\<close> line, and the children file of a task, which lists the processes that this one task has forked. A host
  without that index has no children files. A process that ends becomes a zombie and its children pass to process 1.
\<close>

section \<open>The operating system\<close>

record process =
  p_pid :: nat
  p_comm :: string
  p_state :: char
  p_ppid :: nat
  p_ptid :: nat
  p_pgid :: nat
  p_times :: "nat \<times> nat \<times> nat \<times> nat"
  p_start :: nat
  p_pages :: nat

record host =
  procs :: "process list"
  children_index :: bool
  own_group :: nat

definition find_proc :: "host \<Rightarrow> int \<Rightarrow> process option" where
  "find_proc h pid = fetchone (\<lambda>p. int (p_pid p) = pid) (procs h)"

text \<open>The fields of \<open>stat\<close> from the state on: the seventh to the tenth after it and those the platform never reads are 0.\<close>

definition stat_words :: "process \<Rightarrow> string list" where
  "stat_words p =
     [[p_state p], nat_str (p_ppid p), nat_str (p_pgid p), ''0'', ''0'', ''0'', ''0'', ''0'', ''0'', ''0'', ''0'']
     @ (case p_times p of (a, b, c, d) \<Rightarrow> [nat_str a, nat_str b, nat_str c, nat_str d])
     @ [''0'', ''0'', ''0'', ''0'', nat_str (p_start p)]"

definition stat_line :: "process \<Rightarrow> string" where
  "stat_line p = nat_str (p_pid p) @ '' ('' @ p_comm p @ '') '' @ spaced (stat_words p)"

definition read_stat :: "host \<Rightarrow> int \<Rightarrow> string option" where
  "read_stat h pid = map_option stat_line (find_proc h pid)"

definition read_statm :: "host \<Rightarrow> int \<Rightarrow> string option" where
  "read_statm h pid = map_option (\<lambda>p. spaced [''0'', nat_str (p_pages p)]) (find_proc h pid)"

definition read_children :: "host \<Rightarrow> int \<Rightarrow> string option" where
  "read_children h pid =
     (if \<not> children_index h \<or> find_proc h pid = None then None
      else Some (spaced (map (\<lambda>p. nat_str (p_pid p)) (filter (\<lambda>p. int (p_ppid p) = pid \<and> int (p_ptid p) = pid) (procs h)))))"

definition getpgid :: "host \<Rightarrow> int \<Rightarrow> nat option" where
  "getpgid h pid = map_option p_pgid (find_proc h pid)"

text \<open>The processes of \<open>P\<close> end.\<close>

definition die :: "(process \<Rightarrow> bool) \<Rightarrow> host \<Rightarrow> host" where
  "die P h = (let dead = p_pid ` {p \<in> set (procs h). P p} in
     h\<lparr> procs := map (\<lambda>p. (if P p then p\<lparr> p_state := CHR ''Z'' \<rparr> else p)
                          \<lparr> p_ppid := (if p_ppid p \<in> dead then 1 else p_ppid p), p_ptid := (if p_ppid p \<in> dead then 1 else p_ptid p) \<rparr>) (procs h) \<rparr>)"

section \<open>Reading a process\<close>

definition stat_fields :: "string \<Rightarrow> string list" where
  "stat_fields raw = words (drop (nat (rfind (CHR '')'') raw + 2)) raw)"

definition process_is_running :: "host \<Rightarrow> int \<Rightarrow> bool" where
  "process_is_running h pid =
     (case read_stat h pid of None \<Rightarrow> False
      | Some raw \<Rightarrow> (case stat_fields raw of [] \<Rightarrow> False | f # _ \<Rightarrow> f \<noteq> ''Z''))"

definition start_ticks :: "host \<Rightarrow> int \<Rightarrow> int option" where
  "start_ticks h pid =
     (case read_stat h pid of None \<Rightarrow> None
      | Some raw \<Rightarrow> let fs = stat_fields raw in if length fs \<le> 19 then None else parse_int (fs ! 19))"

section \<open>The process tree\<close>

definition kids :: "(int \<times> int list) list \<Rightarrow> int \<Rightarrow> int list" where
  "kids g p = (case map_of g p of None \<Rightarrow> [] | Some cs \<Rightarrow> cs)"

definition visit_child :: "int \<Rightarrow> int list \<times> int list \<Rightarrow> int list \<times> int list" where
  "visit_child c = (\<lambda>(result, pending). if c \<in> set result then (result, pending) else (c # result, c # pending))"

definition named_pids :: "(int \<times> int list) list \<Rightarrow> int set" where
  "named_pids g = set (concat (map snd g))"

lemma finite_named_pids [simp]: "finite (named_pids g)"
  by (simp add: named_pids_def)

lemma kids_named: "set (kids g p) \<subseteq> named_pids g"
proof (cases "map_of g p")
  case (Some cs)
  then have "(p, cs) \<in> set g" by (rule map_of_SomeD)
  then show ?thesis using Some by (auto simp: kids_def named_pids_def intro!: bexI [of _ "(p, cs)"])
qed (simp add: kids_def)

lemma visit_children:
  "\<exists>new. fold visit_child cs (r, ps) = (new @ r, new @ ps) \<and> set new = set cs - set r \<and> distinct new"
proof (induction cs arbitrary: r ps)
  case (Cons c cs)
  show ?case
  proof (cases "c \<in> set r")
    case True
    then have "fold visit_child (c # cs) (r, ps) = fold visit_child cs (r, ps)" "set (c # cs) - set r = set cs - set r"
      by (auto simp: visit_child_def)
    then show ?thesis using Cons.IH [of r ps] by simp
  next
    case False
    obtain new where new: "fold visit_child cs (c # r, c # ps) = (new @ c # r, new @ c # ps)" "set new = set cs - set (c # r)" "distinct new"
      using Cons.IH [of "c # r" "c # ps"] by auto
    have "fold visit_child (c # cs) (r, ps) = ((new @ [c]) @ r, (new @ [c]) @ ps)" using new(1) False by (simp add: visit_child_def)
    moreover have "set (new @ [c]) = set (c # cs) - set r" "distinct (new @ [c])" using new(2,3) False by auto
    ultimately show ?thesis by blast
  qed
qed simp

text \<open>The work list, last entry first.\<close>

function explore :: "(int \<times> int list) list \<Rightarrow> int list \<Rightarrow> int list \<Rightarrow> int list" where
  "explore g result [] = result"
| "explore g result (parent # pending) =
     explore g (fst (fold visit_child (kids g parent) (result, pending))) (snd (fold visit_child (kids g parent) (result, pending)))"
  by pat_completeness auto
termination
proof (relation "measure (\<lambda>(g, r, ps). card (named_pids g - set r) + length ps)")
  fix g :: "(int \<times> int list) list" and r p ps
  obtain new where new: "fold visit_child (kids g p) (r, ps) = (new @ r, new @ ps)" "set new = set (kids g p) - set r" "distinct new"
    using visit_children by blast
  have "card (named_pids g - set r - set new) + card (set new) = card (named_pids g - set r)"
    using kids_named [of g p] new(2) by (subst card_Diff_subset) (auto intro!: le_add_diff_inverse2 card_mono)
  moreover have "named_pids g - set (new @ r) = named_pids g - set r - set new" by auto
  ultimately show "((g, fst (fold visit_child (kids g p) (r, ps)), snd (fold visit_child (kids g p) (r, ps))), g, r, p # ps)
      \<in> measure (\<lambda>(g, r, ps). card (named_pids g - set r) + length ps)"
    using new distinct_card [OF new(3)] by simp
qed simp

text \<open>The children files, each number that parses, in order.\<close>

definition index_graph :: "host \<Rightarrow> (int \<times> int list) list" where
  "index_graph h = List.map_filter (\<lambda>p. map_option (\<lambda>raw. (int (p_pid p), List.map_filter parse_int (words raw))) (read_children h (int (p_pid p)))) (procs h)"

text \<open>The fallback: \<open>/proc/*/stat\<close>, the second field of each being the parent.\<close>

definition proc_entries :: "host \<Rightarrow> string list" where
  "proc_entries h = ''self'' # map (\<lambda>p. nat_str (p_pid p)) (procs h)"

definition add_child :: "host \<Rightarrow> string \<Rightarrow> (int \<times> int list) list \<Rightarrow> (int \<times> int list) list" where
  "add_child h name g =
     (if \<not> list_all is_digit name \<or> name = [] then g
      else case parse_int name of None \<Rightarrow> g
      | Some pid \<Rightarrow> (case read_stat h pid of None \<Rightarrow> g
        | Some raw \<Rightarrow> (case stat_fields raw of
            _ # f # _ \<Rightarrow> (case parse_int f of None \<Rightarrow> g | Some parent \<Rightarrow> AList.update parent (kids g parent @ [pid]) g)
          | _ \<Rightarrow> g)))"

definition stat_graph :: "host \<Rightarrow> (int \<times> int list) list" where
  "stat_graph h = fold (add_child h) (proc_entries h) []"

definition process_tree :: "host \<Rightarrow> int \<Rightarrow> int list" where
  "process_tree h rpid =
     (if read_children h rpid \<noteq> None then explore (index_graph h) [rpid] [rpid] else explore (stat_graph h) [rpid] [rpid])"

section \<open>Measuring\<close>

text \<open>
  One process of the tree: how many were counted, their clock ticks and resident pages. It may end between the reading
  of its \<open>stat\<close>, in \<open>h\<close>, and of its \<open>statm\<close>, in \<open>hm\<close>; its ticks are then counted and nothing else.
\<close>

definition measure_one :: "host \<Rightarrow> host \<Rightarrow> int \<Rightarrow> int \<times> int \<times> int \<Rightarrow> int \<times> int \<times> int" where
  "measure_one h hm pid = (\<lambda>(n, cpu, pages).
     case read_stat h pid of None \<Rightarrow> (n, cpu, pages)
     | Some raw \<Rightarrow> let tail = stat_fields raw in
         if tail = [] \<or> hd tail = ''Z'' \<or> length tail \<le> 14 then (n, cpu, pages)
         else (case (parse_int (tail ! 11), parse_int (tail ! 12), parse_int (tail ! 13), parse_int (tail ! 14)) of
             (Some a, Some b, Some c, Some d) \<Rightarrow>
               (case map_option words (read_statm hm pid) of
                  Some (_ # rss # _) \<Rightarrow> (case parse_int rss of Some m \<Rightarrow> (n + 1, cpu + (a + b + c + d), pages + m)
                                            | None \<Rightarrow> (n, cpu + (a + b + c + d), pages))
                | _ \<Rightarrow> (n, cpu + (a + b + c + d), pages))
           | _ \<Rightarrow> (n, cpu, pages)))"

definition measure_tree :: "int \<Rightarrow> int \<Rightarrow> host \<Rightarrow> host \<Rightarrow> int \<Rightarrow> int \<times> rat \<times> int" where
  "measure_tree ticks page h hm rpid =
     (case fold (measure_one h hm) (process_tree h rpid) (0, 0, 0) of
        (n, cpu, pages) \<Rightarrow> (n, of_int cpu / of_int ticks, pages * page))"

section \<open>Stopping\<close>

definition signal_groups :: "host \<Rightarrow> int list \<Rightarrow> nat list" where
  "signal_groups h pids = remdups (filter (\<lambda>g. g \<noteq> own_group h) (List.map_filter (getpgid h) pids))"

text \<open>\<open>killpg\<close> with \<open>SIGKILL\<close>, which no process can refuse.\<close>

definition kill_tree :: "int list \<Rightarrow> host \<Rightarrow> host" where
  "kill_tree targets h = die (\<lambda>p. p_pgid p \<in> set (signal_groups h targets)) h"

definition tree_gone :: "int list \<Rightarrow> host \<Rightarrow> bool" where
  "tree_gone targets h = list_all (\<lambda>p. \<not> process_is_running h p) targets"

text \<open>
  \<open>_terminate_tree\<close>: what \<open>SIGTERM\<close> does is up to the processes, so the hosts seen at the turns of the waiting loop are
  an argument, \<open>seen\<close>, followed by the host when the grace period is over. The first turn at which the tree is gone ends it.
\<close>

definition terminate_tree :: "int \<Rightarrow> host \<Rightarrow> host list \<Rightarrow> host \<Rightarrow> host" where
  "terminate_tree rpid h seen later =
     (if \<not> process_is_running h rpid then h
      else let targets = process_tree h rpid in
        case fetchone (tree_gone targets) seen of Some h' \<Rightarrow> h' | None \<Rightarrow> kill_tree targets later)"

section \<open>Fencing a lost attempt\<close>

text \<open>The identity of a process as an attempt records it.\<close>

record fence_row =
  fr_pid :: "int option"
  fr_pgid :: "int option"
  fr_ticks :: "int option"

definition group_exists :: "host \<Rightarrow> int \<Rightarrow> bool" where
  "group_exists h g = list_ex (\<lambda>p. int (p_pgid p) = g) (procs h)"

definition same_process :: "host \<Rightarrow> int \<Rightarrow> int \<Rightarrow> bool" where
  "same_process h pid ticks =
     (case map_option stat_fields (read_stat h pid) of None \<Rightarrow> False
      | Some fs \<Rightarrow> fs \<noteq> [] \<and> hd fs \<noteq> ''Z'' \<and> 19 < length fs \<and> parse_int (fs ! 19) = Some ticks)"

definition fence_alive :: "host \<Rightarrow> fence_row \<Rightarrow> bool result" where
  "fence_alive h row =
     (if fr_pid row = None \<and> fr_pgid row = None then Inr False
      else case (fr_pid row, fr_ticks row) of
        (Some pid, Some ticks) \<Rightarrow>
          if \<not> same_process h pid ticks then Inr False
          else (case fr_pgid row of None \<Rightarrow> Inl TypeError | Some g \<Rightarrow> Inr (group_exists h g))
      | _ \<Rightarrow> (case fr_pgid row of None \<Rightarrow> Inl TypeError | Some g \<Rightarrow> Inr (group_exists h g)))"

text \<open>
  The hosts at the successive looks of the waiting half second, and the host when it is over; \<open>SIGKILL\<close> is sent to
  the recorded group there.
\<close>

definition fence_expired_process :: "fence_row \<Rightarrow> host \<Rightarrow> host list \<Rightarrow> host \<Rightarrow> bool result \<times> host" where
  "fence_expired_process row h seen later =
     (case fence_alive h row of
        Inl e \<Rightarrow> (Inl e, h)
      | Inr False \<Rightarrow> (Inr True, h)
      | Inr True \<Rightarrow>
          (case fetchone (\<lambda>x. fence_alive x row = Inr False) seen of
             Some h' \<Rightarrow> (Inr True, h')
           | None \<Rightarrow>
               let h' = die (\<lambda>p. Some (int (p_pgid p)) = fr_pgid row) later
               in (case fence_alive h' row of Inl e \<Rightarrow> (Inl e, h') | Inr b \<Rightarrow> (Inr (\<not> b), h'))))"

section \<open>Hosts\<close>

text \<open>Process numbers are unique and the state is one of the letters of proc(5).\<close>

definition host_ok :: "host \<Rightarrow> bool" where
  "host_ok h = (distinct (map p_pid (procs h)) \<and> list_all (\<lambda>p. p_state p \<in> set ''RSDZTtXxKWPI'') (procs h))"

definition pids :: "host \<Rightarrow> int set" where
  "pids h = (int \<circ> p_pid) ` set (procs h)"

definition child_of :: "host \<Rightarrow> (int \<times> int) set" where
  "child_of h = (\<lambda>p. (int (p_ppid p), int (p_pid p))) ` set (procs h)"

lemma find_proc_in:
  assumes "host_ok h" "p \<in> set (procs h)"
  shows "find_proc h (int (p_pid p)) = Some p"
proof -
  have "distinct (map p_pid (procs h))" using assms(1) by (simp add: host_ok_def)
  then have "fetchone (\<lambda>x. p_pid x = p_pid p) (procs h) = Some p" using assms(2) by (rule fetchone_key)
  then show ?thesis by (simp add: find_proc_def)
qed

lemma find_proc_Some: "find_proc h pid = Some p \<Longrightarrow> p \<in> set (procs h) \<and> int (p_pid p) = pid"
  by (auto simp: find_proc_def dest: fetchone_Some)

lemma find_proc_None: "find_proc h pid = None \<longleftrightarrow> pid \<notin> pids h"
  by (auto simp: find_proc_def fetchone_None pids_def)

lemma plain_zero: "plain ''0''"
  by (simp add: plain_def is_space_def Let_def)

lemma stat_words_plain:
  assumes "p_state p \<in> set ''RSDZTtXxKWPI''"
  shows "list_all plain (stat_words p) \<and> CHR '')'' \<notin> set (spaced (stat_words p))"
proof -
  have n: "CHR '')'' \<notin> set (nat_str n)" for n using nat_str_digits [of "CHR '')''" n] by (auto simp: is_digit_def)
  have st: "plain [p_state p]" "p_state p \<noteq> CHR '')''" using assms by (auto simp: plain_def is_space_def Let_def)
  show ?thesis using n st by (auto simp: stat_words_def plain_nat_str plain_zero spaced_def split: prod.split)
qed

lemma drop_two: "drop (nat (int (length xs) + 2)) (xs @ a # b # ys) = ys"
  by (simp add: nat_add_distrib)

text \<open>Whatever the name of a program, parentheses and spaces included, the fields after it are read back.\<close>

lemma stat_fields_line:
  assumes "p_state p \<in> set ''RSDZTtXxKWPI''"
  shows "stat_fields (stat_line p) = stat_words p"
proof -
  let ?pre = "nat_str (p_pid p) @ '' ('' @ p_comm p" and ?post = "CHR '' '' # spaced (stat_words p)"
  have line: "stat_line p = ?pre @ CHR '')'' # ?post" by (simp add: stat_line_def)
  have "rfind (CHR '')'') (stat_line p) = int (length ?pre)"
    unfolding line by (rule rfind_last) (use stat_words_plain [OF assms] in simp)
  then have "drop (nat (rfind (CHR '')'') (stat_line p) + 2)) (stat_line p) = spaced (stat_words p)"
    unfolding line by (simp only: drop_two)
  then show ?thesis using stat_words_plain [OF assms] by (simp add: stat_fields_def words_spaced)
qed

lemma host_state: "host_ok h \<Longrightarrow> p \<in> set (procs h) \<Longrightarrow> p_state p \<in> set ''RSDZTtXxKWPI''"
  unfolding host_ok_def list_all_iff by blast

lemma stat_fields_host: "host_ok h \<Longrightarrow> p \<in> set (procs h) \<Longrightarrow> stat_fields (stat_line p) = stat_words p"
  by (rule stat_fields_line) (rule host_state)

lemma running_iff:
  assumes "host_ok h"
  shows "process_is_running h pid \<longleftrightarrow> (\<exists>p \<in> set (procs h). int (p_pid p) = pid \<and> p_state p \<noteq> CHR ''Z'')"
proof (cases "find_proc h pid")
  case None
  moreover from this have "pid \<notin> pids h" by (simp add: find_proc_None)
  ultimately show ?thesis by (auto simp: process_is_running_def read_stat_def pids_def)
next
  case (Some p)
  then have p: "p \<in> set (procs h)" "int (p_pid p) = pid" using find_proc_Some by blast+
  have "process_is_running h pid \<longleftrightarrow> p_state p \<noteq> CHR ''Z''"
    using Some stat_fields_line [OF host_state [OF assms p(1)]]
    by (simp add: process_is_running_def read_stat_def stat_words_def)
  moreover have "q = p" if "q \<in> set (procs h)" "int (p_pid q) = pid" for q
    using find_proc_in [OF assms that(1)] Some that(2) by simp
  ultimately show ?thesis using p by blast
qed

section \<open>The tree is the descendants\<close>

definition edges_of :: "(int \<times> int list) list \<Rightarrow> (int \<times> int) set" where
  "edges_of g = {(x, y). y \<in> set (kids g x)}"

lemma explore_grows: "set r \<subseteq> set (explore g r ps)"
proof (induction g r ps rule: explore.induct)
  case (2 g r p ps)
  obtain new where "fold visit_child (kids g p) (r, ps) = (new @ r, new @ ps)" using visit_children by blast
  then show ?case using 2 by auto
qed simp

lemma explore_sound: "set ps \<subseteq> set r \<Longrightarrow> set (explore g r ps) \<subseteq> (edges_of g)\<^sup>* `` set r"
proof (induction g r ps rule: explore.induct)
  case (2 g r p ps)
  obtain new where new: "fold visit_child (kids g p) (r, ps) = (new @ r, new @ ps)" "set new = set (kids g p) - set r"
    using visit_children by blast
  then have "set new \<subseteq> (edges_of g)\<^sup>* `` set r" using "2.prems" by (auto simp: edges_of_def intro!: r_into_rtrancl)
  then have "(edges_of g)\<^sup>* `` set (new @ r) \<subseteq> (edges_of g)\<^sup>* `` set r" by (auto intro: rtrancl_trans)
  then show ?case using 2 new(1) by auto
qed auto

lemma explore_closed:
  "set ps \<subseteq> set r \<Longrightarrow> \<forall>x \<in> set r - set ps. set (kids g x) \<subseteq> set r \<Longrightarrow>
    \<forall>x \<in> set (explore g r ps). set (kids g x) \<subseteq> set (explore g r ps)"
proof (induction g r ps rule: explore.induct)
  case (2 g r p ps)
  obtain new where new: "fold visit_child (kids g p) (r, ps) = (new @ r, new @ ps)" "set new = set (kids g p) - set r"
    using visit_children by blast
  have "\<forall>x \<in> set (new @ r) - set (new @ ps). set (kids g x) \<subseteq> set (new @ r)" using "2.prems"(2) new(2) by fastforce
  then show ?case using "2.IH" "2.prems"(1) new(1) by (simp add: le_supI2)
qed simp

lemma explore_eq: "set (explore g [x] [x]) = (edges_of g)\<^sup>* `` {x}"
proof
  show "set (explore g [x] [x]) \<subseteq> (edges_of g)\<^sup>* `` {x}" using explore_sound [of "[x]" "[x]" g] by simp
  have "y \<in> set (explore g [x] [x])" if "(x, y) \<in> (edges_of g)\<^sup>*" for y
    using that
  proof induction
    case base
    then show ?case using explore_grows [of "[x]" g "[x]"] by simp
  next
    case (step y z)
    then show ?case using explore_closed [of "[x]" "[x]" g] by (auto simp: edges_of_def)
  qed
  then show "(edges_of g)\<^sup>* `` {x} \<subseteq> set (explore g [x] [x])" by auto
qed

lemma explore_distinct: "distinct r \<Longrightarrow> distinct (explore g r ps)"
proof (induction g r ps rule: explore.induct)
  case (2 g r p ps)
  obtain new where "fold visit_child (kids g p) (r, ps) = (new @ r, new @ ps)" "set new = set (kids g p) - set r" "distinct new"
    using visit_children by blast
  then show ?case using 2 by auto
qed simp

lemma kids_update: "kids (AList.update k v g) x = (if x = k then v else kids g x)"
  by (simp add: kids_def update_conv')

lemma add_child_proc:
  assumes "host_ok h" "p \<in> set (procs h)"
  shows "add_child h (nat_str (p_pid p)) g = AList.update (int (p_ppid p)) (kids g (int (p_ppid p)) @ [int (p_pid p)]) g"
proof -
  have "list_all is_digit (nat_str (p_pid p))" using nat_str_digits by (auto simp: list_all_iff)
  then show ?thesis
    using assms by (simp add: add_child_def parse_int_nat_str read_stat_def find_proc_in stat_fields_host stat_words_def)
qed

lemma add_children:
  assumes "host_ok h" "set ps \<subseteq> set (procs h)"
  shows "kids (fold (add_child h) (map (\<lambda>p. nat_str (p_pid p)) ps) g) x =
    kids g x @ map (int \<circ> p_pid) (filter (\<lambda>p. int (p_ppid p) = x) ps)"
  using assms(2)
proof (induction ps arbitrary: g)
  case (Cons p ps)
  then show ?case using add_child_proc [OF assms(1), of p g] by (simp add: kids_update)
qed simp

lemma stat_edges:
  assumes "host_ok h"
  shows "edges_of (stat_graph h) = child_of h"
proof -
  have "add_child h ''self'' [] = []" by (simp add: add_child_def is_digit_def)
  then have "kids (stat_graph h) x = map (int \<circ> p_pid) (filter (\<lambda>p. int (p_ppid p) = x) (procs h))" for x
    using add_children [OF assms, of "procs h" "[]" x] by (simp add: stat_graph_def proc_entries_def kids_def)
  then show ?thesis by (auto simp: edges_of_def child_of_def)
qed

lemma read_children_ids:
  "read_children h pid = Some raw \<Longrightarrow> List.map_filter parse_int (words raw) =
    map (int \<circ> p_pid) (filter (\<lambda>p. int (p_ppid p) = pid \<and> int (p_ptid p) = pid) (procs h))"
proof -
  let ?ps = "filter (\<lambda>p. int (p_ppid p) = pid \<and> int (p_ptid p) = pid) (procs h)"
  assume "read_children h pid = Some raw"
  then have "raw = spaced (map (\<lambda>p. nat_str (p_pid p)) ?ps)" by (auto simp: read_children_def split: if_splits)
  moreover have "list_all plain (map (\<lambda>p. nat_str (p_pid p)) ?ps)" by (simp add: list_all_iff plain_nat_str)
  ultimately have "words raw = map (\<lambda>p. nat_str (p_pid p)) ?ps" by (simp add: words_spaced)
  then show ?thesis by (simp add: map_filter_map_filter [symmetric] List.map_filter_def parse_int_nat_str o_def)
qed

lemma map_of_readings:
  "map_of (List.map_filter (\<lambda>p. map_option (\<lambda>v. (k p, f v)) (r (k p))) ps) x = (if x \<in> k ` set ps then map_option f (r x) else None)"
proof (induction ps)
  case (Cons p ps)
  then show ?case by (cases "r (k p)") (auto simp: List.map_filter_simps)
qed (simp add: List.map_filter_simps)

lemma index_edges:
  assumes "children_index h"
  shows "edges_of (index_graph h) = {(x, y). x \<in> pids h \<and> (\<exists>p \<in> set (procs h). int (p_ppid p) = x \<and> int (p_ptid p) = x \<and> int (p_pid p) = y)}"
proof -
  have "kids (index_graph h) x = (if x \<in> pids h then map (int \<circ> p_pid) (filter (\<lambda>p. int (p_ppid p) = x \<and> int (p_ptid p) = x) (procs h)) else [])" for x
  proof (cases "x \<in> pids h")
    case True
    then obtain raw where raw: "read_children h x = Some raw" using assms by (auto simp: read_children_def find_proc_None)
    then show ?thesis using True map_of_readings [of "\<lambda>p. int (p_pid p)" "\<lambda>raw. List.map_filter parse_int (words raw)" "read_children h" "procs h" x]
        read_children_ids [OF raw] by (simp add: kids_def index_graph_def pids_def)
  next
    case False
    then show ?thesis using map_of_readings [of "\<lambda>p. int (p_pid p)" "\<lambda>raw. List.map_filter parse_int (words raw)" "read_children h" "procs h" x]
      by (simp add: kids_def index_graph_def pids_def)
  qed
  then show ?thesis by (auto simp: edges_of_def)
qed

text \<open>Every process but those forked by another thread than their parent's first one.\<close>

definition main_thread_forks :: "host \<Rightarrow> bool" where
  "main_thread_forks h = list_all (\<lambda>p. p_ptid p = p_ppid p) (procs h)"

lemma process_tree_set:
  assumes "host_ok h" "rpid \<in> pids h" "children_index h \<longrightarrow> main_thread_forks h"
  shows "set (process_tree h rpid) = (child_of h)\<^sup>* `` {rpid}"
proof (cases "children_index h")
  case True
  then have e: "edges_of (index_graph h) = {(x, y) \<in> child_of h. x \<in> pids h}"
    using assms(3) unfolding index_edges [OF True] by (auto simp: child_of_def main_thread_forks_def list_all_iff)
  have "(rpid, y) \<in> (edges_of (index_graph h))\<^sup>* \<and> y \<in> pids h" if "(rpid, y) \<in> (child_of h)\<^sup>*" for y
    using that
  proof induction
    case base
    then show ?case using assms(2) by simp
  next
    case (step y z)
    then have "(y, z) \<in> edges_of (index_graph h)" "z \<in> pids h" by (auto simp: e child_of_def pids_def)
    then show ?case using step.IH by (meson rtrancl.rtrancl_into_rtrancl)
  qed
  moreover have "(edges_of (index_graph h))\<^sup>* \<subseteq> (child_of h)\<^sup>*" by (rule rtrancl_mono) (auto simp: e)
  ultimately have "(edges_of (index_graph h))\<^sup>* `` {rpid} = (child_of h)\<^sup>* `` {rpid}" by auto
  moreover have "read_children h rpid \<noteq> None" using True assms(2) by (simp add: read_children_def find_proc_None)
  ultimately show ?thesis by (simp add: process_tree_def explore_eq del: explore.simps)
next
  case False
  then show ?thesis using stat_edges [OF assms(1)] by (simp add: process_tree_def read_children_def explore_eq del: explore.simps)
qed

lemma process_tree_distinct: "distinct (process_tree h rpid)"
  by (simp add: process_tree_def explore_distinct del: explore.simps)

section \<open>After the kill\<close>

lemma die_host_ok:
  assumes "host_ok h"
  shows "host_ok (die P h)"
proof -
  have "map p_pid (procs (die P h)) = map p_pid (procs h)" by (auto simp: die_def Let_def)
  moreover have "list_all (\<lambda>p. p_state p \<in> set ''RSDZTtXxKWPI'') (procs (die P h))"
    using assms by (auto simp: host_ok_def die_def Let_def list_all_iff)
  ultimately show ?thesis using assms unfolding host_ok_def by argo
qed

lemma die_running:
  assumes "host_ok h"
  shows "process_is_running (die P h) pid \<longleftrightarrow> (\<exists>p \<in> set (procs h). int (p_pid p) = pid \<and> p_state p \<noteq> CHR ''Z'' \<and> \<not> P p)"
  unfolding running_iff [OF die_host_ok [OF assms]] by (auto simp: die_def Let_def)

lemma kill_tree_gone:
  assumes "host_ok h" "pid \<in> set targets" "\<And>p. p \<in> set (procs h) \<Longrightarrow> int (p_pid p) = pid \<Longrightarrow> p_pgid p \<noteq> own_group h"
  shows "\<not> process_is_running (kill_tree targets h) pid"
proof
  assume "process_is_running (kill_tree targets h) pid"
  then obtain p where p: "p \<in> set (procs h)" "int (p_pid p) = pid" "p_pgid p \<notin> set (signal_groups h targets)"
    by (auto simp: kill_tree_def die_running [OF assms(1)])
  have "getpgid h pid = Some (p_pgid p)" using find_proc_in [OF assms(1) p(1)] p(2) by (simp add: getpgid_def)
  then have "p_pgid p \<in> set (List.map_filter (getpgid h) targets)"
    using assms(2) by (force simp: List.map_filter_def)
  then show False using p assms(3) by (auto simp: signal_groups_def)
qed

section \<open>What is measured\<close>

definition ticks_of :: "process \<Rightarrow> int" where
  "ticks_of p = (case p_times p of (a, b, c, d) \<Rightarrow> int (a + b + c + d))"

definition live_in :: "host \<Rightarrow> int list \<Rightarrow> process set" where
  "live_in h ps = {p \<in> set (procs h). int (p_pid p) \<in> set ps \<and> p_state p \<noteq> CHR ''Z''}"

lemma measure_one_eq:
  assumes "host_ok h"
  shows "measure_one h h pid (n, c, m) =
    (case find_proc h pid of None \<Rightarrow> (n, c, m)
     | Some p \<Rightarrow> if p_state p = CHR ''Z'' then (n, c, m) else (n + 1, c + ticks_of p, m + int (p_pages p)))"
proof (cases "find_proc h pid")
  case (Some p)
  then have f: "stat_fields (stat_line p) = stat_words p" using find_proc_Some stat_fields_host [OF assms] by blast
  have "words (spaced [''0'', nat_str (p_pages p)]) = [''0'', nat_str (p_pages p)]"
    by (rule words_spaced) (simp add: plain_nat_str plain_zero)
  then show ?thesis using Some f
    by (cases "p_times p") (simp add: measure_one_def read_stat_def read_statm_def stat_words_def parse_int_nat_str ticks_of_def Let_def)
qed (simp add: measure_one_def read_stat_def)

lemma live_in_Cons:
  assumes "host_ok h"
  shows "live_in h (x # xs) = (case find_proc h x of None \<Rightarrow> live_in h xs
    | Some p \<Rightarrow> if p_state p = CHR ''Z'' then live_in h xs else insert p (live_in h xs))"
proof (cases "find_proc h x")
  case None
  moreover from this have "x \<notin> pids h" by (simp add: find_proc_None)
  ultimately show ?thesis by (auto simp: live_in_def pids_def)
next
  case (Some p)
  then have "q = p" if "q \<in> set (procs h)" "int (p_pid q) = x" for q using find_proc_in [OF assms that(1)] that(2) by simp
  then show ?thesis using Some find_proc_Some [OF Some] by (auto simp: live_in_def)
qed

lemma measure_fold:
  assumes "host_ok h" "distinct ps"
  shows "fold (measure_one h h) ps (n, c, m) =
    (n + int (card (live_in h ps)), c + (\<Sum>p \<in> live_in h ps. ticks_of p), m + (\<Sum>p \<in> live_in h ps. int (p_pages p)))"
  using assms(2)
proof (induction ps arbitrary: n c m)
  case (Cons x xs)
  have fin: "finite (live_in h xs)" by (simp add: live_in_def)
  have new: "p \<notin> live_in h xs" if "find_proc h x = Some p" for p
    using Cons.prems find_proc_Some [OF that] by (auto simp: live_in_def)
  show ?case
  proof (cases "find_proc h x")
    case None
    then show ?thesis using Cons by (simp add: measure_one_eq [OF assms(1)] live_in_Cons [OF assms(1)])
  next
    case (Some p)
    then show ?thesis using Cons fin new [OF Some] by (simp add: measure_one_eq [OF assms(1)] live_in_Cons [OF assms(1)])
  qed
qed (simp add: live_in_def)

section \<open>Properties\<close>



text \<open>
  A measurement adds up the tree: the processes of it that run, each counted once, their clock ticks with those of
  the children they have waited for, and their resident pages.
\<close>

theorem measure_exact:
  assumes "host_ok h"
  shows "measure_tree ticks page h h rpid =
    (int (card (live_in h (process_tree h rpid))),
     of_int (\<Sum>p \<in> live_in h (process_tree h rpid). ticks_of p) / of_int ticks,
     (\<Sum>p \<in> live_in h (process_tree h rpid). int (p_pages p)) * page)"
  using measure_fold [OF assms process_tree_distinct, of h rpid 0 0 0] by (simp add: measure_tree_def)

text \<open>
  A fence that reports success leaves no trace of the recorded process: if its start time was recorded, no process
  with its number and start time runs any more.
\<close>

theorem fenced_process_is_gone:
  assumes "fence_expired_process row h seen later = (Inr True, h')" "fr_pid row = Some pid" "fr_ticks row = Some ticks"
    and "\<forall>x \<in> set (h # later # seen). host_ok x" "p \<in> set (procs h')" "int (p_pid p) = pid" "int (p_start p) = ticks"
    and "fr_pgid row = Some (int (p_pgid p))"
  shows "\<not> process_is_running h' pid"
proof
  assume run: "process_is_running h' pid"
  have ok: "host_ok h'"
    using assms(1,4) by (auto simp: fence_expired_process_def Let_def die_host_ok dest!: fetchone_Some split: sum.splits bool.splits option.splits)
  have dead: "fence_alive h' row = Inr False"
    using assms(1) by (auto simp: fence_expired_process_def Let_def dest!: fetchone_Some split: sum.splits bool.splits option.splits)
  have f: "find_proc h' pid = Some p" using find_proc_in [OF ok assms(5)] assms(6) by simp
  obtain q where "q \<in> set (procs h')" "int (p_pid q) = pid" "p_state q \<noteq> CHR ''Z''" using run running_iff [OF ok] by blast
  then have "p_state p \<noteq> CHR ''Z''" using find_proc_in [OF ok, of q] f by simp
  then have "same_process h' pid ticks"
    using f stat_fields_host [OF ok assms(5)] assms(7)
    by (cases "p_times p") (simp add: same_process_def read_stat_def stat_words_def parse_int_nat_str)
  moreover have "group_exists h' (int (p_pgid p))" using assms(5) by (auto simp: group_exists_def list_ex_iff)
  ultimately show False using dead assms(2,3,8) by (simp add: fence_alive_def)
qed

section \<open>Scenarios\<close>

definition a_process :: "nat \<Rightarrow> nat \<Rightarrow> nat \<Rightarrow> nat \<Rightarrow> process" where
  "a_process pid parent thread grp =
     \<lparr> p_pid = pid, p_comm = ''sh (x) y'', p_state = CHR ''S'', p_ppid = parent, p_ptid = thread, p_pgid = grp,
       p_times = (1, 2, 3, 4), p_start = 100 + pid, p_pages = 5 \<rparr>"

text \<open>A worker, 7, with an adapter, 10, its child 20, and a grandchild, 30, that called \<open>setsid\<close>.\<close>

definition a_host :: host where
  "a_host = \<lparr> procs = [a_process 7 1 1 7, a_process 10 7 7 10, a_process 20 10 10 10, a_process 30 20 20 30],
     children_index = True, own_group = 7 \<rparr>"

lemma a_host_tree: "process_tree a_host 10 = [30, 20, 10]"
  by code_simp



theorem measure_exact_witness:
  "measure_tree 100 4096 a_host a_host 10 = (3, of_int 30 / of_int 100, 61440)"
  using measure_exact [of a_host 100 4096 10] by code_simp

definition a_row :: fence_row where
  "a_row = \<lparr> fr_pid = Some 10, fr_pgid = Some 10, fr_ticks = Some 110 \<rparr>"

theorem fenced_process_is_gone_witness:
  "fst (fence_expired_process a_row a_host [] a_host) = Inr True \<and>
   \<not> process_is_running (snd (fence_expired_process a_row a_host [] a_host)) 10"
proof
  let ?h = "snd (fence_expired_process a_row a_host [] a_host)"
  show fst: "fst (fence_expired_process a_row a_host [] a_host) = Inr True" by code_simp
  have ok: "\<forall>x \<in> set [a_host, a_host]. host_ok x" by code_simp
  have p: "\<exists>p \<in> set (procs ?h). int (p_pid p) = 10 \<and> int (p_start p) = 110 \<and> p_pgid p = 10" by code_simp
  then obtain p where "p \<in> set (procs ?h)" "int (p_pid p) = 10" "int (p_start p) = 110" "p_pgid p = 10" by blast
  then show "\<not> process_is_running ?h 10"
    using fenced_process_is_gone [of a_row a_host "[]" a_host ?h 10 110 p] fst ok
    by (simp add: a_row_def prod_eq_iff)
qed

text \<open>
  A defect: with the children index, a process forked by another thread than its parent's first is not found, where
  reading every \<open>stat\<close> finds it; with a session of its own it survives the kill.
\<close>

theorem thread_child_escapes:
  "let h = a_host\<lparr> procs := [a_process 7 1 1 7, a_process 10 7 7 10, a_process 20 10 11 20] \<rparr>
   in process_tree h 10 = [10] \<and> process_tree (h\<lparr> children_index := False \<rparr>) 10 = [20, 10] \<and>
      process_is_running (terminate_tree 10 h [] h) 20 \<and> \<not> process_is_running (terminate_tree 10 h [] h) 10"
  by code_simp

text \<open>
  A defect: a descendant that called \<open>setsid\<close> and whose parent has ended belongs to process 1; neither the tree nor the
  adapter's group leads to it, and it survives.
\<close>

theorem daemon_escapes:
  "let h = die (\<lambda>p. p_pid p = 20) a_host
   in (10 :: nat, 20) \<in> set (map (\<lambda>p. (p_ppid p, p_pid p)) (procs a_host)) \<and> (20 :: nat, 30) \<in> set (map (\<lambda>p. (p_ppid p, p_pid p)) (procs a_host)) \<and>
      process_is_running (terminate_tree 10 h [] h) 30"
  by code_simp

text \<open>
  A defect: once the adapter itself has ended, nothing of what it left behind is stopped, not even in its own group.
\<close>

theorem ended_adapter_leaves_children:
  "let h = die (\<lambda>p. p_pid p = 10) a_host
   in terminate_tree 10 h [] h = h \<and> process_is_running h 20 \<and> getpgid h 20 = Some 10"
  by code_simp

text \<open>
  A defect: the fence answers for the group by looking at its leader. When the leader has ended and another process of
  the group still runs, the fence reports success and sends nothing.
\<close>

theorem fence_misses_group:
  "let h = die (\<lambda>p. p_pid p = 10) a_host
   in fence_expired_process a_row h [] h = (Inr True, h) \<and> process_is_running h 20 \<and> group_exists h 10"
  by code_simp

end
