(* ===== verification/Guardian.thy ===== *)
theory Guardian
  imports Processes Adapter
begin

text \<open>
  \<open>core/runtime/src/openroad_platform_runtime/guardian.py\<close>: the supervision of one adapter process. The loop polls the
  process, asks whether the run was cancelled, compares the clock with the deadline, and from time to time measures the
  process tree against the declared limits. The world answers through a \<open>tick\<close> per turn of the loop; finding, measuring
  and killing the tree are in \<open>Processes\<close>. A second part is the reader thread that writes the raw log and offers each
  line to the observer through a bounded queue.

  Times are rational numbers of seconds; the source computes them in double precision.
\<close>

section \<open>Limits\<close>

definition exceeds :: "rat \<Rightarrow> pyval \<Rightarrow> bool" where
  "exceeds x v = (case py_num v of Some (FFin q) \<Rightarrow> x > q | Some FNegInf \<Rightarrow> True | _ \<Rightarrow> False)"

definition breach_values :: "int \<times> rat \<times> int \<Rightarrow> ResourceRequest \<Rightarrow> string option" where
  "breach_values m limits =
     (case m of (n, cpu, memory) \<Rightarrow>
        if processes limits \<noteq> PNone \<and> exceeds (of_int n) (processes limits) then Some ''processes''
        else if cpu_seconds limits \<noteq> PNone \<and> exceeds cpu (cpu_seconds limits) then Some ''cpu_seconds''
        else if memory_bytes limits \<noteq> PNone \<and> exceeds (of_int memory) (memory_bytes limits) then Some ''memory_bytes''
        else None)"

section \<open>The supervision loop\<close>

definition DEFAULT_TERMINATE_GRACE :: rat where
  "DEFAULT_TERMINATE_GRACE = 5"

definition DEFAULT_POLL_INTERVAL :: rat where
  "DEFAULT_POLL_INTERVAL = 1 / 10"

definition DEFAULT_MEASURE_INTERVAL :: rat where
  "DEFAULT_MEASURE_INTERVAL = 1 / 2"

record ProcessGuardian =
  poll_interval :: rat
  terminate_grace :: rat
  measure_interval :: rat

definition ProcessGuardian_init :: "rat \<Rightarrow> rat \<Rightarrow> rat \<Rightarrow> ProcessGuardian result" where
  "ProcessGuardian_init poll grace interval =
     (if poll \<le> 0 then Inl (ValueError ''poll_interval must be positive'')
      else if grace \<le> 0 then Inl (ValueError ''terminate_grace must be positive'')
      else if interval \<le> 0 then Inl (ValueError ''measure_interval must be positive'')
      else Inr \<lparr> poll_interval = poll, terminate_grace = grace, measure_interval = interval \<rparr>)"

text \<open>What one turn sees: the exit code, the caller's answer, the clock twice, and the tree.\<close>

record tick =
  tk_poll :: "int option"
  tk_cancel :: "bool result"
  tk_clock :: rat
  tk_now :: rat
  tk_measured :: "int \<times> rat \<times> int"

datatype stop = Exited | Cancelled | TimedOut | Exceeded string | Raised pyexn

record watch =
  wa_next :: rat
  wa_processes :: int
  wa_cpu :: rat
  wa_memory :: int

definition limits_declared :: "ResourceRequest option \<Rightarrow> bool" where
  "limits_declared limits = (case limits of None \<Rightarrow> False | Some l \<Rightarrow> declared l)"

definition note_peaks :: "int \<times> rat \<times> int \<Rightarrow> watch \<Rightarrow> watch" where
  "note_peaks m w = (case m of (n, cpu, memory) \<Rightarrow>
     w\<lparr> wa_processes := max (wa_processes w) n, wa_cpu := max (wa_cpu w) cpu, wa_memory := max (wa_memory w) memory \<rparr>)"

definition turn :: "ProcessGuardian \<Rightarrow> ResourceRequest option \<Rightarrow> rat \<Rightarrow> rat \<Rightarrow> tick \<Rightarrow> watch \<Rightarrow> stop option \<times> watch" where
  "turn g limits started timeout t w =
     (if tk_poll t \<noteq> None then (Some Exited, w)
      else case tk_cancel t of
        Inl e \<Rightarrow> (Some (Raised e), w)
      | Inr True \<Rightarrow> (Some Cancelled, w)
      | Inr False \<Rightarrow>
          if tk_clock t - started \<ge> timeout then (Some TimedOut, w)
          else if tk_now t \<ge> wa_next w then
            (let w1 = note_peaks (tk_measured t) (w\<lparr> wa_next := tk_now t + measure_interval g \<rparr>);
                 breach = (if limits_declared limits then breach_values (tk_measured t) (the limits) else None)
             in (map_option Exceeded breach, w1))
          else (None, w))"

text \<open>The loop: why it stopped, the peaks, and the number of the last turn.\<close>

partial_function (option) supervise ::
  "ProcessGuardian \<Rightarrow> ResourceRequest option \<Rightarrow> rat \<Rightarrow> rat \<Rightarrow> (nat \<Rightarrow> tick) \<Rightarrow> nat \<Rightarrow> watch \<Rightarrow> (stop \<times> watch \<times> nat) option" where
  "supervise g limits started timeout ticks n w =
     (case turn g limits started timeout (ticks n) w of
        (Some x, w1) \<Rightarrow> Some (x, w1, n)
      | (None, w1) \<Rightarrow> supervise g limits started timeout ticks (Suc n) w1)"

declare supervise.simps [code]

definition first_watch :: "rat \<Rightarrow> watch" where
  "first_watch started = \<lparr> wa_next = started, wa_processes = 0, wa_cpu = 0, wa_memory = 0 \<rparr>"

text \<open>
  \<open>run\<close>, from the checks to the outcome: \<open>on_started\<close> is what the callback of that name did, \<open>ended\<close> the exit code once
  the process is gone. Nothing is returned while the loop goes on.
\<close>

definition guardian_run ::
  "ProcessGuardian \<Rightarrow> bool \<Rightarrow> ResourceRequest option \<Rightarrow> rat \<Rightarrow> rat \<Rightarrow> unit result \<Rightarrow> (nat \<Rightarrow> tick) \<Rightarrow> int \<Rightarrow> ProcessOutcome result option" where
  "guardian_run g supports limits timeout started on_started ticks ended =
     (if timeout \<le> 0 then Some (Inl (ValueError ''timeout_seconds must be positive''))
      else if limits_declared limits \<and> \<not> supports then Some (Inl (ValueError ''the requested limits cannot be enforced''))
      else case on_started of
        Inl e \<Rightarrow> Some (Inl e)
      | Inr _ \<Rightarrow>
          map_option (\<lambda>(x, w, n).
            case x of
              Raised e \<Rightarrow> Inl e
            | _ \<Rightarrow> Inr \<lparr> returncode = ended, timed_out = (x = TimedOut), cancelled = (x = Cancelled),
                exceeded = (case x of Exceeded m \<Rightarrow> Some m | _ \<Rightarrow> None), oc_cpu_seconds = PFloat (FFin (wa_cpu w)),
                oc_peak_memory = PInt (wa_memory w), oc_peak_processes = PInt (wa_processes w) \<rparr>)
            (supervise g limits started timeout ticks 0 (first_watch started)))"

section \<open>Telemetry\<close>

definition DRAIN_BATCH :: nat where
  "DRAIN_BATCH = 32"

definition FINAL_DRAIN_BATCH :: nat where
  "FINAL_DRAIN_BATCH = 128"

definition TELEMETRY_QUEUE_SIZE :: nat where
  "TELEMETRY_QUEUE_SIZE = 256"

record telemetry =
  tl_log :: "string list"
  tl_queue :: "string list"
  tl_dropped :: nat
  tl_seen :: "string list"
  tl_errors :: "pyexn list"

definition no_telemetry :: telemetry where
  "no_telemetry = \<lparr> tl_log = [], tl_queue = [], tl_dropped = 0, tl_seen = [], tl_errors = [] \<rparr>"

text \<open>One line of \<open>_read_output\<close>: the log first, then the queue if it has room.\<close>

definition read_line :: "string \<Rightarrow> telemetry \<Rightarrow> telemetry" where
  "read_line line t =
     (let t1 = t\<lparr> tl_log := tl_log t @ [line] \<rparr> in
      if length (tl_queue t) < TELEMETRY_QUEUE_SIZE then t1\<lparr> tl_queue := tl_queue t @ [line] \<rparr>
      else t1\<lparr> tl_dropped := tl_dropped t + 1 \<rparr>)"

definition drain :: "(string \<Rightarrow> pyexn option) option \<Rightarrow> nat \<Rightarrow> telemetry \<Rightarrow> nat \<times> telemetry" where
  "drain on_line max_lines t =
     (let batch = take max_lines (tl_queue t); t1 = t\<lparr> tl_queue := drop max_lines (tl_queue t), tl_seen := tl_seen t @ batch \<rparr> in
      (length batch, case on_line of None \<Rightarrow> t1 | Some f \<Rightarrow> t1\<lparr> tl_errors := tl_errors t @ List.map_filter f batch \<rparr>))"

text \<open>The reader thread and the supervisor, in any order.\<close>

datatype telemetry_event = Arrives string | Drains nat

fun telemetry_step :: "(string \<Rightarrow> pyexn option) option \<Rightarrow> telemetry_event \<Rightarrow> telemetry \<Rightarrow> telemetry" where
  "telemetry_step on_line (Arrives line) t = read_line line t"
| "telemetry_step on_line (Drains n) t = snd (drain on_line n t)"

fun arrived :: "telemetry_event \<Rightarrow> string option" where
  "arrived (Arrives line) = Some line"
| "arrived (Drains n) = None"

section \<open>The loop ends\<close>

lemma supervise_stops:
  assumes "n \<le> k" "\<And>w. fst (turn g limits started timeout (ticks k) w) \<noteq> None"
  shows "\<exists>x w' m. supervise g limits started timeout ticks n w = Some (x, w', m) \<and> m \<le> k"
  using assms(1)
proof (induction "k - n" arbitrary: n w)
  case 0
  then have "n = k" by simp
  then obtain x w' where "turn g limits started timeout (ticks n) w = (Some x, w')" using assms(2) [of w] by (metis not_None_eq prod.collapse)
  then show ?case using 0 by (subst supervise.simps) simp
next
  case (Suc d)
  show ?case
  proof (cases "turn g limits started timeout (ticks n) w")
    case (Pair y w1)
    show ?thesis
    proof (cases y)
      case None
      have "d = k - Suc n" "Suc n \<le> k" using Suc.hyps(2) by auto
      from Suc.hyps(1) [OF this] show ?thesis using Pair None by (subst supervise.simps) simp
    next
      case (Some x)
      then show ?thesis using Pair Suc.prems by (subst supervise.simps) simp
    qed
  qed
qed

text \<open>What every turn but the last kept and what the last one did.\<close>

lemma supervise_invariant:
  assumes "supervise g limits started timeout ticks n w = Some y"
    and "\<And>k w w1. I k w \<Longrightarrow> turn g limits started timeout (ticks k) w = (None, w1) \<Longrightarrow> I (Suc k) w1"
    and "I n w"
  shows "\<exists>w0. I (snd (snd y)) w0 \<and> turn g limits started timeout (ticks (snd (snd y))) w0 = (Some (fst y), fst (snd y))"
proof -
  let ?P = "\<lambda>g limits started timeout ticks n w y. \<forall>I. I n w \<longrightarrow> (\<forall>k w w1. I k w \<longrightarrow> turn g limits started timeout (ticks k) w = (None, w1) \<longrightarrow> I (Suc k) w1) \<longrightarrow>
      (\<exists>w0. I (snd (snd y)) w0 \<and> turn g limits started timeout (ticks (snd (snd y))) w0 = (Some (fst y), fst (snd y)))"
  have "?P g limits started timeout ticks n w y"
  proof (rule supervise.raw_induct [of ?P, OF _ assms(1)])
    fix super g limits started timeout ticks n w y
    assume IH: "\<And>g limits started timeout ticks n w y. super g limits started timeout ticks n w = Some y \<Longrightarrow> ?P g limits started timeout ticks n w y"
      and y: "(case turn g limits started timeout (ticks n) w of (None, w1) \<Rightarrow> super g limits started timeout ticks (Suc n) w1 | (Some x, w1) \<Rightarrow> Some (x, w1, n)) = Some y"
    obtain x w1 where t: "turn g limits started timeout (ticks n) w = (x, w1)" by fastforce
    show "?P g limits started timeout ticks n w y"
    proof (cases x)
      case None
      then show ?thesis using IH [of g limits started timeout ticks "Suc n" w1 y] y t by auto
    next
      case (Some a)
      then show ?thesis using y t by auto
    qed
  qed
  then show ?thesis using assms(2,3) by blast
qed

lemma clock_advances:
  fixes clock :: "nat \<Rightarrow> rat"
  assumes "\<And>n. clock (Suc n) \<ge> clock n + d"
  shows "clock n \<ge> clock 0 + of_nat n * d"
proof (induction n)
  case (Suc n)
  have "clock 0 + of_nat (Suc n) * d = (clock 0 + of_nat n * d) + d" by (simp add: algebra_simps)
  then show ?case using Suc assms [of n] by linarith
qed simp

lemma turn_after_deadline: "tk_clock t - started \<ge> timeout \<Longrightarrow> fst (turn g limits started timeout t w) \<noteq> None"
  by (auto simp: turn_def split: sum.split bool.split)

lemma turn_continues:
  "turn g limits started timeout t w = (None, w1) \<Longrightarrow> tk_clock t - started < timeout"
  by (auto simp: turn_def split: if_splits sum.splits bool.splits)

lemma turn_timed_out: "turn g limits started timeout t w = (Some TimedOut, w1) \<Longrightarrow> tk_clock t - started \<ge> timeout"
  by (auto simp: turn_def Let_def split: if_splits sum.splits bool.splits)

section \<open>Limits\<close>

lemma exceeds_max: "exceeds (max a b) v \<longleftrightarrow> exceeds a v \<or> exceeds b v"
  by (auto simp: exceeds_def less_max_iff_disj split: option.split pyfloat.split)

lemma breach_None:
  "breach_values (n, cpu, mem) l = None \<longleftrightarrow> (processes l = PNone \<or> \<not> exceeds (of_int n) (processes l)) \<and>
    (cpu_seconds l = PNone \<or> \<not> exceeds cpu (cpu_seconds l)) \<and> (memory_bytes l = PNone \<or> \<not> exceeds (of_int mem) (memory_bytes l))"
  by (simp add: breach_values_def)

definition peaks :: "watch \<Rightarrow> int \<times> rat \<times> int" where
  "peaks w = (wa_processes w, wa_cpu w, wa_memory w)"

lemma of_int_max_rat: "(of_int (max a b) :: rat) = max (of_int a) (of_int b)"
  by (simp add: max_def)

lemma breach_peaks:
  assumes "breach_values (peaks w) l = None" "breach_values m l = None"
  shows "breach_values (peaks (note_peaks m w)) l = None"
proof -
  obtain n cpu mem where m: "m = (n, cpu, mem)" by (cases m) auto
  have "peaks (note_peaks m w) = (max (wa_processes w) n, max (wa_cpu w) cpu, max (wa_memory w) mem)"
    by (simp add: m peaks_def note_peaks_def)
  then show ?thesis using assms unfolding m peaks_def by (auto simp: breach_None exceeds_max of_int_max_rat)
qed

lemma peaks_next [simp]: "peaks (w\<lparr> wa_next := t \<rparr>) = peaks w"
  by (simp add: peaks_def)

lemma turn_peaks:
  assumes "turn g (Some l) started timeout t w = (x, w1)" "declared l" "breach_values (peaks w) l = None" "\<And>m. x \<noteq> Some (Exceeded m)"
  shows "breach_values (peaks w1) l = None"
proof (cases "w1 = w")
  case False
  then have w1: "w1 = note_peaks (tk_measured t) (w\<lparr> wa_next := tk_now t + measure_interval g \<rparr>)"
    and x: "x = map_option Exceeded (breach_values (tk_measured t) l)"
    using assms(1,2) by (auto simp: turn_def Let_def limits_declared_def split: if_splits sum.splits bool.splits)
  have "breach_values (tk_measured t) l = None" using x assms(4) by (cases "breach_values (tk_measured t) l") auto
  then show ?thesis unfolding w1 using assms(3) by (intro breach_peaks) simp_all
qed (use assms(3) in simp)

lemma turn_exceeded:
  "turn g limits started timeout t w = (Some (Exceeded m), w1) \<Longrightarrow> \<exists>l. limits = Some l \<and> breach_values (tk_measured t) l = Some m"
  by (auto simp: turn_def Let_def limits_declared_def split: if_splits sum.splits bool.splits option.splits)

lemma nothing_exceeds:
  assumes "ResourceRequest_validate l = Inr ()"
  shows "breach_values (0, 0, 0) l = None"
proof -
  have "\<not> exceeds 0 (PFloat f)" if "\<not> py_le_zero (PFloat f)" for f
    using that by (cases f) (auto simp: exceeds_def py_le_zero_def py_num_def)
  then show ?thesis using assms unfolding ResourceRequest_validate_Inr breach_None by (auto simp: exceeds_def py_num_def)
qed

section \<open>Properties\<close>

text \<open>C17: 
  The deadline is enforced whatever the process does. If every turn of the loop takes at least the polling interval and
  at most \<open>d\<close>, the loop ends after no more turns than polling intervals fit into the deadline, and a timeout is noticed
  less than \<open>d\<close> late.
\<close>

theorem deadline_enforced:
  assumes "0 < poll_interval g" "0 < timeout" "started \<le> tk_clock (ticks 0)" "tk_clock (ticks 0) < started + d"
    and "\<And>n. tk_clock (ticks n) + poll_interval g \<le> tk_clock (ticks (Suc n))" "\<And>n. tk_clock (ticks (Suc n)) < tk_clock (ticks n) + d"
  shows "\<exists>x w m. supervise g limits started timeout ticks 0 (first_watch started) = Some (x, w, m) \<and>
    of_nat m < timeout / poll_interval g + 1 \<and> (x = TimedOut \<longrightarrow> tk_clock (ticks m) < started + timeout + d)"
proof -
  let ?k = "nat \<lceil>timeout / poll_interval g\<rceil>"
  have pos: "0 < timeout / poll_interval g" using assms(1,2) by simp
  then have k: "timeout / poll_interval g \<le> of_nat ?k" "of_nat ?k < timeout / poll_interval g + 1"
    by (simp_all add: of_nat_nat less_imp_le) linarith+
  then have "timeout \<le> of_nat ?k * poll_interval g" using pos_divide_le_eq [OF assms(1)] by blast
  moreover have "tk_clock (ticks 0) + of_nat ?k * poll_interval g \<le> tk_clock (ticks ?k)" 
    using clock_advances [of "\<lambda>n. tk_clock (ticks n)" "poll_interval g"] assms(5) by simp
  ultimately have "tk_clock (ticks ?k) - started \<ge> timeout" using assms(3) by linarith
  then obtain x w m where m: "supervise g limits started timeout ticks 0 (first_watch started) = Some (x, w, m)" "m \<le> ?k"
    using supervise_stops [of 0 ?k g limits started timeout ticks "first_watch started"] turn_after_deadline by blast
  have "\<exists>w0. (m = 0 \<or> tk_clock (ticks (m - 1)) - started < timeout) \<and> turn g limits started timeout (ticks m) w0 = (Some x, w)"
    using supervise_invariant [OF m(1), of "\<lambda>k w. k = 0 \<or> tk_clock (ticks (k - 1)) - started < timeout"] turn_continues by force
  then have "tk_clock (ticks m) < started + timeout + d"
    using assms(2,4) assms(6) [of "m - 1"] by (cases m) auto
  moreover have "of_nat m < timeout / poll_interval g + 1" using m(2) k(2) by (meson le_less_trans of_nat_le_iff)
  ultimately show ?thesis using m(1) by blast
qed


text \<open>
  The raw log is complete: in every interleaving of the reader with the supervisor, each line that arrived is in the
  log, in order; the queue stays bounded, what observers saw and what waits for them is a part of the log in its order,
  and the lines they never get are exactly those counted as dropped.
\<close>

theorem raw_log_complete:
  "let t = fold (telemetry_step on_line) es no_telemetry
   in tl_log t = List.map_filter arrived es \<and> length (tl_queue t) \<le> TELEMETRY_QUEUE_SIZE \<and> subseq (tl_seen t @ tl_queue t) (tl_log t) \<and>
      length (tl_log t) = length (tl_seen t) + length (tl_queue t) + tl_dropped t"
proof (induction es rule: rev_induct)
  case Nil
  then show ?case by (simp add: no_telemetry_def List.map_filter_simps)
next
  case (snoc e es)
  let ?t = "fold (telemetry_step on_line) es no_telemetry"
  have log: "List.map_filter arrived (es @ [e]) = List.map_filter arrived es @ (case arrived e of None \<Rightarrow> [] | Some l \<Rightarrow> [l])"
    by (induction es) (auto simp: List.map_filter_simps split: option.split)
  show ?case
  proof (cases e)
    case (Arrives line)
    have sub: "subseq (tl_seen ?t @ tl_queue ?t) (tl_log ?t)" using snoc unfolding Let_def by blast
    have "subseq ((tl_seen ?t @ tl_queue ?t) @ [line]) (tl_log ?t @ [line])" by (rule list_emb_append_mono [OF sub]) simp
    moreover have "subseq ((tl_seen ?t @ tl_queue ?t) @ []) (tl_log ?t @ [line])" by (rule list_emb_append_mono [OF sub]) simp
    ultimately show ?thesis using snoc Arrives log by (auto simp: Let_def read_line_def)
  next
    case (Drains n)
    have "tl_seen (snd (drain on_line n ?t)) @ tl_queue (snd (drain on_line n ?t)) = tl_seen ?t @ tl_queue ?t"
      "tl_log (snd (drain on_line n ?t)) = tl_log ?t" "tl_dropped (snd (drain on_line n ?t)) = tl_dropped ?t"
      "length (tl_queue (snd (drain on_line n ?t))) \<le> length (tl_queue ?t)"
      by (auto simp: drain_def Let_def split: option.split)
    moreover from this have "length (tl_seen (snd (drain on_line n ?t))) + length (tl_queue (snd (drain on_line n ?t))) = length (tl_seen ?t) + length (tl_queue ?t)"
      by (metis length_append)
    ultimately show ?thesis using snoc Drains log by (auto simp: Let_def)
  qed
qed

text \<open>
  A defect: a limit of NaN seconds is accepted as a declared limit and never enforced.
\<close>

theorem nan_limit_never_enforced:
  "let l = ResourceRequest_default\<lparr> cpu_seconds := PFloat FNaN \<rparr>
   in ResourceRequest_validate l = Inr () \<and> declared l \<and> (\<forall>m. breach_values m l = None)"
  by (auto simp: Let_def ResourceRequest_validate_Inr ResourceRequest_default_def declared_def breach_values_def exceeds_def py_num_def py_le_zero_def)

section \<open>Scenarios\<close>

definition a_guardian :: ProcessGuardian where
  "a_guardian = \<lparr> poll_interval = DEFAULT_POLL_INTERVAL, terminate_grace = DEFAULT_TERMINATE_GRACE, measure_interval = DEFAULT_MEASURE_INTERVAL \<rparr>"

text \<open>A process that never ends and never prints, on a machine whose turns take a tenth of a second.\<close>

definition silent :: "nat \<Rightarrow> tick" where
  "silent n = \<lparr> tk_poll = None, tk_cancel = Inr False, tk_clock = of_nat n / 10, tk_now = of_nat n / 10, tk_measured = (2, of_nat n / 10, 4096) \<rparr>"

theorem deadline_enforced_witness:
  "\<exists>x w m. supervise a_guardian None 0 1 silent 0 (first_watch 0) = Some (x, w, m) \<and> of_nat m < (11 :: rat)"
  using deadline_enforced [of a_guardian 1 0 silent "1 / 5" None]
  by (auto simp: a_guardian_def DEFAULT_POLL_INTERVAL_def silent_def add_divide_distrib)

definition bounded :: ResourceRequest where
  "bounded = ResourceRequest_default\<lparr> processes := PInt 2 \<rparr>"

definition bounded_run :: "ProcessOutcome result option" where
  "bounded_run = guardian_run a_guardian True (Some bounded) 60 0 (Inr ()) (\<lambda>n. (silent n)\<lparr> tk_poll := if n < 3 then None else Some 0 \<rparr>) 0"


end
