(* ===== verification/Spec2Isabelle.thy ===== *)
theory Spec2Isabelle
  imports KernelProps Evaluator PlanProps Queries Consoles Proxy Guardian
begin

text \<open>
  A verification library for ChipEvolve, a platform that runs EDA tools as plugins, keeps what they produced as evidence
  and serves both to applications. Paths below are relative to \<open>src/\<close>.

  \<^bold>\<open>The parts and how they work together.\<close> A client submits a task over HTTP (\<open>gateway\<close>, \<open>core/client\<close>). The gateway finds
  out who is calling and what they own (\<open>core/identity\<close>), the runtime checks the task (\<open>contracts\<close>), asks the registry for
  an admitted plugin (\<open>core/registry\<close>), freezes the inputs and creates a run in one SQLite store (\<open>core/runtime\<close>). Workers
  claim runs, reserve capacity, start attempts, stage the inputs, run the plugin's adapter under a guardian, have the
  result judged by a protected evaluator (\<open>core/evaluator\<close>), register the evidence and settle the run; a lease that runs out
  is reclaimed by any worker. The evidence is read through an index (\<open>core/provenance\<close>). Applications (\<open>apps\<close>) work through
  the client only: the plan executor runs ordered steps, the DSE lab sweeps parameters, the query agent answers questions
  and submits confirmed analyses, the consoles show runs; the gateway forwards to them.

  \<^bold>\<open>Theories.\<close>
  \<^item> \<open>Prelude\<close>, \<open>PyValue\<close>, \<open>PyText\<close>, \<open>Json\<close>: exceptions as values, results, tables as lists of rows, the Python values that
    cross boundaries, text functions, and the JSON writer with its injectivity, from which digests of documents inherit
    theirs.
  \<^item> \<open>Version\<close>, \<open>Status\<close>, \<open>Resources\<close>, \<open>Inputs\<close>, \<open>Artifacts\<close>, \<open>Progress\<close>, \<open>Tasks\<close>, \<open>Evaluation\<close>: the modules of
    \<open>contracts/src/openroad_platform_contracts\<close>, each class with its \<open>validate\<close>, \<open>to_dict\<close> and \<open>from_dict\<close>.
  \<^item> \<open>Store\<close>, \<open>Capacity\<close>, \<open>Ledger\<close>: the lifecycle transactions of \<open>store.py\<close>, admission by capacity, and the abstract
    machine they implement, in which a run is a status with a number of attempts made.
  \<^item> \<open>Transitions\<close>, \<open>Kernel\<close>, \<open>KernelInv\<close>, \<open>Exclusive\<close>, \<open>Stranded\<close>, \<open>KernelProps\<close>: the workers' threads as an interleaving of
    transactions with crashes, the locales of invariants and simulations, and what holds in every reachable state:
    well-formed tables, capacity never oversold, one attempt at a time, attempts within the budget, refinement of the
    ledger. Four theorems show states the code can reach and should not.
  \<^item> \<open>Custody\<close>, \<open>Staging\<close>, \<open>Adapter\<close>, \<open>Attempt\<close>, \<open>Evaluator\<close>: the content-addressed object store and the evidence tables, the
    staging of inputs, the adapter protocol, one attempt from its request to its registered evidence, and the protected
    evaluation. They show that a recorded success was earned and stands on evidence the platform holds.
  \<^item> \<open>Processes\<close>, \<open>Guardian\<close>, \<open>Observer\<close>: the process tree (found, measured, stopped, fenced), the supervision loop with
    deadline, cancellation and limits, the reader thread with its bounded queue, and the events made of progress lines.
  \<^item> \<open>Registry\<close>: discovery, provenance and admission of plugins, and the plugin checker of \<open>validate.py\<close>.
  \<^item> \<open>Identity\<close>: accounts, sessions, owners of resources and allowances.
  \<^item> \<open>Provenance\<close>, \<open>Presence\<close>, \<open>Bundle\<close>: the read models of runs, metrics, artifacts, logs and the evidence graph; the
    presence of workers and the health of the queue; the export of a run's evidence.
  \<^item> \<open>Gateway\<close>, \<open>GatewayProps\<close>, \<open>Client\<close>: the router, authentication and ownership, every handler of the kernel's interface,
    and the client that calls them; upload and download are proved end to end over both.
  \<^item> \<open>Plans\<close>, \<open>PlanProps\<close>, \<open>Lab\<close>, \<open>Queries\<close>, \<open>Consoles\<close>: the applications over an arbitrary kernel, the plan executor with the
    end of every plan, the lab with the completeness of sweeps and comparisons, the query agent with reports and
    confirmed analyses, the consoles with the progress they show.
  \<^item> \<open>Proxy\<close>: the gateway's entry point, whose routes leave the kernel's alone.

  \<^bold>\<open>How the code is modelled.\<close> A SQLite table is the list of its rows; a transaction is one function from the store to an
  outcome and a store, refused transactions included. An exception is \<open>Inl\<close> of the class raised, without the interpolated
  parts of its message. Threads and processes are interleavings: the kernel's threads by a program counter each, the
  guardian's reader and supervisor and the lab's requests by sequences of steps. Numbers are exact: integers as Python's,
  times as microseconds or rational seconds; the one place where double precision decides, the capacity budget, has
  the rounding written out. Characters are bytes, so text is ASCII where the code decodes UTF-8.

  \<^bold>\<open>Parameters.\<close> What the code calls and does not define is an argument: SHA-256 and the password derivation (assumed free of
  collisions only where a theorem says so), the parser of JSON, the ZIP encoder, the host's files, the adapter process, the
  clock and fresh identifiers, and for the applications the kernel's answers. The operating system of \<open>Processes\<close> is the
  exception: its processes, their files under \<open>/proc\<close> and the effect of signals are part of the model.

  \<^bold>\<open>Loops.\<close> Recursion over lists is structural. The exploration of the process tree ends by a measure, the processes not yet
  seen. The supervision loop, the download and the executor's service loop may run for ever and are partial; that
  they return is proved: the first turn past the deadline ends the supervision, a download of intact bytes ends, and
  129 turns end every plan of at most 64 steps (a submission and a look per step, and one to finish).

  \<^bold>\<open>Not modelled.\<close> Sockets and HTTP framing, process entry points and argument parsing, schema migrations and connection
  handling of SQLite, the texts of messages, the adapters under \<open>plugins\<close> and \<open>examples\<close> (they run external tools), the
  scaffolding scripts under \<open>tools\<close>, and the repository's lint rules (\<open>guardrails\<close>), whose subject is Python's syntax trees.
\<close>

end
